(* ===== verification/Prelude.thy ===== *)
theory Prelude
  imports Main "HOL-Library.Word"
begin

text \<open>
  Shared base of the development: Rust's fixed-width integers and the checked, saturating and
  overflowing operations of its standard library, big-endian byte strings, the outcome type of a
  Rust computation (a value, a panic, or fuel that ran out) with its bind and its total-correctness
  predicate, and the generic list and word lemmas that the component theories use.
\<close>

unbundle bit_operations_syntax

section \<open>Machine integers\<close>

type_synonym u8 = "8 word"
type_synonym u16 = "16 word"
type_synonym u32 = "32 word"
type_synonym u64 = "64 word"
type_synonym usize = "64 word"
type_synonym i64 = "64 word"
type_synonym U256 = "256 word"
type_synonym B160 = "160 word"
type_synonym B256 = "256 word"
type_synonym bytes = "u8 list"

text \<open>
  \<open>usize\<close> is 64 bits wide. An \<open>i64\<close> is kept as its two's complement bit pattern and read
  with \<open>sint\<close>; the cast \<open>as u64\<close> is then the identity. The plain operators \<open>+\<close>, \<open>-\<close> and
  \<open>*\<close> of a release build wrap, as those of \<open>word\<close> do.
\<close>

named_theorems arith_defs \<open>definitions of the checked, saturating and overflowing operations\<close>

definition u64_MAX :: u64 where "u64_MAX = - 1"

definition isize_MAX :: usize where "isize_MAX = 0x7FFFFFFFFFFFFFFF"

definition checked_add :: "'a::len word \<Rightarrow> 'a word \<Rightarrow> 'a word option" where
  [arith_defs]: "checked_add a b = (if unat a + unat b < 2 ^ LENGTH('a) then Some (a + b) else None)"

definition checked_sub :: "'a::len word \<Rightarrow> 'a word \<Rightarrow> 'a word option" where
  [arith_defs]: "checked_sub a b = (if b \<le> a then Some (a - b) else None)"

definition checked_mul :: "'a::len word \<Rightarrow> 'a word \<Rightarrow> 'a word option" where
  [arith_defs]: "checked_mul a b = (if unat a * unat b < 2 ^ LENGTH('a) then Some (a * b) else None)"

definition saturating_add :: "'a::len word \<Rightarrow> 'a word \<Rightarrow> 'a word" where
  [arith_defs]: "saturating_add a b = (if unat a + unat b < 2 ^ LENGTH('a) then a + b else - 1)"

definition saturating_sub :: "'a::len word \<Rightarrow> 'a word \<Rightarrow> 'a word" where
  [arith_defs]: "saturating_sub a b = (if b \<le> a then a - b else 0)"

definition saturating_mul :: "'a::len word \<Rightarrow> 'a word \<Rightarrow> 'a word" where
  [arith_defs]: "saturating_mul a b = (if unat a * unat b < 2 ^ LENGTH('a) then a * b else - 1)"

definition overflowing_add :: "'a::len word \<Rightarrow> 'a word \<Rightarrow> 'a word \<times> bool" where
  [arith_defs]: "overflowing_add a b = (a + b, 2 ^ LENGTH('a) \<le> unat a + unat b)"

lemma unat_minus_one [simp]: "unat (- 1 :: 'a::len word) = 2 ^ LENGTH('a) - 1"
  by (simp add: unsigned_minus_1_eq_mask mask_eq_exp_minus_1)

lemma unat_u64_MAX [simp]: "unat u64_MAX = 2 ^ 64 - 1"
  by (simp add: u64_MAX_def)

lemma unat_isize_MAX [simp]: "unat isize_MAX = 2 ^ 63 - 1"
  by (simp add: isize_MAX_def)

lemma unat_add_nowrap:
  "unat (a :: 'a::len word) + unat b < 2 ^ LENGTH('a) \<Longrightarrow> unat (a + b) = unat a + unat b"
  by (simp add: unat_word_ariths)

lemma unat_mult_nowrap:
  "unat (a :: 'a::len word) * unat b < 2 ^ LENGTH('a) \<Longrightarrow> unat (a * b) = unat a * unat b"
  by (simp add: unat_word_ariths)

lemma unat_sub_nowrap: "(b :: 'a::len word) \<le> a \<Longrightarrow> unat (a - b) = unat a - unat b"
  by (simp add: unat_sub)

lemma checked_add_Some_iff:
  "checked_add (a :: 'a::len word) b = Some c \<longleftrightarrow>
     unat a + unat b < 2 ^ LENGTH('a) \<and> unat c = unat a + unat b"
proof (cases "unat a + unat b < 2 ^ LENGTH('a)")
  case True
  have "a + b = c \<longleftrightarrow> unat c = unat a + unat b"
    using True unat_add_nowrap [OF True] by (metis unsigned_word_eqI)
  with True show ?thesis by (simp add: checked_add_def)
next
  case False
  then show ?thesis by (simp add: checked_add_def)
qed

lemma checked_mul_Some_iff:
  "checked_mul (a :: 'a::len word) b = Some c \<longleftrightarrow>
     unat a * unat b < 2 ^ LENGTH('a) \<and> unat c = unat a * unat b"
proof (cases "unat a * unat b < 2 ^ LENGTH('a)")
  case True
  have "a * b = c \<longleftrightarrow> unat c = unat a * unat b"
    using True unat_mult_nowrap [OF True] by (metis unsigned_word_eqI)
  with True show ?thesis by (simp add: checked_mul_def)
next
  case False
  then show ?thesis by (simp add: checked_mul_def)
qed

lemma min_pow2: "min n (2 ^ k - 1) = (if n < 2 ^ k then n else 2 ^ k - (1::nat))"
  by auto

lemma unat_saturating_add [simp]:
  "unat (saturating_add (a :: 'a::len word) b) = min (unat a + unat b) (2 ^ LENGTH('a) - 1)"
  by (auto simp: saturating_add_def unat_add_nowrap min_pow2)

lemma unat_saturating_mul [simp]:
  "unat (saturating_mul (a :: 'a::len word) b) = min (unat a * unat b) (2 ^ LENGTH('a) - 1)"
  by (auto simp: saturating_mul_def unat_mult_nowrap min_pow2)

lemma unat_saturating_sub [simp]:
  "unat (saturating_sub (a :: 'a::len word) b) = unat a - unat b"
  by (auto simp: saturating_sub_def unat_sub_nowrap word_le_nat_alt)

section \<open>Outcomes of a computation\<close>

text \<open>
  \<open>Val\<close> is a normal return, \<open>Panic\<close> a Rust panic or an unsafe access outside its bounds, and
  \<open>Timeout\<close> a model run whose fuel was too small. \<open>ok Q c\<close> is total correctness: the computation
  returns, and its result satisfies \<open>Q\<close>.
\<close>

datatype 'a comp = Val 'a | Panic | Timeout

primrec bind_comp :: "'a comp \<Rightarrow> ('a \<Rightarrow> 'b comp) \<Rightarrow> 'b comp" where
  "bind_comp (Val x) f = f x"
| "bind_comp Panic f = Panic"
| "bind_comp Timeout f = Timeout"

primrec ok :: "('a \<Rightarrow> bool) \<Rightarrow> 'a comp \<Rightarrow> bool" where
  "ok Q (Val x) = Q x"
| "ok Q Panic = False"
| "ok Q Timeout = False"

definition unwrap :: "'a option \<Rightarrow> 'a comp" where
  "unwrap x = (case x of None \<Rightarrow> Panic | Some y \<Rightarrow> Val y)"

lemma unwrap_simps [simp]: "unwrap None = Panic" "unwrap (Some y) = Val y"
  by (simp_all add: unwrap_def)

lemma ok_bind: "ok (\<lambda>x. ok Q (f x)) c \<Longrightarrow> ok Q (bind_comp c f)"
  by (cases c) auto

lemma ok_bind_iff [simp]: "ok Q (bind_comp c f) = ok (\<lambda>x. ok Q (f x)) c"
  by (cases c) auto

lemma ok_mono: "ok P c \<Longrightarrow> (\<And>x. P x \<Longrightarrow> Q x) \<Longrightarrow> ok Q c"
  by (cases c) auto

lemma ok_iff: "ok Q c \<longleftrightarrow> (\<exists>x. c = Val x \<and> Q x)"
  by (cases c) auto

lemma ok_conj: "ok P c \<Longrightarrow> ok Q c \<Longrightarrow> ok (\<lambda>x. P x \<and> Q x) c"
  by (cases c) auto

lemma ok_if: "(b \<Longrightarrow> ok Q x) \<Longrightarrow> (\<not> b \<Longrightarrow> ok Q y) \<Longrightarrow> ok Q (if b then x else y)"
  by simp

lemma bind_comp_assoc [simp]:
  "bind_comp (bind_comp c f) g = bind_comp c (\<lambda>x. bind_comp (f x) g)"
  by (cases c) auto

lemma bind_comp_Val_iff: "bind_comp c f = Val y \<longleftrightarrow> (\<exists>x. c = Val x \<and> f x = Val y)"
  by (cases c) auto

section \<open>Slices and byte strings\<close>

text \<open>
  \<open>slice off n xs\<close> is \<open>&xs[off..off + n]\<close> and \<open>splice off ys xs\<close> overwrites \<open>xs\<close> from \<open>off\<close>
  on; both are used only where the code's bounds check passed.
\<close>

definition slice :: "nat \<Rightarrow> nat \<Rightarrow> 'a list \<Rightarrow> 'a list" where
  "slice off n xs = take n (drop off xs)"

definition splice :: "nat \<Rightarrow> 'a list \<Rightarrow> 'a list \<Rightarrow> 'a list" where
  "splice off ys xs = take off xs @ ys @ drop (off + length ys) xs"

lemma length_slice [simp]: "off + n \<le> length xs \<Longrightarrow> length (slice off n xs) = n"
  by (simp add: slice_def)

lemma length_splice [simp]: "off + length ys \<le> length xs \<Longrightarrow> length (splice off ys xs) = length xs"
  by (simp add: splice_def)

lemma nth_splice:
  assumes "off + length ys \<le> length xs"
  shows "splice off ys xs ! i =
    (if off \<le> i \<and> i < off + length ys then ys ! (i - off) else xs ! i)"
  using assms by (auto simp: splice_def nth_append)

lemma nth_slice [simp]: "i < n \<Longrightarrow> off + n \<le> length xs \<Longrightarrow> slice off n xs ! i = xs ! (off + i)"
  by (simp add: slice_def)

lemma slice_splice_same [simp]:
  "off + length ys \<le> length xs \<Longrightarrow> slice off (length ys) (splice off ys xs) = ys"
  by (simp add: slice_def splice_def)

lemma slice_splice_other:
  assumes "off + length ys \<le> length xs" "off' + n \<le> length xs"
    "off' + n \<le> off \<or> off + length ys \<le> off'"
  shows "slice off' n (splice off ys xs) = slice off' n xs"
  by (rule nth_equalityI) (use assms in \<open>auto simp: nth_splice\<close>)

definition from_be_bytes :: "bytes \<Rightarrow> 'a::len word" where
  "from_be_bytes bs = foldl (\<lambda>acc b. push_bit 8 acc OR ucast b) 0 bs"

definition to_be_bytes :: "nat \<Rightarrow> 'a::len word \<Rightarrow> bytes" where
  "to_be_bytes n x = map (\<lambda>i. ucast (drop_bit (8 * (n - 1 - i)) x)) [0..<n]"

definition from_le_bytes :: "bytes \<Rightarrow> 'a::len word" where
  "from_le_bytes bs = from_be_bytes (rev bs)"

definition to_le_bytes :: "nat \<Rightarrow> 'a::len word \<Rightarrow> bytes" where
  "to_le_bytes n x = rev (to_be_bytes n x)"

definition limb :: "nat \<Rightarrow> U256 \<Rightarrow> u64" where
  "limb i x = ucast (drop_bit (64 * i) x)"

lemma length_to_be_bytes [simp]: "length (to_be_bytes n x) = n"
  by (simp add: to_be_bytes_def)

lemma from_be_bytes_Nil [simp]: "from_be_bytes [] = 0"
  by (simp add: from_be_bytes_def)

lemma from_be_bytes_snoc:
  "from_be_bytes (bs @ [b]) = push_bit 8 (from_be_bytes bs) OR ucast b"
  by (simp add: from_be_bytes_def)

lemma bit_from_be_bytes:
  "bit (from_be_bytes bs :: 'a::len word) i \<longleftrightarrow>
     i < LENGTH('a) \<and> i div 8 < length bs \<and> bit (bs ! (length bs - 1 - i div 8)) (i mod 8)"
proof (induction bs arbitrary: i rule: rev_induct)
  case Nil
  then show ?case by simp
next
  case (snoc b bs)
  show ?case
  proof (cases "i < 8")
    case True
    then show ?thesis
      by (simp add: from_be_bytes_snoc bit_or_iff bit_push_bit_iff bit_unsigned_iff nth_append)
  next
    case False
    then obtain m where m: "i = 8 + m" using le_Suc_ex not_less by blast
    have i: "i div 8 = Suc (m div 8)" "i mod 8 = m mod 8" by (simp_all add: m)
    have "\<not> bit b i" using False by (auto dest: bit_imp_le_length)
    then have "bit (from_be_bytes (bs @ [b]) :: 'a word) i \<longleftrightarrow>
        i < LENGTH('a) \<and> bit (from_be_bytes bs :: 'a word) m"
      by (auto simp: from_be_bytes_snoc bit_or_iff bit_push_bit_iff bit_unsigned_iff m)
    also have "\<dots> \<longleftrightarrow> i < LENGTH('a) \<and> m div 8 < length bs \<and>
        bit (bs ! (length bs - 1 - m div 8)) (m mod 8)"
      by (auto simp: snoc.IH m)
    finally show ?thesis by (auto simp: i nth_append)
  qed
qed

lemma bit_to_be_bytes:
  "k < n \<Longrightarrow> bit (to_be_bytes n (x :: 'a::len word) ! k) j \<longleftrightarrow> j < 8 \<and> bit x (8 * (n - 1 - k) + j)"
  by (auto simp: to_be_bytes_def bit_unsigned_iff bit_drop_bit_eq dest: bit_imp_le_length)

lemma from_to_be_bytes:
  assumes "LENGTH('a) = 8 * n"
  shows "from_be_bytes (to_be_bytes n x) = (x :: 'a::len word)"
proof (rule bit_word_eqI)
  fix i assume i: "i < LENGTH('a)"
  then have k: "i div 8 < n" using assms by simp
  have "8 * (n - 1 - (n - 1 - i div 8)) + i mod 8 = i" using k by simp
  then show "bit (from_be_bytes (to_be_bytes n x) :: 'a word) i = bit x i"
    using i k by (simp add: bit_from_be_bytes bit_to_be_bytes)
qed

lemma to_from_be_bytes:
  assumes "LENGTH('a) = 8 * n" "length bs = n"
  shows "to_be_bytes n (from_be_bytes bs :: 'a::len word) = bs"
proof (rule nth_equalityI)
  show "length (to_be_bytes n (from_be_bytes bs :: 'a word)) = length bs" using assms by simp
next
  fix k assume "k < length (to_be_bytes n (from_be_bytes bs :: 'a word))"
  then have k: "k < n" by simp
  show "to_be_bytes n (from_be_bytes bs :: 'a word) ! k = bs ! k"
  proof (rule bit_word_eqI)
    fix j assume j: "j < LENGTH(8)"
    then have "8 * (n - 1 - k) + j < LENGTH('a)" using k assms(1) by simp
    moreover have "(8 * (n - 1 - k) + j) div 8 = n - 1 - k" "(8 * (n - 1 - k) + j) mod 8 = j"
      using j by simp_all
    ultimately show "bit (to_be_bytes n (from_be_bytes bs :: 'a word) ! k) j = bit (bs ! k) j"
      using j k assms(2) by (simp add: bit_from_be_bytes bit_to_be_bytes)
  qed
qed

end
