(* ===== verification/Specification.thy ===== *)
theory Specification
  imports Prelude
begin

text \<open>
  Hard forks (\<open>crates/primitives/src/specification.rs\<close>). \<open>SpecId\<close> is the enumeration of the
  source, \<open>spec_num\<close> its discriminants, and \<open>enabled spec fork\<close> is \<open>SPEC::enabled(FORK)\<close>: the
  forks are linearly ordered by their discriminants and a rule of a fork applies from it on.
\<close>

datatype SpecId =
    FRONTIER | FRONTIER_THAWING | HOMESTEAD | DAO_FORK | TANGERINE | SPURIOUS_DRAGON | BYZANTIUM
  | CONSTANTINOPLE | PETERSBURG | ISTANBUL | MUIR_GLACIER | BERLIN | LONDON | ARROW_GLACIER
  | GRAY_GLACIER | MERGE | SHANGHAI | CANCUN | LATEST

fun spec_num :: "SpecId \<Rightarrow> nat" where
  "spec_num FRONTIER = 0"
| "spec_num FRONTIER_THAWING = 1"
| "spec_num HOMESTEAD = 2"
| "spec_num DAO_FORK = 3"
| "spec_num TANGERINE = 4"
| "spec_num SPURIOUS_DRAGON = 5"
| "spec_num BYZANTIUM = 6"
| "spec_num CONSTANTINOPLE = 7"
| "spec_num PETERSBURG = 8"
| "spec_num ISTANBUL = 9"
| "spec_num MUIR_GLACIER = 10"
| "spec_num BERLIN = 11"
| "spec_num LONDON = 12"
| "spec_num ARROW_GLACIER = 13"
| "spec_num GRAY_GLACIER = 14"
| "spec_num MERGE = 15"
| "spec_num SHANGHAI = 16"
| "spec_num CANCUN = 17"
| "spec_num LATEST = 18"

definition all_specs :: "SpecId list" where
  "all_specs = [FRONTIER, FRONTIER_THAWING, HOMESTEAD, DAO_FORK, TANGERINE, SPURIOUS_DRAGON,
     BYZANTIUM, CONSTANTINOPLE, PETERSBURG, ISTANBUL, MUIR_GLACIER, BERLIN, LONDON, ARROW_GLACIER,
     GRAY_GLACIER, MERGE, SHANGHAI, CANCUN, LATEST]"

definition try_from_u8 :: "u8 \<Rightarrow> SpecId option" where
  "try_from_u8 n = (if unat n < length all_specs then Some (all_specs ! unat n) else None)"

definition enabled :: "SpecId \<Rightarrow> SpecId \<Rightarrow> bool" where
  "enabled our other \<longleftrightarrow> spec_num other \<le> spec_num our"

definition spec_from_str :: "string \<Rightarrow> SpecId" where
  "spec_from_str name =
     (if name = ''Frontier'' then FRONTIER
      else if name = ''Homestead'' then HOMESTEAD
      else if name = ''Tangerine'' then TANGERINE
      else if name = ''Spurious'' then SPURIOUS_DRAGON
      else if name = ''Byzantium'' then BYZANTIUM
      else if name = ''Constantinople'' then CONSTANTINOPLE
      else if name = ''Petersburg'' then PETERSBURG
      else if name = ''Istanbul'' then ISTANBUL
      else if name = ''MuirGlacier'' then MUIR_GLACIER
      else if name = ''Berlin'' then BERLIN
      else if name = ''London'' then LONDON
      else if name = ''Merge'' then MERGE
      else if name = ''Shanghai'' then SHANGHAI
      else LATEST)"

text \<open>The discriminants are the positions in the enumeration, so the order they give is linear.\<close>

lemma all_specs_spec_num: "spec_num s < length all_specs \<and> all_specs ! spec_num s = s"
  by (cases s) (simp_all add: all_specs_def)

lemma spec_num_inject: "spec_num a = spec_num b \<longleftrightarrow> a = b"
  using all_specs_spec_num [of a] all_specs_spec_num [of b] by metis

instantiation SpecId :: linorder
begin

definition less_eq_SpecId :: "SpecId \<Rightarrow> SpecId \<Rightarrow> bool" where
  "less_eq_SpecId a b \<longleftrightarrow> spec_num a \<le> spec_num b"

definition less_SpecId :: "SpecId \<Rightarrow> SpecId \<Rightarrow> bool" where
  "less_SpecId a b \<longleftrightarrow> spec_num a < spec_num b"

instance
  by standard (auto simp: less_eq_SpecId_def less_SpecId_def spec_num_inject)

end

lemma enabled_iff_le: "enabled our other \<longleftrightarrow> other \<le> our"
  by (simp add: enabled_def less_eq_SpecId_def)

lemma enabled_trans: "enabled s a \<Longrightarrow> enabled a b \<Longrightarrow> enabled s b"
  by (simp add: enabled_def)

lemma not_enabled: "\<not> enabled s a \<Longrightarrow> enabled a s"
  by (simp add: enabled_def)

text \<open>The fork order as the code uses it: a later fork implies every earlier one.\<close>

lemma enabled_chain:
  "enabled s SHANGHAI \<Longrightarrow> enabled s MERGE"
  "enabled s MERGE \<Longrightarrow> enabled s LONDON"
  "enabled s LONDON \<Longrightarrow> enabled s BERLIN"
  "enabled s BERLIN \<Longrightarrow> enabled s ISTANBUL"
  "enabled s ISTANBUL \<Longrightarrow> enabled s CONSTANTINOPLE"
  "enabled s ISTANBUL \<Longrightarrow> enabled s PETERSBURG"
  "enabled s CONSTANTINOPLE \<Longrightarrow> enabled s BYZANTIUM"
  "enabled s BYZANTIUM \<Longrightarrow> enabled s SPURIOUS_DRAGON"
  "enabled s SPURIOUS_DRAGON \<Longrightarrow> enabled s TANGERINE"
  "enabled s TANGERINE \<Longrightarrow> enabled s HOMESTEAD"
  by (simp_all add: enabled_def)

lemma try_from_u8_spec_num: "try_from_u8 (word_of_nat (spec_num s)) = Some s"
  by (cases s) (simp_all add: try_from_u8_def all_specs_def)

end
