(* ===== verification/Instruction_Result.thy ===== *)
theory Instruction_Result
  imports Prelude
begin

text \<open>
  Results of an instruction and of a transaction
  (\<open>crates/interpreter/src/instruction_result.rs\<close>, \<open>crates/primitives/src/result.rs\<close>): the control
  flag \<open>InstructionResult\<close> with the patterns \<open>return_ok!\<close> and \<open>return_revert!\<close>, the public
  \<open>Eval\<close> and \<open>Halt\<close> reasons, and the conversion \<open>SuccessOrHalt::from\<close>.
\<close>

datatype InstructionResult =
    Continue | Stop | Return | SelfDestruct
  | Revert | CallTooDeep | OutOfFund
  | OutOfGas | MemoryOOG | MemoryLimitOOG | PrecompileOOG | InvalidOperandOOG | OpcodeNotFound
  | CallNotAllowedInsideStatic | StateChangeDuringStaticCall | InvalidFEOpcode | InvalidJump
  | NotActivated | StackUnderflow | StackOverflow | OutOfOffset | CreateCollision
  | OverflowPayment | PrecompileError | NonceOverflow | CreateContractSizeLimit
  | CreateContractStartingWithEF | CreateInitcodeSizeLimit | FatalExternalError

datatype Eval = Eval_Stop | Eval_Return | Eval_SelfDestruct

datatype OutOfGasError = BasicOutOfGas | MemoryLimit | Memory | Precompile | InvalidOperand

datatype Halt =
    Halt_OutOfGas OutOfGasError | Halt_OpcodeNotFound | Halt_InvalidFEOpcode | Halt_InvalidJump
  | Halt_NotActivated | Halt_StackUnderflow | Halt_StackOverflow | Halt_OutOfOffset
  | Halt_CreateCollision | Halt_PrecompileError | Halt_NonceOverflow
  | Halt_CreateContractSizeLimit | Halt_CreateContractStartingWithEF
  | Halt_CreateInitcodeSizeLimit | Halt_OverflowPayment | Halt_StateChangeDuringStaticCall
  | Halt_CallNotAllowedInsideStatic | Halt_OutOfFund | Halt_CallTooDeep

datatype SuccessOrHalt =
    SH_Success Eval | SH_Revert | SH_Halt Halt | SH_FatalExternalError | SH_InternalContinue

fun SuccessOrHalt_from :: "InstructionResult \<Rightarrow> SuccessOrHalt" where
  "SuccessOrHalt_from Continue = SH_InternalContinue"
| "SuccessOrHalt_from Stop = SH_Success Eval_Stop"
| "SuccessOrHalt_from Return = SH_Success Eval_Return"
| "SuccessOrHalt_from SelfDestruct = SH_Success Eval_SelfDestruct"
| "SuccessOrHalt_from Revert = SH_Revert"
| "SuccessOrHalt_from CallTooDeep = SH_Halt Halt_CallTooDeep"
| "SuccessOrHalt_from OutOfFund = SH_Halt Halt_OutOfFund"
| "SuccessOrHalt_from OutOfGas = SH_Halt (Halt_OutOfGas BasicOutOfGas)"
| "SuccessOrHalt_from MemoryLimitOOG = SH_Halt (Halt_OutOfGas MemoryLimit)"
| "SuccessOrHalt_from MemoryOOG = SH_Halt (Halt_OutOfGas Memory)"
| "SuccessOrHalt_from PrecompileOOG = SH_Halt (Halt_OutOfGas Precompile)"
| "SuccessOrHalt_from InvalidOperandOOG = SH_Halt (Halt_OutOfGas InvalidOperand)"
| "SuccessOrHalt_from OpcodeNotFound = SH_Halt Halt_OpcodeNotFound"
| "SuccessOrHalt_from CallNotAllowedInsideStatic = SH_Halt Halt_CallNotAllowedInsideStatic"
| "SuccessOrHalt_from StateChangeDuringStaticCall = SH_Halt Halt_StateChangeDuringStaticCall"
| "SuccessOrHalt_from InvalidFEOpcode = SH_Halt Halt_InvalidFEOpcode"
| "SuccessOrHalt_from InvalidJump = SH_Halt Halt_InvalidJump"
| "SuccessOrHalt_from NotActivated = SH_Halt Halt_NotActivated"
| "SuccessOrHalt_from StackUnderflow = SH_Halt Halt_StackUnderflow"
| "SuccessOrHalt_from StackOverflow = SH_Halt Halt_StackOverflow"
| "SuccessOrHalt_from OutOfOffset = SH_Halt Halt_OutOfOffset"
| "SuccessOrHalt_from CreateCollision = SH_Halt Halt_CreateCollision"
| "SuccessOrHalt_from OverflowPayment = SH_Halt Halt_OverflowPayment"
| "SuccessOrHalt_from PrecompileError = SH_Halt Halt_PrecompileError"
| "SuccessOrHalt_from NonceOverflow = SH_Halt Halt_NonceOverflow"
| "SuccessOrHalt_from CreateContractSizeLimit = SH_Halt Halt_CreateContractSizeLimit"
| "SuccessOrHalt_from CreateContractStartingWithEF = SH_Halt Halt_CreateContractSizeLimit"
| "SuccessOrHalt_from CreateInitcodeSizeLimit = SH_Halt Halt_CreateInitcodeSizeLimit"
| "SuccessOrHalt_from FatalExternalError = SH_FatalExternalError"

fun SH_is_success :: "SuccessOrHalt \<Rightarrow> bool" where
  "SH_is_success (SH_Success _) = True"
| "SH_is_success _ = False"

fun SH_to_success :: "SuccessOrHalt \<Rightarrow> Eval option" where
  "SH_to_success (SH_Success eval) = Some eval"
| "SH_to_success _ = None"

fun SH_is_revert :: "SuccessOrHalt \<Rightarrow> bool" where
  "SH_is_revert SH_Revert = True"
| "SH_is_revert _ = False"

fun SH_is_halt :: "SuccessOrHalt \<Rightarrow> bool" where
  "SH_is_halt (SH_Halt _) = True"
| "SH_is_halt _ = False"

fun SH_to_halt :: "SuccessOrHalt \<Rightarrow> Halt option" where
  "SH_to_halt (SH_Halt halt) = Some halt"
| "SH_to_halt _ = None"

definition return_ok :: "InstructionResult \<Rightarrow> bool" where
  "return_ok r \<longleftrightarrow> r \<in> {Continue, Stop, Return, SelfDestruct}"

definition return_revert :: "InstructionResult \<Rightarrow> bool" where
  "return_revert r \<longleftrightarrow> r \<in> {Revert, CallTooDeep, OutOfFund}"

lemma return_ok_revert_disjoint: "\<not> (return_ok r \<and> return_revert r)"
  by (cases r) (simp_all add: return_ok_def return_revert_def)

lemma return_ok_simps [simp]:
  "return_ok Continue" "return_ok Stop" "return_ok Return" "return_ok SelfDestruct"
  "\<not> return_ok FatalExternalError" "\<not> return_revert FatalExternalError"
  by (simp_all add: return_ok_def return_revert_def)

text \<open>
  The public result of a frame agrees with the pattern its caller matches on: the conversion
  gives \<open>Success\<close> exactly for the finished \<open>return_ok!\<close> codes, and everything else but
  \<open>Continue\<close>, \<open>Revert\<close> and the database error is a \<open>Halt\<close>.
\<close>
lemma SuccessOrHalt_from_classifies:
  "SH_is_success (SuccessOrHalt_from r) = (return_ok r \<and> r \<noteq> Continue) \<and>
   SH_is_revert (SuccessOrHalt_from r) = (r = Revert) \<and>
   SH_is_halt (SuccessOrHalt_from r) =
     (\<not> return_ok r \<and> r \<noteq> Revert \<and> r \<noteq> FatalExternalError) \<and>
   (SH_to_success (SuccessOrHalt_from r) \<noteq> None) = SH_is_success (SuccessOrHalt_from r) \<and>
   (SH_to_halt (SuccessOrHalt_from r) \<noteq> None) = SH_is_halt (SuccessOrHalt_from r)"
  by (cases r) (simp_all add: return_ok_def)

text \<open>
  The reason reported for a created contract that begins with \<open>0xEF\<close> is the code-size reason,
  although \<open>Halt\<close> has a reason of its own for it, which no result is converted to.
\<close>
lemma starting_with_EF_reported_as_size_limit:
  "SuccessOrHalt_from CreateContractStartingWithEF = SH_Halt Halt_CreateContractSizeLimit"
  "SuccessOrHalt_from r \<noteq> SH_Halt Halt_CreateContractStartingWithEF"
  by (simp, cases r) simp_all

end
