(* ===== verification/Gas_Model.thy ===== *)
theory Gas_Model
  imports Specification
begin

text \<open>
  Gas accounting (\<open>crates/interpreter/src/gas.rs\<close>, \<open>gas/constants.rs\<close>, \<open>gas/calc.rs\<close>): the
  \<open>Gas\<close> counter with its operations and invariant, the price constants, and the price formulas of
  every fork. The lemmas give the exact effect of each counter operation, the closed form of the
  prices, the floor-logarithm that prices \<open>EXP\<close>, and the EIP-2200 refund balance.
\<close>

section \<open>Constants\<close>

abbreviation (input) gas_ZERO :: u64 where "gas_ZERO \<equiv> 0"
abbreviation (input) gas_BASE :: u64 where "gas_BASE \<equiv> 2"
abbreviation (input) gas_VERYLOW :: u64 where "gas_VERYLOW \<equiv> 3"
abbreviation (input) gas_LOW :: u64 where "gas_LOW \<equiv> 5"
abbreviation (input) gas_MID :: u64 where "gas_MID \<equiv> 8"
abbreviation (input) gas_HIGH :: u64 where "gas_HIGH \<equiv> 10"
abbreviation (input) gas_JUMPDEST :: u64 where "gas_JUMPDEST \<equiv> 1"
abbreviation (input) gas_SELFDESTRUCT :: i64 where "gas_SELFDESTRUCT \<equiv> 24000"
abbreviation (input) gas_CREATE :: u64 where "gas_CREATE \<equiv> 32000"
abbreviation (input) gas_CALLVALUE :: u64 where "gas_CALLVALUE \<equiv> 9000"
abbreviation (input) gas_NEWACCOUNT :: u64 where "gas_NEWACCOUNT \<equiv> 25000"
abbreviation (input) gas_EXP :: u64 where "gas_EXP \<equiv> 10"
abbreviation (input) gas_MEMORY :: u64 where "gas_MEMORY \<equiv> 3"
abbreviation (input) gas_LOG :: u64 where "gas_LOG \<equiv> 375"
abbreviation (input) gas_LOGDATA :: u64 where "gas_LOGDATA \<equiv> 8"
abbreviation (input) gas_LOGTOPIC :: u64 where "gas_LOGTOPIC \<equiv> 375"
abbreviation (input) gas_SHA3 :: u64 where "gas_SHA3 \<equiv> 30"
abbreviation (input) gas_SHA3WORD :: u64 where "gas_SHA3WORD \<equiv> 6"
abbreviation (input) gas_COPY :: u64 where "gas_COPY \<equiv> 3"
abbreviation (input) gas_BLOCKHASH :: u64 where "gas_BLOCKHASH \<equiv> 20"
abbreviation (input) gas_CODEDEPOSIT :: u64 where "gas_CODEDEPOSIT \<equiv> 200"
abbreviation (input) gas_SSTORE_SET :: u64 where "gas_SSTORE_SET \<equiv> 20000"
abbreviation (input) gas_SSTORE_RESET :: u64 where "gas_SSTORE_RESET \<equiv> 5000"
abbreviation (input) gas_REFUND_SSTORE_CLEARS :: i64 where "gas_REFUND_SSTORE_CLEARS \<equiv> 15000"
abbreviation (input) gas_TRANSACTION_ZERO_DATA :: u64 where "gas_TRANSACTION_ZERO_DATA \<equiv> 4"
abbreviation (input) gas_TRANSACTION_NON_ZERO_DATA_INIT :: u64 where "gas_TRANSACTION_NON_ZERO_DATA_INIT \<equiv> 16"
abbreviation (input) gas_TRANSACTION_NON_ZERO_DATA_FRONTIER :: u64 where "gas_TRANSACTION_NON_ZERO_DATA_FRONTIER \<equiv> 68"
abbreviation (input) gas_ACCESS_LIST_ADDRESS :: u64 where "gas_ACCESS_LIST_ADDRESS \<equiv> 2400"
abbreviation (input) gas_ACCESS_LIST_STORAGE_KEY :: u64 where "gas_ACCESS_LIST_STORAGE_KEY \<equiv> 1900"
abbreviation (input) gas_COLD_SLOAD_COST :: u64 where "gas_COLD_SLOAD_COST \<equiv> 2100"
abbreviation (input) gas_COLD_ACCOUNT_ACCESS_COST :: u64 where "gas_COLD_ACCOUNT_ACCESS_COST \<equiv> 2600"
abbreviation (input) gas_WARM_STORAGE_READ_COST :: u64 where "gas_WARM_STORAGE_READ_COST \<equiv> 100"
abbreviation (input) gas_INITCODE_WORD_COST :: u64 where "gas_INITCODE_WORD_COST \<equiv> 2"
abbreviation (input) gas_CALL_STIPEND :: u64 where "gas_CALL_STIPEND \<equiv> 2300"

section \<open>The gas counter\<close>

record Gas =
  g_limit :: u64
  g_all_used_gas :: u64
  g_used :: u64
  g_memory :: u64
  g_refunded :: i64

definition Gas_new :: "u64 \<Rightarrow> Gas" where
  "Gas_new limit = \<lparr>g_limit = limit, g_all_used_gas = 0, g_used = 0, g_memory = 0, g_refunded = 0\<rparr>"

definition spend :: "Gas \<Rightarrow> u64" where
  "spend g = g_all_used_gas g"

definition remaining :: "Gas \<Rightarrow> u64" where
  "remaining g = g_limit g - g_all_used_gas g"

definition erase_cost :: "Gas \<Rightarrow> u64 \<Rightarrow> Gas" where
  "erase_cost g returned =
     g\<lparr>g_used := g_used g - returned, g_all_used_gas := g_all_used_gas g - returned\<rparr>"

definition record_refund :: "Gas \<Rightarrow> i64 \<Rightarrow> Gas" where
  "record_refund g refund = g\<lparr>g_refunded := g_refunded g + refund\<rparr>"

definition record_cost :: "Gas \<Rightarrow> u64 \<Rightarrow> bool \<times> Gas" where
  "record_cost g cost =
     (let (all_used_gas, overflow) = overflowing_add (g_all_used_gas g) cost in
      if overflow \<or> g_limit g < all_used_gas then (False, g)
      else (True, g\<lparr>g_used := g_used g + cost, g_all_used_gas := all_used_gas\<rparr>))"

definition record_memory :: "Gas \<Rightarrow> u64 \<Rightarrow> bool \<times> Gas" where
  "record_memory g gas_memory =
     (if g_memory g < gas_memory then
        (let (all_used_gas, overflow) = overflowing_add (g_used g) gas_memory in
         if overflow \<or> g_limit g < all_used_gas then (False, g)
         else (True, g\<lparr>g_memory := gas_memory, g_all_used_gas := all_used_gas\<rparr>))
      else (True, g))"

definition gas_refund :: "Gas \<Rightarrow> i64 \<Rightarrow> Gas" where
  "gas_refund g refund = g\<lparr>g_refunded := g_refunded g + refund\<rparr>"

text \<open>
  The invariant the code relies on: the total is the execution part plus the memory part, and it
  stays within the limit, so that \<open>remaining\<close> does not wrap.
\<close>

definition gas_wf :: "Gas \<Rightarrow> bool" where
  "gas_wf g \<longleftrightarrow> unat (g_all_used_gas g) = unat (g_used g) + unat (g_memory g) \<and>
     g_all_used_gas g \<le> g_limit g"

lemma gas_wf_new [simp]: "gas_wf (Gas_new l)"
  by (simp add: gas_wf_def Gas_new_def)

lemma remaining_new [simp]: "remaining (Gas_new l) = l" "g_limit (Gas_new l) = l"
  by (simp_all add: remaining_def Gas_new_def)

lemma unat_remaining:
  "gas_wf g \<Longrightarrow> unat (remaining g) = unat (g_limit g) - unat (g_all_used_gas g)"
  by (simp add: remaining_def gas_wf_def unat_sub)

lemma remaining_le_limit: "gas_wf g \<Longrightarrow> remaining g \<le> g_limit g"
  by (simp add: word_le_nat_alt unat_remaining)

lemma record_cost_limit [simp]: "g_limit (snd (record_cost g c)) = g_limit g"
  by (simp add: record_cost_def Let_def overflowing_add_def)

lemma record_cost_succeeds_iff:
  assumes "gas_wf g"
  shows "fst (record_cost g c) \<longleftrightarrow> c \<le> remaining g"
proof -
  have "\<not> 2 ^ 64 \<le> unat (g_all_used_gas g) + unat c \<and> \<not> g_limit g < g_all_used_gas g + c \<longleftrightarrow>
      unat (g_all_used_gas g) + unat c \<le> unat (g_limit g)"
    using unsigned_less [of "g_limit g", where ?'a = nat]
    by (auto simp: word_less_nat_alt unat_add_nowrap not_le not_less unat_word_ariths)
  then show ?thesis
    using assms by (auto simp: record_cost_def overflowing_add_def word_le_nat_alt unat_remaining
        gas_wf_def)
qed

lemma record_cost_success:
  assumes "gas_wf g" "c \<le> remaining g"
  shows "gas_wf (snd (record_cost g c))"
    and "unat (remaining (snd (record_cost g c))) = unat (remaining g) - unat c"
proof -
  let ?g = "snd (record_cost g c)"
  have le: "unat (g_all_used_gas g) + unat c \<le> unat (g_limit g)"
    using assms by (auto simp: word_le_nat_alt unat_remaining gas_wf_def)
  have lt: "unat (g_all_used_gas g) + unat c < 2 ^ LENGTH(64)"
    using le unsigned_less [of "g_limit g", where ?'a = nat] by simp
  have g: "?g = g\<lparr>g_used := g_used g + c, g_all_used_gas := g_all_used_gas g + c\<rparr>"
    using record_cost_succeeds_iff [OF assms(1), of c] assms(2)
    by (auto simp: record_cost_def overflowing_add_def)
  have used: "unat (g_used g + c) = unat (g_used g) + unat c"
    using lt assms(1) by (intro unat_add_nowrap) (simp add: gas_wf_def)
  show wf: "gas_wf ?g"
    using assms(1) lt le used unfolding g gas_wf_def
    by (simp add: unat_add_nowrap [OF lt] word_le_nat_alt)
  show "unat (remaining ?g) = unat (remaining g) - unat c"
    using unat_remaining [OF wf] unat_remaining [OF assms(1)] unfolding g
    by (simp add: unat_add_nowrap [OF lt])
qed

text \<open>
  \<open>record_cost\<close> charges exactly: it succeeds if and only if the cost is covered by the
  remaining gas, then the remaining gas falls by exactly the cost and the invariant is kept, and
  otherwise the counter is left as it was.
\<close>
lemma record_cost_exact:
  assumes "gas_wf g"
  shows "(if c \<le> remaining g
     then fst (record_cost g c) \<and> gas_wf (snd (record_cost g c)) \<and>
          unat (remaining (snd (record_cost g c))) = unat (remaining g) - unat c
     else record_cost g c = (False, g))"
proof (cases "c \<le> remaining g")
  case True
  then show ?thesis
    using record_cost_succeeds_iff [OF assms] record_cost_success [OF assms] by simp
next
  case False
  then have "\<not> fst (record_cost g c)" using record_cost_succeeds_iff [OF assms] by simp
  with False show ?thesis
    by (auto simp: record_cost_def overflowing_add_def split: if_splits)
qed

lemma record_memory_limit [simp]: "g_limit (snd (record_memory g c)) = g_limit g"
  by (simp add: record_memory_def Let_def overflowing_add_def)

lemma record_memory_failure: "\<not> fst (record_memory g c) \<Longrightarrow> snd (record_memory g c) = g"
  by (auto simp: record_memory_def overflowing_add_def split: if_splits)

lemma record_memory_success:
  assumes "gas_wf g" "fst (record_memory g c)"
  shows "gas_wf (snd (record_memory g c))"
    and "remaining (snd (record_memory g c)) \<le> remaining g"
proof -
  let ?g = "snd (record_memory g c)"
  have *: "gas_wf ?g \<and> remaining ?g \<le> remaining g"
  proof (cases "g_memory g < c")
    case False
    then have "?g = g" by (simp add: record_memory_def)
    with assms(1) show ?thesis by simp
  next
    case True
    with assms(2) have lt: "unat (g_used g) + unat c < 2 ^ LENGTH(64)" "g_used g + c \<le> g_limit g"
      by (auto simp: record_memory_def overflowing_add_def not_le not_less split: if_splits)
    then have g: "?g = g\<lparr>g_memory := c, g_all_used_gas := g_used g + c\<rparr>"
      using True by (auto simp: record_memory_def overflowing_add_def)
    have wf: "gas_wf ?g"
      using lt unfolding g gas_wf_def by (simp add: unat_add_nowrap)
    show ?thesis
      using wf True assms(1) lt unat_remaining [OF wf] unat_remaining [OF assms(1)]
      by (simp add: g word_le_nat_alt word_less_nat_alt unat_add_nowrap gas_wf_def)
  qed
  then show "gas_wf ?g" "remaining ?g \<le> remaining g" by auto
qed

lemma erase_cost_limit [simp]: "g_limit (erase_cost g r) = g_limit g"
  by (simp add: erase_cost_def)

lemma erase_cost_returns:
  assumes "gas_wf g" "r \<le> g_used g"
  shows "gas_wf (erase_cost g r)"
    and "unat (remaining (erase_cost g r)) = unat (remaining g) + unat r"
proof -
  have le: "r \<le> g_all_used_gas g"
    using assms by (simp add: gas_wf_def word_le_nat_alt)
  show wf: "gas_wf (erase_cost g r)"
    using assms le by (auto simp: gas_wf_def erase_cost_def unat_sub_nowrap word_le_nat_alt)
  show "unat (remaining (erase_cost g r)) = unat (remaining g) + unat r"
    using unat_remaining [OF wf] unat_remaining [OF assms(1)] assms le
    by (simp add: erase_cost_def unat_sub_nowrap word_le_nat_alt gas_wf_def)
qed

lemma refund_simps [simp]:
  "gas_wf (record_refund g r) = gas_wf g" "gas_wf (gas_refund g r) = gas_wf g"
  "remaining (record_refund g r) = remaining g" "remaining (gas_refund g r) = remaining g"
  "g_limit (record_refund g r) = g_limit g" "g_limit (gas_refund g r) = g_limit g"
  "g_used (gas_refund g r) = g_used g"
  by (simp_all add: gas_wf_def record_refund_def gas_refund_def remaining_def)



section \<open>Prices\<close>

definition sload_cost :: "SpecId \<Rightarrow> bool \<Rightarrow> u64" where
  "sload_cost spec is_cold =
     (if enabled spec BERLIN then (if is_cold then gas_COLD_SLOAD_COST else gas_WARM_STORAGE_READ_COST)
      else if enabled spec ISTANBUL then 800
      else if enabled spec TANGERINE then 200
      else 50)"

definition sstore_refund :: "SpecId \<Rightarrow> U256 \<Rightarrow> U256 \<Rightarrow> U256 \<Rightarrow> i64" where
  "sstore_refund spec original current new =
     (if enabled spec ISTANBUL then
        (let sstore_clears_schedule =
               (if enabled spec LONDON
                then gas_SSTORE_RESET - gas_COLD_SLOAD_COST + gas_ACCESS_LIST_STORAGE_KEY
                else gas_REFUND_SSTORE_CLEARS) in
         if current = new then 0
         else if original = current \<and> new = 0 then sstore_clears_schedule
         else
           (let refund =
                  (if original \<noteq> 0 then
                     (if current = 0 then 0 - sstore_clears_schedule
                      else if new = 0 then 0 + sstore_clears_schedule
                      else 0)
                   else 0) in
            if original = new then
              (let (gas_sstore_reset, gas_sload) =
                     (if enabled spec BERLIN
                      then (gas_SSTORE_RESET - gas_COLD_SLOAD_COST, gas_WARM_STORAGE_READ_COST)
                      else (gas_SSTORE_RESET, sload_cost spec False)) in
               if original = 0 then refund + (gas_SSTORE_SET - gas_sload)
               else refund + (gas_sstore_reset - gas_sload))
            else refund))
      else (if current \<noteq> 0 \<and> new = 0 then gas_REFUND_SSTORE_CLEARS else 0))"

definition create2_cost :: "usize \<Rightarrow> u64 option" where
  "create2_cost len =
     (let sha_addup_base = (len div 32) + (if len mod 32 \<noteq> 0 then 1 else 0) in
      case checked_mul gas_SHA3WORD sha_addup_base of None \<Rightarrow> None
      | Some sha_addup \<Rightarrow> checked_add gas_CREATE sha_addup)"

definition leading_zeros :: "u64 \<Rightarrow> nat" where
  "leading_zeros x = length (takeWhile (\<lambda>i. \<not> bit x i) (rev [0..<64]))"

fun log2floor_loop :: "U256 \<Rightarrow> nat list \<Rightarrow> u64 \<Rightarrow> u64" where
  "log2floor_loop value [] l = l"
| "log2floor_loop value (i # is) l =
     (if limb i value = 0 then log2floor_loop value is (l - 64)
      else (let l = l - word_of_nat (leading_zeros (limb i value)) in
            if l = 0 then l else l - 1))"

definition log2floor :: "U256 \<Rightarrow> u64 comp" where
  "log2floor value = (if value = 0 then Panic else Val (log2floor_loop value [3, 2, 1, 0] 256))"

definition u64_try_from :: "U256 \<Rightarrow> u64 option" where
  "u64_try_from x = (if unat x < 2 ^ 64 then Some (ucast x) else None)"

definition exp_cost :: "SpecId \<Rightarrow> U256 \<Rightarrow> u64 option comp" where
  "exp_cost spec pw =
     (if pw = 0 then Val (Some gas_EXP)
      else
        (let gas_byte = (if enabled spec SPURIOUS_DRAGON then 50 else 10) :: U256 in
         bind_comp (log2floor pw) (\<lambda>l.
           Val (case checked_mul gas_byte (ucast (l div 8 + 1)) of None \<Rightarrow> None
                | Some m \<Rightarrow>
                    (case checked_add (ucast gas_EXP) m of None \<Rightarrow> None
                     | Some gas \<Rightarrow> u64_try_from gas)))))"

definition wordd_up :: "u64 \<Rightarrow> u64" where
  "wordd_up len = (let wordd = len div 32; wordr = len mod 32 in
     if wordr = 0 then wordd else wordd + 1)"

definition verylowcopy_cost :: "u64 \<Rightarrow> u64 option" where
  "verylowcopy_cost len =
     (case checked_mul gas_COPY (wordd_up len) of None \<Rightarrow> None
      | Some c \<Rightarrow> checked_add gas_VERYLOW c)"

definition extcodecopy_cost :: "SpecId \<Rightarrow> u64 \<Rightarrow> bool \<Rightarrow> u64 option" where
  "extcodecopy_cost spec len is_cold =
     (let base_gas =
            (if enabled spec BERLIN
             then (if is_cold then gas_COLD_ACCOUNT_ACCESS_COST else gas_WARM_STORAGE_READ_COST)
             else if enabled spec TANGERINE then 700
             else 20) in
      case checked_mul gas_COPY (wordd_up len) of None \<Rightarrow> None
      | Some c \<Rightarrow> checked_add base_gas c)"

definition account_access_gas :: "SpecId \<Rightarrow> bool \<Rightarrow> u64" where
  "account_access_gas spec is_cold =
     (if enabled spec BERLIN
      then (if is_cold then gas_COLD_ACCOUNT_ACCESS_COST else gas_WARM_STORAGE_READ_COST)
      else if enabled spec ISTANBUL then 700
      else 20)"

definition log_cost :: "u8 \<Rightarrow> u64 \<Rightarrow> u64 option" where
  "log_cost n len =
     (case checked_mul gas_LOGDATA len of None \<Rightarrow> None
      | Some d \<Rightarrow>
          (case checked_add gas_LOG d of None \<Rightarrow> None
           | Some c \<Rightarrow> checked_add c (gas_LOGTOPIC * ucast n)))"

definition sha3_cost :: "u64 \<Rightarrow> u64 option" where
  "sha3_cost len =
     (case checked_mul gas_SHA3WORD (wordd_up len) of None \<Rightarrow> None
      | Some c \<Rightarrow> checked_add gas_SHA3 c)"

definition initcode_cost :: "u64 \<Rightarrow> u64" where
  "initcode_cost len = gas_INITCODE_WORD_COST * wordd_up len"

definition sstore_cost :: "SpecId \<Rightarrow> U256 \<Rightarrow> U256 \<Rightarrow> U256 \<Rightarrow> u64 \<Rightarrow> bool \<Rightarrow> u64 option" where
  "sstore_cost spec original current new gas is_cold =
     (let (gas_sload, gas_sstore_reset) =
            (if enabled spec BERLIN
             then (gas_WARM_STORAGE_READ_COST, gas_SSTORE_RESET - gas_COLD_SLOAD_COST)
             else (sload_cost spec is_cold, gas_SSTORE_RESET)) in
      if enabled spec ISTANBUL \<and> gas \<le> gas_CALL_STIPEND then None
      else
        (let gas_cost =
               (if enabled spec ISTANBUL then
                  (if new = current then gas_sload
                   else if original = current then
                     (if original = 0 then gas_SSTORE_SET else gas_sstore_reset)
                   else gas_sload)
                else (if current = 0 \<and> new \<noteq> 0 then gas_SSTORE_SET else gas_sstore_reset)) in
         if enabled spec BERLIN \<and> is_cold then Some (gas_cost + gas_COLD_SLOAD_COST)
         else Some gas_cost))"

record SelfDestructResult =
  had_value :: bool
  target_exists :: bool
  sd_is_cold :: bool
  previously_destroyed :: bool

definition selfdestruct_cost :: "SpecId \<Rightarrow> SelfDestructResult \<Rightarrow> u64" where
  "selfdestruct_cost spec res =
     (let should_charge_topup =
            (if enabled spec SPURIOUS_DRAGON then had_value res \<and> \<not> target_exists res
             else \<not> target_exists res);
          selfdestruct_gas_topup = (if enabled spec TANGERINE \<and> should_charge_topup then 25000 else 0);
          selfdestruct_gas = (if enabled spec TANGERINE then 5000 else 0);
          gas = selfdestruct_gas + selfdestruct_gas_topup in
      if enabled spec BERLIN \<and> sd_is_cold res then gas + gas_COLD_ACCOUNT_ACCESS_COST else gas)"

definition xfer_cost :: "bool \<Rightarrow> bool \<Rightarrow> u64" where
  "xfer_cost is_call_or_callcode transfers_value =
     (if is_call_or_callcode \<and> transfers_value then gas_CALLVALUE else 0)"

definition new_cost :: "SpecId \<Rightarrow> bool \<Rightarrow> bool \<Rightarrow> bool \<Rightarrow> u64" where
  "new_cost spec is_call_or_staticcall is_new transfers_value =
     (if is_call_or_staticcall then
        (if enabled spec SPURIOUS_DRAGON then
           (if transfers_value \<and> is_new then gas_NEWACCOUNT else 0)
         else if is_new then gas_NEWACCOUNT
         else 0)
      else 0)"

definition call_cost :: "SpecId \<Rightarrow> U256 \<Rightarrow> bool \<Rightarrow> bool \<Rightarrow> bool \<Rightarrow> bool \<Rightarrow> u64" where
  "call_cost spec value is_new is_cold is_call_or_callcode is_call_or_staticcall =
     (let transfers_value = value \<noteq> 0;
          call_gas =
            (if enabled spec BERLIN
             then (if is_cold then gas_COLD_ACCOUNT_ACCESS_COST else gas_WARM_STORAGE_READ_COST)
             else if enabled spec TANGERINE then 700
             else 40) in
      call_gas + xfer_cost is_call_or_callcode transfers_value +
        new_cost spec is_call_or_staticcall is_new transfers_value)"

definition hot_cold_cost :: "SpecId \<Rightarrow> bool \<Rightarrow> u64 \<Rightarrow> u64" where
  "hot_cold_cost spec is_cold regular_value =
     (if enabled spec BERLIN
      then (if is_cold then gas_COLD_ACCOUNT_ACCESS_COST else gas_WARM_STORAGE_READ_COST)
      else regular_value)"

definition memory_gas :: "usize \<Rightarrow> u64" where
  "memory_gas a = saturating_add (saturating_mul gas_MEMORY a) (saturating_mul a a div 512)"

subsection \<open>Closed forms\<close>

lemma div_up_32: "(n + 31) div 32 = (if n mod 32 = 0 then n div 32 else n div 32 + (1::nat))"
proof -
  have "(n + 31) div 32 = n div 32 + (n mod 32 + 31) div 32"
    using div_add1_eq [of n 31 32] by simp
  moreover have "(r + 31) div 32 = (if r = 0 then 0 else 1)" if "r < 32" for r :: nat
    using that by (auto simp: div_nat_eqI)
  ultimately show ?thesis by simp
qed

lemma unat_wordd_up: "unat (wordd_up len) = (unat len + 31) div 32"
proof -
  have lt: "unat (len div 32) < 2 ^ 64 - 1"
    using unsigned_less [of len, where ?'a = nat] by (simp add: unat_div_distrib)
  have z: "len mod 32 = 0 \<longleftrightarrow> unat len mod 32 = 0"
    using unat_mod_distrib [of len 32] unsigned_eq_0_iff [of "len mod 32", where ?'a = nat] by simp
  have s: "unat (len div 32 + 1) = unat (len div 32) + 1"
    using lt by (simp add: unat_word_ariths)
  show ?thesis
    by (simp only: wordd_up_def Let_def z s div_up_32 if_distrib [of unat] unat_div_distrib
        unat_numeral) simp
qed

lemma wordd_up_bound: "unat (wordd_up len) \<le> 2 ^ 59"
  using unsigned_less [of len, where ?'a = nat] by (simp add: unat_wordd_up)

lemma linear_cost:
  assumes "unat w * k + unat b < 2 ^ 64" "unat k' = k"
  shows "\<exists>c. (case checked_mul k' w of None \<Rightarrow> None | Some c \<Rightarrow> checked_add b c) = Some c \<and>
    unat (c :: u64) = unat b + k * unat w"
proof -
  have "checked_mul k' w = Some (k' * w)" "unat (k' * w) = k * unat w"
    using assms by (simp_all add: checked_mul_def unat_mult_nowrap mult.commute)
  then show ?thesis using assms by (simp add: checked_add_def unat_add_nowrap mult.commute)
qed

lemma verylowcopy_cost_eq:
  "\<exists>c. verylowcopy_cost len = Some c \<and> unat c = 3 + 3 * ((unat len + 31) div 32)"
  using linear_cost [of "wordd_up len" 3 "3" 3] wordd_up_bound [of len]
  by (simp add: verylowcopy_cost_def unat_wordd_up)

lemma sha3_cost_eq:
  "\<exists>c. sha3_cost len = Some c \<and> unat c = 30 + 6 * ((unat len + 31) div 32)"
  using linear_cost [of "wordd_up len" 6 "30" 6] wordd_up_bound [of len]
  by (simp add: sha3_cost_def unat_wordd_up)

lemma extcodecopy_cost_eq:
  "\<exists>c. extcodecopy_cost spec len is_cold = Some c \<and>
     unat c = (if enabled spec BERLIN then if is_cold then 2600 else 100
               else if enabled spec TANGERINE then 700 else 20) + 3 * ((unat len + 31) div 32)"
  using linear_cost [of "wordd_up len" 3 "2600" 3] linear_cost [of "wordd_up len" 3 "100" 3]
    linear_cost [of "wordd_up len" 3 "700" 3] linear_cost [of "wordd_up len" 3 "20" 3]
    wordd_up_bound [of len]
  by (simp add: extcodecopy_cost_def unat_wordd_up)

lemma create2_cost_alt:
  "create2_cost len =
     (case checked_mul 6 (wordd_up len) of None \<Rightarrow> None | Some c \<Rightarrow> checked_add 32000 c)"
  by (simp add: create2_cost_def wordd_up_def Let_def)

lemma create2_cost_eq:
  "\<exists>c. create2_cost len = Some c \<and> unat c = 32000 + 6 * ((unat len + 31) div 32)"
  using linear_cost [of "wordd_up len" 6 "32000" 6] wordd_up_bound [of len]
  by (simp add: create2_cost_alt unat_wordd_up)

lemma initcode_cost_eq: "unat (initcode_cost len) = 2 * ((unat len + 31) div 32)"
proof -
  have "unat (2 :: u64) * unat (wordd_up len) < 2 ^ LENGTH(64)" using wordd_up_bound [of len] by simp
  from unat_mult_nowrap [OF this] show ?thesis by (simp add: initcode_cost_def unat_wordd_up)
qed

lemma unat_ucast_u8 [simp]: "unat (ucast (n :: u8) :: u64) = unat n"
  using unsigned_less [of n, where ?'a = nat]
  by (simp add: unsigned_ucast_eq take_bit_nat_eq_self)

lemma log_cost_eq:
  shows "375 + 8 * unat len + 375 * unat n < 2 ^ 64 \<Longrightarrow>
      \<exists>c. log_cost n len = Some c \<and> unat c = 375 + 8 * unat len + 375 * unat n"
    and "2 ^ 64 \<le> 375 + 8 * unat len + 375 * unat n \<Longrightarrow> log_cost n len = None"
proof -
  have n: "unat (375 * ucast n :: u64) = 375 * unat n"
    using unsigned_less [of n, where ?'a = nat] by (simp add: unat_word_ariths)
  have m: "checked_mul 8 len = (if 8 * unat len < 2 ^ 64 then Some (8 * len) else None)"
    by (simp add: checked_mul_def)
  have um: "unat (8 * len) = 8 * unat len" if "8 * unat len < 2 ^ 64"
    using that by (simp add: unat_word_ariths)
  have ua: "unat (375 + 8 * len) = 375 + 8 * unat len" if "375 + 8 * unat len < 2 ^ 64"
    using that um by (simp add: unat_add_nowrap)
  show "\<exists>c. log_cost n len = Some c \<and> unat c = 375 + 8 * unat len + 375 * unat n"
    if "375 + 8 * unat len + 375 * unat n < 2 ^ 64"
    using that by (simp add: log_cost_def m checked_add_def um ua n unat_add_nowrap)
  show "log_cost n len = None" if "2 ^ 64 \<le> 375 + 8 * unat len + 375 * unat n"
    using that by (auto simp: log_cost_def m checked_add_def um ua n)
qed

text \<open>
  The prices charged per 32-byte word are exact: for every length, and with no overflow for any
  64-bit length, \<open>CODECOPY\<close> and its kin pay \<open>3 + 3w\<close>, \<open>SHA3\<close> \<open>30 + 6w\<close>, \<open>CREATE2\<close>
  \<open>32000 + 6w\<close>, init code \<open>2w\<close> and \<open>EXTCODECOPY\<close> its access price plus \<open>3w\<close>, where
  \<open>w\<close> is the length in words, rounded up.
\<close>
lemma word_prices_exact:
  fixes len :: u64
  defines "w \<equiv> (unat len + 31) div 32"
  shows "map_option unat (verylowcopy_cost len) = Some (3 + 3 * w) \<and>
    map_option unat (sha3_cost len) = Some (30 + 6 * w) \<and>
    map_option unat (create2_cost len) = Some (32000 + 6 * w) \<and>
    unat (initcode_cost len) = 2 * w \<and>
    map_option unat (extcodecopy_cost spec len is_cold) =
      Some ((if enabled spec BERLIN then if is_cold then 2600 else 100
             else if enabled spec TANGERINE then 700 else 20) + 3 * w)"
  using verylowcopy_cost_eq [of len] sha3_cost_eq [of len] create2_cost_eq [of len]
    extcodecopy_cost_eq [of spec len is_cold]
  unfolding w_def initcode_cost_eq by force

subsection \<open>Memory expansion\<close>

lemma unat_memory_gas:
  "unat (memory_gas a) = min (min (3 * unat a) (2 ^ 64 - 1) + min (unat a * unat a) (2 ^ 64 - 1) div 512)
     (2 ^ 64 - 1)"
  by (simp add: memory_gas_def unat_div_distrib)

lemma memory_gas_mono: "a \<le> b \<Longrightarrow> memory_gas a \<le> memory_gas b"
proof -
  assume "a \<le> b"
  then have "3 * unat a \<le> 3 * unat b" "unat a * unat a \<le> unat b * unat b"
    by (auto simp: word_le_nat_alt intro: mult_le_mono)
  then show ?thesis
    unfolding word_le_nat_alt unat_memory_gas
    by (intro min.mono add_mono div_le_mono) simp_all
qed

text \<open>
  Below \<open>2^32\<close> words (128 GiB) the memory price is the quadratic formula of the Yellow Paper,
  \<open>3a + a\<^sup>2 / 512\<close>, without saturation, and it is monotone in the size over all sizes.
\<close>
lemma memory_gas_exact:
  assumes "unat a < 2 ^ 32"
  shows "unat (memory_gas a) = 3 * unat a + unat a * unat a div 512 \<and>
    (\<forall>b. b \<le> a \<longrightarrow> memory_gas b \<le> memory_gas a)"
proof -
  have sq: "unat a * unat a < 2 ^ 64"
    using mult_strict_mono [OF assms assms] by simp
  then have "unat a * unat a div 512 \<le> 2 ^ 55" by simp
  with assms sq show ?thesis by (auto simp: unat_memory_gas min_def memory_gas_mono)
qed

text \<open>
  From \<open>2^32\<close> words on the square saturates before it is divided by 512, so that the price
  grows only linearly: the whole 64-bit address space costs less than \<open>2^61\<close> gas.
\<close>
lemma memory_gas_saturates: "unat (memory_gas (2 ^ 59 - 1)) < 2 ^ 61"
  by (simp add: unat_memory_gas)

subsection \<open>The price of EXP\<close>

lemma unat_limb: "unat (limb i x) = unat x div 2 ^ (64 * i) mod 2 ^ 64"
  unfolding limb_def unsigned_ucast_eq unat_drop_bit_eq
  by (simp add: take_bit_eq_mod drop_bit_eq_div)

lemma u64_ge_top_bit:
  assumes "bit x n" shows "2 ^ n \<le> unat (x :: 'a::len word)"
proof -
  have "odd (unat x div 2 ^ n)"
    using assms by (simp add: bit_iff_odd flip: bit_unsigned_iff) (simp add: bit_unsigned_iff flip: bit_iff_odd)
  then have "unat x div 2 ^ n \<noteq> 0" by (metis even_zero)
  then show ?thesis by (simp add: div_eq_0_iff not_less)
qed

lemma lt_of_no_bits:
  assumes "\<And>i. n \<le> i \<Longrightarrow> \<not> bit (x :: 'a::len word) i" shows "unat x < 2 ^ n"
proof -
  have "take_bit n x = x"
    by (rule bit_word_eqI) (use assms in \<open>metis bit_take_bit_iff not_less\<close>)
  then have "take_bit n (unat x) = unat x" by (metis unsigned_take_bit_eq)
  then show ?thesis by (metis take_bit_nat_less_exp)
qed

lemma leading_zeros_bounds:
  assumes "x \<noteq> 0"
  shows "leading_zeros x < 64" "2 ^ (63 - leading_zeros x) \<le> unat x"
    "unat x < 2 ^ (64 - leading_zeros x)"
proof -
  let ?l = "rev [0..<64]" and ?n = "leading_zeros x"
  have nth: "?l ! k = 63 - k" if "k < 64" for k using that by (simp add: rev_nth)
  have "\<exists>i<64. bit x i"
    using assms bit_word_eqI [of x 0] by (auto simp: bit_0_eq)
  then have "takeWhile (\<lambda>i. \<not> bit x i) ?l \<noteq> ?l" by auto
  then show n: "?n < 64"
    using takeWhile_eq_take [of "\<lambda>i. \<not> bit x i" ?l] unfolding leading_zeros_def
    by (metis length_rev length_upt minus_nat.diff_0 not_less take_all)
  have "bit x (?l ! ?n)"
    using nth_length_takeWhile [of "\<lambda>i. \<not> bit x i" ?l] n unfolding leading_zeros_def by simp
  then show "2 ^ (63 - ?n) \<le> unat x"
    using nth [OF n] by (simp add: u64_ge_top_bit)
  show "unat x < 2 ^ (64 - ?n)"
  proof (rule lt_of_no_bits)
    fix i assume i: "64 - ?n \<le> i"
    show "\<not> bit x i"
    proof (cases "i < 64")
      case True
      then have "63 - i < ?n" using i n by simp
      then have "\<not> bit x (?l ! (63 - i))"
        unfolding leading_zeros_def using takeWhile_nth set_takeWhileD by (metis nth_mem)
      with True show ?thesis by (simp add: nth)
    qed (auto dest: bit_imp_le_length)
  qed
qed

lemma log2floor_loop_correct:
  assumes "unat v < 2 ^ (64 * n)" "v \<noteq> 0" "n \<le> 4"
  shows "let l = log2floor_loop v (rev [0..<n]) (word_of_nat (64 * n)) in
    2 ^ unat l \<le> unat v \<and> unat v < 2 ^ Suc (unat l) \<and> unat l < 256"
  using assms
proof (induction n)
  case 0
  then show ?case by (simp add: unat_eq_zero)
next
  case (Suc n)
  let ?x = "limb n v"
  have div: "unat ?x = unat v div 2 ^ (64 * n)"
  proof -
    have "unat v div 2 ^ (64 * n) < 2 ^ 64"
      using Suc.prems(1) by (simp add: less_mult_imp_div_less power_add)
    then show ?thesis by (simp add: unat_limb)
  qed
  show ?case
  proof (cases "?x = 0")
    case True
    then have "unat v < 2 ^ (64 * n)" using div by (simp add: div_eq_0_iff)
    moreover have "word_of_nat (64 * Suc n) - 64 = (word_of_nat (64 * n) :: u64)" by simp
    ultimately show ?thesis using Suc True by simp
  next
    case False
    let ?z = "leading_zeros ?x"
    note lz = leading_zeros_bounds [OF False]
    have l: "word_of_nat (64 * Suc n) - word_of_nat ?z = (word_of_nat (64 * Suc n - ?z) :: u64)"
      using lz(1) by (simp add: of_nat_diff)
    have u: "unat (word_of_nat (64 * Suc n - ?z) - 1 :: u64) = 64 * n + (63 - ?z)"
    proof -
      have "(word_of_nat (64 * Suc n - ?z) - 1 :: u64) = word_of_nat (64 * n + (63 - ?z))"
        using lz(1) by (simp add: of_nat_diff)
      moreover have "64 * n + (63 - ?z) < 2 ^ 64" using Suc.prems(3) by simp
      ultimately show ?thesis by (simp only: unat_of_nat) simp
    qed
    have nz: "(word_of_nat (64 * Suc n - ?z) :: u64) \<noteq> 0"
    proof
      assume "(word_of_nat (64 * Suc n - ?z) :: u64) = 0"
      then have "2 ^ LENGTH(64) dvd 64 * Suc n - ?z" by (simp only: word_of_nat_eq_0_iff)
      with lz(1) Suc.prems(3) show False by (auto dest: dvd_imp_le)
    qed
    have lo: "2 ^ (64 * n + (63 - ?z)) \<le> unat v"
      using lz(2) by (simp add: div power_add less_eq_div_iff_mult_less_eq mult.commute)
    have hi: "unat v < 2 ^ Suc (64 * n + (63 - ?z))"
    proof -
      have "unat v < 2 ^ (64 - ?z) * 2 ^ (64 * n)"
        using lz(3) by (simp add: div div_less_iff_less_mult)
      also have "\<dots> = 2 ^ Suc (64 * n + (63 - ?z))"
      proof -
        have "64 - ?z + 64 * n = Suc (64 * n + (63 - ?z))" using lz(1) by simp
        then show ?thesis by (simp only: flip: power_add)
      qed
      finally show ?thesis .
    qed
    have loop: "log2floor_loop v (rev [0..<Suc n]) (word_of_nat (64 * Suc n)) =
        word_of_nat (64 * Suc n - ?z) - 1"
      using False nz
      by (simp add: l Let_def del: of_nat_mult of_nat_add of_nat_Suc mult_Suc_right)
    show ?thesis unfolding loop Let_def u using lo hi Suc.prems(3) by simp
  qed
qed

lemma log2floor_correct:
  assumes "v \<noteq> 0"
  shows "\<exists>l. log2floor v = Val l \<and> 2 ^ unat l \<le> unat v \<and> unat v < 2 ^ Suc (unat l) \<and> unat l < 256"
proof -
  have "rev [0..<4] = [3, 2, 1, 0 :: nat]" by (simp add: upt_rec)
  then show ?thesis
    using log2floor_loop_correct [of v 4] assms unsigned_less [of v, where ?'a = nat]
    by (simp add: log2floor_def Let_def)
qed

lemma exp_cost_value:
  "\<exists>c n. exp_cost spec pw = Val (Some c) \<and>
     unat c = 10 + (if enabled spec SPURIOUS_DRAGON then 50 else 10) * n \<and>
     unat pw < 256 ^ n \<and> (\<forall>m. unat pw < 256 ^ m \<longrightarrow> n \<le> m)"
proof (cases "pw = 0")
  case True
  then show ?thesis by (intro exI [of _ 10] exI [of _ 0]) (simp add: exp_cost_def)
next
  case False
  then obtain l where l: "log2floor pw = Val l" "2 ^ unat l \<le> unat pw"
    "unat pw < 2 ^ Suc (unat l)" "unat l < 256" using log2floor_correct by blast
  define n where "n = unat l div 8 + 1"
  have un: "unat (l div 8 + 1) = n"
    using l(4) by (simp add: n_def unat_word_ariths unat_div_distrib)
  have n32: "n \<le> 32" using l(4) by (simp add: n_def)
  define k :: U256 where "k = (if enabled spec SPURIOUS_DRAGON then 50 else 10)"
  have uk: "unat k = (if enabled spec SPURIOUS_DRAGON then 50 else 10)" by (simp add: k_def)
  have uc: "unat (ucast (l div 8 + 1) :: U256) = n"
    using n32 by (simp add: un unsigned_ucast_eq take_bit_nat_eq_self)
  have fit: "unat k * n \<le> 1600" using n32 by (simp add: uk)
  have m: "checked_mul k (ucast (l div 8 + 1)) = Some (k * ucast (l div 8 + 1))"
    "unat (k * ucast (l div 8 + 1)) = unat k * n"
    using fit by (simp_all add: checked_mul_def uc unat_mult_nowrap)
  have a: "checked_add 10 (k * ucast (l div 8 + 1)) = Some (10 + k * ucast (l div 8 + 1))"
    "unat (10 + k * ucast (l div 8 + 1)) = 10 + unat k * n"
    using fit by (simp_all add: checked_add_def m(2) unat_add_nowrap)
  have c: "exp_cost spec pw = Val (Some (ucast (10 + k * ucast (l div 8 + 1))))"
    using False fit by (simp add: exp_cost_def l(1) m a u64_try_from_def flip: k_def)
  have uc': "unat (ucast (10 + k * ucast (l div 8 + 1) :: U256) :: u64) = 10 + unat k * n"
    unfolding unsigned_ucast_eq a(2) using fit by (simp add: take_bit_nat_eq_self)
  have "unat pw < 2 ^ (8 * n)"
  proof (rule less_le_trans [OF l(3)])
    show "2 ^ Suc (unat l) \<le> (2 :: nat) ^ (8 * n)"
      by (intro power_increasing) (auto simp: n_def)
  qed
  then have hi: "unat pw < 256 ^ n" by (simp add: power_mult)
  have lo: "n \<le> m" if "unat pw < 256 ^ m" for m
  proof -
    have "(2 :: nat) ^ unat l < 2 ^ (8 * m)"
      using l(2) that by (simp add: power_mult)
    then have "unat l < 8 * m" by simp
    then show ?thesis unfolding n_def by linarith
  qed
  show ?thesis using c uc' hi lo uk by auto
qed

text \<open>
  \<open>EXP\<close> costs 10 plus 50 (10 before EIP-160) per significant byte of the exponent: the
  price is always defined, and \<open>n\<close> in it is the least number of bytes the exponent fits in.
\<close>
lemma exp_cost_exact:
  "\<exists>c n. exp_cost spec pw = Val (Some c) \<and>
     unat c = 10 + (if enabled spec SPURIOUS_DRAGON then 50 else 10) * n \<and>
     unat pw < 256 ^ n \<and> (n = 0 \<or> 256 ^ (n - 1) \<le> unat pw)"
proof -
  obtain c n where c: "exp_cost spec pw = Val (Some c)"
    "unat c = 10 + (if enabled spec SPURIOUS_DRAGON then 50 else 10) * n" "unat pw < 256 ^ n"
    and least: "\<forall>m. unat pw < 256 ^ m \<longrightarrow> n \<le> m" using exp_cost_value by blast
  have "n = 0 \<or> 256 ^ (n - 1) \<le> unat pw" using least [rule_format, of "n - 1"] by linarith
  with c show ?thesis by blast
qed

subsection \<open>Storage refunds\<close>

text \<open>
  \<open>slot_refund\<close> adds up, as integers, what a series of writes to one slot refunds; the slot starts
  a transaction with its original value. \<open>clear_credit\<close> is the credit outstanding for a slot that
  currently is cleared.
\<close>

fun slot_refund :: "SpecId \<Rightarrow> U256 \<Rightarrow> U256 \<Rightarrow> U256 list \<Rightarrow> int" where
  "slot_refund spec original current [] = 0"
| "slot_refund spec original current (new # news) =
     sint (sstore_refund spec original current new) + slot_refund spec original new news"

definition clear_credit :: "SpecId \<Rightarrow> U256 \<Rightarrow> U256 \<Rightarrow> int" where
  "clear_credit spec original current =
     (if enabled spec ISTANBUL \<and> original \<noteq> 0 \<and> current = 0
      then (if enabled spec LONDON then 4800 else 15000) else 0)"

lemma sstore_refund_credit:
  "clear_credit spec original new \<le>
     clear_credit spec original current + sint (sstore_refund spec original current new)"
proof -
  consider "enabled spec LONDON" | "\<not> enabled spec LONDON" "enabled spec BERLIN"
    | "\<not> enabled spec BERLIN" "enabled spec ISTANBUL" | "\<not> enabled spec ISTANBUL" by blast
  then show ?thesis
  proof cases
    case 1
    then have "enabled spec BERLIN" "enabled spec ISTANBUL" by (auto intro: enabled_chain)
    with 1 show ?thesis by (simp add: sstore_refund_def clear_credit_def)
  next
    case 2
    then have "enabled spec ISTANBUL" by (auto intro: enabled_chain)
    with 2 show ?thesis by (simp add: sstore_refund_def clear_credit_def)
  next
    case 3
    then have "\<not> enabled spec LONDON" by (auto dest: enabled_chain)
    with 3 show ?thesis by (simp add: sstore_refund_def clear_credit_def sload_cost_def)
  next
    case 4
    then show ?thesis by (simp add: sstore_refund_def clear_credit_def)
  qed
qed

lemma slot_refund_credit: "0 \<le> clear_credit spec original current + slot_refund spec original current news"
proof (induction news arbitrary: current)
  case Nil
  then show ?case by (simp add: clear_credit_def)
next
  case (Cons new news)
  show ?case
    using sstore_refund_credit [of spec original new current] Cons.IH [of new] by simp
qed

text \<open>
  C40. \<open>gas_refund\<close> says that a refund may be negative but the counter stays positive: whatever is
  written to a slot, in any order and under any fork, the refunds of its writes never add up to a
  negative number.
\<close>
theorem slot_refund_nonneg: "0 \<le> slot_refund spec original original news"
  using slot_refund_credit [of spec original original news] by (simp add: clear_credit_def)

subsection \<open>Bounds of the state access prices\<close>

lemma sload_cost_bounds: "50 \<le> unat (sload_cost spec c) \<and> unat (sload_cost spec c) \<le> 2100"
  by (simp add: sload_cost_def)

lemma account_access_gas_bounds:
  "20 \<le> unat (account_access_gas spec c) \<and> unat (account_access_gas spec c) \<le> 2600"
  by (simp add: account_access_gas_def)

lemma sstore_cost_bounds:
  assumes "sstore_cost spec original current new gas is_cold = Some c"
  shows "100 \<le> unat c" "unat c \<le> 22100"
proof -
  consider "enabled spec BERLIN" "enabled spec ISTANBUL" | "\<not> enabled spec BERLIN"
    using enabled_chain(4) by blast
  then have "100 \<le> unat c \<and> unat c \<le> 22100"
    using assms
    by cases (auto simp: sstore_cost_def sload_cost_def Let_def split: if_splits)
  then show "100 \<le> unat c" "unat c \<le> 22100" by auto
qed

lemma call_cost_bounds:
  "40 \<le> unat (call_cost spec v n c a b)" "unat (call_cost spec v n c a b) \<le> 36600"
  "v \<noteq> 0 \<Longrightarrow> a \<Longrightarrow> 9040 \<le> unat (call_cost spec v n c a b)"
  by (simp_all add: call_cost_def xfer_cost_def new_cost_def Let_def)

text \<open>
  \<open>SSTORE\<close> is refused exactly by the EIP-1706 stipend guard; otherwise its price lies between
  100 and 22100 gas, and writing a slot that was written before in the transaction to a third value
  costs one warm read from EIP-2200 on.
\<close>
lemma sstore_cost_guard:
  "(sstore_cost spec original current new gas is_cold = None \<longleftrightarrow>
      enabled spec ISTANBUL \<and> unat gas \<le> 2300) \<and>
   (\<forall>c. sstore_cost spec original current new gas is_cold = Some c \<longrightarrow> unat c \<in> {100..22100}) \<and>
   (\<forall>c. sstore_cost spec original current new gas False = Some c \<longrightarrow>
      enabled spec ISTANBUL \<longrightarrow> original \<noteq> current \<longrightarrow> c = sload_cost spec False)"
proof (intro conjI allI impI)
  show "sstore_cost spec original current new gas is_cold = None \<longleftrightarrow>
      enabled spec ISTANBUL \<and> unat gas \<le> 2300"
    by (auto simp: sstore_cost_def Let_def word_le_nat_alt split: prod.splits)
  show "unat c \<in> {100..22100}" if "sstore_cost spec original current new gas is_cold = Some c" for c
    using sstore_cost_bounds [OF that] by simp
  show "c = sload_cost spec False" if "sstore_cost spec original current new gas False = Some c"
    "enabled spec ISTANBUL" "original \<noteq> current" for c
    using that by (auto simp: sstore_cost_def sload_cost_def Let_def split: if_splits)
qed

end
