(* ===== verification/Environment.thy ===== *)
theory Environment
  imports Specification Instruction_Result Gas_Model
begin

text \<open>
  The environment a transaction runs in (\<open>crates/primitives/src/env.rs\<close>), the call and create
  requests that frames exchange (\<open>crates/primitives/src/lib.rs\<close> and
  \<open>crates/interpreter/src/inner_models.rs\<close>), logs (\<open>log.rs\<close>), and the address derivations of
  \<open>utilities.rs\<close>. Cargo features are fields of the configuration: a build without the feature
  behaves as the default value of its field. The hash and the RLP encoder are crates outside the
  repository; they are fields of \<open>Libs\<close>, an argument of every definition that uses them.
\<close>

section \<open>Third-party functions\<close>

record Libs =
  lib_keccak256 :: "bytes \<Rightarrow> B256"
  lib_rlp_pair :: "bytes \<Rightarrow> u64 \<Rightarrow> bytes"

definition KECCAK_EMPTY :: B256 where
  "KECCAK_EMPTY = 0xc5d2460186f7233c927e7db2dcc703c0e500b653ca82273b7bfad8045d85a470"

definition create_address :: "Libs \<Rightarrow> B160 \<Rightarrow> u64 \<Rightarrow> B160" where
  "create_address L caller nonce =
     from_be_bytes (drop 12 (to_be_bytes 32 (lib_keccak256 L (lib_rlp_pair L (to_be_bytes 20 caller) nonce))))"

definition create2_address :: "Libs \<Rightarrow> B160 \<Rightarrow> B256 \<Rightarrow> U256 \<Rightarrow> B160" where
  "create2_address L caller code_hash salt =
     from_be_bytes (drop 12 (to_be_bytes 32 (lib_keccak256 L
       ([0xff] @ to_be_bytes 20 caller @ to_be_bytes 32 salt @ to_be_bytes 32 code_hash))))"

section \<open>Environment\<close>

datatype CreateScheme = Create | Create2 U256

datatype TransactTo = TransactCall B160 | TransactCreate CreateScheme

definition TransactTo_create :: TransactTo where
  "TransactTo_create = TransactCreate Create"

fun is_create :: "TransactTo \<Rightarrow> bool" where
  "is_create (TransactCreate _) = True"
| "is_create (TransactCall _) = False"

datatype AnalysisKind = AnalysisRaw | AnalysisCheck | AnalysisAnalyse

record BlockEnv =
  blk_number :: U256
  coinbase :: B160
  timestamp :: U256
  difficulty :: U256
  prevrandao :: "B256 option"
  basefee :: U256
  blk_gas_limit :: U256

record TxEnv =
  tx_caller :: B160
  tx_gas_limit :: u64
  tx_gas_price :: U256
  gas_priority_fee :: "U256 option"
  transact_to :: TransactTo
  tx_value :: U256
  tx_data :: bytes
  tx_chain_id :: "u64 option"
  tx_nonce :: "u64 option"
  access_list :: "(B160 \<times> U256 list) list"

record CfgEnv =
  cfg_chain_id :: U256
  cfg_spec_id :: SpecId
  perf_all_precompiles_have_balance :: bool
  perf_analyse_created_bytecodes :: AnalysisKind
  limit_contract_code_size :: "usize option"
  cfg_memory_limit :: u64
  disable_balance_check :: bool
  disable_block_gas_limit :: bool
  disable_eip3607 :: bool
  disable_gas_refund :: bool
  disable_base_fee :: bool

record Env =
  cfg :: CfgEnv
  block :: BlockEnv
  tx :: TxEnv

definition CfgEnv_default :: CfgEnv where
  "CfgEnv_default =
     \<lparr> cfg_chain_id = 1, cfg_spec_id = LATEST, perf_all_precompiles_have_balance = False,
       perf_analyse_created_bytecodes = AnalysisAnalyse, limit_contract_code_size = None,
       cfg_memory_limit = 2 ^ 32 - 1, disable_balance_check = False,
       disable_block_gas_limit = False, disable_eip3607 = False, disable_gas_refund = False,
       disable_base_fee = False \<rparr>"

definition BlockEnv_default :: BlockEnv where
  "BlockEnv_default =
     \<lparr> blk_number = 0, coinbase = 0, timestamp = 1, difficulty = 0, prevrandao = Some 0,
       basefee = 0, blk_gas_limit = - 1 \<rparr>"

definition TxEnv_default :: TxEnv where
  "TxEnv_default =
     \<lparr> tx_caller = 0, tx_gas_limit = u64_MAX, tx_gas_price = 0, gas_priority_fee = None,
       transact_to = TransactCall 0, tx_value = 0, tx_data = [], tx_chain_id = None,
       tx_nonce = None, access_list = [] \<rparr>"

definition Env_default :: Env where
  "Env_default = \<lparr> cfg = CfgEnv_default, block = BlockEnv_default, tx = TxEnv_default \<rparr>"

definition effective_gas_price :: "Env \<Rightarrow> U256" where
  "effective_gas_price env =
     (case gas_priority_fee (tx env) of
        None \<Rightarrow> tx_gas_price (tx env)
      | Some priority_fee \<Rightarrow> min (tx_gas_price (tx env)) (basefee (block env) + priority_fee))"

section \<open>Requests between frames\<close>

datatype CallScheme = CallScheme_Call | CallScheme_CallCode | CallScheme_DelegateCall | CallScheme_StaticCall

record CallContext =
  ctx_address :: B160
  ctx_caller :: B160
  ctx_code_address :: B160
  ctx_apparent_value :: U256
  ctx_scheme :: CallScheme

definition CallContext_default :: CallContext where
  "CallContext_default =
     \<lparr> ctx_address = 0, ctx_caller = 0, ctx_code_address = 0, ctx_apparent_value = 0,
       ctx_scheme = CallScheme_Call \<rparr>"

record Transfer =
  tr_source :: B160
  tr_target :: B160
  tr_value :: U256

record CallInputs =
  ci_contract :: B160
  ci_transfer :: Transfer
  ci_input :: bytes
  ci_gas_limit :: u64
  ci_context :: CallContext
  ci_is_static :: bool

record CreateInputs =
  cr_caller :: B160
  cr_scheme :: CreateScheme
  cr_value :: U256
  cr_init_code :: bytes
  cr_gas_limit :: u64

record Log =
  log_address :: B160
  log_topics :: "B256 list"
  log_data :: bytes

section \<open>Prices and addresses\<close>

text \<open>The price per gas a transaction pays never exceeds the maximum it offers.\<close>

lemma effective_gas_price_le: "effective_gas_price env \<le> tx_gas_price (tx env)"
  by (simp add: effective_gas_price_def split: option.split)

lemma ucast_from_be_bytes_drop:
  "from_be_bytes (drop 12 (to_be_bytes 32 (w :: B256))) = (ucast w :: B160)"
proof (rule bit_word_eqI)
  fix n assume "n < LENGTH(160)"
  then have n: "n < 160" "n div 8 < 20" by simp_all
  have "8 * (31 - (12 + (19 - n div 8))) + n mod 8 = n" using n by simp
  then show "bit (from_be_bytes (drop 12 (to_be_bytes 32 w)) :: B160) n = bit (ucast w :: B160) n"
    using n by (simp add: bit_from_be_bytes bit_to_be_bytes bit_unsigned_iff)
qed

end
