(* ===== verification/Bytecode.thy ===== *)
theory Bytecode
  imports Environment
begin

text \<open>
  Code and its analysis (\<open>crates/primitives/src/bytecode.rs\<close>,
  \<open>crates/interpreter/src/interpreter/analysis.rs\<close> and \<open>contract.rs\<close>): raw code is padded with
  33 zero bytes and scanned once for the valid jump destinations. The lemmas give the exact meaning
  of the jump map (a set of instruction starts defined independently of the scan), the padding
  invariant that the interpreter's unchecked reads rely on, and the round trip of the original code.
\<close>

section \<open>Code\<close>

type_synonym JumpMap = "bool list"

definition is_valid :: "JumpMap \<Rightarrow> nat \<Rightarrow> bool" where
  "is_valid m pc \<longleftrightarrow> pc < length m \<and> m ! pc"

datatype BytecodeState = Raw | Checked nat | Analysed nat JumpMap

record Bytecode =
  bytecode :: bytes
  bc_hash :: B256
  bc_state :: BytecodeState

definition Bytecode_new :: Bytecode where
  "Bytecode_new = \<lparr> bytecode = [0], bc_hash = KECCAK_EMPTY, bc_state = Analysed 0 [] \<rparr>"

definition new_raw :: "Libs \<Rightarrow> bytes \<Rightarrow> Bytecode" where
  "new_raw L bs =
     (let hash = (if bs = [] then KECCAK_EMPTY else lib_keccak256 L bs) in
      \<lparr> bytecode = bs, bc_hash = hash, bc_state = Raw \<rparr>)"

definition new_raw_with_hash :: "bytes \<Rightarrow> B256 \<Rightarrow> Bytecode" where
  "new_raw_with_hash bs hash = \<lparr> bytecode = bs, bc_hash = hash, bc_state = Raw \<rparr>"

definition new_checked :: "Libs \<Rightarrow> bytes \<Rightarrow> nat \<Rightarrow> B256 option \<Rightarrow> Bytecode" where
  "new_checked L bs len hash =
     (let hash = (case hash of
          None \<Rightarrow> if len = 0 then KECCAK_EMPTY else lib_keccak256 L bs
        | Some hash \<Rightarrow> hash) in
      \<lparr> bytecode = bs, bc_hash = hash, bc_state = Checked len \<rparr>)"

definition Bytes_slice_to :: "nat \<Rightarrow> bytes \<Rightarrow> bytes comp" where
  "Bytes_slice_to len bs = (if len \<le> length bs then Val (take len bs) else Panic)"

definition original_bytes :: "Bytecode \<Rightarrow> bytes comp" where
  "original_bytes b =
     (case bc_state b of
        Raw \<Rightarrow> Val (bytecode b)
      | Checked len \<Rightarrow> Bytes_slice_to len (bytecode b)
      | Analysed len _ \<Rightarrow> Bytes_slice_to len (bytecode b))"

definition Bytecode_is_empty :: "Bytecode \<Rightarrow> bool" where
  "Bytecode_is_empty b =
     (case bc_state b of
        Raw \<Rightarrow> bytecode b = []
      | Checked len \<Rightarrow> len = 0
      | Analysed len _ \<Rightarrow> len = 0)"

definition Bytecode_len :: "Bytecode \<Rightarrow> nat" where
  "Bytecode_len b =
     (case bc_state b of
        Raw \<Rightarrow> length (bytecode b)
      | Checked len \<Rightarrow> len
      | Analysed len _ \<Rightarrow> len)"

definition to_checked :: "Bytecode \<Rightarrow> Bytecode" where
  "to_checked b =
     (case bc_state b of
        Raw \<Rightarrow>
          (let len = length (bytecode b) in
           \<lparr> bytecode = bytecode b @ replicate 33 0, bc_hash = bc_hash b, bc_state = Checked len \<rparr>)
      | _ \<Rightarrow> b)"

section \<open>Analysis\<close>

abbreviation (input) OP_JUMPDEST :: u8 where "OP_JUMPDEST \<equiv> 0x5b"
abbreviation (input) OP_PUSH1 :: u8 where "OP_PUSH1 \<equiv> 0x60"

lemma push_width: "p < 32 \<Longrightarrow> unat (p + 2 :: u8) = unat p + 2"
  using unat_add_nowrap [of p 2] by (simp add: word_less_nat_alt)

text \<open>
  The scan of the code; \<open>iterator\<close> is the offset of the code's pointer from its start. Offsets past
  the end, reached when a push is cut short by the end of the code, end the loop.
\<close>

function analyze_loop :: "bytes \<Rightarrow> nat \<Rightarrow> JumpMap \<Rightarrow> JumpMap" where
  "analyze_loop code iterator jumps =
     (if iterator < length code then
        (let opcode = code ! iterator in
         if OP_JUMPDEST = opcode then analyze_loop code (iterator + 1) (jumps[iterator := True])
         else
           (let push_offset = opcode - OP_PUSH1 in
            if push_offset < 32 then analyze_loop code (iterator + unat (push_offset + 2)) jumps
            else analyze_loop code (iterator + 1) jumps))
      else jumps)"
  by pat_completeness auto
termination
proof (relation "measure (\<lambda>(code, i, _). length code - i)", goal_cases)
  case (3 code i jumps x xa)
  then show ?case using push_width [of xa] by simp
qed simp_all

declare analyze_loop.simps [simp del]

definition analyze :: "bytes \<Rightarrow> JumpMap" where
  "analyze code = analyze_loop code 0 (replicate (length code) False)"

definition to_analysed :: "Bytecode \<Rightarrow> Bytecode" where
  "to_analysed b =
     (let hash = bc_hash b in
      case bc_state b of
        Raw \<Rightarrow>
          (let len = length (bytecode b); checked = to_checked b in
           \<lparr> bytecode = bytecode checked, bc_hash = hash,
             bc_state = Analysed len (analyze (bytecode checked)) \<rparr>)
      | Checked len \<Rightarrow>
          \<lparr> bytecode = bytecode b, bc_hash = hash, bc_state = Analysed len (analyze (bytecode b)) \<rparr>
      | Analysed _ _ \<Rightarrow> b)"

record BytecodeLocked =
  bl_bytecode :: bytes
  bl_len :: nat
  bl_hash :: B256
  bl_jump_map :: JumpMap

definition BytecodeLocked_try_from :: "Bytecode \<Rightarrow> BytecodeLocked option" where
  "BytecodeLocked_try_from b =
     (case bc_state b of
        Analysed len jump_map \<Rightarrow>
          Some \<lparr> bl_bytecode = bytecode b, bl_len = len, bl_hash = bc_hash b, bl_jump_map = jump_map \<rparr>
      | _ \<Rightarrow> None)"

definition unlock :: "BytecodeLocked \<Rightarrow> Bytecode" where
  "unlock b =
     \<lparr> bytecode = bl_bytecode b, bc_hash = bl_hash b, bc_state = Analysed (bl_len b) (bl_jump_map b) \<rparr>"

definition original_bytecode_slice :: "BytecodeLocked \<Rightarrow> bytes comp" where
  "original_bytecode_slice b = Bytes_slice_to (bl_len b) (bl_bytecode b)"

section \<open>Contract\<close>

record Contract =
  ct_input :: bytes
  ct_bytecode :: BytecodeLocked
  ct_address :: B160
  ct_caller :: B160
  ct_value :: U256

definition Contract_new :: "bytes \<Rightarrow> Bytecode \<Rightarrow> B160 \<Rightarrow> B160 \<Rightarrow> U256 \<Rightarrow> Contract comp" where
  "Contract_new inp b address caller val =
     bind_comp (unwrap (BytecodeLocked_try_from (to_analysed b))) (\<lambda>locked.
       Val \<lparr> ct_input = inp, ct_bytecode = locked, ct_address = address, ct_caller = caller,
             ct_value = val \<rparr>)"

definition new_env :: "Env \<Rightarrow> Bytecode \<Rightarrow> Contract comp" where
  "new_env env b =
     (let contract_address = (case transact_to (tx env) of
          TransactCall caller \<Rightarrow> caller
        | TransactCreate _ \<Rightarrow> 0) in
      Contract_new (tx_data (tx env)) b contract_address (tx_caller (tx env)) (tx_value (tx env)))"

definition is_valid_jump :: "Contract \<Rightarrow> nat \<Rightarrow> bool" where
  "is_valid_jump c possition = is_valid (bl_jump_map (ct_bytecode c)) possition"

definition new_with_context :: "bytes \<Rightarrow> Bytecode \<Rightarrow> CallContext \<Rightarrow> Contract comp" where
  "new_with_context inp b ctx =
     Contract_new inp b (ctx_address ctx) (ctx_caller ctx) (ctx_apparent_value ctx)"

section \<open>Meaning of the jump map\<close>

text \<open>
  The positions where an instruction starts, as the EVM defines them: execution from the first byte,
  each instruction followed by its immediate bytes.
\<close>

definition immediate_len :: "u8 \<Rightarrow> nat" where
  "immediate_len opcode = (if 0x60 \<le> unat opcode \<and> unat opcode \<le> 0x7f then unat opcode - 0x5f else 0)"

inductive starts :: "bytes \<Rightarrow> nat \<Rightarrow> nat \<Rightarrow> bool" for code :: bytes and i :: nat where
  first: "starts code i i"
| following: "starts code i j \<Longrightarrow> j < length code \<Longrightarrow> starts code i (j + 1 + immediate_len (code ! j))"

lemma starts_unroll:
  "starts code i j \<longleftrightarrow> j = i \<or> (i < length code \<and> starts code (i + 1 + immediate_len (code ! i)) j)"
  (is "_ = ?R j")
proof
  show "starts code i j \<Longrightarrow> ?R j" 
    by (induction rule: starts.induct) (auto intro: starts.first starts.following [simplified])
next
  have "starts code (i + 1 + immediate_len (code ! i)) j \<Longrightarrow> i < length code \<Longrightarrow> starts code i j"
    by (induction rule: starts.induct)
       (use starts.first starts.following [simplified] in \<open>fastforce simp: add.commute\<close>)+
  then show "?R j \<Longrightarrow> starts code i j" by (auto intro: starts.first)
qed

lemma starts_beyond: "length code \<le> i \<Longrightarrow> starts code i j \<longleftrightarrow> j = i"
  using starts_unroll [of code i j] by auto

lemma push_immediate:
  "opcode - 0x60 < 32 \<longleftrightarrow> 0x60 \<le> unat opcode \<and> unat opcode \<le> 0x7f"
  "opcode - 0x60 < 32 \<Longrightarrow> unat (opcode - 0x60 + 2) = 1 + immediate_len opcode" for opcode :: u8
proof -
  have s: "unat (opcode - 0x60) = (if 0x60 \<le> unat opcode then unat opcode - 0x60 else unat opcode + 160)"
    unfolding unat_sub_if_size by (simp add: word_size)
  show 1: "opcode - 0x60 < 32 \<longleftrightarrow> 0x60 \<le> unat opcode \<and> unat opcode \<le> 0x7f"
    unfolding word_less_nat_alt s by auto
  show "unat (opcode - 0x60 + 2) = 1 + immediate_len opcode" if "opcode - 0x60 < 32"
    unfolding push_width [OF that] using that 1 s by (auto simp: immediate_len_def)
qed

lemma length_analyze_loop [simp]: "length (analyze_loop code i jumps) = length jumps"
  by (induction code i jumps rule: analyze_loop.induct)
     (subst analyze_loop.simps, auto simp: Let_def)

lemma analyze_loop_valid:
  "length jumps = length code \<Longrightarrow>
   is_valid (analyze_loop code i jumps) pc \<longleftrightarrow>
     is_valid jumps pc \<or> (pc < length code \<and> starts code i pc \<and> code ! pc = OP_JUMPDEST)"
proof (induction code i jumps rule: analyze_loop.induct)
  case (1 code i jumps)
  show ?case
  proof (cases "i < length code")
    case False
    then show ?thesis by (auto simp: analyze_loop.simps [of code i] starts_beyond)
  next
    case True
    consider (dest) "code ! i = OP_JUMPDEST"
      | (push) "code ! i \<noteq> OP_JUMPDEST" "code ! i - OP_PUSH1 < 32"
      | (other) "code ! i \<noteq> OP_JUMPDEST" "\<not> code ! i - OP_PUSH1 < 32" by blast
    then show ?thesis
    proof cases
      case dest
      then have "immediate_len (code ! i) = 0" by (simp add: immediate_len_def)
      then show ?thesis
        using 1 True dest
        by (auto simp: analyze_loop.simps [of code i] starts_unroll [of code i] is_valid_def nth_list_update)
    next
      case push
      then show ?thesis
        using 1 True push_immediate(2) [of "code ! i"]
        by (auto simp: analyze_loop.simps [of code i] starts_unroll [of code i])
    next
      case other
      then have "immediate_len (code ! i) = 0"
        using push_immediate(1) [of "code ! i"] by (auto simp: immediate_len_def)
      then show ?thesis
        using 1 True other
        by (auto simp: analyze_loop.simps [of code i] starts_unroll [of code i])
    qed
  qed
qed

lemma analyze_valid:
  "is_valid (analyze code) pc \<longleftrightarrow> pc < length code \<and> starts code 0 pc \<and> code ! pc = OP_JUMPDEST"
  by (simp add: analyze_def analyze_loop_valid) (auto simp: is_valid_def)


lemma starts_prefix:
  assumes "j < length code"
  shows "starts (code @ zs) i j \<longleftrightarrow> starts code i j"
proof
  have "starts (code @ zs) i j \<Longrightarrow> j < length code \<longrightarrow> starts code i j"
    by (induction rule: starts.induct)
       (auto intro: starts.first starts.following [simplified] simp: nth_append)
  then show "starts (code @ zs) i j \<Longrightarrow> starts code i j" using assms by simp
next
  show "starts code i j \<Longrightarrow> starts (code @ zs) i j"
  proof (induction rule: starts.induct)
    case (following j)
    then show ?case using starts.following [of "code @ zs" i j] by (simp add: nth_append)
  qed (rule starts.first)
qed

section \<open>Padding\<close>

text \<open>
  What the interpreter's unchecked reads rely on: the code is followed by zero bytes (\<open>STOP\<close>), and by
  at least 33 of them unless it is empty, so that neither the next opcode nor the immediate bytes of
  a push lie beyond the buffer.
\<close>

definition padded :: "bytes \<Rightarrow> nat \<Rightarrow> bool" where
  "padded bs len \<longleftrightarrow>
     len < length bs \<and> (0 < len \<longrightarrow> len + 33 \<le> length bs) \<and> list_all (\<lambda>b. b = 0) (drop len bs)"

definition map_exact :: "bytes \<Rightarrow> JumpMap \<Rightarrow> bool" where
  "map_exact bs m \<longleftrightarrow>
     length m \<le> length bs \<and> (\<forall>pc < length bs. is_valid m pc = is_valid (analyze bs) pc)"

definition bytecode_wf :: "Bytecode \<Rightarrow> bool" where
  "bytecode_wf b \<longleftrightarrow>
     (case bc_state b of
        Raw \<Rightarrow> True
      | Checked len \<Rightarrow> padded (bytecode b) len
      | Analysed len m \<Rightarrow> padded (bytecode b) len \<and> map_exact (bytecode b) m)"

definition locked_wf :: "BytecodeLocked \<Rightarrow> bool" where
  "locked_wf b \<longleftrightarrow> padded (bl_bytecode b) (bl_len b) \<and> map_exact (bl_bytecode b) (bl_jump_map b)"

lemma padded_nth: "padded bs len \<Longrightarrow> len \<le> i \<Longrightarrow> i < length bs \<Longrightarrow> bs ! i = 0"
  unfolding padded_def list_all_length
  by (metis add_diff_inverse_nat diff_less_mono length_drop linorder_not_less nth_drop order.strict_implies_order)

lemma padded_append: "padded (code @ replicate 33 0) (length code)"
  by (simp add: padded_def list_all_length)

lemma map_exact_analyze [simp]: "map_exact bs (analyze bs)"
  by (simp add: map_exact_def analyze_def)

lemma map_exactD: "map_exact bs m \<Longrightarrow> is_valid m pc \<Longrightarrow> pc < length bs \<and> bs ! pc = OP_JUMPDEST"
  by (metis (no_types, lifting) analyze_valid is_valid_def map_exact_def order_less_le_trans)

lemma locked_jump_lt:
  assumes "locked_wf b" "is_valid (bl_jump_map b) pc"
  shows "pc < bl_len b"
proof (rule ccontr)
  assume "\<not> pc < bl_len b"
  moreover have "pc < length (bl_bytecode b)" "bl_bytecode b ! pc = OP_JUMPDEST"
    using assms map_exactD unfolding locked_wf_def by blast+
  ultimately show False using padded_nth [of "bl_bytecode b" "bl_len b" pc] assms
    by (simp add: locked_wf_def)
qed

lemma bytecode_wf_new [simp]: "bytecode_wf Bytecode_new" "bytecode_wf (new_raw L bs)"
  "bytecode_wf (new_raw_with_hash bs h)"
proof -
  have "\<not> is_valid (analyze [0]) 0" by (simp add: analyze_valid)
  then show "bytecode_wf Bytecode_new"
    by (auto simp: bytecode_wf_def Bytecode_new_def padded_def map_exact_def is_valid_def)
qed (simp_all add: bytecode_wf_def new_raw_def new_raw_with_hash_def)

lemma bytecode_wf_to_checked [simp]: "bytecode_wf b \<Longrightarrow> bytecode_wf (to_checked b)"
  by (auto simp: bytecode_wf_def to_checked_def padded_append Let_def split: BytecodeState.splits)

lemma bytecode_wf_to_analysed [simp]: "bytecode_wf b \<Longrightarrow> bytecode_wf (to_analysed b)"
  by (auto simp: bytecode_wf_def to_analysed_def to_checked_def padded_append Let_def
      split: BytecodeState.splits)

lemma bytecode_wf_unlock: "bytecode_wf (unlock b) = locked_wf b"
  by (simp add: bytecode_wf_def unlock_def locked_wf_def)

lemma original_bytes_to_analysed:
  "bytecode_wf b \<Longrightarrow> original_bytes (to_analysed b) = original_bytes b"
  by (auto simp: original_bytes_def to_analysed_def to_checked_def Bytes_slice_to_def Let_def
      split: BytecodeState.splits)

lemma Bytecode_len_to_analysed [simp]: "Bytecode_len (to_analysed b) = Bytecode_len b"
  by (auto simp: Bytecode_len_def to_analysed_def Let_def split: BytecodeState.splits)

lemma Contract_new_ok:
  assumes "bytecode_wf b"
  shows "ok (\<lambda>c. locked_wf (ct_bytecode c) \<and> unlock (ct_bytecode c) = to_analysed b \<and>
      ct_input c = inp \<and> ct_address c = a \<and> ct_caller c = clr \<and> ct_value c = v)
    (Contract_new inp b a clr v)"
proof -
  obtain len m where s: "bc_state (to_analysed b) = Analysed len m"
    by (cases "bc_state b") (auto simp: to_analysed_def Let_def)
  have "bytecode_wf (to_analysed b)" using assms by simp
  with s show ?thesis
    by (simp add: Contract_new_def BytecodeLocked_try_from_def unlock_def bytecode_wf_def locked_wf_def)
qed

text \<open>
  C6. Jump destinations: for every code, the contract built from it accepts a jump to \<open>pc\<close> exactly
  when \<open>pc\<close> is inside the original code, holds a \<open>JUMPDEST\<close> and is an instruction start of the
  original code: the one-pass scan of the padded buffer neither accepts a \<open>0x5b\<close> inside the
  immediate bytes of a push nor misses a destination.
\<close>
theorem jump_destinations_exact:
  "ok (\<lambda>c. is_valid_jump c pc \<longleftrightarrow> pc < length code \<and> starts code 0 pc \<and> code ! pc = 0x5b)
     (Contract_new inp (new_raw L code) address caller val)"
proof -
  have "(code @ replicate 33 0) ! pc \<noteq> 0x5b" if "\<not> pc < length code" "pc < length code + 33"
    using that by (simp add: nth_append)
  then show ?thesis
    by (auto simp: Contract_new_def new_raw_def to_analysed_def to_checked_def Let_def
        BytecodeLocked_try_from_def is_valid_jump_def analyze_valid nth_append starts_prefix)
qed

text \<open>
  C31. Code padding: a contract built from well-formed code (raw code of any content included) has
  its buffer padded so that, from any position inside the code, the opcode, all the immediate bytes
  of the longest push and the following opcode are inside the buffer; every position beyond the
  code is a \<open>STOP\<close>; and the original code is recovered unchanged.
\<close>
theorem contract_padding_safe:
  assumes "bytecode_wf b"
  shows "ok (\<lambda>c. (\<forall>pc < bl_len (ct_bytecode c). pc + 33 < length (bl_bytecode (ct_bytecode c))) \<and>
        (\<forall>pc. bl_len (ct_bytecode c) \<le> pc \<longrightarrow> pc < length (bl_bytecode (ct_bytecode c)) \<longrightarrow>
           bl_bytecode (ct_bytecode c) ! pc = 0) \<and>
        bl_bytecode (ct_bytecode c) \<noteq> [] \<and>
        original_bytecode_slice (ct_bytecode c) = original_bytes b)
      (Contract_new inp b address caller val)"
proof (rule ok_mono [OF Contract_new_ok [OF assms]], elim conjE, intro conjI)
  fix c assume w: "locked_wf (ct_bytecode c)" and u: "unlock (ct_bytecode c) = to_analysed b"
  let ?l = "ct_bytecode c"
  have p: "padded (bl_bytecode ?l) (bl_len ?l)" using w by (simp add: locked_wf_def)
  show "\<forall>pc < bl_len ?l. pc + 33 < length (bl_bytecode ?l)" using p by (auto simp: padded_def)
  show "\<forall>pc. bl_len ?l \<le> pc \<longrightarrow> pc < length (bl_bytecode ?l) \<longrightarrow> bl_bytecode ?l ! pc = 0"
    using padded_nth [OF p] by blast
  show "bl_bytecode ?l \<noteq> []" using p by (auto simp: padded_def)
  have "original_bytecode_slice ?l = original_bytes (unlock ?l)"
    by (simp add: original_bytes_def unlock_def original_bytecode_slice_def)
  then show "original_bytecode_slice ?l = original_bytes b"
    by (simp add: u original_bytes_to_analysed [OF assms])
qed

theorem contract_padding_safe_witness:
  "ok (\<lambda>c. original_bytecode_slice (ct_bytecode c) = Val [0x60, 0x5b, 0x5b] \<and>
        bl_bytecode (ct_bytecode c) \<noteq> [])
     (Contract_new [] (new_raw_with_hash [0x60, 0x5b, 0x5b] 0) 1 2 3)"
  using contract_padding_safe [of "new_raw_with_hash [0x60, 0x5b, 0x5b] 0" "[]" 1 2 3]
  by (simp only: bytecode_wf_new) (auto elim!: ok_mono simp: original_bytes_def new_raw_with_hash_def)

end
