(* ===== verification/Evm_Stack.thy ===== *)
theory Evm_Stack
  imports Instruction_Result
begin

text \<open>
  The operand stack (\<open>crates/interpreter/src/interpreter/stack.rs\<close>). The stack is the vector
  \<open>data\<close> of the source, its top at the end. An unsafe operation whose length precondition fails is
  undefined behaviour in Rust and \<open>Panic\<close> here; a returned \<open>&mut U256\<close> to the new top is
  modelled by the value it points to, and a write through it by \<open>set_top\<close>. The lemmas show that no
  operation exceeds \<open>STACK_LIMIT\<close>, what each one does to the top elements, and that the limb-wise
  \<open>push_slice\<close> equals pushing the big-endian value of the slice.
\<close>

type_synonym Stack = "U256 list"

definition STACK_LIMIT :: nat where "STACK_LIMIT = 1024"

definition Stack_new :: Stack where "Stack_new = []"

definition reduce_one :: "Stack \<Rightarrow> InstructionResult + Stack" where
  "reduce_one st = (if length st < 1 then Inl StackUnderflow else Inr (take (length st - 1) st))"

definition Stack_pop :: "Stack \<Rightarrow> InstructionResult + (U256 \<times> Stack)" where
  "Stack_pop st = (if st = [] then Inl StackUnderflow else Inr (last st, butlast st))"

definition pop_unsafe :: "Stack \<Rightarrow> (U256 \<times> Stack) comp" where
  "pop_unsafe st =
     (if length st < 1 then Panic
      else (let len = length st - 1 in Val (st ! len, take len st)))"

definition top_unsafe :: "Stack \<Rightarrow> U256 comp" where
  "top_unsafe st = (if length st < 1 then Panic else Val (st ! (length st - 1)))"

definition set_top :: "U256 \<Rightarrow> Stack \<Rightarrow> Stack" where
  "set_top v st = st[length st - 1 := v]"

definition pop_top_unsafe :: "Stack \<Rightarrow> (U256 \<times> U256 \<times> Stack) comp" where
  "pop_top_unsafe st =
     (if length st < 2 then Panic
      else (let len = length st - 1; pop = st ! len; st' = take len st in
            Val (pop, st' ! (len - 1), st')))"

definition pop2_top_unsafe :: "Stack \<Rightarrow> (U256 \<times> U256 \<times> U256 \<times> Stack) comp" where
  "pop2_top_unsafe st =
     (if length st < 3 then Panic
      else (let pop1 = st ! (length st - 1); len = length st - 2; pop2 = st ! len;
                st' = take len st in
            Val (pop1, pop2, st' ! (len - 1), st')))"

definition pop2_unsafe :: "Stack \<Rightarrow> (U256 \<times> U256 \<times> Stack) comp" where
  "pop2_unsafe st =
     (if length st < 2 then Panic
      else (let len = length st - 2 in Val (st ! (len + 1), st ! len, take len st)))"

definition pop3_unsafe :: "Stack \<Rightarrow> (U256 \<times> U256 \<times> U256 \<times> Stack) comp" where
  "pop3_unsafe st =
     (if length st < 3 then Panic
      else (let len = length st - 3 in
            Val (st ! (len + 2), st ! (len + 1), st ! len, take len st)))"

definition pop4_unsafe :: "Stack \<Rightarrow> (U256 \<times> U256 \<times> U256 \<times> U256 \<times> Stack) comp" where
  "pop4_unsafe st =
     (if length st < 4 then Panic
      else (let len = length st - 4 in
            Val (st ! (len + 3), st ! (len + 2), st ! (len + 1), st ! len, take len st)))"

definition push_b256 :: "B256 \<Rightarrow> Stack \<Rightarrow> InstructionResult + Stack" where
  "push_b256 value st =
     (if length st + 1 > STACK_LIMIT then Inl StackOverflow
      else Inr (st @ [from_be_bytes (to_be_bytes 32 value)]))"

definition Stack_push :: "U256 \<Rightarrow> Stack \<Rightarrow> InstructionResult + Stack" where
  "Stack_push value st =
     (if length st + 1 > STACK_LIMIT then Inl StackOverflow else Inr (st @ [value]))"

definition peek :: "nat \<Rightarrow> Stack \<Rightarrow> InstructionResult + U256" where
  "peek no_from_top st =
     (if length st > no_from_top then Inr (st ! (length st - no_from_top - 1))
      else Inl StackUnderflow)"

definition Stack_dup :: "nat \<Rightarrow> Stack \<Rightarrow> InstructionResult + Stack" where
  "Stack_dup n st =
     (let len = length st in
      if len < n then Inl StackUnderflow
      else if len + 1 > STACK_LIMIT then Inl StackOverflow
      else Inr (st @ [st ! (len - n)]))"

definition Stack_swap :: "nat \<Rightarrow> Stack \<Rightarrow> InstructionResult + Stack" where
  "Stack_swap n st =
     (let len = length st in
      if len \<le> n then Inl StackUnderflow
      else (let pa = st ! (len - 1); pb = st ! (len - 1 - n) in
            Inr (st[len - 1 := pb, len - 1 - n := pa])))"

definition Stack_set :: "nat \<Rightarrow> U256 \<Rightarrow> Stack \<Rightarrow> InstructionResult + Stack" where
  "Stack_set no_from_top val st =
     (if length st > no_from_top then Inr (st[length st - no_from_top - 1 := val])
      else Inl StackUnderflow)"

text \<open>
  \<open>push_slice::<N>\<close> assembles the four 64-bit limbs of the new slot. \<open>dangling n part\<close> is the
  zeroed 8-byte buffer with \<open>part\<close> copied to its end, read big-endian.
\<close>

definition dangling :: "bytes \<Rightarrow> u64" where
  "dangling part = from_be_bytes (replicate (8 - length part) 0 @ part)"

definition push_slice_limbs :: "nat \<Rightarrow> bytes \<Rightarrow> u64 list" where
  "push_slice_limbs n sl =
     (if n < 8 then [dangling sl, 0, 0, 0]
      else if n < 16 then
        [from_be_bytes (slice (n - 8) 8 sl),
         (if n \<noteq> 8 then dangling (take (n - 8) sl) else 0), 0, 0]
      else if n < 24 then
        [from_be_bytes (slice (n - 8) 8 sl), from_be_bytes (slice (n - 16) 8 sl),
         (if n \<noteq> 16 then dangling (take (n - 16) sl) else 0), 0]
      else
        [from_be_bytes (slice (n - 8) 8 sl), from_be_bytes (slice (n - 16) 8 sl),
         from_be_bytes (slice (n - 24) 8 sl),
         (if n = 32 then from_be_bytes (take (n - 24) sl)
          else if n \<noteq> 24 then dangling (take (n - 24) sl) else 0)])"

definition of_limbs :: "u64 list \<Rightarrow> U256" where
  "of_limbs ls = foldr (\<lambda>l acc. ucast l OR push_bit 64 acc) ls 0"

definition push_slice :: "nat \<Rightarrow> bytes \<Rightarrow> Stack \<Rightarrow> (InstructionResult + Stack) comp" where
  "push_slice n sl st =
     (let new_len = length st + 1 in
      if new_len > STACK_LIMIT then Val (Inl StackOverflow)
      else if length sl \<noteq> n \<or> n > 32 then Panic
      else Val (Inr (st @ [of_limbs (push_slice_limbs n sl)])))"

section \<open>Effect of the operations\<close>

lemma push_b256_eq: "push_b256 v st = Stack_push v st"
  by (simp add: push_b256_def Stack_push_def from_to_be_bytes)

text \<open>The unsafe reads, on a stack whose top elements are written out.\<close>

lemma pop_unsafe_snoc [simp]: "pop_unsafe (st @ [a]) = Val (a, st)"
  by (simp add: pop_unsafe_def)

lemma top_unsafe_snoc [simp]: "top_unsafe (st @ [a]) = Val a"
  by (simp add: top_unsafe_def)

lemma set_top_snoc [simp]: "set_top v (st @ [a]) = st @ [v]"
  by (simp add: set_top_def)

lemma pop_top_unsafe_snoc [simp]: "pop_top_unsafe (st @ [b, a]) = Val (a, b, st @ [b])"
  by (simp add: pop_top_unsafe_def Let_def nth_append)

lemma pop2_top_unsafe_snoc [simp]:
  "pop2_top_unsafe (st @ [c, b, a]) = Val (a, b, c, st @ [c])"
  by (simp add: pop2_top_unsafe_def Let_def nth_append)

lemma pop2_unsafe_snoc [simp]: "pop2_unsafe (st @ [b, a]) = Val (a, b, st)"
  by (simp add: pop2_unsafe_def Let_def nth_append)

lemma pop3_unsafe_snoc [simp]: "pop3_unsafe (st @ [c, b, a]) = Val (a, b, c, st)"
  by (simp add: pop3_unsafe_def Let_def nth_append)

lemma pop4_unsafe_snoc [simp]: "pop4_unsafe (st @ [d, c, b, a]) = Val (a, b, c, d, st)"
  by (simp add: pop4_unsafe_def Let_def nth_append)

lemma length_set_top [simp]: "length (set_top v st) = length st"
  by (simp add: set_top_def)

text \<open>Where the length check of the caller passed, the unsafe reads are within bounds.\<close>

lemma ok_pop_unsafe: "1 \<le> length st \<Longrightarrow> ok (\<lambda>(a, st'). st = st' @ [a]) (pop_unsafe st)"
  by (cases st rule: rev_cases) simp_all

lemma ok_pop_lengths:
  "2 \<le> length st \<Longrightarrow> ok (\<lambda>(a, b, st'). length st' = length st - 2) (pop2_unsafe st)"
  "3 \<le> length st \<Longrightarrow> ok (\<lambda>(a, b, c, st'). length st' = length st - 3) (pop3_unsafe st)"
  "4 \<le> length st \<Longrightarrow> ok (\<lambda>(a, b, c, d, st'). length st' = length st - 4) (pop4_unsafe st)"
  "2 \<le> length st \<Longrightarrow> ok (\<lambda>(a, b, st'). length st' = length st - 1) (pop_top_unsafe st)"
  "3 \<le> length st \<Longrightarrow> ok (\<lambda>(a, b, c, st'). length st' = length st - 2) (pop2_top_unsafe st)"
  "1 \<le> length st \<Longrightarrow> ok (\<lambda>(a, st'). length st' = length st - 1) (pop_unsafe st)"
  by (auto simp: pop2_unsafe_def pop3_unsafe_def pop4_unsafe_def pop_top_unsafe_def
      pop2_top_unsafe_def pop_unsafe_def Let_def)

lemma stack_limit_kept:
  "Stack_push v st = Inr st' \<Longrightarrow> length st' \<le> STACK_LIMIT"
  "Stack_dup n st = Inr st' \<Longrightarrow> length st' \<le> STACK_LIMIT"
  "Stack_swap n st = Inr st' \<Longrightarrow> length st' = length st"
  "reduce_one st = Inr st' \<Longrightarrow> length st' = length st - 1"
  "push_slice n sl st = Val (Inr st') \<Longrightarrow> length st' \<le> STACK_LIMIT"
  by (auto simp: Stack_push_def Stack_dup_def Stack_swap_def reduce_one_def push_slice_def Let_def
      split: if_splits)

lemma stack_errors [simp]:
  "Stack_push v st \<noteq> Inl FatalExternalError" "Stack_dup n st \<noteq> Inl FatalExternalError"
  "Stack_swap n st \<noteq> Inl FatalExternalError" "reduce_one st \<noteq> Inl FatalExternalError"
  by (auto simp: Stack_push_def Stack_dup_def Stack_swap_def reduce_one_def Let_def)

section \<open>Pushing immediate operands\<close>

lemma from_be_bytes_replicate_zero [simp]: "from_be_bytes (replicate k 0 @ bs) = from_be_bytes bs"
proof (induction bs rule: rev_induct)
  case Nil
  have "from_be_bytes (replicate k 0) = (0 :: 'b::len word)"
    by (induction k) (simp_all add: from_be_bytes_def)
  then show ?case by simp
next
  case (snoc b bs)
  then show ?case by (simp add: from_be_bytes_snoc flip: append_assoc)
qed

lemma dangling_eq: "length part \<le> 8 \<Longrightarrow> dangling part = from_be_bytes part"
  by (simp add: dangling_def)

lemma from_be_bytes_append:
  "(from_be_bytes (xs @ ys) :: 'a::len word) =
     push_bit (8 * length ys) (from_be_bytes xs) OR from_be_bytes ys"
proof (induction ys rule: rev_induct)
  case Nil
  then show ?case by simp
next
  case (snoc y ys)
  have "(from_be_bytes (xs @ ys @ [y]) :: 'a word) = push_bit 8 (from_be_bytes (xs @ ys)) OR ucast y"
    using from_be_bytes_snoc [of "xs @ ys" y] by simp
  then show ?case
    by (simp add: snoc.IH from_be_bytes_snoc push_bit_or or.assoc push_bit_push_bit add.commute)
qed

lemma ucast_from_be_bytes:
  assumes "length bs \<le> 8"
  shows "ucast (from_be_bytes bs :: u64) = (from_be_bytes bs :: U256)"
proof (rule bit_word_eqI)
  fix i
  have "i div 8 < length bs \<Longrightarrow> i < 64" using assms by linarith
  then show "bit (ucast (from_be_bytes bs :: u64) :: U256) i = bit (from_be_bytes bs :: U256) i"
    by (auto simp: bit_unsigned_iff bit_from_be_bytes dest: bit_imp_le_length)
qed

lemma from_be_bytes_limb:
  assumes "length ys = 8"
  shows "(from_be_bytes (xs @ ys) :: U256) =
    ucast (from_be_bytes ys :: u64) OR push_bit 64 (from_be_bytes xs)"
  using assms by (simp add: from_be_bytes_append ucast_from_be_bytes or.commute)

lemma from_be_bytes_take_slice:
  assumes "length sl = n" "8 \<le> k" "k \<le> n"
  shows "(from_be_bytes (take k sl) :: U256) =
    ucast (from_be_bytes (slice (k - 8) 8 sl) :: u64) OR push_bit 64 (from_be_bytes (take (k - 8) sl))"
proof -
  have "take k sl = take (k - 8) sl @ slice (k - 8) 8 sl"
    using assms take_add [of "k - 8" 8 sl] by (simp add: slice_def)
  then show ?thesis using assms by (simp add: from_be_bytes_limb)
qed

lemma ucast_limb_short:
  assumes "k \<le> 8" "k \<le> length sl"
  shows "ucast (dangling (take k sl)) = (from_be_bytes (take k sl) :: U256)"
    and "ucast (from_be_bytes (take k sl) :: u64) = (from_be_bytes (take k sl) :: U256)"
  using assms by (simp_all add: dangling_eq ucast_from_be_bytes)

lemma of_limbs_push_slice_limbs:
  assumes "length sl = n" "n \<le> 32"
  shows "of_limbs (push_slice_limbs n sl) = from_be_bytes sl"
proof -
  note chunk = from_be_bytes_take_slice [OF assms(1)]
  have all: "take n sl = sl" using assms by simp
  consider "n < 8" | "8 \<le> n" "n < 16" | "16 \<le> n" "n < 24" | "24 \<le> n" by linarith
  then show ?thesis
  proof cases
    case 1
    then show ?thesis using assms
      by (simp add: push_slice_limbs_def of_limbs_def dangling_eq ucast_from_be_bytes)
  next
    case 2
    then show ?thesis using assms chunk [of n] all
      by (auto simp: push_slice_limbs_def of_limbs_def ucast_limb_short)
  next
    case 3
    then show ?thesis using assms chunk [of n] chunk [of "n - 8"] all
      by (auto simp: push_slice_limbs_def of_limbs_def ucast_limb_short)
  next
    case 4
    then show ?thesis using assms chunk [of n] chunk [of "n - 8"] chunk [of "n - 16"] all
      by (auto simp: push_slice_limbs_def of_limbs_def ucast_limb_short)
  qed
qed

text \<open>
  C37. The limb-wise \<open>push_slice::<N>\<close> is an optimised push: for every \<open>N\<close> up to 32 and every
  \<open>N\<close>-byte operand it stays within the buffers it writes, and it has the effect of pushing the
  big-endian number that the bytes spell, overflow of the stack included.
\<close>
theorem push_slice_eq_push:
  assumes "length sl = n" "n \<le> 32"
  shows "push_slice n sl st = Val (Stack_push (from_be_bytes sl) st)"
  using assms of_limbs_push_slice_limbs [OF assms]
  by (simp add: push_slice_def Stack_push_def Let_def)

theorem push_slice_eq_push_witness:
  "push_slice 9 [1, 0, 0, 0, 0, 0, 0, 0, 2] [] = Val (Inr [18446744073709551618])"
proof -
  have "length [1, 0, 0, 0, 0, 0, 0, 0, 2 :: u8] = 9" "(9 :: nat) \<le> 32" by simp_all
  from push_slice_eq_push [OF this, of "[]"] show ?thesis
    by (simp add: Stack_push_def STACK_LIMIT_def from_be_bytes_def)
qed

section \<open>The stack as a bounded last-in first-out store\<close>

text \<open>
  What the instructions rely on, as an interface: the abstract stack is a list with its top first,
  bounded by a capacity. Duplicating and swapping are specified by their effect on that list.
\<close>

locale bounded_lifo =
  fixes elems :: "'s \<Rightarrow> 'v list"
    and cap :: nat
    and push :: "'v \<Rightarrow> 's \<Rightarrow> 'e + 's"
    and pop :: "'s \<Rightarrow> 'e + ('v \<times> 's)"
    and dup :: "nat \<Rightarrow> 's \<Rightarrow> 'e + 's"
    and swap :: "nat \<Rightarrow> 's \<Rightarrow> 'e + 's"
  assumes push_ok: "length (elems s) < cap \<Longrightarrow> \<exists>s'. push v s = Inr s' \<and> elems s' = v # elems s"
    and push_full: "cap \<le> length (elems s) \<Longrightarrow> \<exists>e. push v s = Inl e"
    and pop_ok: "elems s = v # vs \<Longrightarrow> \<exists>s'. pop s = Inr (v, s') \<and> elems s' = vs"
    and pop_empty: "elems s = [] \<Longrightarrow> \<exists>e. pop s = Inl e"
    and dup_ok: "1 \<le> n \<Longrightarrow> n \<le> length (elems s) \<Longrightarrow> length (elems s) < cap \<Longrightarrow>
      \<exists>s'. dup n s = Inr s' \<and> elems s' = elems s ! (n - 1) # elems s"
    and swap_ok: "n < length (elems s) \<Longrightarrow>
      \<exists>s'. swap n s = Inr s' \<and> elems s' = (elems s)[0 := elems s ! n, n := elems s ! 0]"
begin

lemma push_pop:
  assumes "push v s = Inr s'"
  shows "\<exists>s''. pop s' = Inr (v, s'') \<and> elems s'' = elems s"
proof -
  have "length (elems s) < cap" using assms push_full [of s v] by force
  then have "elems s' = v # elems s" using push_ok [of s v] assms by auto
  then show ?thesis by (rule pop_ok)
qed

lemma dup_pop:
  assumes "1 \<le> n" "n \<le> length (elems s)" "length (elems s) < cap"
  shows "\<exists>s' s''. dup n s = Inr s' \<and> pop s' = Inr (elems s ! (n - 1), s'') \<and> elems s'' = elems s"
  using dup_ok [OF assms] pop_ok by metis

lemma swap_swap:
  assumes "0 < n" "n < length (elems s)"
  shows "\<exists>s' s''. swap n s = Inr s' \<and> swap n s' = Inr s'' \<and> elems s'' = elems s"
proof -
  obtain s' where s': "swap n s = Inr s'" "elems s' = (elems s)[0 := elems s ! n, n := elems s ! 0]"
    using swap_ok assms(2) by blast
  then have len: "n < length (elems s')" using assms by simp
  obtain s'' where s'': "swap n s' = Inr s''" "elems s'' = (elems s')[0 := elems s' ! n, n := elems s' ! 0]"
    using swap_ok [OF len] by blast
  obtain x xs m where x: "elems s = x # xs" "n = Suc m" "m < length xs"
    using assms by (cases "elems s"; cases n) auto
  have "elems s'' = elems s" by (simp add: s'' s' x)
  with s' s'' show ?thesis by blast
qed

end

interpretation evm: bounded_lifo rev STACK_LIMIT Stack_push Stack_pop Stack_dup Stack_swap
proof unfold_locales
  fix s :: Stack and v :: U256 and vs and n :: nat
  show "length (rev s) < STACK_LIMIT \<Longrightarrow> \<exists>s'. Stack_push v s = Inr s' \<and> rev s' = v # rev s"
    by (simp add: Stack_push_def)
  show "STACK_LIMIT \<le> length (rev s) \<Longrightarrow> \<exists>e. Stack_push v s = Inl e"
    by (simp add: Stack_push_def)
  show "rev s = v # vs \<Longrightarrow> \<exists>s'. Stack_pop s = Inr (v, s') \<and> rev s' = vs"
    by (auto simp: Stack_pop_def rev_eq_Cons_iff)
  show "rev s = [] \<Longrightarrow> \<exists>e. Stack_pop s = Inl e"
    by (simp add: Stack_pop_def)
  show "1 \<le> n \<Longrightarrow> n \<le> length (rev s) \<Longrightarrow> length (rev s) < STACK_LIMIT \<Longrightarrow>
      \<exists>s'. Stack_dup n s = Inr s' \<and> rev s' = rev s ! (n - 1) # rev s"
    by (simp add: Stack_dup_def Let_def rev_nth)
  show "\<exists>s'. Stack_swap n s = Inr s' \<and> rev s' = (rev s)[0 := rev s ! n, n := rev s ! 0]"
    if "n < length (rev s)"
  proof -
    have "rev s ! 0 = s ! (length s - 1)" using that by (cases s rule: rev_cases) simp_all
    then show ?thesis using that by (auto simp: Stack_swap_def Let_def rev_nth rev_update)
  qed
qed

text \<open>
  The stack is a bounded last-in first-out store: pushing and then popping gives the value back
  and restores the stack, \<open>DUPn\<close> pushes a copy of the \<open>n\<close>-th element from the top, and
  \<open>SWAPn\<close> is its own inverse.
\<close>
lemma stack_laws:
  "(\<forall>v st st'. Stack_push v st = Inr st' \<longrightarrow> Stack_pop st' = Inr (v, st)) \<and>
   (\<forall>n st. 1 \<le> n \<and> n \<le> length st \<and> length st < STACK_LIMIT \<longrightarrow>
      (\<exists>st'. Stack_dup n st = Inr st' \<and> Stack_pop st' = Inr (rev st ! (n - 1), st))) \<and>
   (\<forall>n st. 0 < n \<and> n < length st \<longrightarrow>
      (\<exists>st'. Stack_swap n st = Inr st' \<and> Stack_swap n st' = Inr st))"
proof (intro conjI allI impI)
  show "Stack_pop st' = Inr (v, st)" if "Stack_push v st = Inr st'" for v st st'
    using evm.push_pop [OF that] by auto
  show "\<exists>st'. Stack_dup n st = Inr st' \<and> Stack_pop st' = Inr (rev st ! (n - 1), st)"
    if "1 \<le> n \<and> n \<le> length st \<and> length st < STACK_LIMIT" for n st
    using evm.dup_pop [of n st] that by fastforce
  show "\<exists>st'. Stack_swap n st = Inr st' \<and> Stack_swap n st' = Inr st"
    if "0 < n \<and> n < length st" for n st
    using evm.swap_swap [of n st] that by fastforce
qed

end
