(* ===== verification/Evm_Memory.thy ===== *)
theory Evm_Memory
  imports Prelude
begin

text \<open>
  The byte memory of a frame (\<open>crates/interpreter/src/interpreter/memory.rs\<close>). Indexing a vector
  out of its bounds, an \<open>unwrap\<close> of \<open>None\<close> and growing a vector beyond \<open>isize::MAX\<close> bytes
  panic. The lemmas give the rounding of \<open>next_multiple_of_32\<close>, the effect of every write on every
  byte, the zero padding of \<open>set_data\<close>, and the round trip of a stored word.
\<close>

type_synonym Memory = bytes

definition Memory_new :: Memory where "Memory_new = []"

definition Memory_resize :: "usize \<Rightarrow> Memory \<Rightarrow> Memory comp" where
  "Memory_resize new_size m =
     (if new_size > isize_MAX then Panic
      else if unat new_size \<le> length m then Val (take (unat new_size) m)
      else Val (m @ replicate (unat new_size - length m) 0))"

definition get_slice :: "usize \<Rightarrow> usize \<Rightarrow> Memory \<Rightarrow> bytes comp" where
  "get_slice offset sz m =
     (let e = offset + sz in
      if offset \<le> e \<and> unat e \<le> length m
      then Val (slice (unat offset) (unat e - unat offset) m) else Panic)"

definition set_byte :: "usize \<Rightarrow> u8 \<Rightarrow> Memory \<Rightarrow> Memory comp" where
  "set_byte index b m =
     (if unat index < length m then Val (m[unat index := b]) else Panic)"

text \<open>\<open>copy_range a b src m\<close> is \<open>m[a..b].copy_from_slice(src)\<close>; \<open>zero_range\<close> clears \<open>m[a..b]\<close>.\<close>

definition copy_range :: "usize \<Rightarrow> usize \<Rightarrow> bytes \<Rightarrow> Memory \<Rightarrow> Memory comp" where
  "copy_range a b src m =
     (if a \<le> b \<and> unat b \<le> length m \<and> length src = unat b - unat a
      then Val (splice (unat a) src m) else Panic)"

definition zero_range :: "usize \<Rightarrow> usize \<Rightarrow> Memory \<Rightarrow> Memory comp" where
  "zero_range a b m =
     (if a \<le> b \<and> unat b \<le> length m
      then Val (splice (unat a) (replicate (unat b - unat a) 0) m) else Panic)"

definition set_u256 :: "usize \<Rightarrow> U256 \<Rightarrow> Memory \<Rightarrow> Memory comp" where
  "set_u256 index v m = copy_range index (index + 32) (to_be_bytes 32 v) m"

definition Memory_set :: "usize \<Rightarrow> bytes \<Rightarrow> Memory \<Rightarrow> Memory comp" where
  "Memory_set offset v m =
     (if v \<noteq> [] then copy_range offset (word_of_nat (length v) + offset) v m else Val m)"

definition set_data :: "usize \<Rightarrow> usize \<Rightarrow> usize \<Rightarrow> bytes \<Rightarrow> Memory \<Rightarrow> Memory comp" where
  "set_data memory_offset data_offset len data m =
     (if length data \<le> unat data_offset then zero_range memory_offset (memory_offset + len) m
      else
        (let data_end = min (data_offset + len) (word_of_nat (length data));
             memory_data_end = memory_offset + (data_end - data_offset) in
         if data_offset \<le> data_end then
           bind_comp
             (copy_range memory_offset memory_data_end
                (slice (unat data_offset) (unat data_end - unat data_offset) data) m)
             (zero_range memory_data_end (memory_offset + len))
         else Panic))"

definition next_multiple_of_32 :: "usize \<Rightarrow> usize option" where
  "next_multiple_of_32 x = (let r = (NOT (x AND 31) + 1) AND 31 in checked_add x r)"

section \<open>Sizes\<close>

lemma unat_and_31: "unat (x AND 31 :: usize) = unat x mod 32"
proof -
  have "x AND 31 = take_bit 5 x" unfolding take_bit_eq_mask by (simp add: mask_eq_exp_minus_1)
  then show ?thesis by (simp only: unsigned_take_bit_eq) (simp add: take_bit_eq_mod)
qed

lemma neg_mod_32: "(2 ^ 64 - r) mod 32 = (32 - r) mod (32 :: nat)" if "r < 32" for r
proof -
  have e: "2 ^ 64 - r = 32 * (2 ^ 59 - 1) + (32 - r)" using that by simp
  show ?thesis by (subst e) (rule mod_mult_self4)
qed

lemma round_up_rest: "unat ((NOT (x AND 31) + 1) AND 31 :: usize) = (32 - unat x mod 32) mod 32"
proof -
  define y where "y = x AND 31"
  have y: "unat y = unat x mod 32" unfolding y_def by (rule unat_and_31)
  have n: "NOT y + 1 = - y" by (simp add: minus_eq_not_plus_1)
  have "unat (- y) mod 32 = (32 - unat y) mod 32"
  proof (cases "y = 0")
    case False
    then have "unat (0 - y) = 2 ^ 64 - unat y" unfolding unat_sub_if' by (simp add: word_size unat_eq_0)
    then show ?thesis using neg_mod_32 [of "unat y"] y by simp
  qed simp
  then show ?thesis unfolding y_def [symmetric] n unat_and_31 y .
qed

lemma round_up_32: "n + (32 - n mod 32) mod 32 = 32 * ((n + 31) div 32)" for n :: nat
proof -
  obtain q r where n: "n = 32 * q + r" and r: "r < 32"
    using mod_div_decomp [of n 32] by (metis mod_less_divisor mult.commute zero_less_numeral)
  have "(32 * q + r + 31) div 32 = q + (r + 31) div 32" by simp
  moreover have "(r + 31) div 32 = (if r = 0 then 0 else 1)"
    using r by (auto intro: div_nat_eqI)
  ultimately show ?thesis using r by (simp add: n)
qed

lemma next_multiple_of_32_eq:
  "next_multiple_of_32 x =
     (let n = 32 * ((unat x + 31) div 32) in if n < 2 ^ 64 then Some (word_of_nat n) else None)"
proof -
  define r where "r = (NOT (x AND 31) + 1) AND 31"
  have s: "unat x + unat r = 32 * ((unat x + 31) div 32)"
    unfolding r_def by (simp only: round_up_rest round_up_32)
  have e: "x + r = word_of_nat (unat x + unat r)" by simp
  show ?thesis
    unfolding next_multiple_of_32_def r_def [symmetric] checked_add_def Let_def s [symmetric] e
    by simp
qed

text \<open>
  \<open>next_multiple_of_32\<close> rounds up to the next multiple of 32 by bit tricks: it returns
  \<open>32 * ceil(x / 32)\<close> for every \<open>x\<close> for which that fits in a \<open>usize\<close>, and \<open>None\<close> otherwise.
\<close>
lemma next_multiple_of_32_exact:
  "next_multiple_of_32 x =
     (let n = 32 * ((unat x + 31) div 32) in if n < 2 ^ 64 then Some (word_of_nat n) else None)"
  by (rule next_multiple_of_32_eq)

section \<open>Reads and writes\<close>

lemma unat_add_usize: "unat a + unat b < 2 ^ 64 \<Longrightarrow> unat (a + b :: usize) = unat a + unat b"
  using unat_add_nowrap [of a b] by simp

lemma unat_of_nat_usize: "n < 2 ^ 64 \<Longrightarrow> unat (word_of_nat n :: usize) = n"
  by (simp add: unsigned_of_nat take_bit_nat_eq_self)

lemma get_slice_Val:
  assumes "unat off + unat sz \<le> length m" "length m < 2 ^ 63"
  shows "get_slice off sz m = Val (slice (unat off) (unat sz) m)"
  using assms by (simp add: get_slice_def word_le_nat_alt unat_add_usize)

lemma copy_range_Val:
  assumes "unat a + length src \<le> length m" "unat b = unat a + length src"
  shows "copy_range a b src m = Val (splice (unat a) src m)"
  using assms by (simp add: copy_range_def word_le_nat_alt)

lemma zero_range_Val:
  assumes "unat a \<le> unat b" "unat b \<le> length m"
  shows "zero_range a b m = Val (splice (unat a) (replicate (unat b - unat a) 0) m)"
  using assms by (simp add: zero_range_def word_le_nat_alt)

lemma set_u256_Val:
  assumes "unat i + 32 \<le> length m" "length m < 2 ^ 63"
  shows "set_u256 i v m = Val (splice (unat i) (to_be_bytes 32 v) m)"
  using assms by (simp add: set_u256_def copy_range_Val unat_add_usize)

lemma Memory_set_Val:
  assumes "unat off + length v \<le> length m" "length m < 2 ^ 63"
  shows "Memory_set off v m = Val (splice (unat off) v m)"
proof (cases "v = []")
  case True
  then show ?thesis by (simp add: Memory_set_def splice_def)
next
  case False
  have "unat (word_of_nat (length v) :: usize) = length v"
    using assms by (intro unat_of_nat_usize) simp
  then have "unat (word_of_nat (length v) + off) = unat off + length v"
    using assms by (simp add: unat_add_usize)
  with False assms show ?thesis by (simp add: Memory_set_def copy_range_Val)
qed

lemma Memory_set_Nil [simp]: "Memory_set off [] m = Val m"
  by (simp add: Memory_set_def)

lemma set_byte_Val: "unat i < length m \<Longrightarrow> set_byte i b m = Val (m[unat i := b])"
  by (simp add: set_byte_def)

lemma Memory_resize_grow:
  assumes "n \<le> isize_MAX" "length m \<le> unat n"
  shows "Memory_resize n m = Val (m @ replicate (unat n - length m) 0)"
  using assms by (auto simp: Memory_resize_def)

text \<open>The window of \<open>data\<close> that an EVM copy instruction reads: zero beyond the end of \<open>data\<close>.\<close>

definition padded_window :: "nat \<Rightarrow> nat \<Rightarrow> bytes \<Rightarrow> bytes" where
  "padded_window off n data = map (\<lambda>i. if off + i < length data then data ! (off + i) else 0) [0..<n]"

lemma length_padded_window [simp]: "length (padded_window off n data) = n"
  by (simp add: padded_window_def)

lemma padded_window_beyond: "length data \<le> off \<Longrightarrow> padded_window off n data = replicate n 0"
  by (rule nth_equalityI) (auto simp: padded_window_def)

lemma padded_window_split:
  assumes "off < length data" "k = min n (length data - off)"
  shows "padded_window off n data = slice off k data @ replicate (n - k) 0"
  by (rule nth_equalityI) (use assms in \<open>auto simp: padded_window_def nth_append slice_def\<close>)

lemma splice_append:
  assumes "off + length ys + length zs \<le> length xs"
  shows "splice (off + length ys) zs (splice off ys xs) = splice off (ys @ zs) xs"
  using assms by (simp add: splice_def min_absorb2 ac_simps)

lemma set_data_Val:
  assumes m: "unat mo + unat len \<le> length m" "length m < 2 ^ 63" and d: "length data < 2 ^ 63"
  shows "set_data mo dof len data m = Val (splice (unat mo) (padded_window (unat dof) (unat len) data) m)"
proof (cases "length data \<le> unat dof")
  case True
  have "unat (mo + len) = unat mo + unat len" using m by (simp add: unat_add_usize)
  with True m show ?thesis by (simp add: set_data_def zero_range_Val padded_window_beyond)
next
  case False
  define k where "k = min (unat len) (length data - unat dof)"
  define de where "de = min (dof + len) (word_of_nat (length data))"
  have l: "unat (word_of_nat (length data) :: usize) = length data"
    using d by (intro unat_of_nat_usize) simp
  have s: "unat (dof + len) = unat dof + unat len"
    using False m d by (intro unat_add_usize) simp
  have de: "unat de = unat dof + k"
    using False s l by (auto simp: de_def k_def min_def word_le_nat_alt)
  then have k': "unat (de - dof) = k"
    using unat_sub_nowrap [of dof de] by (simp add: word_le_nat_alt)
  have e1: "unat (mo + (de - dof)) = unat mo + k"
    using m k' by (simp add: unat_add_usize k_def)
  have e2: "unat (mo + len) = unat mo + unat len" using m by (simp add: unat_add_usize)
  have kl: "k \<le> unat len" "unat dof + k \<le> length data" using False by (auto simp: k_def)
  have "set_data mo dof len data m =
      bind_comp (copy_range mo (mo + (de - dof)) (slice (unat dof) k data) m)
        (zero_range (mo + (de - dof)) (mo + len))"
    using False de by (simp add: set_data_def Let_def de_def [symmetric] word_le_nat_alt)
  also have "\<dots> = Val (splice (unat mo + k) (replicate (unat len - k) 0)
      (splice (unat mo) (slice (unat dof) k data) m))"
    using m kl e1 e2 by (simp add: copy_range_Val zero_range_Val)
  also have "\<dots> = Val (splice (unat mo) (padded_window (unat dof) (unat len) data) m)"
    using splice_append [of "unat mo" "slice (unat dof) k data" "replicate (unat len - k) 0" m] m kl False
    by (simp add: padded_window_split [OF _ k_def])
  finally show ?thesis .
qed

text \<open>
  C38. \<open>Memory::set_data\<close>, the copy behind \<open>CALLDATACOPY\<close>, \<open>CODECOPY\<close> and \<open>EXTCODECOPY\<close>: within a
  memory range the caller has already resized it returns (no slice index is out of range, for any
  data offset, even one whose sum with the length exceeds \<open>usize\<close>), writes exactly the range
  \<open>[memory_offset, memory_offset + len)\<close>, with the byte of \<open>data\<close> where there is one and zero where
  there is none, and keeps every other byte and the length.
\<close>
theorem set_data_pads_with_zeros:
  assumes "unat mo + unat len \<le> length m" "length m < 2 ^ 63" "length data < 2 ^ 63"
  shows "ok (\<lambda>m'. length m' = length m \<and>
      (\<forall>i < length m. m' ! i =
         (if unat mo \<le> i \<and> i < unat mo + unat len
          then (if unat dof + (i - unat mo) < length data then data ! (unat dof + (i - unat mo)) else 0)
          else m ! i)))
    (set_data mo dof len data m)"
  using assms by (auto simp: set_data_Val nth_splice padded_window_def)

theorem set_data_pads_with_zeros_witness:
  "ok (\<lambda>m'. m' ! 1 = 8 \<and> m' ! 2 = 0 \<and> m' ! 0 = 5)
     (set_data 1 1 2 [7, 8] [5, 5, 5, 5])"
  using set_data_pads_with_zeros [of 1 2 "[5, 5, 5, 5]" "[7, 8]" 1]
  by (auto elim!: ok_mono)

text \<open>
  C39. A stored word is read back: after \<open>set_u256\<close> inside the memory, \<open>get_slice\<close> of the same 32
  bytes gives the big-endian encoding of the word (so \<open>MLOAD\<close> after \<open>MSTORE\<close> returns the value),
  and any 32 bytes that do not overlap them read as before.
\<close>
theorem set_u256_get_slice:
  assumes "unat i + 32 \<le> length m" "unat j + 32 \<le> length m" "length m < 2 ^ 63"
  shows "ok (\<lambda>m'. length m' = length m \<and>
        ok (\<lambda>bs. from_be_bytes bs = v) (get_slice i 32 m') \<and>
        (unat j + 32 \<le> unat i \<or> unat i + 32 \<le> unat j \<longrightarrow> get_slice j 32 m' = get_slice j 32 m))
      (set_u256 i v m)"
proof -
  have "from_be_bytes (to_be_bytes 32 v) = v" by (rule from_to_be_bytes) simp
  moreover have "slice (unat i) 32 (splice (unat i) (to_be_bytes 32 v) m) = to_be_bytes 32 v"
    using assms slice_splice_same [of "unat i" "to_be_bytes 32 v" m] by simp
  ultimately show ?thesis
    using assms by (auto simp: set_u256_Val get_slice_Val intro: slice_splice_other)
qed

theorem set_u256_get_slice_witness:
  "ok (\<lambda>m'. ok (\<lambda>bs. from_be_bytes bs = (77 :: U256)) (get_slice 32 32 m') \<and>
     get_slice 0 32 m' = get_slice 0 32 (replicate 64 1)) (set_u256 32 77 (replicate 64 1))"
  using set_u256_get_slice [of 32 "replicate 64 1" 0 77] by (auto elim!: ok_mono)

end
