(* ===== verification/I256.thy ===== *)
theory I256
  imports Prelude "HOL-Library.Signed_Division"
begin

text \<open>
  Two's complement arithmetic on 256-bit words (\<open>crates/interpreter/src/instructions/i256.rs\<close>): the
  sign and magnitude routines behind \<open>SDIV\<close>, \<open>SMOD\<close>, \<open>SLT\<close>, \<open>SGT\<close> and \<open>SAR\<close>. A \<open>&mut U256\<close>
  argument is returned beside the result. The theorems say that each routine computes the signed
  operation on the integers \<open>sint\<close> reads from the words.
\<close>

datatype Sign = Plus | Minus | Zero

datatype Ordering = Less | Equal | Greater

definition MIN_NEGATIVE_VALUE :: U256 where
  "MIN_NEGATIVE_VALUE = push_bit 192 0x8000000000000000"

definition FLIPH_BITMASK_U64 :: u64 where
  "FLIPH_BITMASK_U64 = 0x7FFFFFFFFFFFFFFF"

definition two_compl :: "U256 \<Rightarrow> U256" where
  "two_compl op = - op"

definition i256_sign :: "bool \<Rightarrow> U256 \<Rightarrow> Sign \<times> U256" where
  "i256_sign DO_TWO_COMPL val =
     (if \<not> bit val 255 then (if val = 0 then Zero else Plus, val)
      else (Minus, if DO_TWO_COMPL then two_compl val else val))"

definition u256_remove_sign :: "U256 \<Rightarrow> U256" where
  "u256_remove_sign val =
     push_bit 192 (ucast (limb 3 val AND FLIPH_BITMASK_U64)) OR push_bit 128 (ucast (limb 2 val))
       OR push_bit 64 (ucast (limb 1 val)) OR ucast (limb 0 val)"

definition u256_cmp :: "U256 \<Rightarrow> U256 \<Rightarrow> Ordering" where
  "u256_cmp a b = (if a < b then Less else if a = b then Equal else Greater)"

definition i256_cmp :: "U256 \<Rightarrow> U256 \<Rightarrow> Ordering" where
  "i256_cmp first second =
     (let (first_sign, first) = i256_sign False first;
          (second_sign, second) = i256_sign False second in
      case (first_sign, second_sign) of
        (Zero, Zero) \<Rightarrow> Equal
      | (Zero, Plus) \<Rightarrow> Less
      | (Zero, Minus) \<Rightarrow> Greater
      | (Minus, Zero) \<Rightarrow> Less
      | (Minus, Plus) \<Rightarrow> Less
      | (Minus, Minus) \<Rightarrow> u256_cmp first second
      | (Plus, Minus) \<Rightarrow> Greater
      | (Plus, Zero) \<Rightarrow> Greater
      | (Plus, Plus) \<Rightarrow> u256_cmp first second)"

text \<open>\<open>div_rem\<close> and \<open>%\<close> of the word library panic on a zero divisor.\<close>

definition i256_div :: "U256 \<Rightarrow> U256 \<Rightarrow> U256 comp" where
  "i256_div first second =
     (let (second_sign, second) = i256_sign True second in
      if second_sign = Zero then Val 0
      else
        (let (first_sign, first) = i256_sign True first in
         if first_sign = Minus \<and> first = MIN_NEGATIVE_VALUE \<and> second = 1
         then Val (two_compl MIN_NEGATIVE_VALUE)
         else if second = 0 then Panic
         else
           (let d = u256_remove_sign (first div second) in
            if d = 0 then Val 0
            else case (first_sign, second_sign) of
                (Zero, Plus) \<Rightarrow> Val d
              | (Plus, Zero) \<Rightarrow> Val d
              | (Zero, Zero) \<Rightarrow> Val d
              | (Plus, Plus) \<Rightarrow> Val d
              | (Minus, Minus) \<Rightarrow> Val d
              | (Zero, Minus) \<Rightarrow> Val (two_compl d)
              | (Plus, Minus) \<Rightarrow> Val (two_compl d)
              | (Minus, Zero) \<Rightarrow> Val (two_compl d)
              | (Minus, Plus) \<Rightarrow> Val (two_compl d))))"

definition i256_mod :: "U256 \<Rightarrow> U256 \<Rightarrow> U256 comp" where
  "i256_mod first second =
     (let (first_sign, first) = i256_sign True first in
      if first_sign = Zero then Val 0
      else
        (let (_, second) = i256_sign True second in
         if second = 0 then Panic
         else
           (let r = u256_remove_sign (first mod second) in
            if r = 0 then Val 0
            else if first_sign = Minus then Val (two_compl r) else Val r)))"

section \<open>Sign and magnitude\<close>

text \<open>The magnitude that \<open>i256_sign True\<close> leaves in its argument.\<close>

definition mag :: "U256 \<Rightarrow> U256" where
  "mag x = (if bit x 255 then - x else x)"

lemma i256_sign_True: "i256_sign True x = (if bit x 255 then Minus else if x = 0 then Zero else Plus, mag x)"
  by (simp add: i256_sign_def mag_def two_compl_def)

lemma i256_sign_False: "i256_sign False x = (if bit x 255 then Minus else if x = 0 then Zero else Plus, x)"
  by (simp add: i256_sign_def)

lemma uint_256: "0 \<le> uint (x :: U256)" "uint (x :: U256) < 2 ^ 256"
  using unsigned_less [of x, where ?'a = int] by simp_all

lemma sint_if_bit: "sint (x :: U256) = (if bit x 255 then uint x - 2 ^ 256 else uint x)"
proof -
  have "bit (uint x) 255 = bit x 255" by (simp add: bit_uint_iff)
  moreover have "take_bit 256 (uint x) = uint x" by (simp add: take_bit_int_eq_self_iff uint_256 [simplified])
  ultimately show ?thesis by (simp add: sint_uint signed_take_bit_eq_take_bit_minus)
qed

lemma sign_bit_iff: "bit (x :: U256) 255 \<longleftrightarrow> sint x < 0"
  using uint_256 [of x] by (simp add: sint_if_bit)

lemma sint_zero_iff: "sint (x :: U256) = 0 \<longleftrightarrow> x = 0"
  by (metis signed_eq_0_iff)

lemma sint_256: "- (2 ^ 255) \<le> sint (x :: U256)" "sint (x :: U256) < 2 ^ 255"
  using sint_ge [of x] sint_lt [of x] by simp_all

lemma uint_mag: "uint (mag x) = \<bar>sint x\<bar>"
proof (cases "bit x 255")
  case True
  have "uint (- x) = (- sint x) mod 2 ^ 256"
    using True by (simp add: uint_word_ariths sint_if_bit)
  also have "\<dots> = - sint x"
    using True sint_256 [of x] by (intro mod_pos_pos_trivial) (simp_all add: sign_bit_iff)
  finally show ?thesis using True by (simp add: mag_def sign_bit_iff)
next
  case False
  then show ?thesis by (simp add: mag_def sint_if_bit uint_256)
qed

lemma mag_zero_iff: "mag x = 0 \<longleftrightarrow> x = 0"
  by (simp add: mag_def)

lemma bit_pushed_limb:
  "n < 256 \<Longrightarrow> bit (push_bit k (ucast y) :: U256) n \<longleftrightarrow> k \<le> n \<and> bit y (n - k)" for y :: u64
  by (auto simp: bit_push_bit_iff bit_unsigned_iff)

lemma bit_limb: "bit (limb i x) m \<longleftrightarrow> m < 64 \<and> bit x (64 * i + m)"
  by (auto simp: limb_def bit_unsigned_iff bit_drop_bit_eq)

lemma u256_remove_sign_eq: "u256_remove_sign x = take_bit 255 x"
proof (rule bit_word_eqI)
  fix n :: nat
  assume "n < LENGTH(256)"
  then have n: "n < 256" by simp
  have f: "FLIPH_BITMASK_U64 = mask 63" by (simp add: FLIPH_BITMASK_U64_def mask_eq_exp_minus_1)
  have "bit (push_bit 192 (ucast (limb 3 x AND FLIPH_BITMASK_U64)) :: U256) n \<longleftrightarrow>
      192 \<le> n \<and> n < 255 \<and> bit x n"
    unfolding bit_pushed_limb [OF n] f bit_and_iff bit_mask_iff bit_limb
    by (cases "192 \<le> n") auto
  moreover have "bit (push_bit 128 (ucast (limb 2 x)) :: U256) n \<longleftrightarrow> 128 \<le> n \<and> n < 192 \<and> bit x n"
    unfolding bit_pushed_limb [OF n] bit_limb by (cases "128 \<le> n") auto
  moreover have "bit (push_bit 64 (ucast (limb 1 x)) :: U256) n \<longleftrightarrow> 64 \<le> n \<and> n < 128 \<and> bit x n"
    unfolding bit_pushed_limb [OF n] bit_limb by (cases "64 \<le> n") auto
  moreover have "bit (ucast (limb 0 x) :: U256) n \<longleftrightarrow> n < 64 \<and> bit x n"
    using n unfolding bit_unsigned_iff bit_limb by auto
  ultimately have "bit (u256_remove_sign x) n \<longleftrightarrow>
      (192 \<le> n \<and> n < 255 \<and> bit x n) \<or> (128 \<le> n \<and> n < 192 \<and> bit x n) \<or>
      (64 \<le> n \<and> n < 128 \<and> bit x n) \<or> (n < 64 \<and> bit x n)"
    unfolding u256_remove_sign_def bit_or_iff by simp
  then show "bit (u256_remove_sign x) n = bit (take_bit 255 x) n"
    unfolding bit_take_bit_iff by (cases "n < 255") auto
qed

lemma u256_remove_sign_id: "uint x < 2 ^ 255 \<Longrightarrow> u256_remove_sign x = x"
  unfolding u256_remove_sign_eq word_uint_eq_iff
  by (simp only: unsigned_take_bit_eq take_bit_int_eq_self uint_256)

lemma sign_cases:
  "(sgn (sint x) = -1 \<and> bit x 255 \<and> x \<noteq> 0) \<or> (sgn (sint x) = 0 \<and> \<not> bit x 255 \<and> x = 0) \<or>
   (sgn (sint x) = 1 \<and> \<not> bit x 255 \<and> x \<noteq> 0)" for x :: U256
  using sign_bit_iff [of x] sint_zero_iff [of x] by (cases "sint x < 0"; cases "sint x = 0") auto

lemma sint_eq_iff: "sint a = sint b \<longleftrightarrow> a = b" for a b :: U256
proof
  assume "sint a = sint b"
  then have "word_of_int (sint a) = (word_of_int (sint b) :: U256)" by (rule arg_cong)
  then show "a = b" by (simp only: of_int_sint scast_id)
qed simp

lemma MIN_NEGATIVE_VALUE_eq: "MIN_NEGATIVE_VALUE = 2 ^ 255" "two_compl MIN_NEGATIVE_VALUE = 2 ^ 255"
  by (simp_all add: MIN_NEGATIVE_VALUE_def two_compl_def push_bit_eq_mult)

lemma mag_quotient:
  assumes "b \<noteq> 0" "\<not> (bit a 255 \<and> mag a = MIN_NEGATIVE_VALUE \<and> mag b = 1)"
  shows "uint (mag a div mag b) < 2 ^ 255"
proof -
  have d: "uint (mag a div mag b) = \<bar>sint a\<bar> div \<bar>sint b\<bar>" by (simp add: uint_div uint_mag)
  have b: "1 \<le> \<bar>sint b\<bar>" using assms(1) sint_zero_iff [of b] by simp
  show ?thesis
  proof (cases "\<bar>sint a\<bar> < 2 ^ 255")
    case True
    have "\<bar>sint a\<bar> div \<bar>sint b\<bar> \<le> \<bar>sint a\<bar>" using b zdiv_mono2 [of "\<bar>sint a\<bar>" 1 "\<bar>sint b\<bar>"] by simp
    with True show ?thesis by (simp add: d)
  next
    case False
    then have a: "sint a = - (2 ^ 255)" using sint_256 [of a] by simp
    then have "bit a 255" by (simp add: sign_bit_iff)
    moreover have "mag a = MIN_NEGATIVE_VALUE"
      unfolding word_uint_eq_iff MIN_NEGATIVE_VALUE_eq by (simp add: uint_mag a)
    ultimately have "mag b \<noteq> 1" using assms(2) by blast
    then have "\<bar>sint b\<bar> \<noteq> 1" by (metis uint_mag uint_1 word_uint_eq_iff)
    with b have "2 \<le> \<bar>sint b\<bar>" by simp
    then have "(2 ^ 255 :: int) div \<bar>sint b\<bar> \<le> 2 ^ 255 div 2" by (intro zdiv_mono2) simp_all
    then show ?thesis by (simp add: d a)
  qed
qed

lemma word_of_uint_signs:
  "word_of_int (sgn (sint a) * uint d) = (if bit a 255 then - d else if a = 0 then 0 else d)"
  for a d :: U256
  using sign_cases [of a] by auto

section \<open>Signed operations\<close>

lemma i256_cmp_eq:
  "i256_cmp a b = (if sint a < sint b then Less else if sint a = sint b then Equal else Greater)"
proof -
  have "a < b \<longleftrightarrow> sint a < sint b" if "bit a 255 = bit b 255"
    using that by (simp add: word_less_def sint_if_bit)
  moreover have "sint a < sint b" if "bit a 255" "\<not> bit b 255"
    using that sign_bit_iff [of a] sign_bit_iff [of b] by linarith
  moreover have "sint b < sint a" if "\<not> bit a 255" "bit b 255"
    using that sign_bit_iff [of a] sign_bit_iff [of b] by linarith
  moreover have "0 < sint b" if "\<not> bit b 255" "b \<noteq> 0"
    using that sign_bit_iff [of b] sint_zero_iff [of b] by linarith
  moreover have "0 < sint a" if "\<not> bit a 255" "a \<noteq> 0"
    using that sign_bit_iff [of a] sint_zero_iff [of a] by linarith
  ultimately show ?thesis
    unfolding i256_cmp_def i256_sign_False u256_cmp_def sint_eq_iff Let_def
    by (cases "bit a 255"; cases "bit b 255"; cases "a = 0"; cases "b = 0") auto
qed

text \<open>
  Signed comparison: \<open>i256_cmp\<close>, which compares sign classes first and then the raw words,
  orders two words as the integers they denote in two's complement.
\<close>
lemma i256_cmp_signed:
  "i256_cmp a b = (if sint a < sint b then Less else if sint a = sint b then Equal else Greater)"
  by (rule i256_cmp_eq)

lemma i256_div_eq: "i256_div a b = Val (word_of_int (sint a sdiv sint b))"
proof (cases "b = 0")
  case True
  then show ?thesis by (simp add: i256_div_def i256_sign_True)
next
  case b: False
  have q: "uint (mag a div mag b) = \<bar>sint a\<bar> div \<bar>sint b\<bar>" by (simp add: uint_div uint_mag)
  show ?thesis
  proof (cases "bit a 255 \<and> mag a = MIN_NEGATIVE_VALUE \<and> mag b = 1")
    case True
    then have "\<bar>sint a\<bar> = 2 ^ 255" "\<bar>sint b\<bar> = 1"
      using uint_mag [of a] uint_mag [of b] by (simp_all add: MIN_NEGATIVE_VALUE_eq)
    then have "sint a sdiv sint b = 2 ^ 255 \<or> sint a sdiv sint b = - (2 ^ 255)"
      using sign_cases [of a] sign_cases [of b] b True by (auto simp: signed_divide_int_def)
    moreover have "word_of_int (2 ^ 255) = (2 ^ 255 :: U256)" "word_of_int (- (2 ^ 255)) = (2 ^ 255 :: U256)"
      by simp_all
    ultimately have "word_of_int (sint a sdiv sint b) = (2 ^ 255 :: U256)" by auto
    with True b show ?thesis
      by (simp add: i256_div_def i256_sign_True MIN_NEGATIVE_VALUE_eq two_compl_def)
  next
    case False
    define d where "d = mag a div mag b"
    have r: "u256_remove_sign d = d"
      unfolding d_def using mag_quotient [OF b False] by (rule u256_remove_sign_id)
    have w: "word_of_int (sint a sdiv sint b) = word_of_int (sgn (sint a) * sgn (sint b) * uint d)"
      by (simp add: d_def q signed_divide_int_def)
    have z: "a = 0 \<Longrightarrow> d = 0" by (simp add: d_def mag_def)
    have "i256_div a b = Val (word_of_int (sgn (sint a) * sgn (sint b) * uint d))"
      using sign_cases [of a] sign_cases [of b] b False z
      unfolding i256_div_def i256_sign_True Let_def
      by (auto simp: d_def [symmetric] r two_compl_def mag_zero_iff)
    then show ?thesis by (simp only: w)
  qed
qed

text \<open>
  C32. Signed division: \<open>i256_div\<close> never panics and is the quotient of the denoted integers
  truncated towards zero, reduced modulo \<open>2 ^ 256\<close> (so the minimum divided by -1 is the minimum),
  and 0 for a zero divisor.
\<close>
theorem i256_div_signed: "i256_div a b = Val (word_of_int (sint a sdiv sint b))"
  by (rule i256_div_eq)

lemma i256_mod_eq: "b \<noteq> 0 \<Longrightarrow> i256_mod a b = Val (word_of_int (sint a smod sint b))"
proof -
  assume b: "b \<noteq> 0"
  define r where "r = mag a mod mag b"
  have q: "uint r = \<bar>sint a\<bar> mod \<bar>sint b\<bar>" by (simp add: r_def uint_mod uint_mag)
  have "0 < \<bar>sint b\<bar>" using b sint_zero_iff [of b] by simp
  then have "uint r < \<bar>sint b\<bar>" by (simp add: q)
  also have "\<dots> \<le> 2 ^ 255" using sint_256 [of b] by simp
  finally have s: "u256_remove_sign r = r" by (rule u256_remove_sign_id)
  have z: "a = 0 \<Longrightarrow> r = 0" by (simp add: r_def mag_def)
  have "i256_mod a b = Val (word_of_int (sgn (sint a) * uint r))"
    using b z unfolding i256_mod_def i256_sign_True Let_def word_of_uint_signs
    by (auto simp: r_def [symmetric] s two_compl_def mag_zero_iff)
  then show ?thesis by (simp only: q signed_modulo_int_def)
qed

text \<open>
  C33. Signed remainder: for a nonzero divisor \<open>i256_mod\<close> does not panic and is the remainder of the
  truncating division, with the sign of the dividend. (\<open>SMOD\<close> guards the zero divisor itself.)
\<close>
theorem i256_mod_signed: "b \<noteq> 0 \<Longrightarrow> i256_mod a b = Val (word_of_int (sint a smod sint b))"
  by (rule i256_mod_eq)

theorem i256_mod_signed_witness: "i256_mod (- 7) 3 = Val (word_of_int (sint (- 7 :: U256) smod sint (3 :: U256)))"
  using i256_mod_signed [of 3 "- 7"] by simp

end
