(* ===== verification/Interp.thy ===== *)
theory Interp
  imports Bytecode Evm_Stack Evm_Memory I256
begin

text \<open>
  The interpreter's state (\<open>crates/interpreter/src/interpreter.rs\<close>), the interface to its host
  (\<open>host.rs\<close>) and the macros every instruction is written with (\<open>instructions/macros.rs\<close>). A macro
  that may \<open>return\<close> from the enclosing instruction takes the rest of the instruction as its last
  argument. \<open>usize\<close> offsets of the instruction pointer are natural numbers counted from the start of
  the code; the gas feature \<open>no_gas_measuring\<close> is off and the feature \<open>memory_limit\<close> is on (off, the
  interpreter behaves as with the limit \<open>u64::MAX\<close>).

  A machine bundles the two arguments of every instruction, \<open>&mut Interpreter\<close> and \<open>&mut dyn Host\<close>.
  The proof rules at the end (collection \<open>vcg\<close>) follow the macros: applied backwards to
  \<open>ok Q (instruction m)\<close> they leave one goal per exit of the instruction.
\<close>

section \<open>State\<close>

record interpreter =
  instruction_pointer :: nat
  instruction_result :: InstructionResult
  gas :: Gas
  memory :: Memory
  stack :: Stack
  return_data_buffer :: bytes
  return_range :: "usize \<times> usize"
  is_static :: bool
  contract :: Contract
  memory_limit :: u64

record 'h machine = interpreter +
  host :: 'h

type_synonym 'h instr = "'h machine \<Rightarrow> 'h machine comp"

abbreviation code_of :: "'z interpreter_scheme \<Rightarrow> bytes" where
  "code_of m \<equiv> bl_bytecode (ct_bytecode (contract m))"

definition CALL_STACK_LIMIT :: u64 where "CALL_STACK_LIMIT = 1024"

definition MAX_CODE_SIZE :: usize where "MAX_CODE_SIZE = 0x6000"

definition MAX_INITCODE_SIZE :: usize where "MAX_INITCODE_SIZE = 2 * MAX_CODE_SIZE"

definition new_with_memory_limit :: "Contract \<Rightarrow> u64 \<Rightarrow> bool \<Rightarrow> u64 \<Rightarrow> interpreter" where
  "new_with_memory_limit c gas_limit static limit =
     \<lparr> instruction_pointer = 0, instruction_result = Continue, gas = Gas_new gas_limit,
       memory = Memory_new, stack = Stack_new, return_data_buffer = [], return_range = (0, 0),
       is_static = static, contract = c, memory_limit = limit \<rparr>"

definition Interpreter_new :: "Contract \<Rightarrow> u64 \<Rightarrow> bool \<Rightarrow> interpreter" where
  "Interpreter_new c gas_limit static = new_with_memory_limit c gas_limit static u64_MAX"

definition current_opcode :: "'z interpreter_scheme \<Rightarrow> u8 comp" where
  "current_opcode m =
     (if instruction_pointer m < length (code_of m) then Val (code_of m ! instruction_pointer m)
      else Panic)"

definition program_counter :: "'z interpreter_scheme \<Rightarrow> nat" where
  "program_counter m = instruction_pointer m"

definition return_value :: "'z interpreter_scheme \<Rightarrow> bytes comp" where
  "return_value m =
     (let (start, stop) = return_range m in
      if start = - 1 then Val [] else get_slice start (stop - start) (memory m))"

section \<open>Host\<close>

record 'h host_ops =
  h_env :: "'h \<Rightarrow> Env"
  h_load_account :: "'h \<Rightarrow> B160 \<Rightarrow> ((bool \<times> bool) option \<times> 'h) comp"
  h_block_hash :: "'h \<Rightarrow> U256 \<Rightarrow> (B256 option \<times> 'h) comp"
  h_balance :: "'h \<Rightarrow> B160 \<Rightarrow> ((U256 \<times> bool) option \<times> 'h) comp"
  h_code :: "'h \<Rightarrow> B160 \<Rightarrow> ((Bytecode \<times> bool) option \<times> 'h) comp"
  h_code_hash :: "'h \<Rightarrow> B160 \<Rightarrow> ((B256 \<times> bool) option \<times> 'h) comp"
  h_sload :: "'h \<Rightarrow> B160 \<Rightarrow> U256 \<Rightarrow> ((U256 \<times> bool) option \<times> 'h) comp"
  h_sstore :: "'h \<Rightarrow> B160 \<Rightarrow> U256 \<Rightarrow> U256 \<Rightarrow> ((U256 \<times> U256 \<times> U256 \<times> bool) option \<times> 'h) comp"
  h_log :: "'h \<Rightarrow> B160 \<Rightarrow> B256 list \<Rightarrow> bytes \<Rightarrow> 'h comp"
  h_selfdestruct :: "'h \<Rightarrow> B160 \<Rightarrow> B160 \<Rightarrow> (SelfDestructResult option \<times> 'h) comp"
  h_create :: "'h \<Rightarrow> CreateInputs \<Rightarrow> (InstructionResult \<times> B160 option \<times> Gas \<times> bytes \<times> 'h) comp"
  h_call :: "'h \<Rightarrow> CallInputs \<Rightarrow> (InstructionResult \<times> Gas \<times> bytes \<times> 'h) comp"

section \<open>Macros\<close>

definition halt :: "InstructionResult \<Rightarrow> 'h instr" where
  "halt r m = Val (m\<lparr>instruction_result := r\<rparr>)"

definition check_staticcall :: "'h instr \<Rightarrow> 'h instr" where
  "check_staticcall k m = (if is_static m then halt StateChangeDuringStaticCall m else k m)"

definition check :: "bool \<Rightarrow> 'h instr \<Rightarrow> 'h instr" where
  "check expresion k m = (if \<not> expresion then halt NotActivated m else k m)"

definition gas_m :: "u64 \<Rightarrow> 'h instr \<Rightarrow> 'h instr" where
  "gas_m cost k m =
     (let (success, g) = record_cost (gas m) cost; m = m\<lparr>gas := g\<rparr> in
      if \<not> success then halt OutOfGas m else k m)"

definition refund_m :: "i64 \<Rightarrow> 'h instr \<Rightarrow> 'h instr" where
  "refund_m r k m = k (m\<lparr>gas := gas_refund (gas m) r\<rparr>)"

definition gas_or_fail :: "u64 option \<Rightarrow> 'h instr \<Rightarrow> 'h instr" where
  "gas_or_fail cost k m =
     (case cost of Some gas_used \<Rightarrow> gas_m gas_used k m | None \<Rightarrow> halt OutOfGas m)"

definition memory_resize :: "usize \<Rightarrow> usize \<Rightarrow> 'h instr \<Rightarrow> 'h instr" where
  "memory_resize offset len k m =
     (case next_multiple_of_32 (saturating_add offset len) of
        Some new_size \<Rightarrow>
          if new_size > memory_limit m then halt MemoryLimitOOG m
          else if unat new_size > length (memory m) then
            (let num_bytes = new_size div 32;
                 (success, g) = record_memory (gas m) (memory_gas num_bytes);
                 m = m\<lparr>gas := g\<rparr> in
             if \<not> success then halt MemoryLimitOOG m
             else bind_comp (Memory_resize new_size (memory m)) (\<lambda>mem. k (m\<lparr>memory := mem\<rparr>)))
          else k m
      | None \<Rightarrow> halt MemoryOOG m)"

definition address_of_word :: "U256 \<Rightarrow> B160" where
  "address_of_word w = from_be_bytes (drop 12 (to_be_bytes 32 w))"

definition pop_address :: "(B160 \<Rightarrow> 'h instr) \<Rightarrow> 'h instr" where
  "pop_address k m =
     (if length (stack m) < 1 then halt StackUnderflow m
      else bind_comp (pop_unsafe (stack m)) (\<lambda>(x1, st). k (address_of_word x1) (m\<lparr>stack := st\<rparr>)))"

definition pop_m1 :: "(U256 \<Rightarrow> 'h instr) \<Rightarrow> 'h instr" where
  "pop_m1 k m =
     (if length (stack m) < 1 then halt StackUnderflow m
      else bind_comp (pop_unsafe (stack m)) (\<lambda>(x1, st). k x1 (m\<lparr>stack := st\<rparr>)))"

definition pop_m2 :: "(U256 \<Rightarrow> U256 \<Rightarrow> 'h instr) \<Rightarrow> 'h instr" where
  "pop_m2 k m =
     (if length (stack m) < 2 then halt StackUnderflow m
      else bind_comp (pop2_unsafe (stack m)) (\<lambda>(x1, x2, st). k x1 x2 (m\<lparr>stack := st\<rparr>)))"

definition pop_m3 :: "(U256 \<Rightarrow> U256 \<Rightarrow> U256 \<Rightarrow> 'h instr) \<Rightarrow> 'h instr" where
  "pop_m3 k m =
     (if length (stack m) < 3 then halt StackUnderflow m
      else bind_comp (pop3_unsafe (stack m)) (\<lambda>(x1, x2, x3, st). k x1 x2 x3 (m\<lparr>stack := st\<rparr>)))"

definition pop_m4 :: "(U256 \<Rightarrow> U256 \<Rightarrow> U256 \<Rightarrow> U256 \<Rightarrow> 'h instr) \<Rightarrow> 'h instr" where
  "pop_m4 k m =
     (if length (stack m) < 4 then halt StackUnderflow m
      else bind_comp (pop4_unsafe (stack m)) (\<lambda>(x1, x2, x3, x4, st). k x1 x2 x3 x4 (m\<lparr>stack := st\<rparr>)))"

text \<open>The \<open>pop_top!\<close> macros bind the last operand to a reference to the new top; \<open>write_top\<close> assigns
  through it.\<close>

definition pop_top1 :: "(U256 \<Rightarrow> 'h instr) \<Rightarrow> 'h instr" where
  "pop_top1 k m =
     (if length (stack m) < 1 then halt StackUnderflow m
      else bind_comp (top_unsafe (stack m)) (\<lambda>x1. k x1 m))"

definition pop_top2 :: "(U256 \<Rightarrow> U256 \<Rightarrow> 'h instr) \<Rightarrow> 'h instr" where
  "pop_top2 k m =
     (if length (stack m) < 2 then halt StackUnderflow m
      else bind_comp (pop_top_unsafe (stack m)) (\<lambda>(x1, x2, st). k x1 x2 (m\<lparr>stack := st\<rparr>)))"

definition pop_top3 :: "(U256 \<Rightarrow> U256 \<Rightarrow> U256 \<Rightarrow> 'h instr) \<Rightarrow> 'h instr" where
  "pop_top3 k m =
     (if length (stack m) < 3 then halt StackUnderflow m
      else bind_comp (pop2_top_unsafe (stack m)) (\<lambda>(x1, x2, x3, st). k x1 x2 x3 (m\<lparr>stack := st\<rparr>)))"

definition write_top :: "U256 \<Rightarrow> 'h instr" where
  "write_top v m = Val (m\<lparr>stack := set_top v (stack m)\<rparr>)"

definition push_b256_m :: "B256 \<Rightarrow> 'h instr \<Rightarrow> 'h instr" where
  "push_b256_m x k m =
     (case push_b256 x (stack m) of
        Inr st \<Rightarrow> k (m\<lparr>stack := st\<rparr>)
      | Inl e \<Rightarrow> halt e m)"

definition push_m :: "U256 \<Rightarrow> 'h instr \<Rightarrow> 'h instr" where
  "push_m x k m =
     (case Stack_push x (stack m) of
        Inr st \<Rightarrow> k (m\<lparr>stack := st\<rparr>)
      | Inl e \<Rightarrow> halt e m)"

definition as_u64_saturated :: "U256 \<Rightarrow> u64" where
  "as_u64_saturated v =
     (if limb 1 v \<noteq> 0 \<or> limb 2 v \<noteq> 0 \<or> limb 3 v \<noteq> 0 then u64_MAX else limb 0 v)"

definition as_usize_saturated :: "U256 \<Rightarrow> usize" where
  "as_usize_saturated v = as_u64_saturated v"

definition as_usize_or_fail :: "U256 \<Rightarrow> InstructionResult \<Rightarrow> (usize \<Rightarrow> 'h instr) \<Rightarrow> 'h instr" where
  "as_usize_or_fail v reason k m =
     (if limb 1 v \<noteq> 0 \<or> limb 2 v \<noteq> 0 \<or> limb 3 v \<noteq> 0 then halt reason m else k (limb 0 v) m)"

text \<open>The end of an instruction, and a call of the host in the middle of one.\<close>

definition done_m :: "'h instr" where
  "done_m m = Val m"

definition with_host :: "('h \<Rightarrow> ('a \<times> 'h) comp) \<Rightarrow> ('a \<Rightarrow> 'h instr) \<Rightarrow> 'h instr" where
  "with_host f k m = bind_comp (f (host m)) (\<lambda>(r, h). k r (m\<lparr>host := h\<rparr>))"

definition lift_comp :: "'a comp \<Rightarrow> ('a \<Rightarrow> 'h instr) \<Rightarrow> 'h instr" where
  "lift_comp c k m = bind_comp c (\<lambda>x. k x m)"

section \<open>Well-formed interpreters\<close>

text \<open>
  The invariant of a running frame. The bounds below \<open>2 ^ 63\<close> are those of Rust's allocations
  (\<open>isize::MAX\<close> bytes); the one on \<open>memory_limit\<close> is a condition on the configuration, whose default
  is \<open>2 ^ 32 - 1\<close>. It leaves room for the padding of code that was in memory.
\<close>

definition limit_MAX :: u64 where "limit_MAX = isize_MAX - 128"

lemma limit_bound: "x \<le> limit_MAX \<Longrightarrow> unat x + 128 < 2 ^ 63"
  by (simp add: word_le_nat_alt limit_MAX_def isize_MAX_def)

lemma limit_isize: "x \<le> limit_MAX \<Longrightarrow> x \<le> isize_MAX"
  by (simp add: word_le_nat_alt limit_MAX_def isize_MAX_def)

definition range_ok :: "usize \<times> usize \<Rightarrow> nat \<Rightarrow> bool" where
  "range_ok r len \<longleftrightarrow> fst r = - 1 \<or> (fst r \<le> snd r \<and> unat (snd r) \<le> len)"

definition contract_wf :: "Contract \<Rightarrow> bool" where
  "contract_wf c \<longleftrightarrow> locked_wf (ct_bytecode c) \<and> length (ct_input c) < 2 ^ 63 \<and>
     length (bl_bytecode (ct_bytecode c)) < 2 ^ 63"

definition interp_wf :: "'z interpreter_scheme \<Rightarrow> bool" where
  "interp_wf m \<longleftrightarrow>
     length (stack m) \<le> STACK_LIMIT \<and> length (memory m) \<le> unat (memory_limit m) \<and>
     memory_limit m \<le> limit_MAX \<and> gas_wf (gas m) \<and> contract_wf (contract m) \<and>
     length (return_data_buffer m) < 2 ^ 63 \<and> range_ok (return_range m) (length (memory m))"

text \<open>\<open>charged g c g'\<close>: \<open>g'\<close> is \<open>g\<close> after a charge of \<open>c\<close>.\<close>

definition charged :: "Gas \<Rightarrow> nat \<Rightarrow> Gas \<Rightarrow> bool" where
  "charged g c g' \<longleftrightarrow> gas_wf g' \<and> g_limit g' = g_limit g \<and>
     unat (remaining g') + c = unat (remaining g) \<and> unat (g_used g') = unat (g_used g) + c"

text \<open>\<open>grown m mem g\<close>: memory and gas after \<open>memory_resize!\<close> for the bytes up to \<open>n\<close>.\<close>

definition grown :: "'z interpreter_scheme \<Rightarrow> nat \<Rightarrow> Memory \<Rightarrow> Gas \<Rightarrow> bool" where
  "grown m n mem g \<longleftrightarrow>
     n \<le> length mem \<and> length mem \<le> unat (memory_limit m) \<and>
     (\<exists>k. mem = memory m @ replicate k 0) \<and>
     gas_wf g \<and> g_limit g = g_limit (gas m) \<and> g_used g = g_used (gas m) \<and>
     unat (remaining g) \<le> unat (remaining (gas m))"

lemma grownD:
  "grown m n mem g \<Longrightarrow> n \<le> length mem \<and> length (memory m) \<le> length mem \<and>
     length mem \<le> unat (memory_limit m) \<and> gas_wf g \<and> g_limit g = g_limit (gas m) \<and>
     g_used g = g_used (gas m) \<and> unat (remaining g) \<le> unat (remaining (gas m))"
  by (auto simp: grown_def)

lemma range_ok_mono: "range_ok r n \<Longrightarrow> n \<le> n' \<Longrightarrow> range_ok r n'"
  by (auto simp: range_ok_def)

section \<open>Proof rules of the macros\<close>

named_theorems vcg \<open>backward rules for total correctness of the macros\<close>

lemma ok_halt [vcg]: "Q (m\<lparr>instruction_result := r\<rparr>) \<Longrightarrow> ok Q (halt r m)"
  by (simp add: halt_def)

lemma ok_done [vcg]: "Q m \<Longrightarrow> ok Q (done_m m)"
  by (simp add: done_m_def)

lemma ok_check_staticcall [vcg]:
  "(is_static m \<Longrightarrow> Q (m\<lparr>instruction_result := StateChangeDuringStaticCall\<rparr>)) \<Longrightarrow>
   (\<not> is_static m \<Longrightarrow> ok Q (k m)) \<Longrightarrow> ok Q (check_staticcall k m)"
  by (simp add: check_staticcall_def halt_def)

lemma ok_check [vcg]:
  "Q (m\<lparr>instruction_result := NotActivated\<rparr>) \<Longrightarrow> (b \<Longrightarrow> ok Q (k m)) \<Longrightarrow> ok Q (check b k m)"
  by (simp add: check_def halt_def)

lemma charged_record_cost:
  assumes "gas_wf g" "fst (record_cost g c)"
  shows "charged g (unat c) (snd (record_cost g c))"
proof -
  have c: "c \<le> remaining g" using assms record_cost_succeeds_iff by blast
  have "unat (g_used g + c) = unat (g_used g) + unat c"
    using c assms(1) unsigned_less [of "g_limit g", where ?'a = nat]
    by (intro unat_add_nowrap) (auto simp: gas_wf_def word_le_nat_alt unat_remaining)
  moreover have "snd (record_cost g c) = g\<lparr>g_used := g_used g + c, g_all_used_gas := g_all_used_gas g + c\<rparr>"
    using assms(2) by (auto simp: record_cost_def overflowing_add_def split: if_splits)
  ultimately show ?thesis
    using record_cost_success [OF assms(1) c] c by (simp add: charged_def word_le_nat_alt)
qed

lemma record_cost_fails: "\<not> fst (record_cost g c) \<Longrightarrow> snd (record_cost g c) = g"
  by (auto simp: record_cost_def overflowing_add_def split: if_splits)

lemma machine_update_id [simp]: "m\<lparr>gas := gas m\<rparr> = m" "m\<lparr>memory := memory m\<rparr> = m" for m :: "'h machine"
  by simp_all

lemma ok_gas_m [vcg]:
  assumes "gas_wf (gas m)" "Q (m\<lparr>instruction_result := OutOfGas\<rparr>)"
    "\<And>g. charged (gas m) (unat c) g \<Longrightarrow> ok Q (k (m\<lparr>gas := g\<rparr>))"
  shows "ok Q (gas_m c k m)"
proof (cases "fst (record_cost (gas m) c)")
  case True
  then show ?thesis using assms charged_record_cost
    by (simp add: gas_m_def split_beta)
next
  case False
  then show ?thesis using assms by (simp add: gas_m_def split_beta halt_def record_cost_fails)
qed

lemma ok_refund_m [vcg]: "ok Q (k (m\<lparr>gas := gas_refund (gas m) r\<rparr>)) \<Longrightarrow> ok Q (refund_m r k m)"
  by (simp add: refund_m_def)

lemma ok_gas_or_fail [vcg]:
  assumes "gas_wf (gas m)" "Q (m\<lparr>instruction_result := OutOfGas\<rparr>)"
    "\<And>g c. oc = Some c \<Longrightarrow> charged (gas m) (unat c) g \<Longrightarrow> ok Q (k (m\<lparr>gas := g\<rparr>))"
  shows "ok Q (gas_or_fail oc k m)"
  using assms by (cases oc) (auto simp: gas_or_fail_def halt_def intro!: ok_gas_m)

lemma ok_memory_resize [vcg]:
  assumes "gas_wf (gas m)" "memory_limit m \<le> limit_MAX" "length (memory m) \<le> unat (memory_limit m)"
    "Q (m\<lparr>instruction_result := MemoryLimitOOG\<rparr>)" "Q (m\<lparr>instruction_result := MemoryOOG\<rparr>)"
    "\<And>mem g. grown m (unat off + unat len) mem g \<Longrightarrow> ok Q (k (m\<lparr>gas := g, memory := mem\<rparr>))"
  shows "ok Q (memory_resize off len k m)"
proof (cases "next_multiple_of_32 (saturating_add off len)")
  case None
  then show ?thesis using assms by (simp add: memory_resize_def halt_def)
next
  case (Some n)
  show ?thesis
  proof (cases "n > memory_limit m")
    case True
    then show ?thesis using Some assms by (simp add: memory_resize_def halt_def)
  next
    case False
    then have n: "unat n \<le> unat (memory_limit m)" by (simp add: word_less_nat_alt)
    have l: "unat (memory_limit m) < 2 ^ 63"
      using limit_bound [OF assms(2)] by simp
    have up: "unat n = 32 * ((unat (saturating_add off len) + 31) div 32)"
      using Some unfolding next_multiple_of_32_eq Let_def
      by (auto simp: unat_of_nat_usize split: if_splits simp del: of_nat_mult)
    then have "unat (saturating_add off len) \<le> unat n" by linarith
    then have e: "unat off + unat len \<le> unat n"
      using n l by (auto simp: saturating_add_def unat_add_nowrap split: if_splits)
    show ?thesis
    proof (cases "length (memory m) < unat n")
      case True
      define r where "r = record_memory (gas m) (memory_gas (n div 32))"
      show ?thesis
      proof (cases "fst r")
        case False
        then have "snd r = gas m" by (simp add: r_def record_memory_failure)
        with False True Some assms \<open>\<not> memory_limit m < n\<close> show ?thesis
          by (simp add: memory_resize_def halt_def split_beta r_def [symmetric])
      next
        case f: True
        have g: "gas_wf (snd r)" "remaining (snd r) \<le> remaining (gas m)" "g_limit (snd r) = g_limit (gas m)"
          using f record_memory_success [OF assms(1)] by (auto simp: r_def)
        have u: "g_used (snd r) = g_used (gas m)"
          by (simp add: r_def record_memory_def split_beta)
        have "n \<le> isize_MAX" using False limit_isize [OF assms(2)] by (meson linorder_not_less order_trans)
        then have "Memory_resize n (memory m) = Val (memory m @ replicate (unat n - length (memory m)) 0)"
          using True by (intro Memory_resize_grow) simp_all
        moreover have "grown m (unat off + unat len) (memory m @ replicate (unat n - length (memory m)) 0) (snd r)"
          using g u e n True by (auto simp: grown_def word_le_nat_alt)
        ultimately show ?thesis
          using f True Some assms(6) \<open>\<not> memory_limit m < n\<close>
          by (simp add: memory_resize_def split_beta r_def [symmetric])
      qed
    next
      case small: False
      have "grown m (unat off + unat len) (memory m) (gas m)"
        using e small assms by (auto simp: grown_def intro: exI [of _ 0])
      then have "ok Q (k (m\<lparr>gas := gas m, memory := memory m\<rparr>))" by (rule assms(6))
      then show ?thesis using Some False small by (simp add: memory_resize_def)
    qed
  qed
qed

lemma ok_pop_address [vcg]:
  assumes "Q (m\<lparr>instruction_result := StackUnderflow\<rparr>)"
    "\<And>st a. stack m = st @ [a] \<Longrightarrow> ok Q (k (address_of_word a) (m\<lparr>stack := st\<rparr>))"
  shows "ok Q (pop_address k m)"
  using assms by (cases "stack m" rule: rev_cases) (auto simp: pop_address_def halt_def)

lemma ok_pop_m1 [vcg]:
  assumes "Q (m\<lparr>instruction_result := StackUnderflow\<rparr>)"
    "\<And>st a. stack m = st @ [a] \<Longrightarrow> ok Q (k a (m\<lparr>stack := st\<rparr>))"
  shows "ok Q (pop_m1 k m)"
  using assms by (cases "stack m" rule: rev_cases) (auto simp: pop_m1_def halt_def)

lemma long_stack:
  "\<not> length st < 2 \<Longrightarrow> \<exists>s a b. st = s @ [b, a]"
  "\<not> length st < 3 \<Longrightarrow> \<exists>s a b c. st = s @ [c, b, a]"
  "\<not> length st < 4 \<Longrightarrow> \<exists>s a b c d. st = s @ [d, c, b, a]"
proof -
  have drop: "\<exists>s ys. st = s @ ys \<and> length ys = n" if "n \<le> length st" for n
    using that by (intro exI [of _ "take (length st - n) st"] exI [of _ "drop (length st - n) st"]) simp
  show "\<not> length st < 2 \<Longrightarrow> \<exists>s a b. st = s @ [b, a]"
    using drop [of 2] by (auto simp: numeral_eq_Suc length_Suc_conv)
  show "\<not> length st < 3 \<Longrightarrow> \<exists>s a b c. st = s @ [c, b, a]"
    using drop [of 3] by (auto simp: numeral_eq_Suc length_Suc_conv)
  show "\<not> length st < 4 \<Longrightarrow> \<exists>s a b c d. st = s @ [d, c, b, a]"
    using drop [of 4] by (auto simp: numeral_eq_Suc length_Suc_conv)
qed

lemma ok_pop_m2 [vcg]:
  assumes "Q (m\<lparr>instruction_result := StackUnderflow\<rparr>)"
    "\<And>st a b. stack m = st @ [b, a] \<Longrightarrow> ok Q (k a b (m\<lparr>stack := st\<rparr>))"
  shows "ok Q (pop_m2 k m)"
  using assms long_stack(1) [of "stack m"] by (fastforce simp: pop_m2_def halt_def)

lemma ok_pop_m3 [vcg]:
  assumes "Q (m\<lparr>instruction_result := StackUnderflow\<rparr>)"
    "\<And>st a b c. stack m = st @ [c, b, a] \<Longrightarrow> ok Q (k a b c (m\<lparr>stack := st\<rparr>))"
  shows "ok Q (pop_m3 k m)"
  using assms long_stack(2) [of "stack m"] by (fastforce simp: pop_m3_def halt_def)

lemma ok_pop_m4 [vcg]:
  assumes "Q (m\<lparr>instruction_result := StackUnderflow\<rparr>)"
    "\<And>st a b c d. stack m = st @ [d, c, b, a] \<Longrightarrow> ok Q (k a b c d (m\<lparr>stack := st\<rparr>))"
  shows "ok Q (pop_m4 k m)"
  using assms long_stack(3) [of "stack m"] by (fastforce simp: pop_m4_def halt_def)

lemma ok_pop_top1 [vcg]:
  assumes "Q (m\<lparr>instruction_result := StackUnderflow\<rparr>)"
    "\<And>st a. stack m = st @ [a] \<Longrightarrow> ok Q (k a m)"
  shows "ok Q (pop_top1 k m)"
  using assms by (cases "stack m" rule: rev_cases) (auto simp: pop_top1_def halt_def)

lemma ok_pop_top2 [vcg]:
  assumes "Q (m\<lparr>instruction_result := StackUnderflow\<rparr>)"
    "\<And>st a b. stack m = st @ [b, a] \<Longrightarrow> ok Q (k a b (m\<lparr>stack := st @ [b]\<rparr>))"
  shows "ok Q (pop_top2 k m)"
  using assms long_stack(1) [of "stack m"] by (fastforce simp: pop_top2_def halt_def)

lemma ok_pop_top3 [vcg]:
  assumes "Q (m\<lparr>instruction_result := StackUnderflow\<rparr>)"
    "\<And>st a b c. stack m = st @ [c, b, a] \<Longrightarrow> ok Q (k a b c (m\<lparr>stack := st @ [c]\<rparr>))"
  shows "ok Q (pop_top3 k m)"
  using assms long_stack(2) [of "stack m"] by (fastforce simp: pop_top3_def halt_def)

lemma ok_write_top [vcg]: "Q (m\<lparr>stack := set_top v (stack m)\<rparr>) \<Longrightarrow> ok Q (write_top v m)"
  by (simp add: write_top_def)

lemma ok_push_m [vcg]:
  assumes "Q (m\<lparr>instruction_result := StackOverflow\<rparr>)"
    "length (stack m) < STACK_LIMIT \<Longrightarrow> ok Q (k (m\<lparr>stack := stack m @ [v]\<rparr>))"
  shows "ok Q (push_m v k m)"
  using assms by (simp add: push_m_def Stack_push_def halt_def)

lemma ok_push_b256_m [vcg]:
  assumes "Q (m\<lparr>instruction_result := StackOverflow\<rparr>)"
    "length (stack m) < STACK_LIMIT \<Longrightarrow> ok Q (k (m\<lparr>stack := stack m @ [v]\<rparr>))"
  shows "ok Q (push_b256_m v k m)"
  using assms by (simp add: push_b256_m_def push_b256_eq Stack_push_def halt_def)

lemma high_limbs: "limb 1 v \<noteq> 0 \<or> limb 2 v \<noteq> 0 \<or> limb 3 v \<noteq> 0 \<longleftrightarrow> 2 ^ 64 \<le> unat v"
proof -
  have "limb 1 v = 0 \<and> limb 2 v = 0 \<and> limb 3 v = 0 \<longleftrightarrow> (\<forall>n \<ge> 64. \<not> bit v n)"
  proof
    assume z: "limb 1 v = 0 \<and> limb 2 v = 0 \<and> limb 3 v = 0"
    show "\<forall>n \<ge> 64. \<not> bit v n"
    proof (intro allI impI notI)
      fix n :: nat assume n: "64 \<le> n" and b: "bit v n"
      then have "n < 256" using bit_imp_le_length [of v n] by simp
      then have "n div 64 = 1 \<or> n div 64 = 2 \<or> n div 64 = 3" using n by linarith
      moreover have "bit (limb (n div 64) v) (n mod 64)" using b by (simp add: bit_limb)
      ultimately show False using z by auto
    qed
  next
    assume "\<forall>n \<ge> 64. \<not> bit v n"
    then have "limb i v = 0" if "1 \<le> i" for i
      using that by (intro bit_word_eqI) (auto simp: bit_limb)
    then show "limb 1 v = 0 \<and> limb 2 v = 0 \<and> limb 3 v = 0" by simp
  qed
  also have "\<dots> \<longleftrightarrow> take_bit 64 v = v"
  proof
    assume t: "take_bit 64 v = v"
    show "\<forall>n \<ge> 64. \<not> bit v n"
      by (subst t [symmetric]) (simp only: bit_take_bit_iff, simp)
  next
    assume "\<forall>n \<ge> 64. \<not> bit v n"
    then show "take_bit 64 v = v"
      by (intro bit_word_eqI) (metis bit_take_bit_iff not_le)
  qed
  also have "\<dots> \<longleftrightarrow> unat v < 2 ^ 64"
    unfolding word_unat_eq_iff unsigned_take_bit_eq by (rule take_bit_nat_eq_self_iff)
  finally show ?thesis by auto
qed

lemma unat_limb_0: "unat v < 2 ^ 64 \<Longrightarrow> unat (limb 0 v) = unat v"
  by (simp add: limb_def unsigned_ucast_eq take_bit_nat_eq_self)

lemma unat_as_usize_saturated: "unat (as_usize_saturated v) = min (unat v) (2 ^ 64 - 1)"
  unfolding as_usize_saturated_def as_u64_saturated_def high_limbs
  by (simp add: unat_limb_0 u64_MAX_def)

lemma ok_as_usize_or_fail [vcg]:
  assumes "Q (m\<lparr>instruction_result := r\<rparr>)" "\<And>x. unat x = unat v \<Longrightarrow> ok Q (k x m)"
  shows "ok Q (as_usize_or_fail v r k m)"
proof (cases "limb 1 v \<noteq> 0 \<or> limb 2 v \<noteq> 0 \<or> limb 3 v \<noteq> 0")
  case True
  then show ?thesis using assms(1) by (auto simp: as_usize_or_fail_def halt_def)
next
  case False
  then have "unat (limb 0 v) = unat v" unfolding high_limbs by (intro unat_limb_0) simp
  with False assms(2) show ?thesis by (simp add: as_usize_or_fail_def)
qed

lemma ok_if_instr [vcg]:
  "(b \<Longrightarrow> ok Q (f m)) \<Longrightarrow> (\<not> b \<Longrightarrow> ok Q (g m)) \<Longrightarrow> ok Q ((if b then f else g) m)"
  "(b \<Longrightarrow> ok Q c) \<Longrightarrow> (\<not> b \<Longrightarrow> ok Q d) \<Longrightarrow> ok Q (if b then c else d)"
  by simp_all

lemma ok_option_instr [vcg]:
  "(x = None \<Longrightarrow> ok Q (f m)) \<Longrightarrow> (\<And>y. x = Some y \<Longrightarrow> ok Q (g y m)) \<Longrightarrow>
   ok Q ((case x of None \<Rightarrow> f | Some y \<Rightarrow> g y) m)"
  by (cases x) simp_all

lemma ok_lift_comp: "ok (\<lambda>x. ok Q (k x m)) c \<Longrightarrow> ok Q (lift_comp c k m)"
  by (cases c) (simp_all add: lift_comp_def)

lemma ok_lift_Val: "c = Val x \<Longrightarrow> ok Q (k x m) \<Longrightarrow> ok Q (lift_comp c k m)"
  by (simp add: lift_comp_def)

lemma ok_with_host:
  "ok P (f (host m)) \<Longrightarrow> (\<And>r h. P (r, h) \<Longrightarrow> ok Q (k r (m\<lparr>host := h\<rparr>))) \<Longrightarrow> ok Q (with_host f k m)"
  by (auto simp: with_host_def ok_iff)

section \<open>Contract of an instruction\<close>

text \<open>
  \<open>instr_pre I m\<close> is the state in which \<open>eval\<close> starts an instruction that is not a padding \<open>STOP\<close>:
  the instruction pointer is already past the opcode. The invariant \<open>I\<close> of the host may depend on
  whether the frame is static and on the address of the executing contract. \<open>instr_post I F m m'\<close> is
  what every instruction guarantees: the invariants are kept, the frame's constants do not change, gas
  never increases, an instruction after which execution continues has spent gas and left the pointer
  in the code, and a fatal error is one that the host knows of (\<open>F\<close>).
\<close>

definition instr_pre :: "(bool \<Rightarrow> B160 \<Rightarrow> 'h \<Rightarrow> bool) \<Rightarrow> 'h machine \<Rightarrow> bool" where
  "instr_pre I m \<longleftrightarrow> interp_wf m \<and> I (is_static m) (ct_address (contract m)) (host m) \<and>
     instruction_result m = Continue \<and> instruction_pointer m + 32 < length (code_of m)"

definition instr_post ::
  "(bool \<Rightarrow> B160 \<Rightarrow> 'h \<Rightarrow> bool) \<Rightarrow> ('h \<Rightarrow> bool) \<Rightarrow> 'h machine \<Rightarrow> 'h machine \<Rightarrow> bool" where
  "instr_post I F m m' \<longleftrightarrow> interp_wf m' \<and> I (is_static m') (ct_address (contract m')) (host m') \<and>
     contract m' = contract m \<and> is_static m' = is_static m \<and> memory_limit m' = memory_limit m \<and>
     g_limit (gas m') = g_limit (gas m) \<and>
     unat (remaining (gas m')) \<le> unat (remaining (gas m)) \<and>
     (instruction_result m' = FatalExternalError \<longrightarrow> F (host m')) \<and>
     (instruction_result m' = Continue \<longrightarrow>
        unat (remaining (gas m')) < unat (remaining (gas m)) \<and>
        instruction_pointer m' < length (code_of m))"

named_theorems instr_ok \<open>every instruction meets its contract\<close>

lemmas instr_simps = instr_pre_def instr_post_def interp_wf_def charged_def

end
