(* ===== verification/Instr_Arith.thy ===== *)
theory Instr_Arith
  imports Interp
begin

text \<open>
  The instructions of \<open>crates/interpreter/src/instructions/arithmetic.rs\<close> and \<open>bitwise.rs\<close>. The
  theorems at the end give the value that each of the non-obvious ones computes: \<open>SDIV\<close> and \<open>SMOD\<close>,
  \<open>SIGNEXTEND\<close>, \<open>BYTE\<close> and \<open>SAR\<close>.
\<close>

section \<open>arithmetic.rs\<close>

definition wrapped_add :: "'h instr" where
  "wrapped_add = gas_m gas_VERYLOW (pop_top2 (\<lambda>op1 op2. write_top (op1 + op2)))"

definition wrapping_mul :: "'h instr" where
  "wrapping_mul = gas_m gas_LOW (pop_top2 (\<lambda>op1 op2. write_top (op1 * op2)))"

definition wrapping_sub :: "'h instr" where
  "wrapping_sub = gas_m gas_VERYLOW (pop_top2 (\<lambda>op1 op2. write_top (op1 - op2)))"

definition div_op :: "'h instr" where
  "div_op = gas_m gas_LOW (pop_top2 (\<lambda>op1 op2. write_top (if op2 = 0 then 0 else op1 div op2)))"

definition sdiv_op :: "'h instr" where
  "sdiv_op = gas_m gas_LOW (pop_top2 (\<lambda>op1 op2. lift_comp (i256_div op1 op2) write_top))"

definition rem_op :: "'h instr" where
  "rem_op = gas_m gas_LOW (pop_top2 (\<lambda>op1 op2. write_top (if op2 = 0 then 0 else op1 mod op2)))"

definition smod_op :: "'h instr" where
  "smod_op = gas_m gas_LOW (pop_top2 (\<lambda>op1 op2.
     if op2 \<noteq> 0 then lift_comp (i256_mod op1 op2) write_top else done_m))"

definition add_mod :: "U256 \<Rightarrow> U256 \<Rightarrow> U256 \<Rightarrow> U256" where
  "add_mod a b n = (if n = 0 then 0 else word_of_nat ((unat a + unat b) mod unat n))"

definition mul_mod :: "U256 \<Rightarrow> U256 \<Rightarrow> U256 \<Rightarrow> U256" where
  "mul_mod a b n = (if n = 0 then 0 else word_of_nat ((unat a * unat b) mod unat n))"

definition addmod :: "'h instr" where
  "addmod = gas_m gas_MID (pop_top3 (\<lambda>op1 op2 op3. write_top (add_mod op1 op2 op3)))"

definition mulmod :: "'h instr" where
  "mulmod = gas_m gas_MID (pop_top3 (\<lambda>op1 op2 op3. write_top (mul_mod op1 op2 op3)))"

definition eval_exp :: "SpecId \<Rightarrow> 'h instr" where
  "eval_exp spec = pop_top2 (\<lambda>op1 op2.
     lift_comp (exp_cost spec op2) (\<lambda>cost.
       gas_or_fail cost (write_top (op1 ^ unat op2))))"

definition signextend_word :: "U256 \<Rightarrow> U256 \<Rightarrow> U256" where
  "signextend_word op1 op2 =
     (let bit_index = unat (8 * limb 0 op1 + 7);
          b = bit op2 bit_index;
          mask = push_bit bit_index 1 - 1 in
      if b then op2 OR NOT mask else op2 AND mask)"

definition signextend :: "'h instr" where
  "signextend = gas_m gas_LOW (pop_top2 (\<lambda>op1 op2.
     if op1 < 32 then write_top (signextend_word op1 op2) else done_m))"

section \<open>bitwise.rs\<close>

definition lt_op :: "'h instr" where
  "lt_op = gas_m gas_VERYLOW (pop_top2 (\<lambda>op1 op2. write_top (if op1 < op2 then 1 else 0)))"

definition gt_op :: "'h instr" where
  "gt_op = gas_m gas_VERYLOW (pop_top2 (\<lambda>op1 op2. write_top (if op1 > op2 then 1 else 0)))"

definition slt_op :: "'h instr" where
  "slt_op = gas_m gas_VERYLOW (pop_top2 (\<lambda>op1 op2.
     write_top (if i256_cmp op1 op2 = Less then 1 else 0)))"

definition sgt_op :: "'h instr" where
  "sgt_op = gas_m gas_VERYLOW (pop_top2 (\<lambda>op1 op2.
     write_top (if i256_cmp op1 op2 = Greater then 1 else 0)))"

definition eq_op :: "'h instr" where
  "eq_op = gas_m gas_VERYLOW (pop_top2 (\<lambda>op1 op2. write_top (if op1 = op2 then 1 else 0)))"

definition iszero :: "'h instr" where
  "iszero = gas_m gas_VERYLOW (pop_top1 (\<lambda>op1. write_top (if op1 = 0 then 1 else 0)))"

definition bitand :: "'h instr" where
  "bitand = gas_m gas_VERYLOW (pop_top2 (\<lambda>op1 op2. write_top (op1 AND op2)))"

definition bitor :: "'h instr" where
  "bitor = gas_m gas_VERYLOW (pop_top2 (\<lambda>op1 op2. write_top (op1 OR op2)))"

definition bitxor :: "'h instr" where
  "bitxor = gas_m gas_VERYLOW (pop_top2 (\<lambda>op1 op2. write_top (op1 XOR op2)))"

definition not_op :: "'h instr" where
  "not_op = gas_m gas_VERYLOW (pop_top1 (\<lambda>op1. write_top (NOT op1)))"

definition byte_bit :: "U256 \<Rightarrow> U256 \<Rightarrow> U256 \<Rightarrow> nat \<Rightarrow> U256" where
  "byte_bit op1 op2 ret i =
     (if i < 8 \<and> op1 < 32 then
        (let o' = unat (as_usize_saturated op1);
             t = 255 - (7 - i + 8 * o');
             bit_mask = push_bit t 1;
             val = drop_bit t (op2 AND bit_mask) in
         ret + push_bit i val)
      else ret)"

definition byte_word :: "U256 \<Rightarrow> U256 \<Rightarrow> U256" where
  "byte_word op1 op2 = foldl (byte_bit op1 op2) 0 [0..<256]"

definition byte_op :: "'h instr" where
  "byte_op = gas_m gas_VERYLOW (pop_top2 (\<lambda>op1 op2. write_top (byte_word op1 op2)))"

definition shl_op :: "SpecId \<Rightarrow> 'h instr" where
  "shl_op spec = check (enabled spec CONSTANTINOPLE) (gas_m gas_VERYLOW (pop_top2 (\<lambda>op1 op2.
     write_top (push_bit (unat (as_usize_saturated op1)) op2))))"

definition shr_op :: "SpecId \<Rightarrow> 'h instr" where
  "shr_op spec = check (enabled spec CONSTANTINOPLE) (gas_m gas_VERYLOW (pop_top2 (\<lambda>op1 op2.
     write_top (drop_bit (unat (as_usize_saturated op1)) op2))))"

definition sar_word :: "U256 \<Rightarrow> U256 \<Rightarrow> U256 comp" where
  "sar_word op1 op2 =
     (let (value_sign, op2) = i256_sign True op2 in
      if op2 = 0 \<or> op1 \<ge> 256 then
        (case value_sign of
           Plus \<Rightarrow> Val 0
         | Zero \<Rightarrow> Val 0
         | Minus \<Rightarrow> Val (two_compl 1))
      else bind_comp (unwrap (u64_try_from op1)) (\<lambda>shift.
        (case value_sign of
           Plus \<Rightarrow> Val (drop_bit (unat shift) op2)
         | Zero \<Rightarrow> Val (drop_bit (unat shift) op2)
         | Minus \<Rightarrow>
             (let shifted = drop_bit (unat shift) (op2 - 1) + 1 in Val (two_compl shifted)))))"

definition sar_op :: "SpecId \<Rightarrow> 'h instr" where
  "sar_op spec = check (enabled spec CONSTANTINOPLE) (gas_m gas_VERYLOW (pop_top2 (\<lambda>op1 op2.
     lift_comp (sar_word op1 op2) write_top)))"

section \<open>Values\<close>

lemma minus_div_floor: "(- M) div d = - ((M - 1) div d + 1)" if d: "0 < d" for M d :: int
proof (rule int_div_pos_eq [where r = "d - 1 - (M - 1) mod d"])
  have "M = (M - 1) div d * d + (M - 1) mod d + 1" by simp
  then show "- M = d * - ((M - 1) div d + 1) + (d - 1 - (M - 1) mod d)" by (simp add: algebra_simps)
  have "0 \<le> (M - 1) mod d" "(M - 1) mod d < d" using d by simp_all
  then show "0 \<le> d - 1 - (M - 1) mod d" "d - 1 - (M - 1) mod d < d" by linarith+
qed

lemma uint_drop_bit: "uint (drop_bit n w) = uint w div 2 ^ n" for w :: U256
  using uint_256 [of w] by (simp only: unsigned_drop_bit_eq)
    (simp add: drop_bit_eq_div take_bit_int_eq_self)

lemma word_of_div: "word_of_int (uint w div 2 ^ n) = drop_bit n w" for w :: U256
  unfolding uint_drop_bit [symmetric] by simp

lemma take_bit_Suc_word: "take_bit (Suc n) x = take_bit n x + push_bit n (of_bool (bit x n))"
  for x :: U256
proof -
  have "take_bit n x + push_bit n (of_bool (bit x n)) = take_bit n x OR push_bit n (of_bool (bit x n))"
    by (rule disjunctive_add_eq_or) (auto simp: bit_eq_iff bit_and_iff bit_take_bit_iff bit_push_bit_iff)
  then show ?thesis
    by (intro bit_word_eqI)
      (auto simp: bit_or_iff bit_take_bit_iff bit_push_bit_iff bit_of_bool_iff less_Suc_eq le_less)
qed

lemma sar_word_eq: "sar_word op1 op2 = Val (word_of_int (sint op2 div 2 ^ unat op1))"
proof -
  have conv: "unwrap (u64_try_from op1) = Val (ucast op1)" "unat (ucast op1 :: u64) = unat op1" if "\<not> 256 \<le> op1"
    using that by (simp_all add: u64_try_from_def word_le_nat_alt unsigned_ucast_eq take_bit_nat_eq_self)
  have big: "(2 :: int) ^ 255 \<le> 2 ^ unat op1" if "256 \<le> op1"
    using that by (intro power_increasing) (simp_all add: word_le_nat_alt)
  show ?thesis
  proof (cases "bit op2 255")
    case False
    then have s: "sint op2 = uint op2" "mag op2 = op2" by (simp_all add: sint_if_bit mag_def)
    have "sint op2 div 2 ^ unat op1 = 0" if "256 \<le> op1"
      using big [OF that] sint_256 [of op2] uint_256 [of op2] s by (intro div_pos_pos_trivial) simp_all
    then show ?thesis
      using False s conv word_of_div [of op2 "unat op1"] unfolding sar_word_def i256_sign_True Let_def by (auto split: Sign.split)
  next
    case True
    define M where "M = uint (mag op2)"
    have M: "sint op2 = - M" "0 < M" "M \<le> 2 ^ 255"
      using True sint_256 [of op2] by (simp_all add: M_def uint_mag sign_bit_iff)
    have nz: "mag op2 \<noteq> 0" using True by (auto simp: mag_zero_iff)
    have d: "(- M) div 2 ^ unat op1 = - ((M - 1) div 2 ^ unat op1 + 1)"
      by (rule minus_div_floor) simp
    have "uint (mag op2 - 1) = M - 1"
      unfolding M_def using M(2) by (simp add: uint_sub_if_size M_def)
    then have "word_of_int ((M - 1) div 2 ^ unat op1) = drop_bit (unat op1) (mag op2 - 1)"
      using word_of_div [of "mag op2 - 1" "unat op1"] by simp
    moreover have "(M - 1) div 2 ^ unat op1 = 0" if "256 \<le> op1"
      using big [OF that] M by (intro div_pos_pos_trivial) simp_all
    ultimately show ?thesis
      using True nz conv M(1) d unfolding sar_word_def i256_sign_True Let_def
      by (auto simp: two_compl_def)
  qed
qed

lemma signextend_word_eq:
  assumes "op1 < 32"
  shows "signextend_word op1 op2 = signed_take_bit (8 * unat op1 + 7) op2"
proof -
  have l: "unat op1 < 32" using assms by (simp add: word_less_nat_alt)
  then have u: "unat (limb 0 op1) = unat op1" by (intro unat_limb_0) simp
  have "unat (8 * limb 0 op1) = 8 * unat op1"
    using unat_mult_nowrap [of 8 "limb 0 op1"] u l by simp
  then have i: "unat (8 * limb 0 op1 + 7) = 8 * unat op1 + 7"
    using unat_add_nowrap [of "8 * limb 0 op1" 7] l by simp
  have m: "push_bit n 1 - 1 = (mask n :: U256)" for n
    by (simp add: mask_eq_exp_minus_1 push_bit_of_1)
  show ?thesis
  proof (rule bit_word_eqI)
    fix n assume n: "n < LENGTH(256)"
    show "bit (signextend_word op1 op2) n = bit (signed_take_bit (8 * unat op1 + 7) op2) n"
      using n l unfolding signextend_word_def Let_def i m
      by (auto simp: bit_signed_take_bit_iff bit_or_iff bit_and_iff bit_not_iff bit_mask_iff min_def not_less
          dest: le_antisym)
  qed
qed

lemma byte_word_eq:
  "byte_word op1 op2 = (if op1 < 32 then ucast (to_be_bytes 32 op2 ! unat op1) else 0)"
proof (cases "op1 < 32")
  case False
  have "foldl (byte_bit op1 op2) r is = r" for r "is"
    using False by (induction "is" arbitrary: r) (simp_all add: byte_bit_def)
  with False show ?thesis by (simp add: byte_word_def)
next
  case True
  define k where "k = unat op1"
  have k: "k < 32" "unat (as_usize_saturated op1) = k"
    using True by (simp_all add: k_def word_less_nat_alt unat_as_usize_saturated)
  define x where "x = drop_bit (8 * (31 - k)) op2"
  have low: "foldl (byte_bit op1 op2) 0 [0..<n] = take_bit n x" if "n \<le> 8" for n
    using that
  proof (induction n)
    case (Suc n)
    have t: "255 - (7 - n + 8 * k) = 8 * (31 - k) + n" using Suc.prems k by simp
    have "drop_bit t (op2 AND push_bit t 1) = of_bool (bit op2 t)" for t
      by (rule bit_word_eqI) (auto simp: bit_drop_bit_eq bit_and_iff bit_push_bit_iff bit_of_bool_iff bit_exp_iff
          dest: bit_imp_possible_bit)
    moreover have "bit op2 (8 * (31 - k) + n) = bit x n" by (simp add: x_def bit_drop_bit_eq)
    ultimately have "byte_bit op1 op2 r n = r + push_bit n (of_bool (bit x n))" for r
      using True Suc.prems k unfolding byte_bit_def Let_def k(2) t by simp
    with Suc show ?case by (simp add: take_bit_Suc_word)
  qed simp
  have high: "foldl (byte_bit op1 op2) r [n..<m] = r" if "8 \<le> n" for r n m
    using that by (induction m) (auto simp: byte_bit_def)
  have "[0..<256] = [0..<8] @ [8..<256]" using upt_add_eq_append [of 0 8 248] by simp
  then have "byte_word op1 op2 = take_bit 8 x" by (simp only: byte_word_def foldl_append low high)
  also have "\<dots> = ucast (to_be_bytes 32 op2 ! k)"
    using k by (intro bit_word_eqI) (auto simp: x_def bit_take_bit_iff bit_unsigned_iff bit_to_be_bytes bit_drop_bit_eq)
  finally show ?thesis using True by (simp add: k_def)
qed

text \<open>
  C34. \<open>SAR\<close>: the sign-magnitude computation of \<open>sar\<close> (negate, shift the magnitude minus one, add
  one, negate) does not panic and is the arithmetic shift: the floor of the signed value divided by
  \<open>2 ^ shift\<close>, for every shift amount.
\<close>
theorem sar_word_floor: "sar_word op1 op2 = Val (word_of_int (sint op2 div 2 ^ unat op1))"
  by (rule sar_word_eq)

text \<open>
  \<open>BYTE\<close>: the bit-by-bit loop selects byte \<open>op1\<close> of the big-endian encoding of \<open>op2\<close>, and zero
  for an index beyond 31.
\<close>
lemma byte_word_selects:
  "byte_word op1 op2 = (if op1 < 32 then ucast (to_be_bytes 32 op2 ! unat op1) else 0)"
  by (rule byte_word_eq)

text \<open>
  C35. \<open>SIGNEXTEND\<close>: for an index \<open>op1\<close> below 32 the mask computation is the sign extension of
  \<open>op2\<close> from its lowest \<open>8 * (op1 + 1)\<close> bits.
\<close>
theorem signextend_word_extends:
  "op1 < 32 \<Longrightarrow> signextend_word op1 op2 = signed_take_bit (8 * unat op1 + 7) op2"
  by (rule signextend_word_eq)

theorem signextend_word_extends_witness: "signextend_word 0 0x80 = signed_take_bit 7 (0x80 :: U256)"
  using signextend_word_extends [of 0 "0x80"] by simp

section \<open>Contracts\<close>

lemma ok_exp_cost:
  assumes "\<And>c. 10 \<le> unat c \<Longrightarrow> ok Q (k (Some c) m)"
  shows "ok Q (lift_comp (exp_cost spec pw) k m)"
proof -
  obtain c where "exp_cost spec pw = Val (Some c)" "10 \<le> unat c"
    using exp_cost_value [of spec pw] by (metis le_add1)
  then show ?thesis using assms by (simp add: lift_comp_def)
qed

lemma wrapped_add_ok [instr_ok]: "instr_pre I m \<Longrightarrow> ok (instr_post I F m) (wrapped_add m)"
  unfolding wrapped_add_def by (intro vcg) (auto simp: instr_simps)

lemma wrapping_mul_ok [instr_ok]: "instr_pre I m \<Longrightarrow> ok (instr_post I F m) (wrapping_mul m)"
  unfolding wrapping_mul_def by (intro vcg) (auto simp: instr_simps)

lemma wrapping_sub_ok [instr_ok]: "instr_pre I m \<Longrightarrow> ok (instr_post I F m) (wrapping_sub m)"
  unfolding wrapping_sub_def by (intro vcg) (auto simp: instr_simps)

lemma div_op_ok [instr_ok]: "instr_pre I m \<Longrightarrow> ok (instr_post I F m) (div_op m)"
  unfolding div_op_def by (intro vcg) (auto simp: instr_simps)

lemma sdiv_op_ok [instr_ok]: "instr_pre I m \<Longrightarrow> ok (instr_post I F m) (sdiv_op m)"
  unfolding sdiv_op_def by (intro vcg ok_lift_Val [OF i256_div_eq]) (auto simp: instr_simps)

lemma rem_op_ok [instr_ok]: "instr_pre I m \<Longrightarrow> ok (instr_post I F m) (rem_op m)"
  unfolding rem_op_def by (intro vcg) (auto simp: instr_simps)

lemma smod_op_ok [instr_ok]: "instr_pre I m \<Longrightarrow> ok (instr_post I F m) (smod_op m)"
  unfolding smod_op_def by (intro vcg ok_lift_Val [OF i256_mod_eq]) (auto simp: instr_simps)

lemma addmod_ok [instr_ok]: "instr_pre I m \<Longrightarrow> ok (instr_post I F m) (addmod m)"
  unfolding addmod_def by (intro vcg) (auto simp: instr_simps)

lemma mulmod_ok [instr_ok]: "instr_pre I m \<Longrightarrow> ok (instr_post I F m) (mulmod m)"
  unfolding mulmod_def by (intro vcg) (auto simp: instr_simps)

lemma signextend_ok [instr_ok]: "instr_pre I m \<Longrightarrow> ok (instr_post I F m) (signextend m)"
  unfolding signextend_def by (intro vcg) (auto simp: instr_simps)

lemma lt_op_ok [instr_ok]: "instr_pre I m \<Longrightarrow> ok (instr_post I F m) (lt_op m)"
  unfolding lt_op_def by (intro vcg) (auto simp: instr_simps)

lemma gt_op_ok [instr_ok]: "instr_pre I m \<Longrightarrow> ok (instr_post I F m) (gt_op m)"
  unfolding gt_op_def by (intro vcg) (auto simp: instr_simps)

lemma slt_op_ok [instr_ok]: "instr_pre I m \<Longrightarrow> ok (instr_post I F m) (slt_op m)"
  unfolding slt_op_def by (intro vcg) (auto simp: instr_simps)

lemma sgt_op_ok [instr_ok]: "instr_pre I m \<Longrightarrow> ok (instr_post I F m) (sgt_op m)"
  unfolding sgt_op_def by (intro vcg) (auto simp: instr_simps)

lemma eq_op_ok [instr_ok]: "instr_pre I m \<Longrightarrow> ok (instr_post I F m) (eq_op m)"
  unfolding eq_op_def by (intro vcg) (auto simp: instr_simps)

lemma iszero_ok [instr_ok]: "instr_pre I m \<Longrightarrow> ok (instr_post I F m) (iszero m)"
  unfolding iszero_def by (intro vcg) (auto simp: instr_simps)

lemma bitand_ok [instr_ok]: "instr_pre I m \<Longrightarrow> ok (instr_post I F m) (bitand m)"
  unfolding bitand_def by (intro vcg) (auto simp: instr_simps)

lemma bitor_ok [instr_ok]: "instr_pre I m \<Longrightarrow> ok (instr_post I F m) (bitor m)"
  unfolding bitor_def by (intro vcg) (auto simp: instr_simps)

lemma bitxor_ok [instr_ok]: "instr_pre I m \<Longrightarrow> ok (instr_post I F m) (bitxor m)"
  unfolding bitxor_def by (intro vcg) (auto simp: instr_simps)

lemma not_op_ok [instr_ok]: "instr_pre I m \<Longrightarrow> ok (instr_post I F m) (not_op m)"
  unfolding not_op_def by (intro vcg) (auto simp: instr_simps)

lemma byte_op_ok [instr_ok]: "instr_pre I m \<Longrightarrow> ok (instr_post I F m) (byte_op m)"
  unfolding byte_op_def by (intro vcg) (auto simp: instr_simps)

lemma eval_exp_ok [instr_ok]: "instr_pre I m \<Longrightarrow> ok (instr_post I F m) (eval_exp spec m)"
  unfolding eval_exp_def by (intro vcg ok_exp_cost) (auto simp: instr_simps)

lemma shl_op_ok [instr_ok]: "instr_pre I m \<Longrightarrow> ok (instr_post I F m) (shl_op spec m)"
  unfolding shl_op_def by (intro vcg) (auto simp: instr_simps)

lemma shr_op_ok [instr_ok]: "instr_pre I m \<Longrightarrow> ok (instr_post I F m) (shr_op spec m)"
  unfolding shr_op_def by (intro vcg) (auto simp: instr_simps)

lemma sar_op_ok [instr_ok]: "instr_pre I m \<Longrightarrow> ok (instr_post I F m) (sar_op spec m)"
  unfolding sar_op_def by (intro vcg ok_lift_Val [OF sar_word_eq]) (auto simp: instr_simps)

end
