(* ===== verification/Instr_Frame.thy ===== *)
theory Instr_Frame
  imports Interp
begin

text \<open>
  The instructions that work on the frame and the environment only
  (\<open>crates/interpreter/src/instructions/control.rs\<close>, \<open>memory.rs\<close>, \<open>stack.rs\<close>, \<open>system.rs\<close> and
  \<open>host_env.rs\<close>, and the three terminators of \<open>instructions.rs\<close>). A read through a raw pointer into
  the code panics in the model when it leaves the buffer.
\<close>

section \<open>control.rs\<close>

definition set_ip :: "nat \<Rightarrow> 'h instr" where
  "set_ip dest m = Val (m\<lparr>instruction_pointer := dest\<rparr>)"

definition jump :: "'h instr" where
  "jump = gas_m gas_MID (pop_m1 (\<lambda>dest.
     as_usize_or_fail dest InvalidJump (\<lambda>dest m.
       if is_valid_jump (contract m) (unat dest) then set_ip (unat dest) m
       else halt InvalidJump m)))"

definition jumpi :: "'h instr" where
  "jumpi = gas_m gas_HIGH (pop_m2 (\<lambda>dest val.
     if val \<noteq> 0 then
       as_usize_or_fail dest InvalidJump (\<lambda>dest m.
         if is_valid_jump (contract m) (unat dest) then set_ip (unat dest) m
         else halt InvalidJump m)
     else done_m))"

definition jumpdest :: "'h instr" where
  "jumpdest = gas_m gas_JUMPDEST done_m"

definition pc_op :: "'h instr" where
  "pc_op = gas_m gas_BASE (\<lambda>m.
     push_m (ucast (word_of_nat (program_counter m) - 1 :: usize)) done_m m)"

definition set_return_range :: "usize \<times> usize \<Rightarrow> 'h instr \<Rightarrow> 'h instr" where
  "set_return_range r k m = k (m\<lparr>return_range := r\<rparr>)"

definition ret :: "'h instr" where
  "ret = pop_m2 (\<lambda>start len.
     as_usize_or_fail len InvalidOperandOOG (\<lambda>len.
       if len = 0 then set_return_range (- 1, - 1) (halt Return)
       else
         as_usize_or_fail start InvalidOperandOOG (\<lambda>offset.
           memory_resize offset len (set_return_range (offset, offset + len) (halt Return)))))"

definition revert :: "SpecId \<Rightarrow> 'h instr" where
  "revert spec = check (enabled spec BYZANTIUM) (pop_m2 (\<lambda>start len.
     as_usize_or_fail len InvalidOperandOOG (\<lambda>len.
       if len = 0 then set_return_range (- 1, - 1) (halt Revert)
       else
         as_usize_or_fail start InvalidOperandOOG (\<lambda>offset.
           memory_resize offset len (set_return_range (offset, offset + len) (halt Revert))))))"

section \<open>memory.rs\<close>

text \<open>\<open>on_memory f k\<close> applies a fallible memory operation; \<open>read_memory\<close> reads a slice.\<close>

definition on_memory :: "(Memory \<Rightarrow> Memory comp) \<Rightarrow> 'h instr" where
  "on_memory f m = bind_comp (f (memory m)) (\<lambda>mem. Val (m\<lparr>memory := mem\<rparr>))"

definition read_memory :: "usize \<Rightarrow> usize \<Rightarrow> (bytes \<Rightarrow> 'h instr) \<Rightarrow> 'h instr" where
  "read_memory offset len k m = bind_comp (get_slice offset len (memory m)) (\<lambda>bs. k bs m)"

definition mload :: "'h instr" where
  "mload = gas_m gas_VERYLOW (pop_m1 (\<lambda>index.
     as_usize_or_fail index InvalidOperandOOG (\<lambda>index.
       memory_resize index 32 (read_memory index 32 (\<lambda>bs. push_m (from_be_bytes bs) done_m)))))"

definition mstore :: "'h instr" where
  "mstore = gas_m gas_VERYLOW (pop_m2 (\<lambda>index val.
     as_usize_or_fail index InvalidOperandOOG (\<lambda>index.
       memory_resize index 32 (on_memory (set_u256 index val)))))"

definition mstore8 :: "'h instr" where
  "mstore8 = gas_m gas_VERYLOW (pop_m2 (\<lambda>index val.
     as_usize_or_fail index InvalidOperandOOG (\<lambda>index.
       memory_resize index 1 (on_memory (set_byte index (ucast val))))))"

definition msize :: "'h instr" where
  "msize = gas_m gas_BASE (\<lambda>m. push_m (word_of_nat (length (memory m))) done_m m)"

section \<open>stack.rs\<close>

definition pop_op :: "'h instr" where
  "pop_op = gas_m gas_BASE (\<lambda>m.
     case reduce_one (stack m) of
       Inl r \<Rightarrow> halt r m
     | Inr st \<Rightarrow> Val (m\<lparr>stack := st\<rparr>))"

definition push0 :: "SpecId \<Rightarrow> 'h instr" where
  "push0 spec = check (enabled spec SHANGHAI) (gas_m gas_BASE (\<lambda>m.
     case Stack_push 0 (stack m) of
       Inl r \<Rightarrow> halt r m
     | Inr st \<Rightarrow> Val (m\<lparr>stack := st\<rparr>)))"

definition push_op :: "nat \<Rightarrow> 'h instr" where
  "push_op n = gas_m gas_VERYLOW (\<lambda>m.
     let start = instruction_pointer m in
     if start + n \<le> length (code_of m) then
       bind_comp (push_slice n (slice start n (code_of m)) (stack m)) (\<lambda>r.
         case r of
           Inl e \<Rightarrow> halt e m
         | Inr st \<Rightarrow> set_ip (instruction_pointer m + n) (m\<lparr>stack := st\<rparr>))
     else Panic)"

definition dup_op :: "nat \<Rightarrow> 'h instr" where
  "dup_op n = gas_m gas_VERYLOW (\<lambda>m.
     case Stack_dup n (stack m) of
       Inl r \<Rightarrow> halt r m
     | Inr st \<Rightarrow> Val (m\<lparr>stack := st\<rparr>))"

definition swap_op :: "nat \<Rightarrow> 'h instr" where
  "swap_op n = gas_m gas_VERYLOW (\<lambda>m.
     case Stack_swap n (stack m) of
       Inl r \<Rightarrow> halt r m
     | Inr st \<Rightarrow> Val (m\<lparr>stack := st\<rparr>))"

section \<open>system.rs\<close>

definition sha3_op :: "Libs \<Rightarrow> 'h instr" where
  "sha3_op L = pop_m2 (\<lambda>from' len.
     as_usize_or_fail len InvalidOperandOOG (\<lambda>len.
       gas_or_fail (sha3_cost len) (
         if len = 0 then push_b256_m KECCAK_EMPTY done_m
         else
           as_usize_or_fail from' InvalidOperandOOG (\<lambda>from'.
             memory_resize from' len (read_memory from' len (\<lambda>bs.
               push_b256_m (lib_keccak256 L bs) done_m))))))"

definition address_op :: "'h instr" where
  "address_op = gas_m gas_BASE (\<lambda>m. push_b256_m (ucast (ct_address (contract m))) done_m m)"

definition caller_op :: "'h instr" where
  "caller_op = gas_m gas_BASE (\<lambda>m. push_b256_m (ucast (ct_caller (contract m))) done_m m)"

definition codesize :: "'h instr" where
  "codesize = gas_m gas_BASE (\<lambda>m. push_m (word_of_nat (bl_len (ct_bytecode (contract m)))) done_m m)"

definition codecopy :: "'h instr" where
  "codecopy = pop_m3 (\<lambda>memory_offset code_offset len.
     as_usize_or_fail len InvalidOperandOOG (\<lambda>len.
       gas_or_fail (verylowcopy_cost len) (
         if len = 0 then done_m
         else
           as_usize_or_fail memory_offset InvalidOperandOOG (\<lambda>memory_offset.
             let code_offset = as_usize_saturated code_offset in
             memory_resize memory_offset len (\<lambda>m.
               lift_comp (original_bytecode_slice (ct_bytecode (contract m))) (\<lambda>code.
                 on_memory (set_data memory_offset code_offset len code)) m)))))"

definition calldataload_word :: "bytes \<Rightarrow> usize \<Rightarrow> B256" where
  "calldataload_word inp index =
     (if unat index < length inp then
        (let have_bytes = min (length inp - unat index) 32;
             bs = splice 0 (slice (unat index) have_bytes inp) (replicate 32 0) in
         from_be_bytes bs)
      else 0)"

definition calldataload :: "'h instr" where
  "calldataload = gas_m gas_VERYLOW (pop_m1 (\<lambda>index m.
     let index = as_usize_saturated index in
     push_b256_m (calldataload_word (ct_input (contract m)) index) done_m m))"

definition calldatasize :: "'h instr" where
  "calldatasize = gas_m gas_BASE (\<lambda>m. push_m (word_of_nat (length (ct_input (contract m)))) done_m m)"

definition callvalue :: "'h instr" where
  "callvalue = gas_m gas_BASE (\<lambda>m. push_m (ct_value (contract m)) done_m m)"

definition calldatacopy :: "'h instr" where
  "calldatacopy = pop_m3 (\<lambda>memory_offset data_offset len.
     as_usize_or_fail len InvalidOperandOOG (\<lambda>len.
       gas_or_fail (verylowcopy_cost len) (
         if len = 0 then done_m
         else
           as_usize_or_fail memory_offset InvalidOperandOOG (\<lambda>memory_offset.
             let data_offset = as_usize_saturated data_offset in
             memory_resize memory_offset len (\<lambda>m.
               on_memory (set_data memory_offset data_offset len (ct_input (contract m))) m)))))"

definition returndatasize :: "SpecId \<Rightarrow> 'h instr" where
  "returndatasize spec = gas_m gas_BASE (check (enabled spec BYZANTIUM) (\<lambda>m.
     push_m (word_of_nat (length (return_data_buffer m))) done_m m))"

definition returndatacopy :: "SpecId \<Rightarrow> 'h instr" where
  "returndatacopy spec = check (enabled spec BYZANTIUM) (pop_m3 (\<lambda>memory_offset offset len.
     as_usize_or_fail len InvalidOperandOOG (\<lambda>len.
       gas_or_fail (verylowcopy_cost len) (\<lambda>m.
         let data_offset = as_usize_saturated offset;
             (data_end, overflow) = overflowing_add data_offset len in
         if overflow \<or> unat data_end > length (return_data_buffer m) then halt OutOfOffset m
         else if len \<noteq> 0 then
           as_usize_or_fail memory_offset InvalidOperandOOG (\<lambda>memory_offset.
             memory_resize memory_offset len (\<lambda>m.
               on_memory (Memory_set memory_offset
                 (slice (unat data_offset) (unat data_end - unat data_offset) (return_data_buffer m))) m)) m
         else done_m m))))"

definition gas_op :: "'h instr" where
  "gas_op = gas_m gas_BASE (\<lambda>m. push_m (ucast (remaining (gas m))) done_m m)"

section \<open>host_env.rs\<close>

definition chainid :: "'h host_ops \<Rightarrow> SpecId \<Rightarrow> 'h instr" where
  "chainid H spec = check (enabled spec ISTANBUL) (gas_m gas_BASE (\<lambda>m.
     push_m (cfg_chain_id (cfg (h_env H (host m)))) done_m m))"

definition coinbase_op :: "'h host_ops \<Rightarrow> 'h instr" where
  "coinbase_op H = gas_m gas_BASE (\<lambda>m.
     push_b256_m (ucast (coinbase (block (h_env H (host m))))) done_m m)"

definition timestamp_op :: "'h host_ops \<Rightarrow> 'h instr" where
  "timestamp_op H = gas_m gas_BASE (\<lambda>m. push_m (timestamp (block (h_env H (host m)))) done_m m)"

definition number_op :: "'h host_ops \<Rightarrow> 'h instr" where
  "number_op H = gas_m gas_BASE (\<lambda>m. push_m (blk_number (block (h_env H (host m)))) done_m m)"

definition difficulty_op :: "'h host_ops \<Rightarrow> SpecId \<Rightarrow> 'h instr" where
  "difficulty_op H spec = gas_m gas_BASE (\<lambda>m.
     if enabled spec MERGE then
       lift_comp (unwrap (prevrandao (block (h_env H (host m))))) (\<lambda>r. push_b256_m r done_m) m
     else push_m (difficulty (block (h_env H (host m)))) done_m m)"

definition gaslimit_op :: "'h host_ops \<Rightarrow> 'h instr" where
  "gaslimit_op H = gas_m gas_BASE (\<lambda>m. push_m (blk_gas_limit (block (h_env H (host m)))) done_m m)"

definition gasprice_op :: "'h host_ops \<Rightarrow> 'h instr" where
  "gasprice_op H = gas_m gas_BASE (\<lambda>m. push_m (effective_gas_price (h_env H (host m))) done_m m)"

definition basefee_op :: "'h host_ops \<Rightarrow> SpecId \<Rightarrow> 'h instr" where
  "basefee_op H spec = gas_m gas_BASE (check (enabled spec LONDON) (\<lambda>m.
     push_m (basefee (block (h_env H (host m)))) done_m m))"

definition origin_op :: "'h host_ops \<Rightarrow> 'h instr" where
  "origin_op H = gas_m gas_BASE (\<lambda>m. push_b256_m (ucast (tx_caller (tx (h_env H (host m))))) done_m m)"

section \<open>instructions.rs\<close>

definition return_stop :: "'h instr" where "return_stop = halt Stop"

definition return_invalid :: "'h instr" where "return_invalid = halt InvalidFEOpcode"

definition return_not_found :: "'h instr" where "return_not_found = halt OpcodeNotFound"

section \<open>Contracts\<close>

lemma ok_set_ip [vcg]: "Q (m\<lparr>instruction_pointer := d\<rparr>) \<Longrightarrow> ok Q (set_ip d m)"
  by (simp add: set_ip_def)

lemma ok_set_return_range [vcg]: "ok Q (k (m\<lparr>return_range := r\<rparr>)) \<Longrightarrow> ok Q (set_return_range r k m)"
  by (simp add: set_return_range_def)

lemma ok_read_memory [vcg]:
  assumes "unat off + unat len \<le> length (memory m)" "length (memory m) < 2 ^ 63"
    "\<And>bs. bs = slice (unat off) (unat len) (memory m) \<Longrightarrow> length bs = unat len \<Longrightarrow> ok Q (k bs m)"
  shows "ok Q (read_memory off len k m)"
  using assms by (simp add: read_memory_def get_slice_Val)

lemma ok_on_memory [vcg]:
  assumes "ok (\<lambda>mem. length mem = length (memory m)) (f (memory m))"
    "\<And>mem. f (memory m) = Val mem \<Longrightarrow> length mem = length (memory m) \<Longrightarrow> Q (m\<lparr>memory := mem\<rparr>)"
  shows "ok Q (on_memory f m)"
  using assms by (auto simp: on_memory_def ok_iff)

lemmas Val_simps = set_u256_Val set_byte_Val Memory_set_Val set_data_Val

lemma range_ok_window: "unat x + unat y \<le> n \<Longrightarrow> n < 2 ^ 63 \<Longrightarrow> range_ok (x, x + y) n"
  by (simp add: range_ok_def word_le_nat_alt unat_add_usize)

lemma range_ok_empty [simp]: "range_ok (- 1, y) n"
  by (simp add: range_ok_def)

lemma copy_cost_pos:
  "verylowcopy_cost len = Some c \<Longrightarrow> 3 \<le> unat c" "sha3_cost len = Some c \<Longrightarrow> 30 \<le> unat c"
  using verylowcopy_cost_eq [of len] sha3_cost_eq [of len] by auto

lemmas frame_dests = grownD limit_bound copy_cost_pos

lemma ok_original_slice [vcg]:
  assumes "contract_wf c" "\<And>code. length code < 2 ^ 63 \<Longrightarrow> ok Q (k code m)"
  shows "ok Q (lift_comp (original_bytecode_slice (ct_bytecode c)) k m)"
  using assms
  by (simp add: lift_comp_def original_bytecode_slice_def Bytes_slice_to_def contract_wf_def
      locked_wf_def padded_def)

lemma valid_jump_in_code: "contract_wf c \<Longrightarrow> is_valid_jump c d \<Longrightarrow> d < length (bl_bytecode (ct_bytecode c))"
  using map_exactD by (auto simp: contract_wf_def locked_wf_def is_valid_jump_def)

lemma ok_lift_unwrap: "x \<noteq> None \<Longrightarrow> (\<And>y. ok Q (k y m)) \<Longrightarrow> ok Q (lift_comp (unwrap x) k m)"
  by (auto simp: lift_comp_def)

lemma jump_ok [instr_ok]: "instr_pre I m \<Longrightarrow> ok (instr_post I F m) (jump m)"
  unfolding jump_def Let_def
  by (intro vcg) (auto simp: instr_simps dest: valid_jump_in_code)

lemma jumpi_ok [instr_ok]: "instr_pre I m \<Longrightarrow> ok (instr_post I F m) (jumpi m)"
  unfolding jumpi_def Let_def
  by (intro vcg) (auto simp: instr_simps dest: valid_jump_in_code)

lemma jumpdest_ok [instr_ok]: "instr_pre I m \<Longrightarrow> ok (instr_post I F m) (jumpdest m)"
  unfolding jumpdest_def Let_def
  by (intro vcg) (auto simp: instr_simps)

lemma pc_op_ok [instr_ok]: "instr_pre I m \<Longrightarrow> ok (instr_post I F m) (pc_op m)"
  unfolding pc_op_def Let_def
  by (intro vcg) (auto simp: instr_simps)

lemma ret_ok [instr_ok]: "instr_pre I m \<Longrightarrow> ok (instr_post I F m) (ret m)"
  unfolding ret_def Let_def
  by (intro vcg) (auto simp: instr_simps dest!: frame_dests intro!: range_ok_window elim!: range_ok_mono)

lemma mload_ok [instr_ok]: "instr_pre I m \<Longrightarrow> ok (instr_post I F m) (mload m)"
  unfolding mload_def Let_def
  by (intro vcg) (auto simp: instr_simps Val_simps dest!: frame_dests elim!: range_ok_mono)

lemma mstore_ok [instr_ok]: "instr_pre I m \<Longrightarrow> ok (instr_post I F m) (mstore m)"
  unfolding mstore_def Let_def
  by (intro vcg) (auto simp: instr_simps Val_simps dest!: frame_dests elim!: range_ok_mono)

lemma mstore8_ok [instr_ok]: "instr_pre I m \<Longrightarrow> ok (instr_post I F m) (mstore8 m)"
  unfolding mstore8_def Let_def
  by (intro vcg) (auto simp: instr_simps Val_simps dest!: frame_dests elim!: range_ok_mono)

lemma msize_ok [instr_ok]: "instr_pre I m \<Longrightarrow> ok (instr_post I F m) (msize m)"
  unfolding msize_def Let_def
  by (intro vcg) (auto simp: instr_simps)

lemma pop_op_ok [instr_ok]: "instr_pre I m \<Longrightarrow> ok (instr_post I F m) (pop_op m)"
  unfolding pop_op_def Let_def
  by (intro vcg) (auto simp: instr_simps halt_def dest: stack_limit_kept split: sum.split)

lemma address_op_ok [instr_ok]: "instr_pre I m \<Longrightarrow> ok (instr_post I F m) (address_op m)"
  unfolding address_op_def Let_def
  by (intro vcg) (auto simp: instr_simps)

lemma caller_op_ok [instr_ok]: "instr_pre I m \<Longrightarrow> ok (instr_post I F m) (caller_op m)"
  unfolding caller_op_def Let_def
  by (intro vcg) (auto simp: instr_simps)

lemma codesize_ok [instr_ok]: "instr_pre I m \<Longrightarrow> ok (instr_post I F m) (codesize m)"
  unfolding codesize_def Let_def
  by (intro vcg) (auto simp: instr_simps)

lemma codecopy_ok [instr_ok]: "instr_pre I m \<Longrightarrow> ok (instr_post I F m) (codecopy m)"
  unfolding codecopy_def Let_def
  by (intro vcg) (auto simp: instr_simps Val_simps dest!: frame_dests elim!: range_ok_mono)

lemma calldataload_ok [instr_ok]: "instr_pre I m \<Longrightarrow> ok (instr_post I F m) (calldataload m)"
  unfolding calldataload_def Let_def
  by (intro vcg) (auto simp: instr_simps)

lemma calldatasize_ok [instr_ok]: "instr_pre I m \<Longrightarrow> ok (instr_post I F m) (calldatasize m)"
  unfolding calldatasize_def Let_def
  by (intro vcg) (auto simp: instr_simps)

lemma callvalue_ok [instr_ok]: "instr_pre I m \<Longrightarrow> ok (instr_post I F m) (callvalue m)"
  unfolding callvalue_def Let_def
  by (intro vcg) (auto simp: instr_simps)

lemma calldatacopy_ok [instr_ok]: "instr_pre I m \<Longrightarrow> ok (instr_post I F m) (calldatacopy m)"
  unfolding calldatacopy_def Let_def
  by (intro vcg) (auto simp: instr_simps Val_simps contract_wf_def dest!: frame_dests elim!: range_ok_mono)

lemma gas_op_ok [instr_ok]: "instr_pre I m \<Longrightarrow> ok (instr_post I F m) (gas_op m)"
  unfolding gas_op_def Let_def
  by (intro vcg) (auto simp: instr_simps)

lemma return_stop_ok [instr_ok]: "instr_pre I m \<Longrightarrow> ok (instr_post I F m) (return_stop m)"
  unfolding return_stop_def Let_def
  by (intro vcg) (auto simp: instr_simps)

lemma return_invalid_ok [instr_ok]: "instr_pre I m \<Longrightarrow> ok (instr_post I F m) (return_invalid m)"
  unfolding return_invalid_def Let_def
  by (intro vcg) (auto simp: instr_simps)

lemma return_not_found_ok [instr_ok]: "instr_pre I m \<Longrightarrow> ok (instr_post I F m) (return_not_found m)"
  unfolding return_not_found_def Let_def
  by (intro vcg) (auto simp: instr_simps)

lemma revert_ok [instr_ok]: "instr_pre I m \<Longrightarrow> ok (instr_post I F m) (revert spec m)"
  unfolding revert_def Let_def
  by (intro vcg) (auto simp: instr_simps dest!: frame_dests intro!: range_ok_window elim!: range_ok_mono)

lemma push0_ok [instr_ok]: "instr_pre I m \<Longrightarrow> ok (instr_post I F m) (push0 spec m)"
  unfolding push0_def Let_def
  by (intro vcg) (auto simp: instr_simps halt_def dest: stack_limit_kept split: sum.split)

lemma push_op_ok [instr_ok]: "n \<le> 32 \<Longrightarrow> instr_pre I m \<Longrightarrow> ok (instr_post I F m) (push_op n m)"
  unfolding push_op_def Let_def
  by (intro vcg) (auto simp: instr_simps push_slice_def halt_def set_ip_def)

lemma dup_op_ok [instr_ok]: "instr_pre I m \<Longrightarrow> ok (instr_post I F m) (dup_op n m)"
  unfolding dup_op_def Let_def
  by (intro vcg) (auto simp: instr_simps halt_def dest: stack_limit_kept split: sum.split)

lemma swap_op_ok [instr_ok]: "instr_pre I m \<Longrightarrow> ok (instr_post I F m) (swap_op n m)"
  unfolding swap_op_def Let_def
  by (intro vcg) (auto simp: instr_simps halt_def dest: stack_limit_kept split: sum.split)

lemma sha3_op_ok [instr_ok]: "instr_pre I m \<Longrightarrow> ok (instr_post I F m) (sha3_op L m)"
  unfolding sha3_op_def Let_def
  by (intro vcg) (auto simp: instr_simps Val_simps dest!: frame_dests elim!: range_ok_mono)

lemma returndatasize_ok [instr_ok]: "instr_pre I m \<Longrightarrow> ok (instr_post I F m) (returndatasize spec m)"
  unfolding returndatasize_def Let_def
  by (intro vcg) (auto simp: instr_simps)

lemma returndatacopy_ok [instr_ok]: "instr_pre I m \<Longrightarrow> ok (instr_post I F m) (returndatacopy spec m)"
  unfolding returndatacopy_def Let_def
  unfolding split_beta
  by (intro vcg) (auto simp: instr_simps overflowing_add_def unat_add_usize Val_simps dest!: frame_dests elim!: range_ok_mono)

lemma chainid_ok [instr_ok]: "instr_pre I m \<Longrightarrow> ok (instr_post I F m) (chainid H spec m)"
  unfolding chainid_def Let_def
  by (intro vcg) (auto simp: instr_simps)

lemma coinbase_op_ok [instr_ok]: "instr_pre I m \<Longrightarrow> ok (instr_post I F m) (coinbase_op H m)"
  unfolding coinbase_op_def Let_def
  by (intro vcg) (auto simp: instr_simps)

lemma timestamp_op_ok [instr_ok]: "instr_pre I m \<Longrightarrow> ok (instr_post I F m) (timestamp_op H m)"
  unfolding timestamp_op_def Let_def
  by (intro vcg) (auto simp: instr_simps)

lemma number_op_ok [instr_ok]: "instr_pre I m \<Longrightarrow> ok (instr_post I F m) (number_op H m)"
  unfolding number_op_def Let_def
  by (intro vcg) (auto simp: instr_simps)

lemma difficulty_op_ok [instr_ok]: "(enabled spec MERGE \<Longrightarrow> prevrandao (block (h_env H (host m))) \<noteq> None) \<Longrightarrow> instr_pre I m \<Longrightarrow> ok (instr_post I F m) (difficulty_op H spec m)"
  unfolding difficulty_op_def Let_def
  by (intro vcg ok_lift_unwrap) (auto simp: instr_simps)

lemma gaslimit_op_ok [instr_ok]: "instr_pre I m \<Longrightarrow> ok (instr_post I F m) (gaslimit_op H m)"
  unfolding gaslimit_op_def Let_def
  by (intro vcg) (auto simp: instr_simps)

lemma gasprice_op_ok [instr_ok]: "instr_pre I m \<Longrightarrow> ok (instr_post I F m) (gasprice_op H m)"
  unfolding gasprice_op_def Let_def
  by (intro vcg) (auto simp: instr_simps)

lemma basefee_op_ok [instr_ok]: "instr_pre I m \<Longrightarrow> ok (instr_post I F m) (basefee_op H spec m)"
  unfolding basefee_op_def Let_def
  by (intro vcg) (auto simp: instr_simps)

lemma origin_op_ok [instr_ok]: "instr_pre I m \<Longrightarrow> ok (instr_post I F m) (origin_op H m)"
  unfolding origin_op_def Let_def
  by (intro vcg) (auto simp: instr_simps)

end
