(* ===== verification/Instr_Host.thy ===== *)
theory Instr_Host
  imports Instr_Frame
begin

text \<open>
  The instructions that use the host (\<open>crates/interpreter/src/instructions/host.rs\<close>): account and
  storage access, logs, self-destruction, calls and creations. The host is a parameter \<open>H\<close>; what
  the instructions rely on is the locale \<open>basic_host\<close>, and \<open>full_host\<close> where calls, creations and
  self-destruction are involved. Inside them every instruction is proved to meet its contract.
\<close>

section \<open>Accounts and storage\<close>

text \<open>The pattern \<open>let ret = host.f(..); if ret.is_none() { FatalExternalError; return }\<close>.\<close>

definition host_or_fatal :: "('h \<Rightarrow> ('a option \<times> 'h) comp) \<Rightarrow> ('a \<Rightarrow> 'h instr) \<Rightarrow> 'h instr" where
  "host_or_fatal f k = with_host f (\<lambda>r. case r of None \<Rightarrow> halt FatalExternalError | Some x \<Rightarrow> k x)"

definition balance_op :: "'h host_ops \<Rightarrow> SpecId \<Rightarrow> 'h instr" where
  "balance_op H spec = pop_address (\<lambda>address.
     host_or_fatal (\<lambda>h. h_balance H h address) (\<lambda>(balance, is_cold).
       gas_m (if enabled spec ISTANBUL then account_access_gas spec is_cold
              else if enabled spec TANGERINE then 400 else 20)
         (push_m balance done_m)))"

definition selfbalance_op :: "'h host_ops \<Rightarrow> SpecId \<Rightarrow> 'h instr" where
  "selfbalance_op H spec = check (enabled spec ISTANBUL) (gas_m gas_LOW (\<lambda>m.
     host_or_fatal (\<lambda>h. h_balance H h (ct_address (contract m))) (\<lambda>(balance, _).
       push_m balance done_m) m))"

definition extcodesize :: "'h host_ops \<Rightarrow> SpecId \<Rightarrow> 'h instr" where
  "extcodesize H spec = pop_address (\<lambda>address.
     host_or_fatal (\<lambda>h. h_code H h address) (\<lambda>(code, is_cold).
       gas_m (if enabled spec BERLIN
              then (if is_cold then gas_COLD_ACCOUNT_ACCESS_COST else gas_WARM_STORAGE_READ_COST)
              else if enabled spec TANGERINE then 700 else 20)
         (push_m (word_of_nat (Bytecode_len code)) done_m)))"

definition extcodehash :: "'h host_ops \<Rightarrow> SpecId \<Rightarrow> 'h instr" where
  "extcodehash H spec = check (enabled spec CONSTANTINOPLE) (pop_address (\<lambda>address.
     host_or_fatal (\<lambda>h. h_code_hash H h address) (\<lambda>(code_hash, is_cold).
       gas_m (if enabled spec BERLIN
              then (if is_cold then gas_COLD_ACCOUNT_ACCESS_COST else gas_WARM_STORAGE_READ_COST)
              else if enabled spec ISTANBUL then 700 else 400)
         (push_b256_m code_hash done_m))))"

definition extcodecopy :: "'h host_ops \<Rightarrow> SpecId \<Rightarrow> 'h instr" where
  "extcodecopy H spec = pop_address (\<lambda>address. pop_m3 (\<lambda>memory_offset code_offset len_u256.
     host_or_fatal (\<lambda>h. h_code H h address) (\<lambda>(code, is_cold).
       as_usize_or_fail len_u256 InvalidOperandOOG (\<lambda>len.
         gas_or_fail (extcodecopy_cost spec len is_cold) (
           if len = 0 then done_m
           else
             as_usize_or_fail memory_offset InvalidOperandOOG (\<lambda>memory_offset.
               let code_offset = min (as_usize_saturated code_offset) (word_of_nat (Bytecode_len code)) in
               memory_resize memory_offset len (
                 on_memory (set_data memory_offset code_offset len (bytecode code)))))))))"

definition blockhash :: "'h host_ops \<Rightarrow> 'h instr" where
  "blockhash H = gas_m gas_BLOCKHASH (pop_top1 (\<lambda>number m.
     case checked_sub (blk_number (block (h_env H (host m)))) number of
       Some diff \<Rightarrow>
         (let diff = as_usize_saturated diff in
          if diff \<le> 256 \<and> diff \<noteq> 0 then
            host_or_fatal (\<lambda>h. h_block_hash H h number) write_top m
          else write_top 0 m)
     | None \<Rightarrow> write_top 0 m))"

definition sload_op :: "'h host_ops \<Rightarrow> SpecId \<Rightarrow> 'h instr" where
  "sload_op H spec = pop_m1 (\<lambda>index m.
     host_or_fatal (\<lambda>h. h_sload H h (ct_address (contract m)) index) (\<lambda>(val, is_cold).
       gas_m (sload_cost spec is_cold) (push_m val done_m)) m)"

definition sstore_op :: "'h host_ops \<Rightarrow> SpecId \<Rightarrow> 'h instr" where
  "sstore_op H spec = check_staticcall (pop_m2 (\<lambda>index val m.
     host_or_fatal (\<lambda>h. h_sstore H h (ct_address (contract m)) index val) (\<lambda>(original, old, new, is_cold) m.
       gas_or_fail (sstore_cost spec original old new (remaining (gas m)) is_cold)
         (refund_m (sstore_refund spec original old new) done_m) m) m))"

section \<open>Logs and self-destruction\<close>

fun pop_topics :: "nat \<Rightarrow> B256 list \<Rightarrow> (B256 list \<Rightarrow> 'h instr) \<Rightarrow> 'h instr" where
  "pop_topics 0 topics k m = k topics m"
| "pop_topics (Suc n) topics k m =
     bind_comp (pop_unsafe (stack m)) (\<lambda>(x, st). pop_topics n (topics @ [x]) k (m\<lparr>stack := st\<rparr>))"

definition log_op :: "'h host_ops \<Rightarrow> u8 \<Rightarrow> 'h instr" where
  "log_op H N =
     (let emit = (\<lambda>data m.
            if length (stack m) < unat N then halt StackUnderflow m
            else pop_topics (unat N) [] (\<lambda>topics m.
              bind_comp (h_log H (host m) (ct_address (contract m)) topics data) (\<lambda>h.
                Val (m\<lparr>host := h\<rparr>))) m) in
      check_staticcall (pop_m2 (\<lambda>offset len.
        as_usize_or_fail len InvalidOperandOOG (\<lambda>len.
          gas_or_fail (log_cost N len) (
            if len = 0 then emit []
            else
              as_usize_or_fail offset InvalidOperandOOG (\<lambda>offset.
                memory_resize offset len (read_memory offset len emit)))))))"

definition selfdestruct_op :: "'h host_ops \<Rightarrow> SpecId \<Rightarrow> 'h instr" where
  "selfdestruct_op H spec = check_staticcall (pop_address (\<lambda>target m.
     host_or_fatal (\<lambda>h. h_selfdestruct H h (ct_address (contract m)) target) (\<lambda>res.
       (if \<not> enabled spec LONDON \<and> \<not> previously_destroyed res then refund_m gas_SELFDESTRUCT else id)
         (gas_m (selfdestruct_cost spec res) (halt SelfDestruct))) m))"

section \<open>Create\<close>

definition set_return_data :: "bytes \<Rightarrow> 'h instr \<Rightarrow> 'h instr" where
  "set_return_data d k m = k (m\<lparr>return_data_buffer := d\<rparr>)"

text \<open>The initialisation code, with the limit and the price of EIP-3860.\<close>

definition create_code :: "'h host_ops \<Rightarrow> SpecId \<Rightarrow> U256 \<Rightarrow> usize \<Rightarrow> (bytes \<Rightarrow> 'h instr) \<Rightarrow> 'h instr" where
  "create_code H spec code_offset len k =
     (if len = 0 then k []
      else
        as_usize_or_fail code_offset InvalidOperandOOG (\<lambda>code_offset.
          let copy = memory_resize code_offset len (read_memory code_offset len k) in
          if enabled spec SHANGHAI then (\<lambda>m.
            let max_initcode_size =
                  (case limit_contract_code_size (cfg (h_env H (host m))) of
                     Some limit \<Rightarrow> saturating_mul limit 2
                   | None \<Rightarrow> MAX_INITCODE_SIZE) in
            if len > max_initcode_size then halt CreateInitcodeSizeLimit m
            else gas_m (initcode_cost len) copy m)
          else copy))"

definition create_scheme :: "bool \<Rightarrow> usize \<Rightarrow> (CreateScheme \<Rightarrow> 'h instr) \<Rightarrow> 'h instr" where
  "create_scheme IS_CREATE2 len k =
     (if IS_CREATE2 then pop_m1 (\<lambda>salt. gas_or_fail (create2_cost len) (k (Create2 salt)))
      else gas_m gas_CREATE (k Create))"

text \<open>The result of the creation: what is pushed, which gas comes back, what the return data is.\<close>

definition erase_m :: "u64 \<Rightarrow> 'h instr \<Rightarrow> 'h instr" where
  "erase_m r k m = k (m\<lparr>gas := erase_cost (gas m) r\<rparr>)"

definition record_refund_m :: "i64 \<Rightarrow> 'h instr \<Rightarrow> 'h instr" where
  "record_refund_m r k m = k (m\<lparr>gas := record_refund (gas m) r\<rparr>)"

definition create_result :: "InstructionResult \<Rightarrow> B160 option \<Rightarrow> Gas \<Rightarrow> bytes \<Rightarrow> 'h instr" where
  "create_result return_reason address g return_data =
     set_return_data (if return_revert return_reason then return_data else []) (
       if return_ok return_reason then
         push_b256_m (ucast (case address of Some a \<Rightarrow> a | None \<Rightarrow> 0))
           (erase_m (remaining g) (record_refund_m (g_refunded g) done_m))
       else if return_revert return_reason then push_b256_m 0 (erase_m (remaining g) done_m)
       else if return_reason = FatalExternalError then halt FatalExternalError
       else push_b256_m 0 done_m)"

definition create_exec :: "'h host_ops \<Rightarrow> SpecId \<Rightarrow> U256 \<Rightarrow> bytes \<Rightarrow> CreateScheme \<Rightarrow> 'h instr" where
  "create_exec H spec val code scheme m =
     (let gas_limit = remaining (gas m);
          gas_limit = (if enabled spec TANGERINE then gas_limit - gas_limit div 64 else gas_limit) in
      gas_m gas_limit (\<lambda>m.
        let create_input =
              \<lparr> cr_caller = ct_address (contract m), cr_scheme = scheme, cr_value = val,
                cr_init_code = code, cr_gas_limit = gas_limit \<rparr> in
        bind_comp (h_create H (host m) create_input) (\<lambda>(return_reason, address, g, return_data, h).
          create_result return_reason address g return_data (m\<lparr>host := h\<rparr>))) m)"

definition create_op :: "'h host_ops \<Rightarrow> bool \<Rightarrow> SpecId \<Rightarrow> 'h instr" where
  "create_op H IS_CREATE2 spec = check_staticcall (
     (if IS_CREATE2 then check (enabled spec PETERSBURG) else id) (
       set_return_data [] (pop_m3 (\<lambda>val code_offset len.
         as_usize_or_fail len InvalidOperandOOG (\<lambda>len.
           create_code H spec code_offset len (\<lambda>code.
             create_scheme IS_CREATE2 len (create_exec H spec val code)))))))"

section \<open>Calls\<close>

text \<open>The value a call transfers, and the restriction of static frames.\<close>

definition call_value :: "CallScheme \<Rightarrow> (U256 \<Rightarrow> 'h instr) \<Rightarrow> 'h instr" where
  "call_value scheme k =
     (case scheme of
        CallScheme_CallCode \<Rightarrow> pop_m1 k
      | CallScheme_Call \<Rightarrow> pop_m1 (\<lambda>val m.
          if is_static m \<and> val \<noteq> 0 then halt CallNotAllowedInsideStatic m else k val m)
      | CallScheme_DelegateCall \<Rightarrow> k 0
      | CallScheme_StaticCall \<Rightarrow> k 0)"

definition call_input_data :: "U256 \<Rightarrow> usize \<Rightarrow> (bytes \<Rightarrow> 'h instr) \<Rightarrow> 'h instr" where
  "call_input_data in_offset in_len k =
     (if in_len \<noteq> 0 then
        as_usize_or_fail in_offset InvalidOperandOOG (\<lambda>in_offset.
          memory_resize in_offset in_len (read_memory in_offset in_len k))
      else k [])"

definition call_output_range :: "U256 \<Rightarrow> usize \<Rightarrow> (usize \<Rightarrow> 'h instr) \<Rightarrow> 'h instr" where
  "call_output_range out_offset out_len k =
     (if out_len \<noteq> 0 then
        as_usize_or_fail out_offset InvalidOperandOOG (\<lambda>out_offset.
          memory_resize out_offset out_len (k out_offset))
      else k (- 1))"

definition call_context :: "CallScheme \<Rightarrow> B160 \<Rightarrow> U256 \<Rightarrow> Contract \<Rightarrow> CallContext" where
  "call_context scheme to val c =
     (case scheme of
        CallScheme_CallCode \<Rightarrow>
          \<lparr> ctx_address = ct_address c, ctx_caller = ct_address c, ctx_code_address = to,
            ctx_apparent_value = val, ctx_scheme = scheme \<rparr>
      | CallScheme_DelegateCall \<Rightarrow>
          \<lparr> ctx_address = ct_address c, ctx_caller = ct_caller c, ctx_code_address = to,
            ctx_apparent_value = ct_value c, ctx_scheme = scheme \<rparr>
      | _ \<Rightarrow>
          \<lparr> ctx_address = to, ctx_caller = ct_address c, ctx_code_address = to,
            ctx_apparent_value = val, ctx_scheme = scheme \<rparr>)"

definition call_transfer :: "CallScheme \<Rightarrow> B160 \<Rightarrow> U256 \<Rightarrow> Contract \<Rightarrow> Transfer" where
  "call_transfer scheme to val c =
     (if scheme = CallScheme_Call then
        \<lparr> tr_source = ct_address c, tr_target = to, tr_value = val \<rparr>
      else if scheme = CallScheme_CallCode then
        \<lparr> tr_source = ct_address c, tr_target = ct_address c, tr_value = val \<rparr>
      else \<lparr> tr_source = ct_address c, tr_target = ct_address c, tr_value = 0 \<rparr>)"

definition call_result :: "usize \<Rightarrow> usize \<Rightarrow> InstructionResult \<Rightarrow> Gas \<Rightarrow> bytes \<Rightarrow> 'h instr" where
  "call_result out_offset out_len reason g return_data =
     set_return_data return_data (\<lambda>m.
       let target_len = min (unat out_len) (length (return_data_buffer m));
           store = (\<lambda>k m. bind_comp (Memory_set out_offset (take target_len (return_data_buffer m)) (memory m))
             (\<lambda>mem. k (m\<lparr>memory := mem\<rparr>))) in
       (if return_ok reason then
          erase_m (remaining g) (record_refund_m (g_refunded g) (store (push_m 1 done_m)))
        else if return_revert reason then erase_m (remaining g) (store (push_m 0 done_m))
        else if reason = FatalExternalError then halt FatalExternalError
        else push_m 0 done_m) m)"

definition call_exec ::
  "'h host_ops \<Rightarrow> SpecId \<Rightarrow> CallScheme \<Rightarrow> u64 \<Rightarrow> B160 \<Rightarrow> U256 \<Rightarrow> bytes \<Rightarrow> usize \<Rightarrow> usize \<Rightarrow> 'h instr" where
  "call_exec H spec scheme local_gas_limit to val input out_offset out_len m =
     (let context = call_context scheme to val (contract m);
          transfer = call_transfer scheme to val (contract m);
          plain = (scheme = CallScheme_Call \<or> scheme = CallScheme_CallCode) in
      host_or_fatal (\<lambda>h. h_load_account H h to) (\<lambda>(is_cold, exist).
        gas_m (call_cost spec val (\<not> exist) is_cold plain
                 (scheme = CallScheme_Call \<or> scheme = CallScheme_StaticCall)) (\<lambda>m.
          let gas_limit =
                (if enabled spec TANGERINE then
                   (let g = remaining (gas m) in min (g - g div 64) local_gas_limit)
                 else local_gas_limit) in
          gas_m gas_limit (\<lambda>m.
            let gas_limit = (if plain \<and> tr_value transfer \<noteq> 0
                             then saturating_add gas_limit gas_CALL_STIPEND else gas_limit);
                call_input =
                  \<lparr> ci_contract = to, ci_transfer = transfer, ci_input = input,
                    ci_gas_limit = gas_limit, ci_context = context,
                    ci_is_static = (scheme = CallScheme_StaticCall \<or> is_static m) \<rparr> in
            bind_comp (h_call H (host m) call_input) (\<lambda>(reason, g, return_data, h).
              call_result out_offset out_len reason g return_data (m\<lparr>host := h\<rparr>))) m)) m)"

definition call_inner_op :: "'h host_ops \<Rightarrow> SpecId \<Rightarrow> CallScheme \<Rightarrow> 'h instr" where
  "call_inner_op H spec scheme =
     (case scheme of
        CallScheme_DelegateCall \<Rightarrow> check (enabled spec HOMESTEAD)
      | CallScheme_StaticCall \<Rightarrow> check (enabled spec BYZANTIUM)
      | _ \<Rightarrow> id) (
       set_return_data [] (pop_m1 (\<lambda>local_gas_limit. pop_address (\<lambda>to.
         let local_gas_limit = (case u64_try_from local_gas_limit of Some g \<Rightarrow> g | None \<Rightarrow> u64_MAX) in
         call_value scheme (\<lambda>val. pop_m4 (\<lambda>in_offset in_len out_offset out_len.
           as_usize_or_fail in_len InvalidOperandOOG (\<lambda>in_len.
             call_input_data in_offset in_len (\<lambda>input.
               as_usize_or_fail out_len InvalidOperandOOG (\<lambda>out_len.
                 call_output_range out_offset out_len (\<lambda>out_offset.
                   call_exec H spec scheme local_gas_limit to val input out_offset out_len))))))))))"

definition call_op :: "'h host_ops \<Rightarrow> SpecId \<Rightarrow> 'h instr" where
  "call_op H spec = call_inner_op H spec CallScheme_Call"

definition call_code :: "'h host_ops \<Rightarrow> SpecId \<Rightarrow> 'h instr" where
  "call_code H spec = call_inner_op H spec CallScheme_CallCode"

definition delegate_call :: "'h host_ops \<Rightarrow> SpecId \<Rightarrow> 'h instr" where
  "delegate_call H spec = call_inner_op H spec CallScheme_DelegateCall"

definition static_call :: "'h host_ops \<Rightarrow> SpecId \<Rightarrow> 'h instr" where
  "static_call H spec = call_inner_op H spec CallScheme_StaticCall"

section \<open>What the instructions need from the host\<close>

text \<open>
  The host keeps an invariant \<open>I static s\<close> for a frame of the contract at \<open>s\<close>. What changes accounts or
  logs is only required of frames that are not static, and calls of a static frame are static and
  move nothing between two accounts. A failure of the host leaves \<open>F\<close>, the record of an error.
\<close>

locale basic_host =
  fixes H :: "'h host_ops" and I :: "bool \<Rightarrow> B160 \<Rightarrow> 'h \<Rightarrow> bool" and F :: "'h \<Rightarrow> bool" and spec :: SpecId
  assumes env_ok: "I st s h \<Longrightarrow> enabled spec MERGE \<Longrightarrow> prevrandao (block (h_env H h)) \<noteq> None"
    and load_account_ok: "I st s h \<Longrightarrow> ok (\<lambda>(r, h'). I st s h' \<and> (r = None \<longrightarrow> F h')) (h_load_account H h a)"
    and block_hash_ok: "I st s h \<Longrightarrow> ok (\<lambda>(r, h'). I st s h' \<and> (r = None \<longrightarrow> F h')) (h_block_hash H h n)"
    and balance_ok: "I st s h \<Longrightarrow> ok (\<lambda>(r, h'). I st s h' \<and> (r = None \<longrightarrow> F h')) (h_balance H h a)"
    and code_ok: "I st s h \<Longrightarrow> ok (\<lambda>(r, h'). I st s h' \<and> (r = None \<longrightarrow> F h') \<and>
      (\<forall>c cold. r = Some (c, cold) \<longrightarrow> bytecode_wf c \<and> length (bytecode c) < 2 ^ 63)) (h_code H h a)"
    and code_hash_ok: "I st s h \<Longrightarrow> ok (\<lambda>(r, h'). I st s h' \<and> (r = None \<longrightarrow> F h')) (h_code_hash H h a)"
    and sload_ok: "I st s h \<Longrightarrow> ok (\<lambda>(r, h'). I st s h' \<and> (r = None \<longrightarrow> F h')) (h_sload H h s k)"
    and sstore_ok: "I False s h \<Longrightarrow> ok (\<lambda>(r, h'). I False s h' \<and> (r = None \<longrightarrow> F h')) (h_sstore H h s k v)"
    and log_ok: "I False s h \<Longrightarrow> ok (I False s) (h_log H h s topics data)"

locale full_host = basic_host +
  assumes selfdestruct_ok: "I False s h \<Longrightarrow> ok (\<lambda>(r, h'). I False s h' \<and> (r = None \<longrightarrow> F h')) (h_selfdestruct H h s b)"
    and create_ok: "I False s h \<Longrightarrow> cr_caller c = s \<Longrightarrow> length (cr_init_code c) + 128 < 2 ^ 63 \<Longrightarrow>
      ok (\<lambda>(r, a, g, d, h'). I False s h' \<and> (r = FatalExternalError \<longrightarrow> F h') \<and> gas_wf g \<and>
          g_limit g = cr_gas_limit c \<and> length d < 2 ^ 63)
        (h_create H h c)"
    and call_ok: "I st s h \<Longrightarrow> length (ci_input i) < 2 ^ 63 \<Longrightarrow> tr_source (ci_transfer i) = s \<Longrightarrow>
      tr_target (ci_transfer i) \<in> {s, ci_contract i} \<Longrightarrow> ctx_address (ci_context i) \<in> {s, ci_contract i} \<Longrightarrow>
      (st \<longrightarrow> ci_is_static i) \<Longrightarrow>
      (ci_is_static i \<longrightarrow> tr_value (ci_transfer i) = 0 \<or> tr_target (ci_transfer i) = s) \<Longrightarrow>
      ok (\<lambda>(r, g, d, h'). I st s h' \<and> (r = FatalExternalError \<longrightarrow> F h') \<and> gas_wf g \<and>
          g_limit g = ci_gas_limit i \<and> length d < 2 ^ 63)
        (h_call H h i)"

lemma ok_host_or_fatal:
  assumes "ok (\<lambda>(r, h'). P r h') (f (host m))"
    "\<And>h. P None h \<Longrightarrow> Q (m\<lparr>host := h, instruction_result := FatalExternalError\<rparr>)"
    "\<And>x h. P (Some x) h \<Longrightarrow> ok Q (k x (m\<lparr>host := h\<rparr>))"
  shows "ok Q (host_or_fatal f k m)"
proof -
  obtain r h where f: "f (host m) = Val (r, h)" "P r h" using assms(1) by (auto simp: ok_iff)
  then show ?thesis using assms(2,3)
    by (cases r) (auto simp: host_or_fatal_def with_host_def halt_def)
qed

lemma ok_set_return_data [vcg]:
  "ok Q (k (m\<lparr>return_data_buffer := d\<rparr>)) \<Longrightarrow> ok Q (set_return_data d k m)"
  by (simp add: set_return_data_def)

lemma ok_erase_m [vcg]:
  assumes "gas_wf (gas m)" "unat r \<le> unat (g_used (gas m))"
    "\<And>g. gas_wf g \<Longrightarrow> g_limit g = g_limit (gas m) \<Longrightarrow>
       unat (remaining g) = unat (remaining (gas m)) + unat r \<Longrightarrow> ok Q (k (m\<lparr>gas := g\<rparr>))"
  shows "ok Q (erase_m r k m)"
  using assms erase_cost_returns [of "gas m" r] by (simp add: erase_m_def word_le_nat_alt)

lemma ok_record_refund_m [vcg]:
  "ok Q (k (m\<lparr>gas := record_refund (gas m) r\<rparr>)) \<Longrightarrow> ok Q (record_refund_m r k m)"
  by (simp add: record_refund_m_def)

lemma ok_prod_case [vcg]: "(\<And>a b. p = (a, b) \<Longrightarrow> ok Q (f a b m)) \<Longrightarrow> ok Q ((case p of (a, b) \<Rightarrow> f a b) m)"
  by (cases p) simp

lemma ok_pop_topics:
  assumes "n \<le> length (stack m)"
    "\<And>ts st. length st + n = length (stack m) \<Longrightarrow> ok Q (k ts (m\<lparr>stack := st\<rparr>))"
  shows "ok Q (pop_topics n topics k m)"
  using assms
proof (induction n topics k m rule: pop_topics.induct)
  case (1 topics k m)
  then show ?case using 1(2) [of "stack m" topics] by simp
next
  case (2 n topics k m)
  then obtain st a where "stack m = st @ [a]" by (cases "stack m" rule: rev_cases) auto
  with 2 show ?case by simp
qed

lemma extcodecopy_cost_pos: "extcodecopy_cost spec len c = Some x \<Longrightarrow> 20 \<le> unat x"
  using extcodecopy_cost_eq [of spec len c] by (auto split: if_splits)

lemma log_cost_pos: "log_cost n len = Some c \<Longrightarrow> 375 \<le> unat c"
  using log_cost_eq [where n = n and len = len]
  by (cases "375 + 8 * unat len + 375 * unat n < 2 ^ 64") auto

lemma create2_cost_pos: "create2_cost len = Some c \<Longrightarrow> 32000 \<le> unat c"
  using create2_cost_eq [of len] by auto

lemmas host_dests = frame_dests extcodecopy_cost_pos log_cost_pos create2_cost_pos sstore_cost_bounds(1)

lemma gas_positive:
  "0 < unat (account_access_gas spec c)" "0 < unat (sload_cost spec c)"
  using account_access_gas_bounds [of spec c] sload_cost_bounds [of spec c] by linarith+

lemma remaining_less: "unat (remaining g) + n = r \<Longrightarrow> 0 < n \<Longrightarrow> unat (remaining g) < r"
  by simp

context basic_host
begin

abbreviation self_inv :: "'h machine \<Rightarrow> 'h \<Rightarrow> bool" where
  "self_inv m \<equiv> I (is_static m) (ct_address (contract m))"

lemma host_or_fatal_keeps:
  assumes "\<And>st s h. I st s h \<Longrightarrow> ok (\<lambda>(r, h'). I st s h' \<and> (r = None \<longrightarrow> F h')) (f s h)" "self_inv m (host m)"
    "\<And>h. self_inv m h \<Longrightarrow> F h \<Longrightarrow> Q (m\<lparr>host := h, instruction_result := FatalExternalError\<rparr>)"
    "\<And>x h. self_inv m h \<Longrightarrow> ok Q (k x (m\<lparr>host := h\<rparr>))"
  shows "ok Q (host_or_fatal (f (ct_address (contract m))) k m)"
  using ok_host_or_fatal [where P = "\<lambda>r h'. self_inv m h' \<and> (r = None \<longrightarrow> F h')"] assms by blast

lemma host_or_fatal_changes:
  assumes "\<And>s h. I False s h \<Longrightarrow> ok (\<lambda>(r, h'). I False s h' \<and> (r = None \<longrightarrow> F h')) (f s h)"
    "\<not> is_static m" "self_inv m (host m)"
    "\<And>h. self_inv m h \<Longrightarrow> F h \<Longrightarrow> Q (m\<lparr>host := h, instruction_result := FatalExternalError\<rparr>)"
    "\<And>x h. self_inv m h \<Longrightarrow> ok Q (k x (m\<lparr>host := h\<rparr>))"
  shows "ok Q (host_or_fatal (f (ct_address (contract m))) k m)"
  by (rule ok_host_or_fatal [where P = "\<lambda>r h'. self_inv m h' \<and> (r = None \<longrightarrow> F h')"]) (use assms in auto)

lemma ok_host_code:
  assumes "self_inv m (host m)"
    "\<And>h. self_inv m h \<Longrightarrow> F h \<Longrightarrow> Q (m\<lparr>host := h, instruction_result := FatalExternalError\<rparr>)"
    "\<And>c cold h. self_inv m h \<Longrightarrow> bytecode_wf c \<Longrightarrow> length (bytecode c) < 2 ^ 63 \<Longrightarrow>
       ok Q (k (c, cold) (m\<lparr>host := h\<rparr>))"
  shows "ok Q (host_or_fatal (\<lambda>h. h_code H h a) k m)"
  by (rule ok_host_or_fatal [where f = "\<lambda>h. h_code H h a", OF code_ok [OF assms(1)]])
     (use assms(2,3) in auto)

lemma ok_host_log:
  assumes "\<not> is_static m" "self_inv m (host m)" "\<And>h. self_inv m h \<Longrightarrow> Q (m\<lparr>host := h\<rparr>)"
  shows "ok Q (bind_comp (h_log H (host m) (ct_address (contract m)) ts d) (\<lambda>h. Val (m\<lparr>host := h\<rparr>)))"
  using ok_mono [OF log_ok, of "ct_address (contract m)" "host m"] assms by simp

lemmas host_rules =
  host_or_fatal_keeps [where f = "\<lambda>s h. h_balance H h a" for a, OF balance_ok]
  host_or_fatal_keeps [where f = "\<lambda>s h. h_balance H h s", OF balance_ok]
  host_or_fatal_keeps [where f = "\<lambda>s h. h_load_account H h a" for a, OF load_account_ok]
  host_or_fatal_keeps [where f = "\<lambda>s h. h_block_hash H h a" for a, OF block_hash_ok]
  host_or_fatal_keeps [where f = "\<lambda>s h. h_code_hash H h a" for a, OF code_hash_ok]
  host_or_fatal_keeps [where f = "\<lambda>s h. h_sload H h s k" for k, OF sload_ok]
  host_or_fatal_changes [where f = "\<lambda>s h. h_sstore H h s k v" for k v, OF sstore_ok]
  ok_host_code ok_host_log ok_pop_topics

lemma balance_op_ok [instr_ok]: "instr_pre I m \<Longrightarrow> ok (instr_post I F m) (balance_op H spec m)"
  unfolding balance_op_def
  by (intro vcg host_rules) (auto simp: instr_simps gas_positive dest!: remaining_less)

lemma selfbalance_op_ok [instr_ok]: "instr_pre I m \<Longrightarrow> ok (instr_post I F m) (selfbalance_op H spec m)"
  unfolding selfbalance_op_def by (intro vcg host_rules) (auto simp: instr_simps)

lemma extcodesize_ok [instr_ok]: "instr_pre I m \<Longrightarrow> ok (instr_post I F m) (extcodesize H spec m)"
  unfolding extcodesize_def by (intro vcg host_rules) (auto simp: instr_simps split: if_splits)

lemma extcodehash_ok [instr_ok]: "instr_pre I m \<Longrightarrow> ok (instr_post I F m) (extcodehash H spec m)"
  unfolding extcodehash_def by (intro vcg host_rules) (auto simp: instr_simps split: if_splits)

lemma extcodecopy_ok [instr_ok]: "instr_pre I m \<Longrightarrow> ok (instr_post I F m) (extcodecopy H spec m)"
  unfolding extcodecopy_def Let_def
  by (intro vcg host_rules)
     (auto simp: instr_simps Val_simps dest!: host_dests elim!: range_ok_mono)

lemma blockhash_ok [instr_ok]: "instr_pre I m \<Longrightarrow> ok (instr_post I F m) (blockhash H m)"
  unfolding blockhash_def Let_def
  by (intro vcg host_rules) (auto simp: instr_simps split: option.split intro!: vcg host_rules)

lemma sload_op_ok [instr_ok]: "instr_pre I m \<Longrightarrow> ok (instr_post I F m) (sload_op H spec m)"
  unfolding sload_op_def
  by (intro vcg host_rules) (auto simp: instr_simps gas_positive dest!: remaining_less)

lemma sstore_op_ok [instr_ok]: "instr_pre I m \<Longrightarrow> ok (instr_post I F m) (sstore_op H spec m)"
  unfolding sstore_op_def
  by (intro vcg host_rules) (auto simp: instr_simps dest!: host_dests)

lemma log_op_ok [instr_ok]: "instr_pre I m \<Longrightarrow> ok (instr_post I F m) (log_op H n m)"
  unfolding log_op_def Let_def
  by (intro vcg host_rules)
     (auto simp: instr_simps dest!: host_dests elim!: range_ok_mono)

end

text \<open>The state in the middle of an instruction, relative to its start.\<close>

definition mid :: "(bool \<Rightarrow> B160 \<Rightarrow> 'h \<Rightarrow> bool) \<Rightarrow> 'h machine \<Rightarrow> 'h machine \<Rightarrow> bool" where
  "mid I m0 m \<longleftrightarrow> instr_pre I m \<and> contract m = contract m0 \<and> is_static m = is_static m0 \<and>
     memory_limit m = memory_limit m0 \<and> g_limit (gas m) = g_limit (gas m0) \<and>
     unat (remaining (gas m)) \<le> unat (remaining (gas m0))"

definition output_ok :: "usize \<Rightarrow> usize \<Rightarrow> nat \<Rightarrow> bool" where
  "output_ok off n len \<longleftrightarrow> n = 0 \<or> unat off + unat n \<le> len"

lemma ok_store:
  assumes "output_ok off n (length (memory m))" "length (memory m) < 2 ^ 63" "length d \<le> unat n"
    "\<And>mem. length mem = length (memory m) \<Longrightarrow> ok Q (k (m\<lparr>memory := mem\<rparr>))"
  shows "ok Q (bind_comp (Memory_set off d (memory m)) (\<lambda>mem. k (m\<lparr>memory := mem\<rparr>)))"
proof (cases "d = []")
  case True
  then show ?thesis using assms(4) [of "memory m"] by simp
next
  case False
  then have "unat off + length d \<le> length (memory m)" using assms by (auto simp: output_ok_def)
  then show ?thesis using assms by (simp add: Memory_set_Val)
qed

lemma remaining_le: "gas_wf g \<Longrightarrow> g_limit g = l \<Longrightarrow> unat (remaining g) \<le> unat l"
  using remaining_le_limit by (auto simp: word_le_nat_alt)

lemma create_result_ok:
  assumes "mid I m0 m" "r = FatalExternalError \<longrightarrow> F (host m)" "gas_wf g" "length d < 2 ^ 63"
    "unat (remaining g) \<le> unat (g_used (gas m))"
    "unat (remaining (gas m)) + unat (remaining g) < unat (remaining (gas m0))"
  shows "ok (instr_post I F m0) (create_result r a g d m)"
  unfolding create_result_def
  by (intro vcg) (use assms in \<open>auto simp: mid_def instr_simps\<close>)


context full_host
begin

lemma selfdestruct_op_ok [instr_ok]: "instr_pre I m \<Longrightarrow> ok (instr_post I F m) (selfdestruct_op H spec m)"
  unfolding selfdestruct_op_def if_distrib [where f = "\<lambda>f. f k" for k]
  by (intro vcg host_or_fatal_changes [where f = "\<lambda>s h. h_selfdestruct H h s b" for b, OF selfdestruct_ok])
     (auto simp: instr_simps intro!: vcg)

end

lemma mid_memory: "mid I m0 m \<Longrightarrow> length (memory m) < 2 ^ 63"
  by (auto simp: mid_def instr_simps dest!: limit_bound)

lemma call_result_ok:
  assumes "mid I m0 m" "r = FatalExternalError \<longrightarrow> F (host m)" "gas_wf g" "length d < 2 ^ 63"
    "unat (remaining g) \<le> unat (g_used (gas m))"
    "unat (remaining (gas m)) + unat (remaining g) < unat (remaining (gas m0))"
    "output_ok out_offset out_len (length (memory m))"
  shows "ok (instr_post I F m0) (call_result out_offset out_len r g d m)"
  unfolding call_result_def Let_def
  by (intro vcg ok_store [where n = out_len])
     (use assms mid_memory [OF assms(1)] in \<open>auto simp: mid_def instr_simps\<close>)

lemma mid_refl: "instr_pre I m \<Longrightarrow> mid I m m"
  by (simp add: mid_def)

text \<open>
  The gas a call gives back, the stipend included, is less than what the call was charged: a
  transfer of value costs 9000, more than the stipend of 2300.
\<close>

lemma call_gas:
  fixes gl :: u64 and b :: bool
  assumes "charged g0 cost g1" "charged g1' (unat gl) g2" "g1' = g1"
    "unat (remaining g) \<le> unat (if b then saturating_add gl 2300 else gl)"
    "b \<Longrightarrow> 9040 \<le> cost" "40 \<le> cost"
  shows "unat (remaining g) \<le> unat (g_used g2)"
    and "unat (remaining g2) + unat (remaining g) < unat (remaining g0)"
proof -
  have "unat (remaining g) < unat gl + cost"
  proof (cases b)
    case True
    have "unat (saturating_add gl 2300) \<le> unat gl + 2300" by simp
    with True assms(4,5) show ?thesis by (simp del: unat_saturating_add)
  next
    case False
    with assms(4,6) show ?thesis by simp
  qed
  then show "unat (remaining g) \<le> unat (g_used g2)"
    "unat (remaining g2) + unat (remaining g) < unat (remaining g0)"
    using assms(1,2,3) by (simp_all add: charged_def)
qed

lemma call_cost_transfer:
  "(scheme = CallScheme_Call \<or> scheme = CallScheme_CallCode) \<and> tr_value (call_transfer scheme to val c) \<noteq> 0 \<Longrightarrow>
   9040 \<le> unat (call_cost spec val new cold (scheme = CallScheme_Call \<or> scheme = CallScheme_CallCode) b)"
  by (rule call_cost_bounds(3)) (auto simp: call_transfer_def split: if_splits)

lemma grown_refl:
  "gas_wf (gas m) \<Longrightarrow> length (memory m) \<le> unat (memory_limit m) \<Longrightarrow> grown m 0 (memory m) (gas m)"
  by (auto simp: grown_def intro: exI [of _ 0])

lemma ok_call_input_data [vcg]:
  assumes "gas_wf (gas m)" "memory_limit m \<le> limit_MAX" "length (memory m) \<le> unat (memory_limit m)"
    "\<And>r. r \<noteq> Continue \<Longrightarrow> r \<noteq> FatalExternalError \<Longrightarrow> Q (m\<lparr>instruction_result := r\<rparr>)"
    "\<And>inp mem g. grown m 0 mem g \<Longrightarrow> length inp < 2 ^ 63 \<Longrightarrow> ok Q (k inp (m\<lparr>gas := g, memory := mem\<rparr>))"
  shows "ok Q (call_input_data off len k m)"
proof (cases "len = 0")
  case True
  have "ok Q (k [] (m\<lparr>gas := gas m, memory := memory m\<rparr>))"
    using assms(1,3) by (intro assms(5) grown_refl) simp_all
  with True show ?thesis by (simp add: call_input_data_def)
next
  case False
  then show ?thesis unfolding call_input_data_def
    by (simp, intro vcg assms(5)) (use assms(1-4) in \<open>auto simp: grown_def dest!: limit_bound\<close>)
qed

lemma ok_call_output_range [vcg]:
  assumes "gas_wf (gas m)" "memory_limit m \<le> limit_MAX" "length (memory m) \<le> unat (memory_limit m)"
    "\<And>r. r \<noteq> Continue \<Longrightarrow> r \<noteq> FatalExternalError \<Longrightarrow> Q (m\<lparr>instruction_result := r\<rparr>)"
    "\<And>off' mem g. grown m 0 mem g \<Longrightarrow> output_ok off' len (length mem) \<Longrightarrow>
       ok Q (k off' (m\<lparr>gas := g, memory := mem\<rparr>))"
  shows "ok Q (call_output_range off len k m)"
proof (cases "len = 0")
  case True
  have "ok Q (k (- 1) (m\<lparr>gas := gas m, memory := memory m\<rparr>))"
    using assms(1,3) True by (intro assms(5) grown_refl) (simp_all add: output_ok_def)
  with True show ?thesis by (simp add: call_output_range_def)
next
  case False
  then show ?thesis unfolding call_output_range_def
    by (simp, intro vcg assms(5)) (use assms(1-4) in \<open>auto simp: output_ok_def grown_def\<close>)
qed

context full_host
begin

lemma ok_host_create:
  assumes "\<not> is_static m" "self_inv m (host m)" "cr_caller c = ct_address (contract m)"
    "length (cr_init_code c) + 128 < 2 ^ 63"
    "\<And>r a g d h. self_inv m h \<Longrightarrow> (r = FatalExternalError \<longrightarrow> F h) \<Longrightarrow> gas_wf g \<Longrightarrow>
       unat (remaining g) \<le> unat (cr_gas_limit c) \<Longrightarrow> length d < 2 ^ 63 \<Longrightarrow> ok Q (k r a g d (m\<lparr>host := h\<rparr>))"
  shows "ok Q (bind_comp (h_create H (host m) c) (\<lambda>(r, a, g, d, h). k r a g d (m\<lparr>host := h\<rparr>)))"
proof -
  obtain r a g d h where "h_create H (host m) c = Val (r, a, g, d, h)" "self_inv m h" "gas_wf g"
    "r = FatalExternalError \<longrightarrow> F h" "g_limit g = cr_gas_limit c" "length d < 2 ^ 63"
    using create_ok [of "ct_address (contract m)" "host m" c] assms(1-4) by (auto simp: ok_iff)
  then show ?thesis using assms(5) [of h r g d a] remaining_le [of g] by simp
qed

lemma ok_host_call:
  assumes "self_inv m (host m)" "length (ci_input i) < 2 ^ 63" "tr_source (ci_transfer i) = ct_address (contract m)"
    "tr_target (ci_transfer i) \<in> {ct_address (contract m), ci_contract i}"
    "ctx_address (ci_context i) \<in> {ct_address (contract m), ci_contract i}"
    "is_static m \<longrightarrow> ci_is_static i"
    "ci_is_static i \<longrightarrow> tr_value (ci_transfer i) = 0 \<or> tr_target (ci_transfer i) = ct_address (contract m)"
    "\<And>r g d h. self_inv m h \<Longrightarrow> (r = FatalExternalError \<longrightarrow> F h) \<Longrightarrow> gas_wf g \<Longrightarrow>
       unat (remaining g) \<le> unat (ci_gas_limit i) \<Longrightarrow> length d < 2 ^ 63 \<Longrightarrow> ok Q (k r g d (m\<lparr>host := h\<rparr>))"
  shows "ok Q (bind_comp (h_call H (host m) i) (\<lambda>(r, g, d, h). k r g d (m\<lparr>host := h\<rparr>)))"
proof -
  obtain r g d h where "h_call H (host m) i = Val (r, g, d, h)" "self_inv m h" "gas_wf g"
    "r = FatalExternalError \<longrightarrow> F h" "g_limit g = ci_gas_limit i" "length d < 2 ^ 63"
    using call_ok [OF assms(1-7)] by (auto simp: ok_iff)
  then show ?thesis using assms(8) [of h r g d] remaining_le [of g] by simp
qed

lemma create_exec_ok:
  assumes "mid I m0 m" "\<not> is_static m" "unat (remaining (gas m)) < unat (remaining (gas m0))"
    "length code + 128 < 2 ^ 63"
  shows "ok (instr_post I F m0) (create_exec H spec val code scheme m)"
  unfolding create_exec_def Let_def
  by (intro vcg ok_host_create create_result_ok)
     (insert assms, auto simp: mid_def instr_simps)

lemma call_request:
  "tr_source (call_transfer scheme to val c) = ct_address c"
  "tr_target (call_transfer scheme to val c) = ct_address c \<or> tr_target (call_transfer scheme to val c) = to"
  "ctx_address (call_context scheme to val c) = ct_address c \<or> ctx_address (call_context scheme to val c) = to"
  "(scheme = CallScheme_Call \<longrightarrow> val = 0) \<Longrightarrow>
     tr_value (call_transfer scheme to val c) = 0 \<or> tr_target (call_transfer scheme to val c) = ct_address c"
  by (auto simp: call_transfer_def call_context_def split: CallScheme.split)

lemma call_exec_ok:
  assumes "mid I m0 m" "length inp < 2 ^ 63"
    "output_ok out_offset out_len (length (memory m))" "is_static m \<longrightarrow> scheme = CallScheme_Call \<longrightarrow> val = 0"
  shows "ok (instr_post I F m0) (call_exec H spec scheme lgl to val inp out_offset out_len m)"
  unfolding call_exec_def Let_def
proof (intro vcg host_rules ok_host_call, goal_cases)
  case (15 x h is_cold exist g ga reason gb return_data ha)
  note c = 15(3,4) and w = 15(5-9)
  have lim: "unat (remaining gb) \<le> unat (g_used ga)"
    "unat (remaining ga) + unat (remaining gb) < unat (remaining (gas (m\<lparr>host := h\<rparr>)))"
    by (rule call_gas [OF c _ w(4) [simplified CallInputs.select_convs] call_cost_transfer [where to = to and c = "contract m"]
          call_cost_bounds(1)]; simp)+
  show ?case
    by (rule call_result_ok) (use assms c w lim in \<open>auto simp: mid_def instr_simps\<close>)
qed (insert assms, auto simp: mid_def instr_simps call_request)

lemma create_op_ok [instr_ok]: "instr_pre I m \<Longrightarrow> ok (instr_post I F m) (create_op H c2 spec m)"
  unfolding create_op_def create_code_def create_scheme_def Let_def if_distrib [where f = "\<lambda>f. f k" for k] id_apply
  by (intro vcg create_exec_ok)
     (auto simp: mid_def instr_simps dest!: host_dests elim!: range_ok_mono)

lemma call_inner_op_ok: "instr_pre I m \<Longrightarrow> ok (instr_post I F m) (call_inner_op H spec scheme m)"
  unfolding call_inner_op_def call_value_def Let_def
  by (cases scheme; simp only: CallScheme.case id_apply; intro vcg call_exec_ok;
      auto simp: mid_def instr_simps dest!: host_dests elim!: range_ok_mono)

lemma call_ops_ok [instr_ok]:
  "instr_pre I m \<Longrightarrow> ok (instr_post I F m) (call_op H spec m)"
  "instr_pre I m \<Longrightarrow> ok (instr_post I F m) (call_code H spec m)"
  "instr_pre I m \<Longrightarrow> ok (instr_post I F m) (delegate_call H spec m)"
  "instr_pre I m \<Longrightarrow> ok (instr_post I F m) (static_call H spec m)"
  by (simp_all add: call_op_def call_code_def delegate_call_def static_call_def call_inner_op_ok)

end

end
