(* ===== verification/Interp_Run.thy ===== *)
theory Interp_Run
  imports Instr_Arith Instr_Host
begin

text \<open>
  The opcodes (\<open>crates/interpreter/src/instructions/opcode.rs\<close>), the dispatch \<open>eval\<close>
  (\<open>instructions.rs\<close>) and the loop of the interpreter (\<open>interpreter.rs\<close>: \<open>step\<close>, \<open>run\<close>). The arms of
  \<open>PUSH1\<close> to \<open>PUSH32\<close>, \<open>DUP\<close>, \<open>SWAP\<close> and \<open>LOG\<close> differ in a constant only and are given as ranges.
  \<open>run\<close> takes fuel, one unit per step; the main theorem of the theory is that fuel above the
  remaining gas is always enough, because every step that continues spends gas, and that no step
  reads or writes outside its buffers.
\<close>

section \<open>Opcodes\<close>

abbreviation (input) OP_STOP :: u8 where "OP_STOP \<equiv> 0x00"
abbreviation (input) OP_ADD :: u8 where "OP_ADD \<equiv> 0x01"
abbreviation (input) OP_MUL :: u8 where "OP_MUL \<equiv> 0x02"
abbreviation (input) OP_SUB :: u8 where "OP_SUB \<equiv> 0x03"
abbreviation (input) OP_DIV :: u8 where "OP_DIV \<equiv> 0x04"
abbreviation (input) OP_SDIV :: u8 where "OP_SDIV \<equiv> 0x05"
abbreviation (input) OP_MOD :: u8 where "OP_MOD \<equiv> 0x06"
abbreviation (input) OP_SMOD :: u8 where "OP_SMOD \<equiv> 0x07"
abbreviation (input) OP_ADDMOD :: u8 where "OP_ADDMOD \<equiv> 0x08"
abbreviation (input) OP_MULMOD :: u8 where "OP_MULMOD \<equiv> 0x09"
abbreviation (input) OP_EXP :: u8 where "OP_EXP \<equiv> 0x0a"
abbreviation (input) OP_SIGNEXTEND :: u8 where "OP_SIGNEXTEND \<equiv> 0x0b"
abbreviation (input) OP_LT :: u8 where "OP_LT \<equiv> 0x10"
abbreviation (input) OP_GT :: u8 where "OP_GT \<equiv> 0x11"
abbreviation (input) OP_SLT :: u8 where "OP_SLT \<equiv> 0x12"
abbreviation (input) OP_SGT :: u8 where "OP_SGT \<equiv> 0x13"
abbreviation (input) OP_EQ :: u8 where "OP_EQ \<equiv> 0x14"
abbreviation (input) OP_ISZERO :: u8 where "OP_ISZERO \<equiv> 0x15"
abbreviation (input) OP_AND :: u8 where "OP_AND \<equiv> 0x16"
abbreviation (input) OP_OR :: u8 where "OP_OR \<equiv> 0x17"
abbreviation (input) OP_XOR :: u8 where "OP_XOR \<equiv> 0x18"
abbreviation (input) OP_NOT :: u8 where "OP_NOT \<equiv> 0x19"
abbreviation (input) OP_BYTE :: u8 where "OP_BYTE \<equiv> 0x1a"
abbreviation (input) OP_CALLDATALOAD :: u8 where "OP_CALLDATALOAD \<equiv> 0x35"
abbreviation (input) OP_CALLDATASIZE :: u8 where "OP_CALLDATASIZE \<equiv> 0x36"
abbreviation (input) OP_CALLDATACOPY :: u8 where "OP_CALLDATACOPY \<equiv> 0x37"
abbreviation (input) OP_CODESIZE :: u8 where "OP_CODESIZE \<equiv> 0x38"
abbreviation (input) OP_CODECOPY :: u8 where "OP_CODECOPY \<equiv> 0x39"
abbreviation (input) OP_SHL :: u8 where "OP_SHL \<equiv> 0x1b"
abbreviation (input) OP_SHR :: u8 where "OP_SHR \<equiv> 0x1c"
abbreviation (input) OP_SAR :: u8 where "OP_SAR \<equiv> 0x1d"
abbreviation (input) OP_SHA3 :: u8 where "OP_SHA3 \<equiv> 0x20"
abbreviation (input) OP_POP :: u8 where "OP_POP \<equiv> 0x50"
abbreviation (input) OP_MLOAD :: u8 where "OP_MLOAD \<equiv> 0x51"
abbreviation (input) OP_MSTORE :: u8 where "OP_MSTORE \<equiv> 0x52"
abbreviation (input) OP_MSTORE8 :: u8 where "OP_MSTORE8 \<equiv> 0x53"
abbreviation (input) OP_JUMP :: u8 where "OP_JUMP \<equiv> 0x56"
abbreviation (input) OP_JUMPI :: u8 where "OP_JUMPI \<equiv> 0x57"
abbreviation (input) OP_PC :: u8 where "OP_PC \<equiv> 0x58"
abbreviation (input) OP_MSIZE :: u8 where "OP_MSIZE \<equiv> 0x59"
abbreviation (input) OP_PUSH0 :: u8 where "OP_PUSH0 \<equiv> 0x5f"
abbreviation (input) OP_PUSH32 :: u8 where "OP_PUSH32 \<equiv> 0x7f"
abbreviation (input) OP_DUP1 :: u8 where "OP_DUP1 \<equiv> 0x80"
abbreviation (input) OP_DUP16 :: u8 where "OP_DUP16 \<equiv> 0x8f"
abbreviation (input) OP_SWAP1 :: u8 where "OP_SWAP1 \<equiv> 0x90"
abbreviation (input) OP_SWAP16 :: u8 where "OP_SWAP16 \<equiv> 0x9f"
abbreviation (input) OP_RETURN :: u8 where "OP_RETURN \<equiv> 0xf3"
abbreviation (input) OP_REVERT :: u8 where "OP_REVERT \<equiv> 0xfd"
abbreviation (input) OP_INVALID :: u8 where "OP_INVALID \<equiv> 0xfe"
abbreviation (input) OP_ADDRESS :: u8 where "OP_ADDRESS \<equiv> 0x30"
abbreviation (input) OP_BALANCE :: u8 where "OP_BALANCE \<equiv> 0x31"
abbreviation (input) OP_BASEFEE :: u8 where "OP_BASEFEE \<equiv> 0x48"
abbreviation (input) OP_ORIGIN :: u8 where "OP_ORIGIN \<equiv> 0x32"
abbreviation (input) OP_CALLER :: u8 where "OP_CALLER \<equiv> 0x33"
abbreviation (input) OP_CALLVALUE :: u8 where "OP_CALLVALUE \<equiv> 0x34"
abbreviation (input) OP_GASPRICE :: u8 where "OP_GASPRICE \<equiv> 0x3a"
abbreviation (input) OP_EXTCODESIZE :: u8 where "OP_EXTCODESIZE \<equiv> 0x3b"
abbreviation (input) OP_EXTCODECOPY :: u8 where "OP_EXTCODECOPY \<equiv> 0x3c"
abbreviation (input) OP_EXTCODEHASH :: u8 where "OP_EXTCODEHASH \<equiv> 0x3f"
abbreviation (input) OP_RETURNDATASIZE :: u8 where "OP_RETURNDATASIZE \<equiv> 0x3d"
abbreviation (input) OP_RETURNDATACOPY :: u8 where "OP_RETURNDATACOPY \<equiv> 0x3e"
abbreviation (input) OP_BLOCKHASH :: u8 where "OP_BLOCKHASH \<equiv> 0x40"
abbreviation (input) OP_COINBASE :: u8 where "OP_COINBASE \<equiv> 0x41"
abbreviation (input) OP_TIMESTAMP :: u8 where "OP_TIMESTAMP \<equiv> 0x42"
abbreviation (input) OP_NUMBER :: u8 where "OP_NUMBER \<equiv> 0x43"
abbreviation (input) OP_DIFFICULTY :: u8 where "OP_DIFFICULTY \<equiv> 0x44"
abbreviation (input) OP_GASLIMIT :: u8 where "OP_GASLIMIT \<equiv> 0x45"
abbreviation (input) OP_SELFBALANCE :: u8 where "OP_SELFBALANCE \<equiv> 0x47"
abbreviation (input) OP_SLOAD :: u8 where "OP_SLOAD \<equiv> 0x54"
abbreviation (input) OP_SSTORE :: u8 where "OP_SSTORE \<equiv> 0x55"
abbreviation (input) OP_GAS :: u8 where "OP_GAS \<equiv> 0x5a"
abbreviation (input) OP_LOG0 :: u8 where "OP_LOG0 \<equiv> 0xa0"
abbreviation (input) OP_LOG4 :: u8 where "OP_LOG4 \<equiv> 0xa4"
abbreviation (input) OP_CREATE :: u8 where "OP_CREATE \<equiv> 0xf0"
abbreviation (input) OP_CREATE2 :: u8 where "OP_CREATE2 \<equiv> 0xf5"
abbreviation (input) OP_CALL :: u8 where "OP_CALL \<equiv> 0xf1"
abbreviation (input) OP_CALLCODE :: u8 where "OP_CALLCODE \<equiv> 0xf2"
abbreviation (input) OP_DELEGATECALL :: u8 where "OP_DELEGATECALL \<equiv> 0xf4"
abbreviation (input) OP_STATICCALL :: u8 where "OP_STATICCALL \<equiv> 0xfa"
abbreviation (input) OP_SELFDESTRUCT :: u8 where "OP_SELFDESTRUCT \<equiv> 0xff"
abbreviation (input) OP_CHAINID :: u8 where "OP_CHAINID \<equiv> 0x46"

definition OPCODE_JUMPMAP :: "string option list" where
  "OPCODE_JUMPMAP =
     [Some ''STOP'', Some ''ADD'', Some ''MUL'', Some ''SUB'', Some ''DIV'', Some ''SDIV'',
      Some ''MOD'', Some ''SMOD'', Some ''ADDMOD'', Some ''MULMOD'', Some ''EXP'', Some ''SIGNEXTEND'',
      None, None, None, None, Some ''LT'', Some ''GT'',
      Some ''SLT'', Some ''SGT'', Some ''EQ'', Some ''ISZERO'', Some ''AND'', Some ''OR'',
      Some ''XOR'', Some ''NOT'', Some ''BYTE'', Some ''SHL'', Some ''SHR'', Some ''SAR'',
      None, None, Some ''SHA3'', None, None, None,
      None, None, None, None, None, None,
      None, None, None, None, None, None,
      Some ''ADDRESS'', Some ''BALANCE'', Some ''ORIGIN'', Some ''CALLER'', Some ''CALLVALUE'', Some ''CALLDATALOAD'',
      Some ''CALLDATASIZE'', Some ''CALLDATACOPY'', Some ''CODESIZE'', Some ''CODECOPY'', Some ''GASPRICE'', Some ''EXTCODESIZE'',
      Some ''EXTCODECOPY'', Some ''RETURNDATASIZE'', Some ''RETURNDATACOPY'', Some ''EXTCODEHASH'', Some ''BLOCKHASH'', Some ''COINBASE'',
      Some ''TIMESTAMP'', Some ''NUMBER'', Some ''DIFFICULTY'', Some ''GASLIMIT'', Some ''CHAINID'', Some ''SELFBALANCE'',
      Some ''BASEFEE'', None, None, None, None, None,
      None, None, Some ''POP'', Some ''MLOAD'', Some ''MSTORE'', Some ''MSTORE8'',
      Some ''SLOAD'', Some ''SSTORE'', Some ''JUMP'', Some ''JUMPI'', Some ''PC'', Some ''MSIZE'',
      Some ''GAS'', Some ''JUMPDEST'', None, None, None, Some ''PUSH0'',
      Some ''PUSH1'', Some ''PUSH2'', Some ''PUSH3'', Some ''PUSH4'', Some ''PUSH5'', Some ''PUSH6'',
      Some ''PUSH7'', Some ''PUSH8'', Some ''PUSH9'', Some ''PUSH10'', Some ''PUSH11'', Some ''PUSH12'',
      Some ''PUSH13'', Some ''PUSH14'', Some ''PUSH15'', Some ''PUSH16'', Some ''PUSH17'', Some ''PUSH18'',
      Some ''PUSH19'', Some ''PUSH20'', Some ''PUSH21'', Some ''PUSH22'', Some ''PUSH23'', Some ''PUSH24'',
      Some ''PUSH25'', Some ''PUSH26'', Some ''PUSH27'', Some ''PUSH28'', Some ''PUSH29'', Some ''PUSH30'',
      Some ''PUSH31'', Some ''PUSH32'', Some ''DUP1'', Some ''DUP2'', Some ''DUP3'', Some ''DUP4'',
      Some ''DUP5'', Some ''DUP6'', Some ''DUP7'', Some ''DUP8'', Some ''DUP9'', Some ''DUP10'',
      Some ''DUP11'', Some ''DUP12'', Some ''DUP13'', Some ''DUP14'', Some ''DUP15'', Some ''DUP16'',
      Some ''SWAP1'', Some ''SWAP2'', Some ''SWAP3'', Some ''SWAP4'', Some ''SWAP5'', Some ''SWAP6'',
      Some ''SWAP7'', Some ''SWAP8'', Some ''SWAP9'', Some ''SWAP10'', Some ''SWAP11'', Some ''SWAP12'',
      Some ''SWAP13'', Some ''SWAP14'', Some ''SWAP15'', Some ''SWAP16'', Some ''LOG0'', Some ''LOG1'',
      Some ''LOG2'', Some ''LOG3'', Some ''LOG4'', None, None, None,
      None, None, None, None, None, None,
      None, None, None, None, None, None,
      None, None, None, None, None, None,
      None, None, None, None, None, None,
      None, None, None, None, None, None,
      None, None, None, None, None, None,
      None, None, None, None, None, None,
      None, None, None, None, None, None,
      None, None, None, None, None, None,
      None, None, None, None, None, None,
      None, None, None, None, None, None,
      None, None, None, None, None, None,
      Some ''CREATE'', Some ''CALL'', Some ''CALLCODE'', Some ''RETURN'', Some ''DELEGATECALL'', Some ''CREATE2'',
      None, None, None, None, Some ''STATICCALL'', None,
      None, Some ''REVERT'', Some ''INVALID'', Some ''SELFDESTRUCT'']"

definition OpCode_try_from_u8 :: "u8 \<Rightarrow> u8 option" where
  "OpCode_try_from_u8 opcode = map_option (\<lambda>_. opcode) (OPCODE_JUMPMAP ! unat opcode)"

definition OpCode_as_str :: "u8 \<Rightarrow> string" where
  "OpCode_as_str opcode =
     (case OPCODE_JUMPMAP ! unat opcode of Some str \<Rightarrow> str | None \<Rightarrow> ''unknown'')"

section \<open>Dispatch\<close>

definition eval :: "Libs \<Rightarrow> 'h host_ops \<Rightarrow> SpecId \<Rightarrow> u8 \<Rightarrow> 'h instr" where
  "eval L H spec opcode =
     (if opcode = OP_STOP then return_stop
      else if opcode = OP_ADD then wrapped_add
      else if opcode = OP_MUL then wrapping_mul
      else if opcode = OP_SUB then wrapping_sub
      else if opcode = OP_DIV then div_op
      else if opcode = OP_SDIV then sdiv_op
      else if opcode = OP_MOD then rem_op
      else if opcode = OP_SMOD then smod_op
      else if opcode = OP_ADDMOD then addmod
      else if opcode = OP_MULMOD then mulmod
      else if opcode = OP_EXP then eval_exp spec
      else if opcode = OP_SIGNEXTEND then signextend
      else if opcode = OP_LT then lt_op
      else if opcode = OP_GT then gt_op
      else if opcode = OP_SLT then slt_op
      else if opcode = OP_SGT then sgt_op
      else if opcode = OP_EQ then eq_op
      else if opcode = OP_ISZERO then iszero
      else if opcode = OP_AND then bitand
      else if opcode = OP_OR then bitor
      else if opcode = OP_XOR then bitxor
      else if opcode = OP_NOT then not_op
      else if opcode = OP_BYTE then byte_op
      else if opcode = OP_SHL then shl_op spec
      else if opcode = OP_SHR then shr_op spec
      else if opcode = OP_SAR then sar_op spec
      else if opcode = OP_SHA3 then sha3_op L
      else if opcode = OP_ADDRESS then address_op
      else if opcode = OP_BALANCE then balance_op H spec
      else if opcode = OP_SELFBALANCE then selfbalance_op H spec
      else if opcode = OP_CODESIZE then codesize
      else if opcode = OP_CODECOPY then codecopy
      else if opcode = OP_CALLDATALOAD then calldataload
      else if opcode = OP_CALLDATASIZE then calldatasize
      else if opcode = OP_CALLDATACOPY then calldatacopy
      else if opcode = OP_POP then pop_op
      else if opcode = OP_MLOAD then mload
      else if opcode = OP_MSTORE then mstore
      else if opcode = OP_MSTORE8 then mstore8
      else if opcode = OP_JUMP then jump
      else if opcode = OP_JUMPI then jumpi
      else if opcode = OP_PC then pc_op
      else if opcode = OP_MSIZE then msize
      else if opcode = OP_JUMPDEST then jumpdest
      else if opcode = OP_PUSH0 then push0 spec
      else if OP_PUSH1 \<le> opcode \<and> opcode \<le> OP_PUSH32 then push_op (unat (opcode - OP_PUSH1) + 1)
      else if OP_DUP1 \<le> opcode \<and> opcode \<le> OP_DUP16 then dup_op (unat (opcode - OP_DUP1) + 1)
      else if OP_SWAP1 \<le> opcode \<and> opcode \<le> OP_SWAP16 then swap_op (unat (opcode - OP_SWAP1) + 1)
      else if opcode = OP_RETURN then ret
      else if opcode = OP_REVERT then revert spec
      else if opcode = OP_INVALID then return_invalid
      else if opcode = OP_BASEFEE then basefee_op H spec
      else if opcode = OP_ORIGIN then origin_op H
      else if opcode = OP_CALLER then caller_op
      else if opcode = OP_CALLVALUE then callvalue
      else if opcode = OP_GASPRICE then gasprice_op H
      else if opcode = OP_EXTCODESIZE then extcodesize H spec
      else if opcode = OP_EXTCODEHASH then extcodehash H spec
      else if opcode = OP_EXTCODECOPY then extcodecopy H spec
      else if opcode = OP_RETURNDATASIZE then returndatasize spec
      else if opcode = OP_RETURNDATACOPY then returndatacopy spec
      else if opcode = OP_BLOCKHASH then blockhash H
      else if opcode = OP_COINBASE then coinbase_op H
      else if opcode = OP_TIMESTAMP then timestamp_op H
      else if opcode = OP_NUMBER then number_op H
      else if opcode = OP_DIFFICULTY then difficulty_op H spec
      else if opcode = OP_GASLIMIT then gaslimit_op H
      else if opcode = OP_SLOAD then sload_op H spec
      else if opcode = OP_SSTORE then sstore_op H spec
      else if opcode = OP_GAS then gas_op
      else if OP_LOG0 \<le> opcode \<and> opcode \<le> OP_LOG4 then log_op H (opcode - OP_LOG0)
      else if opcode = OP_SELFDESTRUCT then selfdestruct_op H spec
      else if opcode = OP_CREATE then create_op H False spec
      else if opcode = OP_CREATE2 then create_op H True spec
      else if opcode = OP_CALL then call_op H spec
      else if opcode = OP_CALLCODE then call_code H spec
      else if opcode = OP_DELEGATECALL then delegate_call H spec
      else if opcode = OP_STATICCALL then static_call H spec
      else if opcode = OP_CHAINID then chainid H spec
      else return_not_found)"

section \<open>The loop\<close>

definition step :: "Libs \<Rightarrow> 'h host_ops \<Rightarrow> SpecId \<Rightarrow> 'h instr" where
  "step L H spec m =
     bind_comp (current_opcode m) (\<lambda>opcode.
       eval L H spec opcode (m\<lparr>instruction_pointer := instruction_pointer m + 1\<rparr>))"

fun run :: "Libs \<Rightarrow> 'h host_ops \<Rightarrow> SpecId \<Rightarrow> nat \<Rightarrow> 'h instr" where
  "run L H spec 0 m = (if instruction_result m = Continue then Timeout else Val m)"
| "run L H spec (Suc fuel) m =
     (if instruction_result m = Continue then bind_comp (step L H spec m) (run L H spec fuel)
      else Val m)"

section \<open>Safety of one step\<close>

definition external_ops :: "u8 list" where
  "external_ops = [OP_CREATE, OP_CALL, OP_CALLCODE, OP_DELEGATECALL, OP_CREATE2, OP_STATICCALL, OP_SELFDESTRUCT]"

lemma push_width_le: "opcode \<le> OP_PUSH32 \<Longrightarrow> OP_PUSH1 \<le> opcode \<Longrightarrow> unat (opcode - OP_PUSH1) + 1 \<le> 32"
  by (simp add: word_le_nat_alt unat_sub)

text \<open>The state between two steps.\<close>

definition frame_ok :: "(bool \<Rightarrow> B160 \<Rightarrow> 'h \<Rightarrow> bool) \<Rightarrow> 'h machine \<Rightarrow> bool" where
  "frame_ok I m \<longleftrightarrow> interp_wf m \<and> I (is_static m) (ct_address (contract m)) (host m) \<and>
     (instruction_result m = Continue \<longrightarrow> instruction_pointer m < length (code_of m))"

lemma instr_post_frame_ok: "instr_post I F m m' \<Longrightarrow> frame_ok I m'"
  by (auto simp: instr_post_def frame_ok_def)

lemma frame_ok_pre:
  assumes "frame_ok I m" "instruction_result m = Continue" "code_of m ! instruction_pointer m \<noteq> 0"
  shows "instr_pre I (m\<lparr>instruction_pointer := instruction_pointer m + 1\<rparr>)"
proof -
  let ?b = "ct_bytecode (contract m)"
  have p: "padded (bl_bytecode ?b) (bl_len ?b)"
    using assms(1) by (simp add: frame_ok_def interp_wf_def contract_wf_def locked_wf_def)
  have "instruction_pointer m < bl_len ?b"
    using padded_nth [OF p, of "instruction_pointer m"] assms
    by (auto simp: frame_ok_def not_le [symmetric])
  then have "instruction_pointer m + 33 < length (bl_bytecode ?b)" using p by (auto simp: padded_def)
  with assms show ?thesis by (auto simp: instr_pre_def frame_ok_def interp_wf_def)
qed

context basic_host
begin

lemma eval_basic_ok:
  assumes "instr_pre I m" "opcode \<notin> set external_ops"
  shows "ok (instr_post I F m) (eval L H spec opcode m)"
proof -
  have "enabled spec MERGE \<Longrightarrow> prevrandao (block (h_env H (host m))) \<noteq> None"
    using assms(1) env_ok unfolding instr_pre_def by blast
  then show ?thesis
    unfolding eval_def
    by (intro ok_if_instr instr_ok) (use assms push_width_le in \<open>auto simp: external_ops_def\<close>)
qed

end

lemma eval_external:
  "eval L H spec OP_CREATE = create_op H False spec" "eval L H spec OP_CREATE2 = create_op H True spec"
  "eval L H spec OP_CALL = call_op H spec" "eval L H spec OP_CALLCODE = call_code H spec"
  "eval L H spec OP_DELEGATECALL = delegate_call H spec"
  "eval L H spec OP_STATICCALL = static_call H spec"
  "eval L H spec OP_SELFDESTRUCT = selfdestruct_op H spec"
  by (simp_all add: eval_def)

context full_host
begin

lemma eval_ok:
  assumes "instr_pre I m"
  shows "ok (instr_post I F m) (eval L H spec opcode m)"
proof (cases "opcode \<in> set external_ops")
  case False
  with assms show ?thesis by (rule eval_basic_ok)
next
  case True
  then consider "opcode = OP_CREATE" | "opcode = OP_CALL" | "opcode = OP_CALLCODE" |
    "opcode = OP_DELEGATECALL" | "opcode = OP_CREATE2" | "opcode = OP_STATICCALL" |
    "opcode = OP_SELFDESTRUCT" by (auto simp: external_ops_def)
  then show ?thesis
    by cases (simp_all only: eval_external create_op_ok [OF assms] call_ops_ok [OF assms]
        selfdestruct_op_ok [OF assms])
qed

end

lemma step_ok_gen:
  assumes f: "frame_ok I m" "instruction_result m = Continue"
    and e: "\<And>m'. instr_pre I m' \<Longrightarrow> ok (instr_post I F m') (eval L H spec (code_of m ! instruction_pointer m) m')"
  shows "ok (instr_post I F m) (step L H spec m)"
proof -
  let ?op = "code_of m ! instruction_pointer m"
  let ?m = "m\<lparr>instruction_pointer := instruction_pointer m + 1\<rparr>"
  have c: "current_opcode m = Val ?op" using f by (simp add: current_opcode_def frame_ok_def)
  have i: "instr_post I F ?m = instr_post I F m" by (simp add: instr_post_def fun_eq_iff)
  show ?thesis
  proof (cases "?op = 0")
    case True
    have "instr_post I F m (?m\<lparr>instruction_result := Stop\<rparr>)"
      using f by (simp add: instr_post_def frame_ok_def interp_wf_def)
    with True c show ?thesis by (simp add: step_def eval_def return_stop_def halt_def)
  next
    case False
    then have "ok (instr_post I F ?m) (eval L H spec ?op ?m)" by (intro e frame_ok_pre f)
    with c i show ?thesis by (simp add: step_def)
  qed
qed

section \<open>Termination and safety of the loop\<close>

definition run_post :: "(bool \<Rightarrow> B160 \<Rightarrow> 'h \<Rightarrow> bool) \<Rightarrow> ('h \<Rightarrow> bool) \<Rightarrow> 'h machine \<Rightarrow> 'h machine \<Rightarrow> bool" where
  "run_post I F m m' \<longleftrightarrow> frame_ok I m' \<and> instruction_result m' \<noteq> Continue \<and>
     (instruction_result m' = FatalExternalError \<longrightarrow> F (host m')) \<and>
     contract m' = contract m \<and> is_static m' = is_static m \<and> memory_limit m' = memory_limit m \<and>
     g_limit (gas m') = g_limit (gas m) \<and> unat (remaining (gas m')) \<le> unat (remaining (gas m))"

lemma run_ok_gen:
  assumes "frame_ok I m" "instruction_result m \<noteq> FatalExternalError" "unat (remaining (gas m)) < fuel"
    and "\<And>m' op. op \<in> set (code_of m) \<Longrightarrow> instr_pre I m' \<Longrightarrow> ok (instr_post I F m') (eval L H spec op m')"
  shows "ok (run_post I F m) (run L H spec fuel m)"
  using assms
proof (induction fuel arbitrary: m)
  case (Suc fuel)
  show ?case
  proof (cases "instruction_result m = Continue")
    case False
    with Suc.prems show ?thesis by (simp add: run_post_def)
  next
    case True
    have "code_of m ! instruction_pointer m \<in> set (code_of m)"
      using Suc.prems(1) True by (simp add: frame_ok_def)
    then have "ok (instr_post I F m) (step L H spec m)"
      using Suc.prems True by (intro step_ok_gen) blast+
    then obtain m1 where m1: "step L H spec m = Val m1" "instr_post I F m m1" by (auto simp: ok_iff)
    have "ok (run_post I F m1) (run L H spec fuel m1)"
    proof (cases "instruction_result m1 = Continue")
      case True
      with m1(2) Suc.prems show ?thesis
        by (intro Suc.IH) (auto simp: instr_post_def frame_ok_def)
    next
      case False
      then have "run L H spec fuel m1 = Val m1" by (cases fuel) simp_all
      with False m1(2) instr_post_frame_ok [OF m1(2)] show ?thesis by (simp add: run_post_def instr_post_def)
    qed
    with True m1 show ?thesis by (auto elim!: ok_mono simp: run_post_def instr_post_def)
  qed
qed simp

lemma return_value_ok: "interp_wf m \<Longrightarrow> ok (\<lambda>bs. length bs + 128 < 2 ^ 63) (return_value m)"
proof -
  assume w: "interp_wf m"
  obtain a b where r: "return_range m = (a, b)" by fastforce
  have len: "length (memory m) + 128 < 2 ^ 63" using w by (auto simp: interp_wf_def dest!: limit_bound)
  show ?thesis
  proof (cases "a = - 1")
    case False
    then have "a \<le> b" "unat b \<le> length (memory m)" using w r by (auto simp: interp_wf_def range_ok_def)
    moreover have "unat (b - a) = unat b - unat a" using \<open>a \<le> b\<close> by (rule unat_sub)
    ultimately have "get_slice a (b - a) (memory m) = Val (slice (unat a) (unat b - unat a) (memory m))"
      "length (slice (unat a) (unat b - unat a) (memory m)) = unat b - unat a"
      using len by (simp_all add: get_slice_Val word_le_nat_alt)
    with False r len \<open>unat b \<le> length (memory m)\<close> show ?thesis by (simp add: return_value_def)
  qed (simp add: r return_value_def)
qed

lemma new_frame_ok:
  assumes "contract_wf c" "limit \<le> limit_MAX" "I static (ct_address c) h"
  shows "frame_ok I (interpreter.extend (new_with_memory_limit c gas_limit static limit) (machine.fields h))"
  using assms
  by (auto simp: frame_ok_def interp_wf_def new_with_memory_limit_def interpreter.defs machine.defs
      Stack_new_def Memory_new_def range_ok_def contract_wf_def locked_wf_def padded_def)

context full_host
begin

lemma run_ok:
  "frame_ok I m \<Longrightarrow> instruction_result m \<noteq> FatalExternalError \<Longrightarrow> unat (remaining (gas m)) < fuel \<Longrightarrow> ok (run_post I F m) (run L H spec fuel m)"
  by (rule run_ok_gen) (auto intro: eval_ok)

end

end
