(* ===== verification/Dummy_Host.thy ===== *)
theory Dummy_Host
  imports Interp_Run
begin

text \<open>
  The test host \<open>crates/interpreter/src/host/dummy_host.rs\<close>: a storage map, a log, and a panic for
  calls, creations and self-destruction. It satisfies \<open>basic_host\<close>, so the interpreter's safety and
  termination results apply to every program without those seven opcodes.
\<close>

record DummyHost =
  dh_env :: Env
  dh_storage :: "U256 \<rightharpoonup> U256"
  dh_log :: "Log list"

definition DummyHost_new :: "Env \<Rightarrow> DummyHost" where
  "DummyHost_new env = \<lparr> dh_env = env, dh_storage = Map.empty, dh_log = [] \<rparr>"

definition DummyHost_clear :: "DummyHost \<Rightarrow> DummyHost" where
  "DummyHost_clear h = h\<lparr>dh_storage := Map.empty, dh_log := []\<rparr>"

definition dummy_sload :: "DummyHost \<Rightarrow> B160 \<Rightarrow> U256 \<Rightarrow> ((U256 \<times> bool) option \<times> DummyHost) comp" where
  "dummy_sload h address index =
     (case dh_storage h index of
        Some v \<Rightarrow> Val (Some (v, False), h)
      | None \<Rightarrow> Val (Some (0, True), h\<lparr>dh_storage := (dh_storage h)(index \<mapsto> 0)\<rparr>))"

definition dummy_sstore ::
  "DummyHost \<Rightarrow> B160 \<Rightarrow> U256 \<Rightarrow> U256 \<Rightarrow> ((U256 \<times> U256 \<times> U256 \<times> bool) option \<times> DummyHost) comp" where
  "dummy_sstore h address index val =
     (let (present, is_cold) =
            (case dh_storage h index of Some old \<Rightarrow> (old, False) | None \<Rightarrow> (0, True));
          h = h\<lparr>dh_storage := (dh_storage h)(index \<mapsto> val)\<rparr> in
      Val (Some (0, present, val, is_cold), h))"

definition dummy_log :: "DummyHost \<Rightarrow> B160 \<Rightarrow> B256 list \<Rightarrow> bytes \<Rightarrow> DummyHost comp" where
  "dummy_log h address topics data =
     Val (h\<lparr>dh_log := dh_log h @ [\<lparr>log_address = address, log_topics = topics, log_data = data\<rparr>]\<rparr>)"

definition dummy_host :: "DummyHost host_ops" where
  "dummy_host =
     \<lparr> h_env = dh_env,
       h_load_account = (\<lambda>h _. Val (Some (True, True), h)),
       h_block_hash = (\<lambda>h _. Val (Some 0, h)),
       h_balance = (\<lambda>h _. Val (Some (0, False), h)),
       h_code = (\<lambda>h _. Val (Some (Bytecode_new, False), h)),
       h_code_hash = (\<lambda>h _. Val (Some (KECCAK_EMPTY, False), h)),
       h_sload = dummy_sload,
       h_sstore = dummy_sstore,
       h_log = dummy_log,
       h_selfdestruct = (\<lambda>_ _ _. Panic),
       h_create = (\<lambda>_ _. Panic),
       h_call = (\<lambda>_ _. Panic) \<rparr>"

definition dummy_inv :: "SpecId \<Rightarrow> bool \<Rightarrow> B160 \<Rightarrow> DummyHost \<Rightarrow> bool" where
  "dummy_inv spec st s h \<longleftrightarrow> (enabled spec MERGE \<longrightarrow> prevrandao (block (dh_env h)) \<noteq> None)"

interpretation dummy: basic_host dummy_host "dummy_inv spec" "\<lambda>_. False" spec for spec
  by unfold_locales
     (auto simp: dummy_host_def dummy_inv_def dummy_sload_def dummy_sstore_def dummy_log_def
        Bytecode_new_def bytecode_wf_new(1) [unfolded Bytecode_new_def] split: option.split)

text \<open>A machine that starts to execute raw code on the test host.\<close>

definition dummy_machine :: "Libs \<Rightarrow> Env \<Rightarrow> bytes \<Rightarrow> bytes \<Rightarrow> u64 \<Rightarrow> u64 \<Rightarrow> DummyHost machine comp" where
  "dummy_machine L env code input gas_limit limit =
     bind_comp (Contract_new input (new_raw L code) 0 0 0) (\<lambda>c.
       Val (interpreter.extend (new_with_memory_limit c gas_limit False limit)
              (machine.fields (DummyHost_new env))))"



end
