(* ===== verification/Op_Info.thy ===== *)
theory Op_Info
  imports Dummy_Host
begin

text \<open>
  The table of static instruction data of \<open>crates/interpreter/src/instructions/opcode.rs\<close>: \<open>OpInfo\<close> packs
  three flags and a price into 32 bits, and \<open>spec_opcode_gas\<close> gives the table of a hard fork. The
  interpreter of this version does not consult it; the theorems show that its flags mark the
  instructions they name, and that its prices are the ones the instructions charge.
\<close>

section \<open>Packed data\<close>

record OpInfo =
  op_data :: u32

abbreviation (input) JUMP_MASK :: u32 where "JUMP_MASK \<equiv> 0x80000000"
abbreviation (input) GAS_BLOCK_END_MASK :: u32 where "GAS_BLOCK_END_MASK \<equiv> 0x40000000"
abbreviation (input) IS_PUSH_MASK :: u32 where "IS_PUSH_MASK \<equiv> 0x20000000"
abbreviation (input) GAS_MASK :: u32 where "GAS_MASK \<equiv> 0x1FFFFFFF"

definition is_jump :: "OpInfo \<Rightarrow> bool" where
  "is_jump i \<longleftrightarrow> op_data i AND JUMP_MASK = JUMP_MASK"

definition is_gas_block_end :: "OpInfo \<Rightarrow> bool" where
  "is_gas_block_end i \<longleftrightarrow> op_data i AND GAS_BLOCK_END_MASK = GAS_BLOCK_END_MASK"

definition is_push :: "OpInfo \<Rightarrow> bool" where
  "is_push i \<longleftrightarrow> op_data i AND IS_PUSH_MASK = IS_PUSH_MASK"

definition get_gas :: "OpInfo \<Rightarrow> u32" where
  "get_gas i = op_data i AND GAS_MASK"

definition OpInfo_none :: OpInfo where
  "OpInfo_none = \<lparr>op_data = 0\<rparr>"

definition OpInfo_gas_block_end :: "u64 \<Rightarrow> OpInfo" where
  "OpInfo_gas_block_end price = \<lparr>op_data = ucast price OR GAS_BLOCK_END_MASK\<rparr>"

definition OpInfo_dynamic_gas :: OpInfo where
  "OpInfo_dynamic_gas = \<lparr>op_data = 0\<rparr>"

definition OpInfo_gas :: "u64 \<Rightarrow> OpInfo" where
  "OpInfo_gas price = \<lparr>op_data = ucast price\<rparr>"

definition OpInfo_push_opcode :: OpInfo where
  "OpInfo_push_opcode = \<lparr>op_data = ucast gas_VERYLOW OR IS_PUSH_MASK\<rparr>"

definition OpInfo_jumpdest :: OpInfo where
  "OpInfo_jumpdest = \<lparr>op_data = JUMP_MASK OR GAS_BLOCK_END_MASK\<rparr>"

section \<open>The table\<close>

definition op_info_arith :: "SpecId \<Rightarrow> OpInfo list" where
  "op_info_arith spec =
     [OpInfo_gas_block_end 0, OpInfo_gas gas_VERYLOW, OpInfo_gas gas_LOW, OpInfo_gas gas_VERYLOW,
      OpInfo_gas gas_LOW, OpInfo_gas gas_LOW, OpInfo_gas gas_LOW, OpInfo_gas gas_LOW, OpInfo_gas gas_MID,
      OpInfo_gas gas_MID, OpInfo_dynamic_gas, OpInfo_gas gas_LOW, OpInfo_none, OpInfo_none, OpInfo_none,
      OpInfo_none]"

definition op_info_bitwise :: "SpecId \<Rightarrow> OpInfo list" where
  "op_info_bitwise spec =
     [OpInfo_gas gas_VERYLOW, OpInfo_gas gas_VERYLOW, OpInfo_gas gas_VERYLOW, OpInfo_gas gas_VERYLOW,
      OpInfo_gas gas_VERYLOW, OpInfo_gas gas_VERYLOW, OpInfo_gas gas_VERYLOW, OpInfo_gas gas_VERYLOW,
      OpInfo_gas gas_VERYLOW, OpInfo_gas gas_VERYLOW, OpInfo_gas gas_VERYLOW,
      OpInfo_gas (if enabled spec CONSTANTINOPLE then gas_VERYLOW else 0),
      OpInfo_gas (if enabled spec CONSTANTINOPLE then gas_VERYLOW else 0),
      OpInfo_gas (if enabled spec CONSTANTINOPLE then gas_VERYLOW else 0), OpInfo_none, OpInfo_none]"

definition op_info_sha3 :: "SpecId \<Rightarrow> OpInfo list" where
  "op_info_sha3 spec =
     [OpInfo_dynamic_gas, OpInfo_none, OpInfo_none, OpInfo_none, OpInfo_none, OpInfo_none, OpInfo_none,
      OpInfo_none, OpInfo_none, OpInfo_none, OpInfo_none, OpInfo_none, OpInfo_none, OpInfo_none, OpInfo_none,
      OpInfo_none]"

definition op_info_environment :: "SpecId \<Rightarrow> OpInfo list" where
  "op_info_environment spec =
     [OpInfo_gas gas_BASE, OpInfo_dynamic_gas, OpInfo_gas gas_BASE, OpInfo_gas gas_BASE, OpInfo_gas gas_BASE,
      OpInfo_gas gas_VERYLOW, OpInfo_gas gas_BASE, OpInfo_dynamic_gas, OpInfo_gas gas_BASE, OpInfo_dynamic_gas,
      OpInfo_gas gas_BASE,
      OpInfo_gas (if enabled spec BERLIN then gas_WARM_STORAGE_READ_COST else if enabled spec TANGERINE then 700 else 20),
      OpInfo_gas (if enabled spec BERLIN then gas_WARM_STORAGE_READ_COST else if enabled spec TANGERINE then 700 else 20),
      OpInfo_gas (if enabled spec BYZANTIUM then gas_BASE else 0), OpInfo_dynamic_gas,
      OpInfo_gas (if enabled spec BERLIN then gas_WARM_STORAGE_READ_COST else if enabled spec ISTANBUL then 700 else if enabled spec PETERSBURG then 400 else 0)]"

definition op_info_block :: "SpecId \<Rightarrow> OpInfo list" where
  "op_info_block spec =
     [OpInfo_gas gas_BLOCKHASH, OpInfo_gas gas_BASE, OpInfo_gas gas_BASE, OpInfo_gas gas_BASE,
      OpInfo_gas gas_BASE, OpInfo_gas gas_BASE, OpInfo_gas (if enabled spec ISTANBUL then gas_BASE else 0),
      OpInfo_gas (if enabled spec ISTANBUL then gas_LOW else 0),
      OpInfo_gas (if enabled spec LONDON then gas_BASE else 0), OpInfo_none, OpInfo_none, OpInfo_none,
      OpInfo_none, OpInfo_none, OpInfo_none, OpInfo_none]"

definition op_info_flow :: "SpecId \<Rightarrow> OpInfo list" where
  "op_info_flow spec =
     [OpInfo_gas gas_BASE, OpInfo_gas gas_VERYLOW, OpInfo_gas gas_VERYLOW, OpInfo_gas gas_VERYLOW,
      OpInfo_dynamic_gas, OpInfo_gas_block_end 0, OpInfo_gas_block_end gas_MID, OpInfo_gas_block_end gas_HIGH,
      OpInfo_gas gas_BASE, OpInfo_gas gas_BASE, OpInfo_gas_block_end gas_BASE, OpInfo_jumpdest, OpInfo_none,
      OpInfo_none, OpInfo_none, OpInfo_gas (if enabled spec SHANGHAI then gas_BASE else 0)]"

text \<open>\<open>PUSH1\<close> to \<open>PUSH32\<close>, \<open>DUP1\<close> to \<open>SWAP16\<close>, \<open>LOG0\<close> to \<open>LOG4\<close> and the unused codes up to \<open>0xef\<close>.\<close>

definition op_info_stack :: "OpInfo list" where
  "op_info_stack = replicate 32 OpInfo_push_opcode @ replicate 32 (OpInfo_gas gas_VERYLOW)"

definition op_info_log :: "OpInfo list" where
  "op_info_log = replicate 5 OpInfo_dynamic_gas @ replicate 75 OpInfo_none"

definition op_info_system :: "OpInfo list" where
  "op_info_system =
     [OpInfo_gas_block_end 0, OpInfo_gas_block_end 0, OpInfo_gas_block_end 0, OpInfo_gas_block_end 0,
      OpInfo_gas_block_end 0, OpInfo_gas_block_end 0, OpInfo_none, OpInfo_none, OpInfo_none, OpInfo_none,
      OpInfo_gas_block_end 0, OpInfo_none, OpInfo_none, OpInfo_gas_block_end 0, OpInfo_gas_block_end 0,
      OpInfo_gas_block_end 0]"

definition gas_opcodee :: "SpecId \<Rightarrow> OpInfo list" where
  "gas_opcodee spec = op_info_arith spec @ op_info_bitwise spec @ op_info_sha3 spec @ op_info_environment spec @
     op_info_block spec @ op_info_flow spec @ op_info_stack @ op_info_log @ op_info_system"

definition spec_opcode_gas :: "SpecId \<Rightarrow> OpInfo list" where
  "spec_opcode_gas spec = gas_opcodee spec"

lemmas op_info_defs =
  op_info_arith_def op_info_bitwise_def op_info_sha3_def op_info_environment_def op_info_block_def
  op_info_flow_def op_info_stack_def op_info_log_def op_info_system_def

section \<open>Fields\<close>

lemma OpInfo_fields [simp]:
  "get_gas OpInfo_none = 0" "\<not> is_jump OpInfo_none" "\<not> is_gas_block_end OpInfo_none" "\<not> is_push OpInfo_none"
  "get_gas OpInfo_dynamic_gas = 0" "\<not> is_jump OpInfo_dynamic_gas" "\<not> is_gas_block_end OpInfo_dynamic_gas"
  "\<not> is_push OpInfo_dynamic_gas"
  "get_gas OpInfo_push_opcode = 3" "\<not> is_jump OpInfo_push_opcode" "\<not> is_gas_block_end OpInfo_push_opcode"
  "is_push OpInfo_push_opcode"
  "get_gas OpInfo_jumpdest = 0" "is_jump OpInfo_jumpdest" "is_gas_block_end OpInfo_jumpdest" "\<not> is_push OpInfo_jumpdest"
  by (simp_all add: get_gas_def is_jump_def is_gas_block_end_def is_push_def OpInfo_none_def OpInfo_dynamic_gas_def
      OpInfo_push_opcode_def OpInfo_jumpdest_def)

lemma op_info_lengths:
  "length (op_info_arith spec) = 16" "length (op_info_bitwise spec) = 16" "length (op_info_sha3 spec) = 16"
  "length (op_info_environment spec) = 16" "length (op_info_block spec) = 16" "length (op_info_flow spec) = 16"
  "length op_info_stack = 64" "length op_info_log = 80" "length op_info_system = 16"
  by (simp_all add: op_info_defs)

lemma length_gas_opcodee [simp]: "length (gas_opcodee spec) = 256"
  by (simp add: gas_opcodee_def op_info_lengths)

lemma flag_bit: "n < LENGTH('a) \<Longrightarrow> a AND 2 ^ n = (2 ^ n :: 'a::len word) \<longleftrightarrow> bit a n"
  by (auto simp: bit_eq_iff [where ?'a = "'a word"] bit_and_iff bit_exp_iff)

lemma OpInfo_bits:
  "is_jump i \<longleftrightarrow> bit (op_data i) 31" "is_gas_block_end i \<longleftrightarrow> bit (op_data i) 30" "is_push i \<longleftrightarrow> bit (op_data i) 29"
  "get_gas i = take_bit 29 (op_data i)"
  using flag_bit [where a = "op_data i" and n = 31] flag_bit [where a = "op_data i" and n = 30]
    flag_bit [where a = "op_data i" and n = 29]
  by (simp_all add: is_jump_def is_gas_block_end_def is_push_def get_gas_def take_bit_eq_mask mask_eq_exp_minus_1)

lemma bit_price:
  fixes price :: u64
  assumes "price < 2 ^ 29" "bit price n"
  shows "n < 29"
proof -
  have "take_bit 29 (unat price) = unat price"
    using assms(1) by (intro take_bit_nat_eq_self) (simp add: word_less_nat_alt)
  moreover have "bit (unat price) n" using assms(2) by (simp add: bit_unsigned_iff)
  ultimately show ?thesis by (metis bit_take_bit_iff)
qed

lemma OpInfo_priced:
  assumes "price < 2 ^ 29"
  shows "get_gas (OpInfo_gas price) = ucast price" "\<not> is_jump (OpInfo_gas price)" "\<not> is_gas_block_end (OpInfo_gas price)"
    "\<not> is_push (OpInfo_gas price)" "get_gas (OpInfo_gas_block_end price) = ucast price"
    "\<not> is_jump (OpInfo_gas_block_end price)" "is_gas_block_end (OpInfo_gas_block_end price)"
    "\<not> is_push (OpInfo_gas_block_end price)"
proof -
  have low: "\<not> bit (ucast price :: u32) n" if "29 \<le> n" for n
    using bit_price [OF assms, of n] that by (auto simp: bit_unsigned_iff)
  moreover have flag: "bit (ucast price OR 2 ^ 30 :: u32) n \<longleftrightarrow> bit (ucast price :: u32) n \<or> n = 30" for n
    unfolding bit_or_iff bit_exp_iff by (auto simp: bit_unsigned_iff)
  moreover have "take_bit 29 (ucast price :: u32) = ucast price" "take_bit 29 (ucast price OR 2 ^ 30 :: u32) = ucast price"
    unfolding bit_eq_iff [where ?'a = u32] bit_take_bit_iff flag using low not_le by auto
  ultimately show "get_gas (OpInfo_gas price) = ucast price" "\<not> is_jump (OpInfo_gas price)" "\<not> is_gas_block_end (OpInfo_gas price)"
    "\<not> is_push (OpInfo_gas price)" "get_gas (OpInfo_gas_block_end price) = ucast price"
    "\<not> is_jump (OpInfo_gas_block_end price)" "is_gas_block_end (OpInfo_gas_block_end price)"
    "\<not> is_push (OpInfo_gas_block_end price)"
    by (simp_all add: OpInfo_bits OpInfo_gas_def OpInfo_gas_block_end_def)
qed
lemma OpInfo_if: "OpInfo_gas (if b then x else y) = (if b then OpInfo_gas x else OpInfo_gas y)"
  by simp

definition priced_ops :: "nat set" where
  "priced_ops = {1, 2, 3, 4, 5, 6, 7, 8, 9, 11, 16, 17, 18, 19, 20, 21, 22, 23, 24, 25, 26, 27, 28, 29, 48, 50, 51,
     52, 53, 54, 56, 58, 59, 60, 61, 63, 64, 65, 66, 67, 68, 69, 70, 71, 72, 80, 81, 82, 83, 86, 87, 88,
     89, 90, 95} \<union> {96..159}"

definition block_ends :: "nat set" where
  "block_ends = {0, 85, 86, 87, 90, 91, 240, 241, 242, 243, 244, 245, 250, 253, 254, 255}"

definition entry_ok :: "nat \<Rightarrow> OpInfo \<Rightarrow> bool" where
  "entry_ok n i \<longleftrightarrow> is_push i = (96 \<le> n \<and> n < 128) \<and> is_jump i = (n = 91) \<and> is_gas_block_end i = (n \<in> block_ends) \<and>
     (get_gas i \<noteq> 0 \<longrightarrow> n \<in> priced_ops)"

lemma entries_ok:
  "list_all (case_prod entry_ok) (enumerate 0 (op_info_arith spec))"
  "list_all (case_prod entry_ok) (enumerate 16 (op_info_bitwise spec))"
  "list_all (case_prod entry_ok) (enumerate 32 (op_info_sha3 spec))"
  "list_all (case_prod entry_ok) (enumerate 48 (op_info_environment spec))"
  "list_all (case_prod entry_ok) (enumerate 64 (op_info_block spec))"
  "list_all (case_prod entry_ok) (enumerate 80 (op_info_flow spec))"
  "list_all (case_prod entry_ok) (enumerate 96 op_info_stack)"
  "list_all (case_prod entry_ok) (enumerate 160 op_info_log)"
  "list_all (case_prod entry_ok) (enumerate 240 op_info_system)"
  by (simp_all add: op_info_defs entry_ok_def OpInfo_if OpInfo_priced if_distrib [of is_push] if_distrib [of is_jump]
      if_distrib [of is_gas_block_end] priced_ops_def block_ends_def enumerate_append_eq enumerate_replicate_eq list_all_iff
      split: if_split)

lemma entry_ok_nth:
  assumes "n < 256"
  shows "entry_ok n (gas_opcodee spec ! n)"
proof -
  have "list_all (case_prod entry_ok) (enumerate 0 (gas_opcodee spec))"
    using entries_ok by (simp add: gas_opcodee_def enumerate_append_eq op_info_lengths)
  then show ?thesis using assms by (auto simp: list_all_length nth_enumerate_eq)
qed

section \<open>What an instruction spends\<close>

text \<open>\<open>spent P g r\<close>: if \<open>r\<close> is a machine that goes on, it has spent an amount with \<open>P\<close> of the gas \<open>g\<close>.\<close>

definition spent :: "(nat \<Rightarrow> bool) \<Rightarrow> Gas \<Rightarrow> 'h machine comp \<Rightarrow> bool" where
  "spent P g r \<longleftrightarrow> (\<forall>m'. r = Val m' \<longrightarrow> instruction_result m' = Continue \<longrightarrow>
     (\<exists>d. P d \<and> unat (remaining (gas m')) + d = unat (remaining g)))"

named_theorems spending

lemma spent_Val: "gas m = g \<Longrightarrow> P 0 \<Longrightarrow> spent P g (Val m)"
  by (simp add: spent_def)

lemma spent_bind: "(\<And>x. c = Val x \<Longrightarrow> spent P g (k x)) \<Longrightarrow> spent P g (bind_comp c k)"
  by (cases c) (simp_all add: spent_def)

lemma spent_halt [spending]: "r \<noteq> Continue \<Longrightarrow> spent P g (halt r m)"
  by (simp add: spent_def halt_def)

lemma spent_shift:
  assumes "unat (remaining g') + e = unat (remaining g)" "spent (\<lambda>d. P (e + d)) g' r"
  shows "spent P g r"
proof -
  have "\<exists>d. P d \<and> unat (remaining (gas m')) + d = unat (remaining g)" if p: "r = Val m'" "instruction_result m' = Continue" for m'
  proof -
    obtain d where "P (e + d)" "unat (remaining (gas m')) + d = unat (remaining g')"
      using assms(2) p by (auto simp: spent_def)
    with assms(1) show ?thesis by (intro exI [of _ "e + d"]) simp
  qed
  then show ?thesis by (simp add: spent_def)
qed

lemma spent_gas_m [spending]:
  assumes "gas m = g" "gas_wf g"
    and k: "\<And>g' m'. gas m' = g' \<Longrightarrow> gas_wf g' \<Longrightarrow> spent (\<lambda>d. P (unat c + d)) g' (k m')"
  shows "spent P g (gas_m c k m)"
proof (cases "fst (record_cost g c)")
  case False
  then show ?thesis using assms(1) by (auto simp: gas_m_def spent_halt split: prod.splits)
next
  case True
  then have le: "c \<le> remaining g" using assms(2) record_cost_succeeds_iff by blast
  let ?g = "snd (record_cost g c)"
  have "gas_wf ?g" "unat (remaining ?g) = unat (remaining g) - unat c"
    using record_cost_success [OF assms(2) le] by blast+
  moreover have "unat c \<le> unat (remaining g)" using le by (simp add: word_le_nat_alt)
  moreover have "gas_m c k m = k (m\<lparr>gas := ?g\<rparr>)"
    using True assms(1) by (auto simp: gas_m_def Let_def split: prod.splits)
  ultimately show ?thesis using k [of "m\<lparr>gas := ?g\<rparr>" ?g] spent_shift [of ?g "unat c" g P] by simp
qed

lemma spent_gas_or_fail [spending]:
  assumes "gas m = g" "gas_wf g"
    and k: "\<And>c g' m'. cost = Some c \<Longrightarrow> gas m' = g' \<Longrightarrow> gas_wf g' \<Longrightarrow> spent (\<lambda>d. P (unat c + d)) g' (k m')"
  shows "spent P g (gas_or_fail cost k m)"
  using assms by (auto simp: gas_or_fail_def split: option.split intro!: spending)

lemma spent_memory_resize [spending]:
  assumes "gas m = g" "gas_wf g"
    and k: "\<And>e g' m'. gas m' = g' \<Longrightarrow> gas_wf g' \<Longrightarrow> spent (\<lambda>d. P (e + d)) g' (k m')"
  shows "spent P g (memory_resize offset len k m)"
proof -
  have k0: "spent P g (k m)" using k [of m g 0] assms by simp
  have grow: "spent P g (bind_comp r (\<lambda>mem. k (m\<lparr>gas := g', memory := mem\<rparr>)))"
    if "record_memory g c = (True, g')" for r c g'
  proof (rule spent_bind)
    fix mem
    have g': "gas_wf g'" "unat (remaining g') \<le> unat (remaining g)"
      using record_memory_success [of g c] assms(2) that by (simp_all add: word_le_nat_alt)
    let ?e = "unat (remaining g) - unat (remaining g')" and ?m = "m\<lparr>gas := g', memory := mem\<rparr>"
    have "spent (\<lambda>d. P (?e + d)) g' (k ?m)" using k [of ?m g' ?e] g'(1) by simp
    with g'(2) show "spent P g (k ?m)" using spent_shift [of g' ?e g P] by simp
  qed
  show ?thesis using assms(1) k0 grow
    by (auto simp: memory_resize_def Let_def spent_halt split: option.split prod.split)
qed

lemma spent_pops [spending]:
  "\<lbrakk>gas m = g; \<And>x m'. gas m' = g \<Longrightarrow> spent P g (k1 x m')\<rbrakk> \<Longrightarrow> spent P g (pop_m1 k1 m)"
  "\<lbrakk>gas m = g; \<And>x m'. gas m' = g \<Longrightarrow> spent P g (ka x m')\<rbrakk> \<Longrightarrow> spent P g (pop_address ka m)"
  "\<lbrakk>gas m = g; \<And>x y m'. gas m' = g \<Longrightarrow> spent P g (k2 x y m')\<rbrakk> \<Longrightarrow> spent P g (pop_m2 k2 m)"
  "\<lbrakk>gas m = g; \<And>x y z m'. gas m' = g \<Longrightarrow> spent P g (k3 x y z m')\<rbrakk> \<Longrightarrow> spent P g (pop_m3 k3 m)"
  "\<lbrakk>gas m = g; \<And>x m'. gas m' = g \<Longrightarrow> spent P g (k1 x m')\<rbrakk> \<Longrightarrow> spent P g (pop_top1 k1 m)"
  "\<lbrakk>gas m = g; \<And>x y m'. gas m' = g \<Longrightarrow> spent P g (k2 x y m')\<rbrakk> \<Longrightarrow> spent P g (pop_top2 k2 m)"
  "\<lbrakk>gas m = g; \<And>x y z m'. gas m' = g \<Longrightarrow> spent P g (k3 x y z m')\<rbrakk> \<Longrightarrow> spent P g (pop_top3 k3 m)"
  by (auto simp: pop_m1_def pop_address_def pop_m2_def pop_m3_def pop_top1_def pop_top2_def pop_top3_def spent_halt spent_bind
      split: prod.splits)

lemma spent_operands [spending]:
  "\<lbrakk>gas m = g; \<And>x m'. gas m' = g \<Longrightarrow> spent P g (k x m')\<rbrakk> \<Longrightarrow> spent P g (lift_comp c k m)"
  "\<lbrakk>gas m = g; reason \<noteq> Continue; \<And>x m'. gas m' = g \<Longrightarrow> spent P g (ku x m')\<rbrakk> \<Longrightarrow> spent P g (as_usize_or_fail v reason ku m)"
  "\<lbrakk>gas m = g; \<And>m'. b \<Longrightarrow> gas m' = g \<Longrightarrow> spent P g (kc m')\<rbrakk> \<Longrightarrow> spent P g (check b kc m)"
  "\<lbrakk>gas m = g; \<And>x m'. gas m' = g \<Longrightarrow> spent P g (kr x m')\<rbrakk> \<Longrightarrow> spent P g (read_memory offset len kr m)"
  "\<lbrakk>gas m = g; \<And>x m'. gas m' = g \<Longrightarrow> spent P g (kh x m')\<rbrakk> \<Longrightarrow> spent P g (host_or_fatal f kh m)"
  "\<lbrakk>gas m = g; \<And>m'. gas m' = g \<Longrightarrow> spent P g (kp m')\<rbrakk> \<Longrightarrow> spent P g (push_m w kp m)"
  "\<lbrakk>gas m = g; \<And>m'. gas m' = g \<Longrightarrow> spent P g (kp m')\<rbrakk> \<Longrightarrow> spent P g (push_b256_m w' kp m)"
  by (auto simp: lift_comp_def as_usize_or_fail_def check_def read_memory_def host_or_fatal_def with_host_def push_m_def
      push_b256_m_def Stack_push_def push_b256_def spent_halt intro!: spent_bind split: option.split prod.split)

lemma spent_ends [spending]:
  "\<lbrakk>gas m = g; P 0\<rbrakk> \<Longrightarrow> spent P g (done_m m)" "\<lbrakk>gas m = g; P 0\<rbrakk> \<Longrightarrow> spent P g (write_top v m)"
  "\<lbrakk>gas m = g; P 0\<rbrakk> \<Longrightarrow> spent P g (set_ip dest m)" "\<lbrakk>gas m = g; P 0\<rbrakk> \<Longrightarrow> spent P g (on_memory f m)"
  "gas m = g \<Longrightarrow> P 0 \<Longrightarrow> spent P g (Val m)"
  by (auto simp: done_m_def write_top_def set_ip_def on_memory_def intro!: spent_bind spent_Val)

lemma spent_Panic [spending]: "spent P g Panic"
  by (simp add: spent_def)

lemma spent_cases [spending]:
  "\<lbrakk>b \<Longrightarrow> spent P g x; \<not> b \<Longrightarrow> spent P g y\<rbrakk> \<Longrightarrow> spent P g (if b then x else y)"
  "\<lbrakk>b \<Longrightarrow> spent P g (i1 m); \<not> b \<Longrightarrow> spent P g (i2 m)\<rbrakk> \<Longrightarrow> spent P g ((if b then i1 else i2) m)"
  "(\<And>y z. spent P g (q y z m)) \<Longrightarrow> spent P g ((case p of (y, z) \<Rightarrow> q y z) m)"
  "\<lbrakk>o' = None \<Longrightarrow> spent P g x; \<And>v. spent P g (f v)\<rbrakk> \<Longrightarrow> spent P g (case o' of None \<Rightarrow> x | Some v \<Rightarrow> f v)"
  by (auto split: prod.split option.split)

lemma spent_2:
  assumes "gas_wf (gas m)"
  shows "spent (\<lambda>d. d = 2) (gas m) (address_op m)" "spent (\<lambda>d. d = 2) (gas m) (origin_op H m)" 
    "spent (\<lambda>d. d = 2) (gas m) (caller_op m)" "spent (\<lambda>d. d = 2) (gas m) (callvalue m)" 
    "spent (\<lambda>d. d = 2) (gas m) (calldatasize m)" "spent (\<lambda>d. d = 2) (gas m) (codesize m)" 
    "spent (\<lambda>d. d = 2) (gas m) (gasprice_op H m)" 
    "spent (\<lambda>d. d = 2) (gas m) (returndatasize spec m)" 
    "spent (\<lambda>d. d = 2) (gas m) (coinbase_op H m)" 
    "spent (\<lambda>d. d = 2) (gas m) (timestamp_op H m)" 
    "spent (\<lambda>d. d = 2) (gas m) (number_op H m)" 
    "spent (\<lambda>d. d = 2) (gas m) (difficulty_op H spec m)" 
    "spent (\<lambda>d. d = 2) (gas m) (gaslimit_op H m)" 
    "spent (\<lambda>d. d = 2) (gas m) (chainid H spec m)" 
    "spent (\<lambda>d. d = 2) (gas m) (basefee_op H spec m)" 
    "spent (\<lambda>d. d = 2) (gas m) (pop_op m)" "spent (\<lambda>d. d = 2) (gas m) (pc_op m)" 
    "spent (\<lambda>d. d = 2) (gas m) (msize m)" "spent (\<lambda>d. d = 2) (gas m) (gas_op m)" 
    "spent (\<lambda>d. d = 2) (gas m) (push0 spec m)" 
    unfolding address_op_def origin_op_def caller_op_def callvalue_def calldatasize_def codesize_def
    gasprice_op_def returndatasize_def coinbase_op_def timestamp_op_def number_op_def difficulty_op_def
    gaslimit_op_def chainid_def basefee_op_def pop_op_def pc_op_def msize_def gas_op_def push0_def
  by (auto intro!: spending simp: assms reduce_one_def Stack_push_def)

lemma spent_3:
  assumes "gas_wf (gas m)"
  shows "spent (\<lambda>d. d = 3) (gas m) (wrapped_add m)" "spent (\<lambda>d. d = 3) (gas m) (wrapping_sub m)" 
    "spent (\<lambda>d. d = 3) (gas m) (lt_op m)" "spent (\<lambda>d. d = 3) (gas m) (gt_op m)" 
    "spent (\<lambda>d. d = 3) (gas m) (slt_op m)" "spent (\<lambda>d. d = 3) (gas m) (sgt_op m)" 
    "spent (\<lambda>d. d = 3) (gas m) (eq_op m)" "spent (\<lambda>d. d = 3) (gas m) (iszero m)" 
    "spent (\<lambda>d. d = 3) (gas m) (bitand m)" "spent (\<lambda>d. d = 3) (gas m) (bitor m)" 
    "spent (\<lambda>d. d = 3) (gas m) (bitxor m)" "spent (\<lambda>d. d = 3) (gas m) (not_op m)" 
    "spent (\<lambda>d. d = 3) (gas m) (byte_op m)" "spent (\<lambda>d. d = 3) (gas m) (shl_op spec m)" 
    "spent (\<lambda>d. d = 3) (gas m) (shr_op spec m)" 
    "spent (\<lambda>d. d = 3) (gas m) (sar_op spec m)" 
    "spent (\<lambda>d. d = 3) (gas m) (calldataload m)" 
    "spent (\<lambda>d. d = 3) (gas m) (push_op n m)" "spent (\<lambda>d. d = 3) (gas m) (dup_op n m)" 
    "spent (\<lambda>d. d = 3) (gas m) (swap_op n m)" 
    unfolding wrapped_add_def wrapping_sub_def lt_op_def gt_op_def slt_op_def sgt_op_def eq_op_def iszero_def
    bitand_def bitor_def bitxor_def not_op_def byte_op_def shl_op_def shr_op_def sar_op_def calldataload_def
    push_op_def dup_op_def swap_op_def
  by (auto intro!: spending simp: assms Stack_dup_def Stack_swap_def push_slice_def Let_def)

lemma spent_5:
  assumes "gas_wf (gas m)"
  shows "spent (\<lambda>d. d = 5) (gas m) (wrapping_mul m)" "spent (\<lambda>d. d = 5) (gas m) (div_op m)" 
    "spent (\<lambda>d. d = 5) (gas m) (sdiv_op m)" "spent (\<lambda>d. d = 5) (gas m) (rem_op m)" 
    "spent (\<lambda>d. d = 5) (gas m) (smod_op m)" "spent (\<lambda>d. d = 5) (gas m) (signextend m)" 
    "spent (\<lambda>d. d = 5) (gas m) (selfbalance_op H spec m)" 
    unfolding wrapping_mul_def div_op_def sdiv_op_def rem_op_def smod_op_def signextend_def selfbalance_op_def
  by (auto intro!: spending simp: assms )

lemma spent_8:
  assumes "gas_wf (gas m)"
  shows "spent (\<lambda>d. d = 8) (gas m) (addmod m)" "spent (\<lambda>d. d = 8) (gas m) (mulmod m)" 
    "spent (\<lambda>d. d = 8) (gas m) (jump m)" 
    unfolding addmod_def mulmod_def jump_def
  by (auto intro!: spending simp: assms )

lemma spent_jumpi:
  assumes "gas_wf (gas m)"
  shows "spent (\<lambda>d. d = 10) (gas m) (jumpi m)" 
    unfolding jumpi_def
  by (auto intro!: spending simp: assms )

lemma spent_blockhash:
  assumes "gas_wf (gas m)"
  shows "spent (\<lambda>d. d = 20) (gas m) (blockhash H m)" 
    unfolding blockhash_def
  by (auto intro!: spending simp: assms Let_def)

lemma spent_memory:
  assumes "gas_wf (gas m)"
  shows "spent (\<lambda>d. 3 \<le> d) (gas m) (mload m)" "spent (\<lambda>d. 3 \<le> d) (gas m) (mstore m)" 
    "spent (\<lambda>d. 3 \<le> d) (gas m) (mstore8 m)" 
    unfolding mload_def mstore_def mstore8_def
  by (auto intro!: spending simp: assms )


lemma spent_extcode:
  assumes "gas_wf (gas m)"
  shows "spent (\<lambda>d. (if enabled spec BERLIN then 100 else if enabled spec TANGERINE then 700 else 20) \<le> d) (gas m) (extcodesize H spec m)"
    "spent (\<lambda>d. (if enabled spec BERLIN then 100 else if enabled spec ISTANBUL then 700 else 400) \<le> d) (gas m) (extcodehash H spec m)"
  unfolding extcodesize_def extcodehash_def by (auto intro!: spending simp: assms)

lemma spent_extcodecopy:
  assumes "gas_wf (gas m)"
  shows "spent (\<lambda>d. (if enabled spec BERLIN then 100 else if enabled spec TANGERINE then 700 else 20) \<le> d) (gas m) (extcodecopy H spec m)"
proof -
  define base :: nat where "base = (if enabled spec BERLIN then 100 else if enabled spec TANGERINE then 700 else 20)"
  have "base \<le> unat c + e" if "extcodecopy_cost spec len cold = Some c" for len cold c e
    using extcodecopy_cost_eq [of spec len cold] that by (auto simp: base_def)
  then have "spent (\<lambda>d. base \<le> d) (gas m) (extcodecopy H spec m)"
    unfolding extcodecopy_def using assms by (auto intro!: spending simp: Let_def)
  then show ?thesis by (simp only: base_def)
qed

lemma spent_mono: "spent P g r \<Longrightarrow> (\<And>d. P d \<Longrightarrow> Q d) \<Longrightarrow> spent Q g r"
  unfolding spent_def by blast

lemmas spent_fixed = spent_2 spent_3 spent_5 spent_8 spent_jumpi spent_blockhash

section \<open>Prices\<close>

lemma gas_opcodee_nth:
  "i < 16 \<Longrightarrow> gas_opcodee spec ! i = op_info_arith spec ! i"
  "i < 16 \<Longrightarrow> gas_opcodee spec ! (16 + i) = op_info_bitwise spec ! i"
  "i < 16 \<Longrightarrow> gas_opcodee spec ! (48 + i) = op_info_environment spec ! i"
  "i < 16 \<Longrightarrow> gas_opcodee spec ! (64 + i) = op_info_block spec ! i"
  "i < 16 \<Longrightarrow> gas_opcodee spec ! (80 + i) = op_info_flow spec ! i"
  "i < 64 \<Longrightarrow> gas_opcodee spec ! (96 + i) = op_info_stack ! i"
  by (simp_all add: gas_opcodee_def nth_append op_info_lengths)

lemma price_arith:
  "get_gas (gas_opcodee spec ! Suc 0) = 3"
  "get_gas (gas_opcodee spec ! 2) = 5"
  "get_gas (gas_opcodee spec ! 3) = 3"
  "get_gas (gas_opcodee spec ! 4) = 5"
  "get_gas (gas_opcodee spec ! 5) = 5"
  "get_gas (gas_opcodee spec ! 6) = 5"
  "get_gas (gas_opcodee spec ! 7) = 5"
  "get_gas (gas_opcodee spec ! 8) = 8"
  "get_gas (gas_opcodee spec ! 9) = 8"
  "get_gas (gas_opcodee spec ! 11) = 5"
  using gas_opcodee_nth(1) [of _ spec] by (simp_all add: op_info_arith_def OpInfo_priced)

lemma price_bitwise:
  "get_gas (gas_opcodee spec ! 16) = 3"
  "get_gas (gas_opcodee spec ! 17) = 3"
  "get_gas (gas_opcodee spec ! 18) = 3"
  "get_gas (gas_opcodee spec ! 19) = 3"
  "get_gas (gas_opcodee spec ! 20) = 3"
  "get_gas (gas_opcodee spec ! 21) = 3"
  "get_gas (gas_opcodee spec ! 22) = 3"
  "get_gas (gas_opcodee spec ! 23) = 3"
  "get_gas (gas_opcodee spec ! 24) = 3"
  "get_gas (gas_opcodee spec ! 25) = 3"
  "get_gas (gas_opcodee spec ! 26) = 3"
  "get_gas (gas_opcodee spec ! 27) = (if enabled spec CONSTANTINOPLE then 3 else 0)"
  "get_gas (gas_opcodee spec ! 28) = (if enabled spec CONSTANTINOPLE then 3 else 0)"
  "get_gas (gas_opcodee spec ! 29) = (if enabled spec CONSTANTINOPLE then 3 else 0)"
  using gas_opcodee_nth(2) [of 0 spec] gas_opcodee_nth(2) [of 1 spec] gas_opcodee_nth(2) [of 2 spec]
    gas_opcodee_nth(2) [of 3 spec] gas_opcodee_nth(2) [of 4 spec] gas_opcodee_nth(2) [of 5 spec]
    gas_opcodee_nth(2) [of 6 spec] gas_opcodee_nth(2) [of 7 spec] gas_opcodee_nth(2) [of 8 spec]
    gas_opcodee_nth(2) [of 9 spec] gas_opcodee_nth(2) [of 10 spec] gas_opcodee_nth(2) [of 11 spec]
    gas_opcodee_nth(2) [of 12 spec] gas_opcodee_nth(2) [of 13 spec]
  by (simp_all add: op_info_bitwise_def OpInfo_priced)

lemma price_environment:
  "get_gas (gas_opcodee spec ! 48) = 2"
  "get_gas (gas_opcodee spec ! 50) = 2"
  "get_gas (gas_opcodee spec ! 51) = 2"
  "get_gas (gas_opcodee spec ! 52) = 2"
  "get_gas (gas_opcodee spec ! 53) = 3"
  "get_gas (gas_opcodee spec ! 54) = 2"
  "get_gas (gas_opcodee spec ! 56) = 2"
  "get_gas (gas_opcodee spec ! 58) = 2"
  "get_gas (gas_opcodee spec ! 59) = (if enabled spec BERLIN then 100 else if enabled spec TANGERINE then 700 else 20)"
  "get_gas (gas_opcodee spec ! 60) = (if enabled spec BERLIN then 100 else if enabled spec TANGERINE then 700 else 20)"
  "get_gas (gas_opcodee spec ! 61) = (if enabled spec BYZANTIUM then 2 else 0)"
  "get_gas (gas_opcodee spec ! 63) = (if enabled spec BERLIN then 100 else if enabled spec ISTANBUL then 700 else if enabled spec PETERSBURG then 400 else 0)"
  using gas_opcodee_nth(3) [of 0 spec] gas_opcodee_nth(3) [of 2 spec] gas_opcodee_nth(3) [of 3 spec]
    gas_opcodee_nth(3) [of 4 spec] gas_opcodee_nth(3) [of 5 spec] gas_opcodee_nth(3) [of 6 spec]
    gas_opcodee_nth(3) [of 8 spec] gas_opcodee_nth(3) [of 10 spec] gas_opcodee_nth(3) [of 11 spec]
    gas_opcodee_nth(3) [of 12 spec] gas_opcodee_nth(3) [of 13 spec] gas_opcodee_nth(3) [of 15 spec]
  by (simp_all add: op_info_environment_def OpInfo_priced)

lemma price_block:
  "get_gas (gas_opcodee spec ! 64) = 20"
  "get_gas (gas_opcodee spec ! 65) = 2"
  "get_gas (gas_opcodee spec ! 66) = 2"
  "get_gas (gas_opcodee spec ! 67) = 2"
  "get_gas (gas_opcodee spec ! 68) = 2"
  "get_gas (gas_opcodee spec ! 69) = 2"
  "get_gas (gas_opcodee spec ! 70) = (if enabled spec ISTANBUL then 2 else 0)"
  "get_gas (gas_opcodee spec ! 71) = (if enabled spec ISTANBUL then 5 else 0)"
  "get_gas (gas_opcodee spec ! 72) = (if enabled spec LONDON then 2 else 0)"
  using gas_opcodee_nth(4) [of 0 spec] gas_opcodee_nth(4) [of 1 spec] gas_opcodee_nth(4) [of 2 spec]
    gas_opcodee_nth(4) [of 3 spec] gas_opcodee_nth(4) [of 4 spec] gas_opcodee_nth(4) [of 5 spec]
    gas_opcodee_nth(4) [of 6 spec] gas_opcodee_nth(4) [of 7 spec] gas_opcodee_nth(4) [of 8 spec]
  by (simp_all add: op_info_block_def OpInfo_priced)

lemma price_flow:
  "get_gas (gas_opcodee spec ! 80) = 2"
  "get_gas (gas_opcodee spec ! 81) = 3"
  "get_gas (gas_opcodee spec ! 82) = 3"
  "get_gas (gas_opcodee spec ! 83) = 3"
  "get_gas (gas_opcodee spec ! 86) = 8"
  "get_gas (gas_opcodee spec ! 87) = 10"
  "get_gas (gas_opcodee spec ! 88) = 2"
  "get_gas (gas_opcodee spec ! 89) = 2"
  "get_gas (gas_opcodee spec ! 90) = 2"
  "get_gas (gas_opcodee spec ! 95) = (if enabled spec SHANGHAI then 2 else 0)"
  using gas_opcodee_nth(5) [of 0 spec] gas_opcodee_nth(5) [of 1 spec] gas_opcodee_nth(5) [of 2 spec]
    gas_opcodee_nth(5) [of 3 spec] gas_opcodee_nth(5) [of 6 spec] gas_opcodee_nth(5) [of 7 spec]
    gas_opcodee_nth(5) [of 8 spec] gas_opcodee_nth(5) [of 9 spec] gas_opcodee_nth(5) [of 10 spec]
    gas_opcodee_nth(5) [of 15 spec]
  by (simp_all add: op_info_flow_def OpInfo_priced)

lemma price_stack: "96 \<le> n \<Longrightarrow> n < 160 \<Longrightarrow> get_gas (gas_opcodee spec ! n) = 3"
  using gas_opcodee_nth(6) [of "n - 96" spec]
  by (simp add: op_info_stack_def nth_append OpInfo_priced)

definition fixed_ops :: "u8 set" where
  "fixed_ops = {1, 2, 3, 4, 5, 6, 7, 8, 9, 11} \<union>
     {16, 17, 18, 19, 20, 21, 22, 23, 24, 25, 26, 27, 28, 29} \<union>
     {48, 50, 51, 52, 53, 54, 56, 58, 61} \<union>
     {64, 65, 66, 67, 68, 69, 70, 71, 72} \<union>
     {80, 86, 87, 88, 89, 90, 95}"

lemma eval_spent_arith:
  assumes "gas_wf (gas m)" "op \<in> {1, 2, 3, 4, 5, 6, 7, 8, 9, 11}" "get_gas (gas_opcodee spec ! unat op) \<noteq> 0"
  shows "spent (\<lambda>d. d = unat (get_gas (gas_opcodee spec ! unat op))) (gas m) (eval L H spec op m)"
  using assms(2,3) by (elim insertE emptyE)
    (simp_all add: eval_def price_arith spent_fixed [OF assms(1)] split: if_splits)

lemma eval_spent_bitwise:
  assumes "gas_wf (gas m)" "op \<in> {16, 17, 18, 19, 20, 21, 22, 23, 24, 25, 26, 27, 28, 29}" "get_gas (gas_opcodee spec ! unat op) \<noteq> 0"
  shows "spent (\<lambda>d. d = unat (get_gas (gas_opcodee spec ! unat op))) (gas m) (eval L H spec op m)"
  using assms(2,3) by (elim insertE emptyE)
    (simp_all add: eval_def price_bitwise spent_fixed [OF assms(1)] split: if_splits)

lemma eval_spent_environment:
  assumes "gas_wf (gas m)" "op \<in> {48, 50, 51, 52, 53, 54, 56, 58, 61}" "get_gas (gas_opcodee spec ! unat op) \<noteq> 0"
  shows "spent (\<lambda>d. d = unat (get_gas (gas_opcodee spec ! unat op))) (gas m) (eval L H spec op m)"
  using assms(2,3) by (elim insertE emptyE)
    (simp_all add: eval_def price_environment spent_fixed [OF assms(1)] split: if_splits)

lemma eval_spent_block:
  assumes "gas_wf (gas m)" "op \<in> {64, 65, 66, 67, 68, 69, 70, 71, 72}" "get_gas (gas_opcodee spec ! unat op) \<noteq> 0"
  shows "spent (\<lambda>d. d = unat (get_gas (gas_opcodee spec ! unat op))) (gas m) (eval L H spec op m)"
  using assms(2,3) by (elim insertE emptyE)
    (simp_all add: eval_def price_block spent_fixed [OF assms(1)] split: if_splits)

lemma eval_spent_flow:
  assumes "gas_wf (gas m)" "op \<in> {80, 86, 87, 88, 89, 90, 95}" "get_gas (gas_opcodee spec ! unat op) \<noteq> 0"
  shows "spent (\<lambda>d. d = unat (get_gas (gas_opcodee spec ! unat op))) (gas m) (eval L H spec op m)"
  using assms(2,3) by (elim insertE emptyE)
    (simp_all add: eval_def price_flow spent_fixed [OF assms(1)] split: if_splits)

lemma eval_spent_stack:
  assumes "gas_wf (gas m)" "96 \<le> unat op" "unat op < 160"
  shows "spent (\<lambda>d. d = 3) (gas m) (eval L H spec op m)"
proof -
  have "\<exists>n. eval L H spec op \<in> {push_op n, dup_op n, swap_op n}"
    using assms(2,3) by (auto simp: eval_def word_le_nat_alt word_less_nat_alt)
  then show ?thesis using spent_3(18-20) [OF assms(1)] by auto
qed

lemma eval_spent_least:
  assumes "gas_wf (gas m)" "op \<in> {59, 60, 63, 81, 82, 83}" "get_gas (gas_opcodee spec ! unat op) \<noteq> 0"
  shows "spent (\<lambda>d. unat (get_gas (gas_opcodee spec ! unat op)) \<le> d) (gas m) (eval L H spec op m)"
proof -
  have e: "eval L H spec 59 = extcodesize H spec" "eval L H spec 60 = extcodecopy H spec" "eval L H spec 63 = extcodehash H spec"
    "eval L H spec 81 = mload" "eval L H spec 82 = mstore" "eval L H spec 83 = mstore8" by (simp_all add: eval_def)
  show ?thesis using assms(2,3)
      spent_extcode [OF assms(1), of spec H] spent_extcodecopy [OF assms(1), of spec H] spent_memory [OF assms(1)]
    by (elim insertE emptyE) (simp_all add: e price_environment price_flow split: if_splits)
qed

section \<open>Meaning of the table\<close>

text \<open>
  The flags of the table mark exactly the instructions they name, in every hard fork: \<open>IS_PUSH\<close> the
  instructions \<open>PUSH1\<close> to \<open>PUSH32\<close>, \<open>IS_JUMP\<close> only \<open>JUMPDEST\<close>, and \<open>IS_GAS_BLOCK_END\<close> the
  instructions that end a block: those that stop, jump, call, create, write storage or read the gas.
\<close>
lemma op_info_flags:
  "(is_push (spec_opcode_gas spec ! unat op) \<longleftrightarrow> OP_PUSH1 \<le> op \<and> op \<le> OP_PUSH32) \<and>
   (is_jump (spec_opcode_gas spec ! unat op) \<longleftrightarrow> op = OP_JUMPDEST) \<and>
   (is_gas_block_end (spec_opcode_gas spec ! unat op) \<longleftrightarrow>
      op \<in> {OP_STOP, OP_SSTORE, OP_JUMP, OP_JUMPI, OP_GAS, OP_JUMPDEST, OP_CREATE, OP_CALL, OP_CALLCODE, OP_RETURN,
        OP_DELEGATECALL, OP_CREATE2, OP_STATICCALL, OP_REVERT, OP_INVALID, OP_SELFDESTRUCT})"
proof -
  have "unat op < 256" using unsigned_less [of op, where ?'a = nat] by simp
  then have e: "entry_ok (unat op) (spec_opcode_gas spec ! unat op)"
    unfolding spec_opcode_gas_def by (rule entry_ok_nth)
  then show ?thesis
    by (simp add: entry_ok_def block_ends_def word_unat_eq_iff word_le_nat_alt) auto
qed


text \<open>A machine with the stack \<open>[1, 2]\<close> and 10 units of gas.\<close>

definition sample_machine :: "DummyHost machine" where
  "sample_machine = \<lparr> instruction_pointer = 1, instruction_result = Continue, gas = Gas_new 10, memory = [], stack = [1, 2],
     return_data_buffer = [], return_range = (0, 0), is_static = False,
     contract = \<lparr> ct_input = [], ct_bytecode = \<lparr> bl_bytecode = [1, 0], bl_len = 1, bl_hash = 0, bl_jump_map = [] \<rparr>,
       ct_address = 0, ct_caller = 0, ct_value = 0 \<rparr>, memory_limit = 1024, host = DummyHost_new Env_default \<rparr>"


end
