(* ===== verification/Host_Simulation.thy ===== *)
theory Host_Simulation
  imports Interp_Run
begin

text \<open>
  The interpreter is parametric in its host. Two hosts are related by \<open>host_sim R\<close> when every operation
  of the first that returns is matched by the second with the same answer and hosts related by \<open>R\<close>;
  two machines by \<open>msim R\<close> when they agree on the interpreter and their hosts are related. Every macro,
  every instruction, the dispatch and the loop take related machines to related machines: the rules are
  registered for \<open>transfer_prover\<close>, which composes them along the definitions. \<open>refines\<close> relates
  computations in one direction (a result of the first is a result of the second), so that the second may
  have more fuel.
\<close>

section \<open>Related computations, machines and hosts\<close>

abbreviation eq_fun :: "('b \<Rightarrow> 'c \<Rightarrow> bool) \<Rightarrow> ('a \<Rightarrow> 'b) \<Rightarrow> ('a \<Rightarrow> 'c) \<Rightarrow> bool" where
  "eq_fun A \<equiv> rel_fun (=) A"

definition refines :: "('a \<Rightarrow> 'b \<Rightarrow> bool) \<Rightarrow> 'a comp \<Rightarrow> 'b comp \<Rightarrow> bool" where
  "refines R c1 c2 \<longleftrightarrow> (\<forall>x. c1 = Val x \<longrightarrow> (\<exists>y. c2 = Val y \<and> R x y))"

definition msim :: "('a \<Rightarrow> 'b \<Rightarrow> bool) \<Rightarrow> 'a machine \<Rightarrow> 'b machine \<Rightarrow> bool" where
  "msim R m1 m2 \<longleftrightarrow> interpreter.truncate m1 = interpreter.truncate m2 \<and> R (host m1) (host m2)"

abbreviation instr_rel :: "('a \<Rightarrow> 'b \<Rightarrow> bool) \<Rightarrow> 'a instr \<Rightarrow> 'b instr \<Rightarrow> bool" where
  "instr_rel R \<equiv> rel_fun (msim R) (refines (msim R))"

definition host_sim :: "('a \<Rightarrow> 'b \<Rightarrow> bool) \<Rightarrow> 'a host_ops \<Rightarrow> 'b host_ops \<Rightarrow> bool" where
  "host_sim R H1 H2 \<longleftrightarrow>
     rel_fun R (=) (h_env H1) (h_env H2) \<and>
     rel_fun R (eq_fun (refines (rel_prod (=) R))) (h_load_account H1) (h_load_account H2) \<and>
     rel_fun R (eq_fun (refines (rel_prod (=) R))) (h_block_hash H1) (h_block_hash H2) \<and>
     rel_fun R (eq_fun (refines (rel_prod (=) R))) (h_balance H1) (h_balance H2) \<and>
     rel_fun R (eq_fun (refines (rel_prod (=) R))) (h_code H1) (h_code H2) \<and>
     rel_fun R (eq_fun (refines (rel_prod (=) R))) (h_code_hash H1) (h_code_hash H2) \<and>
     rel_fun R (eq_fun (eq_fun (refines (rel_prod (=) R)))) (h_sload H1) (h_sload H2) \<and>
     rel_fun R (eq_fun (eq_fun (eq_fun (refines (rel_prod (=) R))))) (h_sstore H1) (h_sstore H2) \<and>
     rel_fun R (eq_fun (eq_fun (eq_fun (refines R)))) (h_log H1) (h_log H2) \<and>
     rel_fun R (eq_fun (eq_fun (refines (rel_prod (=) R)))) (h_selfdestruct H1) (h_selfdestruct H2) \<and>
     rel_fun R (eq_fun (refines (rel_prod (=) (rel_prod (=) (rel_prod (=) (rel_prod (=) R)))))) (h_create H1) (h_create H2) \<and>
     rel_fun R (eq_fun (refines (rel_prod (=) (rel_prod (=) (rel_prod (=) R))))) (h_call H1) (h_call H2)"

section \<open>Computations\<close>

lemma refines_simps [simp]: "refines R (Val x) c \<longleftrightarrow> (\<exists>y. c = Val y \<and> R x y)" "refines R Panic c" "refines R Timeout c"
  by (auto simp: refines_def)

lemma Val_transfer [transfer_rule]: "rel_fun A (refines A) Val Val"
  by (simp add: rel_fun_def)

lemma Panic_transfer [transfer_rule]: "refines A Panic Panic"
  by simp

lemma Timeout_transfer [transfer_rule]: "refines A Timeout Timeout"
  by simp

lemma refines_bind:
  assumes "refines A c1 c2" "\<And>x y. A x y \<Longrightarrow> refines B (f1 x) (f2 y)"
  shows "refines B (bind_comp c1 f1) (bind_comp c2 f2)"
  using assms by (fastforce simp: refines_def bind_comp_Val_iff)

lemma bind_comp_transfer [transfer_rule]: "rel_fun (refines A) (rel_fun (rel_fun A (refines B)) (refines B)) bind_comp bind_comp"
  by (intro rel_funI) (erule refines_bind, erule (1) rel_funD)

lemma refines_refl: "refines (=) c c" by (simp add: refines_def)

lemma bind_comp_eq_transfer [transfer_rule]:
  "eq_fun (rel_fun (eq_fun (refines B)) (refines B)) bind_comp bind_comp"
  using bind_comp_transfer [of "(=)" B] refines_refl unfolding rel_fun_def by blast

section \<open>The fields of a machine and the operations of a host\<close>

lemma host_ops_transfer [transfer_rule]:
  "rel_fun (host_sim R) (rel_fun R (=)) h_env h_env"
  "rel_fun (host_sim R) (rel_fun R (eq_fun (refines (rel_prod (=) R)))) h_load_account h_load_account"
  "rel_fun (host_sim R) (rel_fun R (eq_fun (refines (rel_prod (=) R)))) h_block_hash h_block_hash"
  "rel_fun (host_sim R) (rel_fun R (eq_fun (refines (rel_prod (=) R)))) h_balance h_balance"
  "rel_fun (host_sim R) (rel_fun R (eq_fun (refines (rel_prod (=) R)))) h_code h_code"
  "rel_fun (host_sim R) (rel_fun R (eq_fun (refines (rel_prod (=) R)))) h_code_hash h_code_hash"
  "rel_fun (host_sim R) (rel_fun R (eq_fun (eq_fun (refines (rel_prod (=) R))))) h_sload h_sload"
  "rel_fun (host_sim R) (rel_fun R (eq_fun (eq_fun (eq_fun (refines (rel_prod (=) R)))))) h_sstore h_sstore"
  "rel_fun (host_sim R) (rel_fun R (eq_fun (eq_fun (eq_fun (refines R))))) h_log h_log"
  "rel_fun (host_sim R) (rel_fun R (eq_fun (eq_fun (refines (rel_prod (=) R))))) h_selfdestruct h_selfdestruct"
  "rel_fun (host_sim R) (rel_fun R (eq_fun (refines (rel_prod (=) (rel_prod (=) (rel_prod (=) (rel_prod (=) R))))))) h_create h_create"
  "rel_fun (host_sim R) (rel_fun R (eq_fun (refines (rel_prod (=) (rel_prod (=) (rel_prod (=) R)))))) h_call h_call"
  by (rule rel_funI, simp add: host_sim_def)+

lemma fields_transfer [transfer_rule]:
  "rel_fun (msim R) (=) instruction_pointer instruction_pointer" "rel_fun (msim R) (=) instruction_result instruction_result"
  "rel_fun (msim R) (=) gas gas" "rel_fun (msim R) (=) memory memory" "rel_fun (msim R) (=) stack stack"
  "rel_fun (msim R) (=) return_data_buffer return_data_buffer" "rel_fun (msim R) (=) return_range return_range"
  "rel_fun (msim R) (=) is_static is_static" "rel_fun (msim R) (=) contract contract" "rel_fun (msim R) (=) memory_limit memory_limit"
  "rel_fun (msim R) R host host"
  by (auto simp: rel_fun_def msim_def interpreter.truncate_def)

lemma updates_transfer [transfer_rule]:
  "rel_fun (eq_fun (=)) (rel_fun (msim R) (msim R)) instruction_pointer_update instruction_pointer_update"
  "rel_fun (eq_fun (=)) (rel_fun (msim R) (msim R)) instruction_result_update instruction_result_update"
  "rel_fun (eq_fun (=)) (rel_fun (msim R) (msim R)) gas_update gas_update"
  "rel_fun (eq_fun (=)) (rel_fun (msim R) (msim R)) memory_update memory_update"
  "rel_fun (eq_fun (=)) (rel_fun (msim R) (msim R)) stack_update stack_update"
  "rel_fun (eq_fun (=)) (rel_fun (msim R) (msim R)) return_data_buffer_update return_data_buffer_update"
  "rel_fun (eq_fun (=)) (rel_fun (msim R) (msim R)) return_range_update return_range_update"
  "rel_fun (rel_fun R R) (rel_fun (msim R) (msim R)) host_update host_update"
  by (auto simp: rel_fun_eq) (auto simp: rel_fun_def msim_def interpreter.truncate_def)

section \<open>Macros\<close>

lemma macro_transfer [transfer_rule]:
  "eq_fun (instr_rel R) halt halt"
  "eq_fun (rel_fun (instr_rel R) (instr_rel R)) refund_m refund_m"
  "eq_fun (instr_rel R) write_top write_top"
  "instr_rel R done_m done_m"
  "rel_fun (rel_fun R (refines (rel_prod (=) R))) (rel_fun (eq_fun (instr_rel R)) (instr_rel R)) with_host with_host"
  "eq_fun (rel_fun (eq_fun (instr_rel R)) (instr_rel R)) lift_comp lift_comp"
  unfolding halt_def refund_m_def write_top_def done_m_def with_host_def lift_comp_def
  by transfer_prover+

lemma macro_transfer_halt [transfer_rule]:
  "rel_fun (instr_rel R) (instr_rel R) check_staticcall check_staticcall"
  "eq_fun (rel_fun (instr_rel R) (instr_rel R)) check check"
  "eq_fun (rel_fun (instr_rel R) (instr_rel R)) gas_m gas_m"
  "eq_fun (eq_fun (rel_fun (instr_rel R) (instr_rel R))) memory_resize memory_resize"
  "rel_fun (eq_fun (instr_rel R)) (instr_rel R) pop_address pop_address"
  "rel_fun (eq_fun (instr_rel R)) (instr_rel R) pop_m1 pop_m1"
  "rel_fun (eq_fun (eq_fun (instr_rel R))) (instr_rel R) pop_m2 pop_m2"
  "rel_fun (eq_fun (eq_fun (eq_fun (instr_rel R)))) (instr_rel R) pop_m3 pop_m3"
  "rel_fun (eq_fun (eq_fun (eq_fun (eq_fun (instr_rel R))))) (instr_rel R) pop_m4 pop_m4"
  "rel_fun (eq_fun (instr_rel R)) (instr_rel R) pop_top1 pop_top1"
  "rel_fun (eq_fun (eq_fun (instr_rel R))) (instr_rel R) pop_top2 pop_top2"
  "rel_fun (eq_fun (eq_fun (eq_fun (instr_rel R)))) (instr_rel R) pop_top3 pop_top3"
  "eq_fun (rel_fun (instr_rel R) (instr_rel R)) push_b256_m push_b256_m"
  "eq_fun (rel_fun (instr_rel R) (instr_rel R)) push_m push_m"
  "eq_fun (eq_fun (rel_fun (eq_fun (instr_rel R)) (instr_rel R))) as_usize_or_fail as_usize_or_fail"
  unfolding check_staticcall_def check_def gas_m_def memory_resize_def pop_address_def pop_m1_def pop_m2_def
    pop_m3_def pop_m4_def pop_top1_def pop_top2_def pop_top3_def push_b256_m_def push_m_def
    as_usize_or_fail_def
  by transfer_prover+

lemma gas_or_fail_transfer [transfer_rule]:
  "eq_fun (rel_fun (instr_rel R) (instr_rel R)) gas_or_fail gas_or_fail"
  unfolding gas_or_fail_def
  by transfer_prover

lemma read_transfer [transfer_rule]:
  "rel_fun (msim R) (=) current_opcode current_opcode"
  "rel_fun (msim R) (=) program_counter program_counter"
  "rel_fun (msim R) (=) return_value return_value"
  unfolding current_opcode_def program_counter_def return_value_def
  by transfer_prover+

section \<open>Instructions without a host\<close>

lemma arith_transfer [transfer_rule]:
  "instr_rel R wrapped_add wrapped_add"
  "instr_rel R wrapping_mul wrapping_mul"
  "instr_rel R wrapping_sub wrapping_sub"
  "instr_rel R div_op div_op"
  "instr_rel R sdiv_op sdiv_op"
  "instr_rel R rem_op rem_op"
  "instr_rel R smod_op smod_op"
  "instr_rel R addmod addmod"
  "instr_rel R mulmod mulmod"
  "eq_fun (instr_rel R) eval_exp eval_exp"
  "instr_rel R signextend signextend"
  "instr_rel R lt_op lt_op"
  "instr_rel R gt_op gt_op"
  "instr_rel R slt_op slt_op"
  "instr_rel R sgt_op sgt_op"
  "instr_rel R eq_op eq_op"
  "instr_rel R iszero iszero"
  "instr_rel R bitand bitand"
  "instr_rel R bitor bitor"
  "instr_rel R bitxor bitxor"
  "instr_rel R not_op not_op"
  "instr_rel R byte_op byte_op"
  "eq_fun (instr_rel R) shl_op shl_op"
  "eq_fun (instr_rel R) shr_op shr_op"
  "eq_fun (instr_rel R) sar_op sar_op"
  unfolding wrapped_add_def wrapping_mul_def wrapping_sub_def div_op_def sdiv_op_def rem_op_def smod_op_def
    addmod_def mulmod_def eval_exp_def signextend_def lt_op_def gt_op_def slt_op_def sgt_op_def eq_op_def
    iszero_def bitand_def bitor_def bitxor_def not_op_def byte_op_def shl_op_def shr_op_def sar_op_def
  by transfer_prover+

lemma frame_op_transfer [transfer_rule]:
  "eq_fun (instr_rel R) set_ip set_ip"
  "instr_rel R jumpdest jumpdest"
  "instr_rel R pc_op pc_op"
  "eq_fun (rel_fun (instr_rel R) (instr_rel R)) set_return_range set_return_range"
  "eq_fun (instr_rel R) on_memory on_memory"
  "eq_fun (eq_fun (rel_fun (eq_fun (instr_rel R)) (instr_rel R))) read_memory read_memory"
  "instr_rel R msize msize"
  "instr_rel R pop_op pop_op"
  "eq_fun (instr_rel R) push0 push0"
  "eq_fun (instr_rel R) dup_op dup_op"
  "eq_fun (instr_rel R) swap_op swap_op"
  "instr_rel R address_op address_op"
  "instr_rel R caller_op caller_op"
  "instr_rel R codesize codesize"
  "instr_rel R calldataload calldataload"
  "instr_rel R calldatasize calldatasize"
  "instr_rel R callvalue callvalue"
  "eq_fun (instr_rel R) returndatasize returndatasize"
  "instr_rel R gas_op gas_op"
  "rel_fun (host_sim R) (eq_fun (instr_rel R)) chainid chainid"
  "rel_fun (host_sim R) (instr_rel R) coinbase_op coinbase_op"
  "rel_fun (host_sim R) (instr_rel R) timestamp_op timestamp_op"
  "rel_fun (host_sim R) (instr_rel R) number_op number_op"
  "rel_fun (host_sim R) (eq_fun (instr_rel R)) difficulty_op difficulty_op"
  "rel_fun (host_sim R) (instr_rel R) gaslimit_op gaslimit_op"
  "rel_fun (host_sim R) (instr_rel R) gasprice_op gasprice_op"
  "rel_fun (host_sim R) (eq_fun (instr_rel R)) basefee_op basefee_op"
  "rel_fun (host_sim R) (instr_rel R) origin_op origin_op"
  "instr_rel R return_stop return_stop"
  "instr_rel R return_invalid return_invalid"
  "instr_rel R return_not_found return_not_found"
  unfolding set_ip_def jumpdest_def pc_op_def set_return_range_def on_memory_def read_memory_def msize_def
    pop_op_def push0_def dup_op_def swap_op_def address_op_def caller_op_def codesize_def calldataload_def
    calldatasize_def callvalue_def returndatasize_def gas_op_def chainid_def coinbase_op_def timestamp_op_def
    number_op_def difficulty_op_def gaslimit_op_def gasprice_op_def basefee_op_def origin_op_def
    return_stop_def return_invalid_def return_not_found_def
  by transfer_prover+

lemma frame_op_transfer_memory [transfer_rule]:
  "instr_rel R jump jump"
  "instr_rel R jumpi jumpi"
  "instr_rel R ret ret"
  "eq_fun (instr_rel R) revert revert"
  "instr_rel R mload mload"
  "instr_rel R mstore mstore"
  "instr_rel R mstore8 mstore8"
  "eq_fun (instr_rel R) push_op push_op"
  "eq_fun (instr_rel R) sha3_op sha3_op"
  "instr_rel R codecopy codecopy"
  "instr_rel R calldatacopy calldatacopy"
  "eq_fun (instr_rel R) returndatacopy returndatacopy"
  unfolding jump_def jumpi_def ret_def revert_def mload_def mstore_def mstore8_def push_op_def sha3_op_def
    codecopy_def calldatacopy_def returndatacopy_def
  by transfer_prover+

lemma case_CallScheme_eq_transfer [transfer_rule]:
  "rel_fun A (rel_fun A (rel_fun A (rel_fun A (eq_fun A)))) case_CallScheme case_CallScheme"
  by (auto simp: rel_fun_def split: CallScheme.splits)

section \<open>Instructions with a host\<close>

lemma pop_topics_transfer [transfer_rule]:
  fixes R :: "'a \<Rightarrow> 'b \<Rightarrow> bool"
  shows "eq_fun (eq_fun (rel_fun (eq_fun (instr_rel R)) (instr_rel R))) pop_topics pop_topics"
proof (intro rel_funI, hypsubst)
  fix n and topics' :: "B256 list" and k1 :: "B256 list \<Rightarrow> 'a instr" and k2 :: "B256 list \<Rightarrow> 'b instr" and m1 m2
  assume k: "eq_fun (instr_rel R) k1 k2" and "msim R m1 m2"
  then show "refines (msim R) (pop_topics n topics' k1 m1) (pop_topics n topics' k2 m2)"
  proof (induction n arbitrary: topics' m1 m2)
    case 0
    then show ?case by (auto simp: rel_fun_def)
  next
    case (Suc n)
    note [transfer_rule] = Suc.prems(2)
    have st: "stack m1 = stack m2" by transfer_prover
    show ?case
    proof (cases "pop_unsafe (stack m2)")
      case (Val p)
      obtain x st where p: "p = (x, st)" by fastforce
      have "msim R (m1\<lparr>stack := st\<rparr>) (m2\<lparr>stack := st\<rparr>)" by transfer_prover
      with Suc.IH [OF k] show ?thesis by (simp add: st Val p)
    qed (simp_all add: st)
  qed
qed

lemma host_op_transfer [transfer_rule]:
  "rel_fun (rel_fun R (refines (rel_prod (=) R))) (rel_fun (eq_fun (instr_rel R)) (instr_rel R)) host_or_fatal host_or_fatal"
  "eq_fun (rel_fun (instr_rel R) (instr_rel R)) set_return_data set_return_data"
  "rel_fun (host_sim R) (eq_fun (eq_fun (eq_fun (rel_fun (eq_fun (instr_rel R)) (instr_rel R))))) create_code create_code"
  "eq_fun (eq_fun (rel_fun (eq_fun (instr_rel R)) (instr_rel R))) create_scheme create_scheme"
  "eq_fun (rel_fun (instr_rel R) (instr_rel R)) erase_m erase_m"
  "eq_fun (rel_fun (instr_rel R) (instr_rel R)) record_refund_m record_refund_m"
  "eq_fun (rel_fun (eq_fun (instr_rel R)) (instr_rel R)) call_value call_value"
  "eq_fun (eq_fun (rel_fun (eq_fun (instr_rel R)) (instr_rel R))) call_input_data call_input_data"
  "eq_fun (eq_fun (rel_fun (eq_fun (instr_rel R)) (instr_rel R))) call_output_range call_output_range"
  unfolding host_or_fatal_def set_return_data_def create_code_def create_scheme_def erase_m_def
    record_refund_m_def call_value_def call_input_data_def call_output_range_def
  by transfer_prover+

lemma host_op_transfer_state [transfer_rule]:
  "rel_fun (host_sim R) (eq_fun (instr_rel R)) balance_op balance_op"
  "rel_fun (host_sim R) (eq_fun (instr_rel R)) selfbalance_op selfbalance_op"
  "rel_fun (host_sim R) (eq_fun (instr_rel R)) extcodesize extcodesize"
  "rel_fun (host_sim R) (eq_fun (instr_rel R)) extcodehash extcodehash"
  "rel_fun (host_sim R) (eq_fun (instr_rel R)) extcodecopy extcodecopy"
  "rel_fun (host_sim R) (instr_rel R) blockhash blockhash"
  "rel_fun (host_sim R) (eq_fun (instr_rel R)) sload_op sload_op"
  "rel_fun (host_sim R) (eq_fun (instr_rel R)) sstore_op sstore_op"
  "rel_fun (host_sim R) (eq_fun (instr_rel R)) log_op log_op"
  "rel_fun (host_sim R) (eq_fun (instr_rel R)) selfdestruct_op selfdestruct_op"
  "eq_fun (eq_fun (eq_fun (eq_fun (instr_rel R)))) create_result create_result"
  "eq_fun (eq_fun (eq_fun (eq_fun (eq_fun (instr_rel R))))) call_result call_result"
  unfolding balance_op_def selfbalance_op_def extcodesize_def extcodehash_def extcodecopy_def blockhash_def
    sload_op_def sstore_op_def log_op_def selfdestruct_op_def create_result_def call_result_def
  by transfer_prover+

lemma host_op_transfer_exec [transfer_rule]:
  "rel_fun (host_sim R) (eq_fun (eq_fun (eq_fun (eq_fun (instr_rel R))))) create_exec create_exec"
  "rel_fun (host_sim R) (eq_fun (eq_fun (eq_fun (eq_fun (eq_fun (eq_fun (eq_fun (eq_fun (instr_rel R))))))))) call_exec call_exec"
  unfolding create_exec_def call_exec_def
  by transfer_prover+

lemma host_op_transfer_frame [transfer_rule]:
  "rel_fun (host_sim R) (eq_fun (eq_fun (instr_rel R))) create_op create_op"
  "rel_fun (host_sim R) (eq_fun (eq_fun (instr_rel R))) call_inner_op call_inner_op"
  unfolding create_op_def call_inner_op_def
  by transfer_prover+

lemma host_op_transfer_call [transfer_rule]:
  "rel_fun (host_sim R) (eq_fun (instr_rel R)) call_op call_op"
  "rel_fun (host_sim R) (eq_fun (instr_rel R)) call_code call_code"
  "rel_fun (host_sim R) (eq_fun (instr_rel R)) delegate_call delegate_call"
  "rel_fun (host_sim R) (eq_fun (instr_rel R)) static_call static_call"
  unfolding call_op_def call_code_def delegate_call_def static_call_def
  by transfer_prover+

section \<open>Dispatch and loop\<close>

lemma eval_transfer [transfer_rule]:
  "eq_fun (rel_fun (host_sim R) (eq_fun (eq_fun (instr_rel R)))) eval eval"
  unfolding eval_def
  by transfer_prover

lemma step_transfer [transfer_rule]:
  "eq_fun (rel_fun (host_sim R) (eq_fun (instr_rel R))) step step"
  unfolding step_def
  by transfer_prover

lemma run_transfer [transfer_rule]:
  "eq_fun (rel_fun (host_sim R) (eq_fun (eq_fun (instr_rel R)))) run run"
proof (intro rel_funI, hypsubst)
  fix L spec fuel H1 H2 m1 m2
  assume H [transfer_rule]: "host_sim R H1 H2" and "msim R m1 m2"
  then show "refines (msim R) (run L H1 spec fuel m1) (run L H2 spec fuel m2)"
  proof (induction fuel arbitrary: m1 m2)
    case 0
    note [transfer_rule] = 0
    have "instruction_result m1 = instruction_result m2" by transfer_prover
    with 0 show ?case by simp
  next
    case (Suc fuel)
    note [transfer_rule] = Suc.prems(2)
    have r: "instruction_result m1 = instruction_result m2" by transfer_prover
    have "refines (msim R) (step L H1 spec m1) (step L H2 spec m2)" by transfer_prover
    then have "refines (msim R) (bind_comp (step L H1 spec m1) (run L H1 spec fuel))
      (bind_comp (step L H2 spec m2) (run L H2 spec fuel))"
      by (rule refines_bind) (rule Suc.IH [OF H])
    with r Suc.prems show ?case by simp
  qed
qed

end
