(* ===== verification/Journal.thy ===== *)
theory Journal
  imports Bytecode
begin

text \<open>
  Accounts (\<open>crates/primitives/src/state.rs\<close>), the database interface (\<open>db.rs\<close>) and the journaled
  state (\<open>crates/revm/src/journaled_state.rs\<close>). A database is a record of functions on its own state
  \<open>'db\<close>, with errors of type \<open>'e\<close>. \<open>unwrap\<close> of a missing account, slot or journal frame panics. A
  \<open>&mut Account\<close> that an operation returns is read from the state it leaves.

  The main theorem is that reverting a checkpoint restores the state: every operation appends to the
  journal exactly the entries that undo it. What the journal does not cover is stated as well: the
  cache of code bytes, address 3 (whose load and touch are deliberately not undone), and, as
  findings, \<open>set_code\<close> and the reset of storage by \<open>create_account\<close>.
\<close>

section \<open>Accounts\<close>

record AccountInfo =
  balance :: U256
  nonce :: u64
  code_hash :: B256
  code :: "Bytecode option"

record StorageSlot =
  original_value :: U256
  present_value :: U256

record Account =
  info :: AccountInfo
  storage :: "U256 \<rightharpoonup> StorageSlot"
  storage_cleared :: bool
  is_destroyed :: bool
  is_touched :: bool
  is_not_existing :: bool

type_synonym State = "B160 \<rightharpoonup> Account"

definition AccountInfo_default :: AccountInfo where
  "AccountInfo_default =
     \<lparr> balance = 0, nonce = 0, code_hash = KECCAK_EMPTY, code = Some Bytecode_new \<rparr>"

definition AccountInfo_eq :: "AccountInfo \<Rightarrow> AccountInfo \<Rightarrow> bool" where
  "AccountInfo_eq a b \<longleftrightarrow> balance a = balance b \<and> nonce a = nonce b \<and> code_hash a = code_hash b"

definition AccountInfo_new :: "U256 \<Rightarrow> u64 \<Rightarrow> Bytecode \<Rightarrow> AccountInfo" where
  "AccountInfo_new bal n c = \<lparr> balance = bal, nonce = n, code_hash = bc_hash c, code = Some c \<rparr>"

definition AccountInfo_is_empty :: "AccountInfo \<Rightarrow> bool" where
  "AccountInfo_is_empty i \<longleftrightarrow>
     balance i = 0 \<and> nonce i = 0 \<and> (code_hash i = KECCAK_EMPTY \<or> code_hash i = 0)"

definition AccountInfo_exists :: "AccountInfo \<Rightarrow> bool" where
  "AccountInfo_exists i = (\<not> AccountInfo_is_empty i)"

definition from_balance :: "U256 \<Rightarrow> AccountInfo" where
  "from_balance bal = AccountInfo_default\<lparr>balance := bal\<rparr>"

definition Account_is_empty :: "Account \<Rightarrow> bool" where
  "Account_is_empty a = AccountInfo_is_empty (info a)"

definition new_not_existing :: Account where
  "new_not_existing =
     \<lparr> info = AccountInfo_default, storage = Map.empty, storage_cleared = False,
       is_destroyed = False, is_touched = False, is_not_existing = True \<rparr>"

definition Account_from :: "AccountInfo \<Rightarrow> Account" where
  "Account_from i =
     \<lparr> info = i, storage = Map.empty, storage_cleared = False, is_destroyed = False,
       is_touched = False, is_not_existing = False \<rparr>"

definition StorageSlot_new :: "U256 \<Rightarrow> StorageSlot" where
  "StorageSlot_new original = \<lparr> original_value = original, present_value = original \<rparr>"

definition is_changed :: "StorageSlot \<Rightarrow> bool" where
  "is_changed s \<longleftrightarrow> original_value s \<noteq> present_value s"

section \<open>Database interface\<close>

record ('db, 'e) db_ops =
  db_basic :: "'db \<Rightarrow> B160 \<Rightarrow> ('e + AccountInfo option) \<times> 'db"
  db_code_by_hash :: "'db \<Rightarrow> B256 \<Rightarrow> ('e + Bytecode) \<times> 'db"
  db_storage :: "'db \<Rightarrow> B160 \<Rightarrow> U256 \<Rightarrow> ('e + U256) \<times> 'db"
  db_block_hash :: "'db \<Rightarrow> U256 \<Rightarrow> ('e + B256) \<times> 'db"

section \<open>Journaled state\<close>

datatype JournalEntry =
  AccountLoaded B160
| AccountDestroyed B160 B160 bool U256
| AccountTouched B160
| BalanceTransfer B160 B160 U256
| NonceChange B160
| StorageChange B160 U256 "U256 option"
| CodeChange B160 Bytecode

record JournaledState =
  state :: State
  logs :: "Log list"
  depth :: usize
  journal :: "JournalEntry list list"
  is_before_spurious_dragon :: bool
  num_of_precompiles :: usize

record JournalCheckpoint =
  log_i :: nat
  journal_i :: nat

definition JournaledState_new :: "usize \<Rightarrow> JournaledState" where
  "JournaledState_new n =
     \<lparr> state = Map.empty, logs = [], depth = 0, journal = [[]], is_before_spurious_dragon = False,
       num_of_precompiles = n \<rparr>"

definition new_legacy :: "usize \<Rightarrow> JournaledState" where
  "new_legacy n = (JournaledState_new n)\<lparr>is_before_spurious_dragon := True\<rparr>"

text \<open>\<open>self.journal.last_mut().unwrap().push(e)\<close>, and an update of a loaded account.\<close>

definition push_entry :: "JournalEntry \<Rightarrow> JournaledState \<Rightarrow> JournaledState comp" where
  "push_entry e js =
     (if journal js = [] then Panic
      else Val (js\<lparr>journal := butlast (journal js) @ [last (journal js) @ [e]]\<rparr>))"

definition get_acc :: "B160 \<Rightarrow> JournaledState \<Rightarrow> Account comp" where
  "get_acc address js = unwrap (state js address)"

definition put_acc :: "B160 \<Rightarrow> Account \<Rightarrow> JournaledState \<Rightarrow> JournaledState" where
  "put_acc address acc js = js\<lparr>state := (state js)(address \<mapsto> acc)\<rparr>"

definition set_balance :: "U256 \<Rightarrow> Account \<Rightarrow> Account" where
  "set_balance v acc = acc\<lparr>info := (info acc)\<lparr>balance := v\<rparr>\<rparr>"

definition touch_account :: "B160 \<Rightarrow> JournaledState \<Rightarrow> JournaledState comp" where
  "touch_account address js =
     bind_comp (get_acc address js) (\<lambda>acc.
       if journal js = [] then Panic
       else if \<not> is_touched acc then
         push_entry (AccountTouched address) (put_acc address (acc\<lparr>is_touched := True\<rparr>) js)
       else Val js)"

definition touch :: "B160 \<Rightarrow> JournaledState \<Rightarrow> JournaledState comp" where
  "touch address js =
     (case state js address of Some _ \<Rightarrow> touch_account address js | None \<Rightarrow> Val js)"

definition finalize :: "JournaledState \<Rightarrow> State \<times> Log list \<times> JournaledState" where
  "finalize js =
     (let st = (\<lambda>a. case state js a of
          Some acc \<Rightarrow> if is_touched acc then Some acc else None
        | None \<Rightarrow> None) in
      (st, logs js, js\<lparr>state := Map.empty, logs := [], journal := [[]], depth := 0\<rparr>))"

definition set_code :: "B160 \<Rightarrow> Bytecode \<Rightarrow> JournaledState \<Rightarrow> JournaledState comp" where
  "set_code address c js =
     bind_comp (touch_account address js) (\<lambda>js.
     bind_comp (push_entry (CodeChange address c) js) (\<lambda>js.
     bind_comp (get_acc address js) (\<lambda>acc.
       Val (put_acc address (acc\<lparr>info := (info acc)\<lparr>code_hash := bc_hash c, code := Some c\<rparr>\<rparr>) js))))"

definition inc_nonce :: "B160 \<Rightarrow> JournaledState \<Rightarrow> (u64 option \<times> JournaledState) comp" where
  "inc_nonce address js =
     bind_comp (get_acc address js) (\<lambda>acc.
       if nonce (info acc) = u64_MAX then Val (None, js)
       else
         bind_comp (touch_account address js) (\<lambda>js.
         bind_comp (push_entry (NonceChange address) js) (\<lambda>js.
         bind_comp (get_acc address js) (\<lambda>acc.
           let acc = acc\<lparr>info := (info acc)\<lparr>nonce := nonce (info acc) + 1\<rparr>\<rparr> in
           Val (Some (nonce (info acc)), put_acc address acc js)))))"

text \<open>A precompile address is one of \<open>1\<close> to \<open>num_of_precompiles\<close>, by the last two bytes.\<close>

definition is_precompile :: "B160 \<Rightarrow> usize \<Rightarrow> bool" where
  "is_precompile address n =
     (let bs = to_be_bytes 20 address in
      if \<not> list_all (\<lambda>b. b = 0) (take 18 bs) then False
      else
        (let num = from_be_bytes [bs ! 18, bs ! 19] :: u16 in
         num - 1 < (ucast n :: u16)))"

definition load_account ::
  "('db, 'e) db_ops \<Rightarrow> B160 \<Rightarrow> JournaledState \<Rightarrow> 'db \<Rightarrow> (('e + bool) \<times> JournaledState \<times> 'db) comp" where
  "load_account D address js db =
     (case state js address of
        Some _ \<Rightarrow> Val (Inr False, js, db)
      | None \<Rightarrow>
          (case db_basic D db address of
             (Inl e, db) \<Rightarrow> Val (Inl e, js, db)
           | (Inr r, db) \<Rightarrow>
               (let account = (case r of Some i \<Rightarrow> Account_from i | None \<Rightarrow> new_not_existing) in
                bind_comp (push_entry (AccountLoaded address) js) (\<lambda>js.
                  let is_cold = \<not> is_precompile address (num_of_precompiles js) in
                  Val (Inr is_cold, put_acc address account js, db)))))"

definition load_code ::
  "('db, 'e) db_ops \<Rightarrow> B160 \<Rightarrow> JournaledState \<Rightarrow> 'db \<Rightarrow> (('e + bool) \<times> JournaledState \<times> 'db) comp" where
  "load_code D address js db =
     bind_comp (load_account D address js db) (\<lambda>(r, js, db).
       case r of
         Inl e \<Rightarrow> Val (Inl e, js, db)
       | Inr is_cold \<Rightarrow>
           bind_comp (get_acc address js) (\<lambda>acc.
             if code (info acc) = None then
               if code_hash (info acc) = KECCAK_EMPTY then
                 Val (Inr is_cold,
                   put_acc address (acc\<lparr>info := (info acc)\<lparr>code := Some Bytecode_new\<rparr>\<rparr>) js, db)
               else
                 (case db_code_by_hash D db (code_hash (info acc)) of
                    (Inl e, db) \<Rightarrow> Val (Inl e, js, db)
                  | (Inr c, db) \<Rightarrow>
                      Val (Inr is_cold,
                        put_acc address (acc\<lparr>info := (info acc)\<lparr>code := Some c\<rparr>\<rparr>) js, db))
             else Val (Inr is_cold, js, db)))"

definition load_account_exist ::
  "('db, 'e) db_ops \<Rightarrow> B160 \<Rightarrow> JournaledState \<Rightarrow> 'db \<Rightarrow> (('e + bool \<times> bool) \<times> JournaledState \<times> 'db) comp" where
  "load_account_exist D address js db =
     bind_comp (load_code D address js db) (\<lambda>(r, js, db).
       case r of
         Inl e \<Rightarrow> Val (Inl e, js, db)
       | Inr is_cold \<Rightarrow>
           bind_comp (get_acc address js) (\<lambda>acc.
             let exist = (if is_before_spurious_dragon js then \<not> is_not_existing acc \<or> is_touched acc
                          else \<not> Account_is_empty acc) in
             Val (Inr (is_cold, exist), js, db)))"

definition transfer ::
  "('db, 'e) db_ops \<Rightarrow> B160 \<Rightarrow> B160 \<Rightarrow> U256 \<Rightarrow> JournaledState \<Rightarrow> 'db \<Rightarrow>
     ((InstructionResult + bool \<times> bool) \<times> JournaledState \<times> 'db) comp" where
  "transfer D from' to bal js db =
     bind_comp (load_account D from' js db) (\<lambda>(r, js, db).
     case r of Inl _ \<Rightarrow> Val (Inl FatalExternalError, js, db) | Inr from_is_cold \<Rightarrow>
     bind_comp (load_account D to js db) (\<lambda>(r, js, db).
     case r of Inl _ \<Rightarrow> Val (Inl FatalExternalError, js, db) | Inr to_is_cold \<Rightarrow>
     bind_comp (touch_account from' js) (\<lambda>js.
     bind_comp (get_acc from' js) (\<lambda>acc.
     case checked_sub (balance (info acc)) bal of
       None \<Rightarrow> Val (Inl OutOfFund, js, db)
     | Some rest \<Rightarrow>
         (let js = put_acc from' (set_balance rest acc) js in
          bind_comp (touch_account to js) (\<lambda>js.
          bind_comp (get_acc to js) (\<lambda>acc.
          case checked_add (balance (info acc)) bal of
            None \<Rightarrow> Val (Inl OverflowPayment, js, db)
          | Some to_balance \<Rightarrow>
              bind_comp (push_entry (BalanceTransfer from' to bal) (put_acc to (set_balance to_balance acc) js))
                (\<lambda>js. Val (Inr (from_is_cold, to_is_cold), js, db)))))))))"

definition create_account ::
  "('db, 'e) db_ops \<Rightarrow> B160 \<Rightarrow> bool \<Rightarrow> JournaledState \<Rightarrow> 'db \<Rightarrow> (('e + bool) \<times> JournaledState \<times> 'db) comp" where
  "create_account D address precompile js db =
     bind_comp (load_code D address js db) (\<lambda>(r, js, db).
       case r of
         Inl e \<Rightarrow> Val (Inl e, js, db)
       | Inr _ \<Rightarrow>
           bind_comp (get_acc address js) (\<lambda>acc.
             if (case code (info acc) of Some c \<Rightarrow> \<not> Bytecode_is_empty c | None \<Rightarrow> False)
             then Val (Inr False, js, db)
             else if nonce (info acc) \<noteq> 0 then Val (Inr False, js, db)
             else if precompile then Val (Inr False, js, db)
             else
               (let acc = acc\<lparr>storage_cleared := True\<rparr>;
                    acc = acc\<lparr>storage := (\<lambda>k. map_option (\<lambda>_. \<lparr>original_value = 0, present_value = 0\<rparr>) (storage acc k))\<rparr>;
                    acc = acc\<lparr>info := (info acc)\<lparr>code_hash := KECCAK_EMPTY, code := None\<rparr>\<rparr> in
                if \<not> is_touched acc then
                  bind_comp (push_entry (AccountTouched address) (put_acc address (acc\<lparr>is_touched := True\<rparr>) js))
                    (\<lambda>js. Val (Inr True, js, db))
                else Val (Inr True, put_acc address acc js, db))))"

abbreviation (input) PRECOMPILE3 :: B160 where "PRECOMPILE3 \<equiv> 3"

text \<open>\<open>journal_revert\<close> undoes one frame of entries, the last entry first.\<close>

definition on_acc :: "B160 \<Rightarrow> (Account \<Rightarrow> Account comp) \<Rightarrow> State \<Rightarrow> State comp" where
  "on_acc address f st =
     bind_comp (unwrap (st address)) (\<lambda>acc. bind_comp (f acc) (\<lambda>acc. Val (st(address \<mapsto> acc))))"

definition add_balance :: "U256 \<Rightarrow> Account \<Rightarrow> Account comp" where
  "add_balance v acc = Val (set_balance (balance (info acc) + v) acc)"

definition sub_balance :: "U256 \<Rightarrow> Account \<Rightarrow> Account comp" where
  "sub_balance v acc = Val (set_balance (balance (info acc) - v) acc)"

fun revert_entry :: "bool \<Rightarrow> JournalEntry \<Rightarrow> State \<Rightarrow> State comp" where
  "revert_entry spurious (AccountLoaded address) st =
     (if spurious \<and> address = PRECOMPILE3 then Val st else Val (st(address := None)))"
| "revert_entry spurious (AccountTouched address) st =
     (if spurious \<and> address = PRECOMPILE3 then Val st
      else on_acc address (\<lambda>acc. Val (acc\<lparr>is_touched := False\<rparr>)) st)"
| "revert_entry spurious (AccountDestroyed address target was_destroyed had_balance) st =
     bind_comp (on_acc address (\<lambda>acc. add_balance had_balance (acc\<lparr>is_destroyed := was_destroyed\<rparr>)) st) (\<lambda>st.
       if address \<noteq> target then on_acc target (sub_balance had_balance) st else Val st)"
| "revert_entry spurious (BalanceTransfer from' to bal) st =
     bind_comp (on_acc from' (add_balance bal) st) (on_acc to (sub_balance bal))"
| "revert_entry spurious (NonceChange address) st =
     on_acc address (\<lambda>acc. Val (acc\<lparr>info := (info acc)\<lparr>nonce := nonce (info acc) - 1\<rparr>\<rparr>)) st"
| "revert_entry spurious (StorageChange address key had) st =
     on_acc address (\<lambda>acc.
       case had of
         Some v \<Rightarrow>
           bind_comp (unwrap (storage acc key)) (\<lambda>slot.
             Val (acc\<lparr>storage := (storage acc)(key \<mapsto> slot\<lparr>present_value := v\<rparr>)\<rparr>))
       | None \<Rightarrow> Val (acc\<lparr>storage := (storage acc)(key := None)\<rparr>)) st"
| "revert_entry spurious (CodeChange address had_code) st =
     on_acc address (\<lambda>acc.
       Val (acc\<lparr>info := (info acc)\<lparr>code_hash := bc_hash had_code, code := Some had_code\<rparr>\<rparr>)) st"

fun revert_entries :: "bool \<Rightarrow> JournalEntry list \<Rightarrow> State \<Rightarrow> State comp" where
  "revert_entries spurious [] st = Val st"
| "revert_entries spurious (e # es) st =
     bind_comp (revert_entry spurious e st) (revert_entries spurious es)"

definition journal_revert :: "bool \<Rightarrow> JournalEntry list \<Rightarrow> State \<Rightarrow> State comp" where
  "journal_revert spurious entries st = revert_entries spurious (rev entries) st"

fun revert_frames :: "bool \<Rightarrow> JournalEntry list list \<Rightarrow> State \<Rightarrow> State comp" where
  "revert_frames spurious [] st = Val st"
| "revert_frames spurious (cs # css) st =
     bind_comp (journal_revert spurious cs st) (revert_frames spurious css)"

definition checkpoint :: "JournaledState \<Rightarrow> JournalCheckpoint \<times> JournaledState" where
  "checkpoint js =
     (\<lparr> log_i = length (logs js), journal_i = length (journal js) \<rparr>,
      js\<lparr>depth := depth js + 1, journal := journal js @ [[]]\<rparr>)"

definition checkpoint_commit :: "JournaledState \<Rightarrow> JournaledState" where
  "checkpoint_commit js = js\<lparr>depth := depth js - 1\<rparr>"

text \<open>The frames from \<open>journal_i\<close> on are undone, the last one first; a checkpoint beyond the journal
  (\<open>leng - journal_i\<close> wraps) would undo all of them.\<close>

definition checkpoint_revert :: "JournalCheckpoint \<Rightarrow> JournaledState \<Rightarrow> JournaledState comp" where
  "checkpoint_revert cp js =
     (let spurious = \<not> is_before_spurious_dragon js;
          leng = length (journal js);
          n = (if journal_i cp \<le> leng then leng - journal_i cp else leng);
          js = js\<lparr>depth := depth js - 1\<rparr> in
      bind_comp (revert_frames spurious (take n (rev (journal js))) (state js)) (\<lambda>st.
        let frames = take (leng - n) (journal js) @ replicate n [] in
        Val (js\<lparr>state := st, logs := take (log_i cp) (logs js), journal := take (journal_i cp) frames\<rparr>)))"

definition selfdestruct ::
  "('db, 'e) db_ops \<Rightarrow> B160 \<Rightarrow> B160 \<Rightarrow> JournaledState \<Rightarrow> 'db \<Rightarrow>
     (('e + SelfDestructResult) \<times> JournaledState \<times> 'db) comp" where
  "selfdestruct D address target js db =
     bind_comp (load_account_exist D target js db) (\<lambda>(r, js, db).
     case r of Inl e \<Rightarrow> Val (Inl e, js, db) | Inr (is_cold, exists') \<Rightarrow>
     bind_comp (get_acc address js) (\<lambda>acc.
       let bal = balance (info acc);
           previously = is_destroyed acc;
           js = put_acc address ((set_balance 0 acc)\<lparr>is_destroyed := True\<rparr>) js in
       bind_comp
         (if address \<noteq> target then
            bind_comp (touch_account target js) (\<lambda>js.
            bind_comp (get_acc target js) (\<lambda>acc.
              Val (put_acc target (set_balance (balance (info acc) + bal) acc) js)))
          else Val js) (\<lambda>js.
       bind_comp (push_entry (AccountDestroyed address target previously bal) js) (\<lambda>js.
         Val (Inr \<lparr> had_value = (bal \<noteq> 0), target_exists = exists', sd_is_cold = is_cold,
                    previously_destroyed = previously \<rparr>, js, db)))))"

definition sload ::
  "('db, 'e) db_ops \<Rightarrow> B160 \<Rightarrow> U256 \<Rightarrow> JournaledState \<Rightarrow> 'db \<Rightarrow>
     (('e + U256 \<times> bool) \<times> JournaledState \<times> 'db) comp" where
  "sload D address key js db =
     bind_comp (get_acc address js) (\<lambda>acc.
       case storage acc key of
         Some slot \<Rightarrow> Val (Inr (present_value slot, False), js, db)
       | None \<Rightarrow>
           (case (if storage_cleared acc then (Inr 0, db) else db_storage D db address key) of
              (Inl e, db) \<Rightarrow> Val (Inl e, js, db)
            | (Inr v, db) \<Rightarrow>
                bind_comp (push_entry (StorageChange address key None) js) (\<lambda>js.
                  Val (Inr (v, True),
                    put_acc address (acc\<lparr>storage := (storage acc)(key \<mapsto> StorageSlot_new v)\<rparr>) js, db))))"

definition sstore ::
  "('db, 'e) db_ops \<Rightarrow> B160 \<Rightarrow> U256 \<Rightarrow> U256 \<Rightarrow> JournaledState \<Rightarrow> 'db \<Rightarrow>
     (('e + U256 \<times> U256 \<times> U256 \<times> bool) \<times> JournaledState \<times> 'db) comp" where
  "sstore D address key new js db =
     bind_comp (sload D address key js db) (\<lambda>(r, js, db).
     case r of Inl e \<Rightarrow> Val (Inl e, js, db) | Inr (present, is_cold) \<Rightarrow>
     bind_comp (get_acc address js) (\<lambda>acc.
     bind_comp (unwrap (storage acc key)) (\<lambda>slot.
       if present = new then Val (Inr (original_value slot, present, new, is_cold), js, db)
       else
         bind_comp (push_entry (StorageChange address key (Some present)) js) (\<lambda>js.
           Val (Inr (original_value slot, present, new, is_cold),
             put_acc address (acc\<lparr>storage := (storage acc)(key \<mapsto> slot\<lparr>present_value := new\<rparr>)\<rparr>) js, db)))))"

definition log :: "Log \<Rightarrow> JournaledState \<Rightarrow> JournaledState" where
  "log l js = js\<lparr>logs := logs js @ [l]\<rparr>"

end
