(* ===== verification/Journal_Revert.thy ===== *)
theory Journal_Revert
  imports Journal "HOL-Library.Sublist"
begin

text \<open>
  Reverting the journal. A journaled state \<open>js'\<close> extends \<open>js\<close> when undoing the entries that it adds,
  the last one first, gives the accounts of \<open>js\<close> back, up to an equivalence of accounts. Extensions
  compose, and a checkpoint followed by an extension can be committed or reverted; the revert never
  panics and returns to the checkpoint.
\<close>

section \<open>States up to an equivalence of accounts\<close>

text \<open>
  Reverting is studied up to an equivalence \<open>E a\<close> of the accounts at address \<open>a\<close> that every step of
  \<open>journal_revert\<close> respects. Two of them are used below. \<open>acc_eq\<close> forgets only the cached code
  bytes (the code hash stays) and, at address 3, the touched flag that \<open>journal_revert\<close> deliberately
  leaves set; it serves to show that a revert restores the state. \<open>acc_shape\<close> keeps only which
  storage slots are present; it serves to show that no revert panics.
\<close>

definition strip :: "Account \<Rightarrow> Account" where
  "strip acc = acc\<lparr>info := (info acc)\<lparr>code := None\<rparr>\<rparr>"

definition acc_eq :: "B160 \<Rightarrow> Account \<Rightarrow> Account \<Rightarrow> bool" where
  "acc_eq a x y \<longleftrightarrow>
     (if a = PRECOMPILE3 then strip (x\<lparr>is_touched := False\<rparr>) = strip (y\<lparr>is_touched := False\<rparr>) else strip x = strip y)"

definition acc_shape :: "B160 \<Rightarrow> Account \<Rightarrow> Account \<Rightarrow> bool" where
  "acc_shape a x y \<longleftrightarrow> dom (storage x) = dom (storage y)"

locale account_equiv =
  fixes E :: "B160 \<Rightarrow> Account \<Rightarrow> Account \<Rightarrow> bool"
  assumes E_refl [simp]: "E a x x"
    and E_trans: "E a x y \<Longrightarrow> E a y z \<Longrightarrow> E a x z"
    and E_touched: "E a x y \<Longrightarrow> E a (x\<lparr>is_touched := b\<rparr>) (y\<lparr>is_touched := b\<rparr>)"
    and E_destroyed: "E a x y \<Longrightarrow> E a (x\<lparr>is_destroyed := b\<rparr>) (y\<lparr>is_destroyed := b\<rparr>)"
    and E_balance: "E a x y \<Longrightarrow> E a (set_balance (g (balance (info x))) x) (set_balance (g (balance (info y))) y)"
    and E_nonce: "E a x y \<Longrightarrow>
      E a (x\<lparr>info := (info x)\<lparr>nonce := nonce (info x) - 1\<rparr>\<rparr>) (y\<lparr>info := (info y)\<lparr>nonce := nonce (info y) - 1\<rparr>\<rparr>)"
    and E_code: "E a x y \<Longrightarrow>
      E a (x\<lparr>info := (info x)\<lparr>code_hash := h, code := c\<rparr>\<rparr>) (y\<lparr>info := (info y)\<lparr>code_hash := h, code := c\<rparr>\<rparr>)"
    and E_unload: "E a x y \<Longrightarrow>
      E a (x\<lparr>storage := (storage x)(k := None)\<rparr>) (y\<lparr>storage := (storage y)(k := None)\<rparr>)"
    and E_slot: "E a x y \<Longrightarrow> storage x k = Some sl \<Longrightarrow> \<exists>sl'. storage y k = Some sl' \<and>
      E a (x\<lparr>storage := (storage x)(k \<mapsto> sl\<lparr>present_value := v\<rparr>)\<rparr>)
          (y\<lparr>storage := (storage y)(k \<mapsto> sl'\<lparr>present_value := v\<rparr>)\<rparr>)"
    and E_3: "E PRECOMPILE3 x (y\<lparr>is_touched := b\<rparr>) = E PRECOMPILE3 x y"
begin

text \<open>\<open>restores s s'\<close>: \<open>s'\<close> agrees with \<open>s\<close>; only address 3 may be loaded in addition.\<close>

definition restores :: "State \<Rightarrow> State \<Rightarrow> bool" where
  "restores s s' \<longleftrightarrow> (\<forall>a x. s a = Some x \<longrightarrow> (\<exists>y. s' a = Some y \<and> E a x y)) \<and>
     (\<forall>a. s a = None \<longrightarrow> a = PRECOMPILE3 \<or> s' a = None)"

lemma restores_refl [simp]: "restores s s"
  by (simp add: restores_def)

lemma restores_Some: "restores s s' \<Longrightarrow> s a = Some x \<Longrightarrow> \<exists>y. s' a = Some y \<and> E a x y"
  by (simp add: restores_def)

lemma restores_trans: "restores s t \<Longrightarrow> restores t u \<Longrightarrow> restores s u"
  unfolding restores_def by (meson E_trans)

lemma restores_upd:
  "restores s s' \<Longrightarrow> E a x y \<Longrightarrow> restores (s(a \<mapsto> x)) (s'(a \<mapsto> y))"
  by (simp add: restores_def)

definition keeps :: "(Account \<Rightarrow> Account comp) \<Rightarrow> bool" where
  "keeps f \<longleftrightarrow> (\<forall>a x y r. E a x y \<longrightarrow> f x = Val r \<longrightarrow> (\<exists>r'. f y = Val r' \<and> E a r r'))"

lemma keeps_intros:
  "keeps (\<lambda>acc. Val (acc\<lparr>is_touched := b\<rparr>))"
  "keeps (add_balance v)" "keeps (sub_balance v)"
  "keeps (\<lambda>acc. add_balance v (acc\<lparr>is_destroyed := b\<rparr>))"
  "keeps (\<lambda>acc. Val (acc\<lparr>info := (info acc)\<lparr>nonce := nonce (info acc) - 1\<rparr>\<rparr>))"
  "keeps (\<lambda>acc. Val (acc\<lparr>info := (info acc)\<lparr>code_hash := h, code := c\<rparr>\<rparr>))"
  "keeps (\<lambda>acc. Val (acc\<lparr>storage := (storage acc)(key := None)\<rparr>))"
  "keeps (\<lambda>acc. bind_comp (unwrap (storage acc key)) (\<lambda>slot.
     Val (acc\<lparr>storage := (storage acc)(key \<mapsto> slot\<lparr>present_value := v\<rparr>)\<rparr>)))"
proof -
  show "keeps (\<lambda>acc. bind_comp (unwrap (storage acc key)) (\<lambda>slot.
     Val (acc\<lparr>storage := (storage acc)(key \<mapsto> slot\<lparr>present_value := v\<rparr>)\<rparr>)))"
    unfolding keeps_def
  proof (intro allI impI)
    fix a x y r
    assume e: "E a x y" and "bind_comp (unwrap (storage x key)) (\<lambda>slot.
       Val (x\<lparr>storage := (storage x)(key \<mapsto> slot\<lparr>present_value := v\<rparr>)\<rparr>)) = Val r"
    then obtain sl where "storage x key = Some sl"
      "r = x\<lparr>storage := (storage x)(key \<mapsto> sl\<lparr>present_value := v\<rparr>)\<rparr>"
      by (cases "storage x key") auto
    with E_slot [OF e this(1), of v] show "\<exists>r'. bind_comp (unwrap (storage y key)) (\<lambda>slot.
       Val (y\<lparr>storage := (storage y)(key \<mapsto> slot\<lparr>present_value := v\<rparr>)\<rparr>)) = Val r' \<and> E a r r'" by auto
  qed
  have d: "E a x y \<Longrightarrow> E a (set_balance (balance (info x) + v) (x\<lparr>is_destroyed := b\<rparr>))
      (set_balance (balance (info y) + v) (y\<lparr>is_destroyed := b\<rparr>))" for a x y
    using E_balance [OF E_destroyed, of a x y "\<lambda>w. w + v" b] by simp
  show "keeps (\<lambda>acc. add_balance v (acc\<lparr>is_destroyed := b\<rparr>))"
    using d by (simp add: keeps_def add_balance_def)
qed (auto simp: keeps_def add_balance_def sub_balance_def intro: E_touched E_nonce E_code E_unload
      E_balance [where g = "\<lambda>w. w + v"] E_balance [where g = "\<lambda>w. w - v"])

lemma on_acc_cong:
  assumes "restores s s'" "keeps f" "on_acc a f s = Val t"
  shows "\<exists>t'. on_acc a f s' = Val t' \<and> restores t t'"
proof -
  obtain x r where x: "s a = Some x" "f x = Val r" "t = s(a \<mapsto> r)"
    using assms(3) by (cases "s a") (auto simp: on_acc_def bind_comp_Val_iff)
  obtain y where y: "s' a = Some y" "E a x y" using restores_Some [OF assms(1) x(1)] by blast
  then obtain r' where "f y = Val r'" "E a r r'" using assms(2) x(2) unfolding keeps_def by blast
  with x(3) y(1) assms(1) show ?thesis by (auto simp: on_acc_def restores_upd)
qed

lemma bind_cong:
  assumes "bind_comp (f s) g = Val t" "restores s s'"
    and "\<And>u. f s = Val u \<Longrightarrow> \<exists>u'. f s' = Val u' \<and> restores u u'"
    and "\<And>u u'. restores u u' \<Longrightarrow> g u = Val t \<Longrightarrow> \<exists>t'. g u' = Val t' \<and> restores t t'"
  shows "\<exists>t'. bind_comp (f s') g = Val t' \<and> restores t t'"
  using assms by (cases "f s") fastforce+

lemma revert_entry_cong:
  assumes "restores s s'" "revert_entry f e s = Val t"
  shows "\<exists>t'. revert_entry f e s' = Val t' \<and> restores t t'"
proof (cases e)
  case (AccountLoaded a)
  have "restores (s(a := None)) (s'(a := None))" using assms(1) by (simp add: restores_def)
  then show ?thesis using AccountLoaded assms by (auto split: if_splits)
next
  case (AccountDestroyed a b w v)
  show ?thesis using assms unfolding AccountDestroyed
    by (auto elim!: bind_cong intro: on_acc_cong [OF _ keeps_intros(4)])
       (rule on_acc_cong [OF _ keeps_intros(3)])
next
  case (BalanceTransfer a b v)
  show ?thesis using assms unfolding BalanceTransfer
    by (auto elim!: bind_cong intro: on_acc_cong [OF _ keeps_intros(2)] on_acc_cong [OF _ keeps_intros(3)])
next
  case (StorageChange a k v)
  then show ?thesis using assms on_acc_cong [OF assms(1) keeps_intros(7)] on_acc_cong [OF assms(1) keeps_intros(8)]
    by (cases v) auto
qed (use assms on_acc_cong [OF assms(1) keeps_intros(1)] on_acc_cong [OF assms(1) keeps_intros(5)]
       on_acc_cong [OF assms(1) keeps_intros(6)] in \<open>auto split: if_splits\<close>)

lemma revert_entries_cong:
  "restores s s' \<Longrightarrow> revert_entries f es s = Val t \<Longrightarrow> \<exists>t'. revert_entries f es s' = Val t' \<and> restores t t'"
proof (induction es arbitrary: s s')
  case (Cons e es)
  show ?case using Cons.prems(2) unfolding revert_entries.simps
    by (rule bind_cong [where f = "revert_entry f e", OF _ Cons.prems(1)])
       (auto intro: revert_entry_cong [OF Cons.prems(1)] Cons.IH)
qed auto

end

lemma bind_comp_cong: "c = d \<Longrightarrow> (\<And>x. f x = g x) \<Longrightarrow> bind_comp c f = bind_comp d g"
  by (cases d) simp_all

lemma revert_entries_append:
  "revert_entries f (xs @ ys) s = bind_comp (revert_entries f xs s) (revert_entries f ys)"
  by (induction xs arbitrary: s) (simp_all cong: bind_comp_cong)

lemma revert_frames_concat:
  "revert_frames f css s = revert_entries f (concat (map rev css)) s"
  by (induction css arbitrary: s) (simp_all add: journal_revert_def revert_entries_append cong: bind_comp_cong)

lemma strip_cong:
  "strip x = strip y \<longleftrightarrow> balance (info x) = balance (info y) \<and> nonce (info x) = nonce (info y) \<and>
     code_hash (info x) = code_hash (info y) \<and> storage x = storage y \<and>
     storage_cleared x = storage_cleared y \<and> is_destroyed x = is_destroyed y \<and>
     is_touched x = is_touched y \<and> is_not_existing x = is_not_existing y"
  by (cases x; cases y; cases "info x"; cases "info y"; simp add: strip_def; blast)

lemma acc_eq_iff:
  "acc_eq a x y \<longleftrightarrow> balance (info x) = balance (info y) \<and> nonce (info x) = nonce (info y) \<and>
     code_hash (info x) = code_hash (info y) \<and> storage x = storage y \<and>
     storage_cleared x = storage_cleared y \<and> is_destroyed x = is_destroyed y \<and>
     (a = PRECOMPILE3 \<or> is_touched x = is_touched y) \<and> is_not_existing x = is_not_existing y"
  by (auto simp: acc_eq_def strip_cong)

interpretation exact: account_equiv acc_eq
  by unfold_locales (auto simp: acc_eq_iff set_balance_def)

interpretation shape: account_equiv acc_shape
  by unfold_locales (auto simp: acc_shape_def set_balance_def)

lemma exact_shape: "exact.restores s s' \<Longrightarrow> shape.restores s s'"
  unfolding exact.restores_def shape.restores_def acc_eq_iff acc_shape_def by metis

section \<open>Journal extensions\<close>

text \<open>
  \<open>js'\<close> extends \<open>js\<close> when its journal appends entries to the last frame of \<open>js\<close> and frames after
  it, and undoing what was appended, the last entry first, gives the state of \<open>js\<close> back.
\<close>

abbreviation dragon :: "JournaledState \<Rightarrow> bool" where
  "dragon js \<equiv> \<not> is_before_spurious_dragon js"

definition appended :: "JournalEntry list list \<Rightarrow> JournalEntry list \<Rightarrow> JournalEntry list list \<Rightarrow> JournalEntry list list" where
  "appended j es fs = butlast j @ (last j @ es) # fs"

lemma appended_simps [simp]:
  "appended j es fs \<noteq> []" "j \<noteq> [] \<Longrightarrow> appended j [] [] = j"
  "appended (j @ [[]]) es fs = j @ es # fs" "j \<noteq> [] \<Longrightarrow> appended j [] fs = j @ fs"
  by (simp_all add: appended_def)

lemma appended_appended:
  "\<exists>fs''. appended (appended j es fs) es' fs' =
       appended j (if fs = [] then es @ es' else es) fs'' \<and>
     (if fs = [] then es @ es' else es) @ concat fs'' = es @ concat fs @ es' @ concat fs'"
proof (cases fs rule: rev_cases)
  case Nil
  then show ?thesis by (auto simp: appended_def)
next
  case (snoc gs g)
  then show ?thesis
    by (intro exI [of _ "gs @ (g @ es') # fs'"]) (simp add: appended_def butlast_append)
qed

context account_equiv
begin

definition extends :: "JournaledState \<Rightarrow> JournaledState \<Rightarrow> bool" where
  "extends js js' \<longleftrightarrow> journal js \<noteq> [] \<and> depth js' = depth js \<and>
     is_before_spurious_dragon js' = is_before_spurious_dragon js \<and>
     num_of_precompiles js' = num_of_precompiles js \<and> prefix (logs js) (logs js') \<and>
     (\<exists>es fs s. journal js' = appended (journal js) es fs \<and>
        revert_entries (dragon js) (rev (es @ concat fs)) (state js') = Val s \<and> restores (state js) s)"

lemma extends_refl: "journal js \<noteq> [] \<Longrightarrow> extends js js"
  unfolding extends_def by (auto intro!: exI [of _ "[]"])

lemma extends_journal: "extends js js' \<Longrightarrow> journal js' \<noteq> [] \<and> journal js \<noteq> []"
  unfolding extends_def by (metis appended_simps(1))

lemma extends_trans:
  assumes "extends js js'" "extends js' js''"
  shows "extends js js''"
proof -
  obtain es fs s where 1: "journal js' = appended (journal js) es fs"
    "revert_entries (dragon js) (rev (es @ concat fs)) (state js') = Val s" "restores (state js) s"
    using assms(1) by (auto simp: extends_def)
  obtain es' fs' s' where 2: "journal js'' = appended (journal js') es' fs'"
    "revert_entries (dragon js') (rev (es' @ concat fs')) (state js'') = Val s'" "restores (state js') s'"
    using assms(2) by (auto simp: extends_def)
  obtain es2 fs2 where 3: "journal js'' = appended (journal js) es2 fs2"
    "es2 @ concat fs2 = es @ concat fs @ es' @ concat fs'"
    using appended_appended [of "journal js" es fs es' fs'] unfolding 1(1) 2(1) by metis
  obtain t where t: "revert_entries (dragon js) (rev (es @ concat fs)) s' = Val t" "restores s t"
    using revert_entries_cong [OF 2(3) 1(2)] by blast
  have d: "dragon js' = dragon js" using assms(1) by (simp add: extends_def)
  have "rev (es2 @ concat fs2) = rev (es' @ concat fs') @ rev (es @ concat fs)" by (simp add: 3)
  then have "revert_entries (dragon js) (rev (es2 @ concat fs2)) (state js'') = Val t"
    using 2(2) t(1) d by (simp only: revert_entries_append bind_comp.simps)
  with 3(1) restores_trans [OF 1(3) t(2)] assms show ?thesis
    by (auto simp: extends_def intro: prefix_order.trans)
qed

lemma extends_trans_ok:
  "ok (\<lambda>js'. extends js js' \<and> P js') c \<Longrightarrow>
   (\<And>js'. extends js js' \<Longrightarrow> P js' \<Longrightarrow> ok (\<lambda>x. extends js' (g x) \<and> Q x) (f js')) \<Longrightarrow>
   ok (\<lambda>x. extends js (g x) \<and> Q x) (bind_comp c f)"
  unfolding ok_iff by (metis bind_comp.simps(1) extends_trans)

text \<open>An update of the state that the journal need not know, and one that a single entry undoes.\<close>

lemma extends_quiet:
  "journal js \<noteq> [] \<Longrightarrow> restores (state js) st \<Longrightarrow> extends js (js\<lparr>state := st\<rparr>)"
  by (auto simp: extends_def intro!: exI [of _ "[]"])

lemma extends_entries:
  assumes "journal js \<noteq> []" "revert_entries (dragon js) (rev es) st = Val s" "restores (state js) s"
  shows "extends js (js\<lparr>state := st, journal := appended (journal js) es []\<rparr>)"
  using assms by (fastforce simp: extends_def)

lemma extends_dom:
  assumes "extends js js'"
  shows "dom (state js) \<subseteq> dom (state js')"
proof -
  have on: "on_acc a f t = Val u \<Longrightarrow> dom u \<subseteq> dom t" for a f t u
    by (cases "t a") (auto simp: on_acc_def bind_comp_Val_iff split: if_splits)
  have e: "revert_entry b e t = Val u \<Longrightarrow> dom u \<subseteq> dom t" for b e t u
    by (cases e) (fastforce simp: bind_comp_Val_iff dest: on split: if_splits)+
  have es: "revert_entries b es t = Val u \<Longrightarrow> dom u \<subseteq> dom t" for b es t u
    by (induction es arbitrary: t) (simp, simp add: bind_comp_Val_iff, meson e order_trans)
  obtain es fs s where "revert_entries (dragon js) (rev (es @ concat fs)) (state js') = Val s"
    and r: "restores (state js) s" using assms by (auto simp: extends_def)
  then have "dom s \<subseteq> dom (state js')" by (blast dest: es)
  moreover have "dom (state js) \<subseteq> dom s" using r unfolding restores_def by blast
  ultimately show ?thesis by blast
qed

section \<open>Checkpoints\<close>

lemma checkpoint_revert_restores:
  assumes "checkpoint js = (cp, js1)" "journal js \<noteq> []" "extends js1 js2"
  shows "ok (\<lambda>js3. journal js3 = journal js \<and> logs js3 = logs js \<and> depth js3 = depth js \<and>
      dragon js3 = dragon js \<and> num_of_precompiles js3 = num_of_precompiles js \<and>
      restores (state js) (state js3) \<and> extends js js3)
    (checkpoint_revert cp js2)"
proof -
  have cp: "log_i cp = length (logs js)" "journal_i cp = length (journal js)"
    and js1: "state js1 = state js" "logs js1 = logs js" "journal js1 = journal js @ [[]]"
      "depth js1 = depth js + 1" "dragon js1 = dragon js" "num_of_precompiles js1 = num_of_precompiles js"
    using assms(1) by (auto simp: checkpoint_def)
  obtain es fs s where e: "journal js2 = journal js @ es # fs"
    "revert_entries (dragon js) (rev (es @ concat fs)) (state js2) = Val s" "restores (state js) s"
    using assms(3) by (auto simp: extends_def js1)
  have l: "take (length (logs js)) (logs js2) = logs js"
    using assms(3) by (auto simp: extends_def js1 prefix_def)
  have "concat (map rev (rev fs)) @ rev es = rev (es @ concat fs)" by (simp add: rev_concat rev_map)
  then have "revert_frames (dragon js) (rev fs @ [es]) (state js2) = Val s"
    using e(2) by (simp add: revert_frames_concat)
  moreover have "dragon js2 = dragon js" "depth js2 = depth js + 1"
    "num_of_precompiles js2 = num_of_precompiles js"
    using assms(3) by (simp_all add: extends_def js1)
  ultimately show ?thesis using e(1,3) l assms(2)
    by (auto simp: checkpoint_revert_def Let_def cp extends_def intro!: exI [of _ "[]"])
qed

lemma checkpoint_commit_extends:
  assumes "checkpoint js = (cp, js1)" "journal js \<noteq> []" "extends js1 js2"
  shows "extends js (checkpoint_commit js2)"
proof -
  obtain es fs s where "journal js2 = journal js @ es # fs"
    "revert_entries (dragon js) (rev (es @ concat fs)) (state js2) = Val s" "restores (state js) s"
    using assms by (auto simp: extends_def checkpoint_def)
  then show ?thesis using assms unfolding extends_def
    by (auto simp: checkpoint_def checkpoint_commit_def intro!: exI [of _ "[]"] exI [of _ "es # fs"])
qed

end

lemma exact_extends_shape: "exact.extends js js' \<Longrightarrow> shape.extends js js'"
  unfolding exact.extends_def shape.extends_def using exact_shape by metis

section \<open>Executable code in the state\<close>

text \<open>
  Code in the state and in the journal has to be executable: well formed, and short enough for a
  buffer of \<open>isize::MAX\<close> bytes to hold it with its padding.
\<close>

definition code_ok :: "Bytecode \<Rightarrow> bool" where
  "code_ok c \<longleftrightarrow> bytecode_wf c \<and> length (bytecode c) + 33 < 2 ^ 63"

definition acc_ok :: "Account \<Rightarrow> bool" where
  "acc_ok acc \<longleftrightarrow> (\<forall>c. code (info acc) = Some c \<longrightarrow> code_ok c)"

fun entry_ok :: "JournalEntry \<Rightarrow> bool" where
  "entry_ok (CodeChange a c) = code_ok c"
| "entry_ok _ = True"

definition state_ok :: "State \<Rightarrow> bool" where
  "state_ok st \<longleftrightarrow> (\<forall>a x. st a = Some x \<longrightarrow> acc_ok x)"

definition codes_ok :: "JournaledState \<Rightarrow> bool" where
  "codes_ok js \<longleftrightarrow> state_ok (state js) \<and> list_all (list_all entry_ok) (journal js)"

text \<open>Every account of \<open>st'\<close> carries acceptable code, or the code it carries in \<open>st\<close>.\<close>

definition codes_kept :: "State \<Rightarrow> State \<Rightarrow> bool" where
  "codes_kept st st' \<longleftrightarrow> (\<forall>a x'. st' a = Some x' \<longrightarrow>
     acc_ok x' \<or> (\<exists>x. st a = Some x \<and> code (info x') = code (info x)))"

lemma code_ok_new [simp]: "code_ok Bytecode_new"
  by (simp add: code_ok_def bytecode_wf_new(1)) (simp add: Bytecode_new_def)

lemma acc_ok_new [simp]: "acc_ok new_not_existing"
  by (simp add: acc_ok_def new_not_existing_def AccountInfo_default_def)

lemma codes_kept_refl [simp]: "codes_kept st st"
  by (auto simp: codes_kept_def)

lemma codes_kept_upd:
  "codes_kept st st' \<Longrightarrow> acc_ok x \<Longrightarrow> codes_kept st (st'(a \<mapsto> x))"
  "codes_kept st st' \<Longrightarrow> st a = Some y \<Longrightarrow> code (info x) = code (info y) \<Longrightarrow> codes_kept st (st'(a \<mapsto> x))"
  by (auto simp: codes_kept_def)

lemma state_ok_kept: "state_ok st \<Longrightarrow> codes_kept st st' \<Longrightarrow> state_ok st'"
  unfolding state_ok_def codes_kept_def acc_ok_def by metis

lemma state_ok_upd: "state_ok st \<Longrightarrow> acc_ok x \<Longrightarrow> state_ok (st(a \<mapsto> x))" "state_ok st \<Longrightarrow> state_ok (st(a := None))"
  by (auto simp: state_ok_def)

lemma codes_ok_kept:
  assumes "codes_ok js" "codes_kept (state js) st" "list_all entry_ok es" "journal js \<noteq> []"
  shows "codes_ok (js\<lparr>state := st, journal := appended (journal js) es []\<rparr>)"
proof -
  obtain ys y where "journal js = ys @ [y]" using assms(4) by (cases "journal js" rule: rev_cases) auto
  then show ?thesis using assms state_ok_kept [OF _ assms(2)] by (simp add: codes_ok_def appended_def)
qed

lemma codes_ok_kept_quiet:
  "codes_ok js \<Longrightarrow> codes_kept (state js) st \<Longrightarrow> codes_ok (js\<lparr>state := st\<rparr>)"
  by (auto simp: codes_ok_def dest: state_ok_kept)

lemma on_acc_codes:
  "on_acc a g u = Val v \<Longrightarrow> state_ok u \<Longrightarrow> (\<And>x r. g x = Val r \<Longrightarrow> acc_ok x \<Longrightarrow> acc_ok r) \<Longrightarrow> state_ok v"
  by (cases "u a") (auto simp: on_acc_def bind_comp_Val_iff state_ok_def split: if_splits)

lemma balance_codes:
  "add_balance v x = Val r \<Longrightarrow> acc_ok r = acc_ok x" "sub_balance v x = Val r \<Longrightarrow> acc_ok r = acc_ok x"
  "acc_ok (x\<lparr>is_destroyed := d\<rparr>) = acc_ok x"
  by (auto simp: add_balance_def sub_balance_def set_balance_def acc_ok_def)

lemma revert_entry_codes:
  assumes "revert_entry f e s = Val t" "entry_ok e" "state_ok s"
  shows "state_ok t"
proof (cases e)
  case (AccountDestroyed a c w v)
  then obtain u where "on_acc a (\<lambda>acc. add_balance v (acc\<lparr>is_destroyed := w\<rparr>)) s = Val u"
    "(if a \<noteq> c then on_acc c (sub_balance v) u else Val u) = Val t"
    using assms(1) by (auto simp: bind_comp_Val_iff)
  with assms(3) show ?thesis
    by (metis (mono_tags, lifting) balance_codes comp.inject on_acc_codes)
next
  case (BalanceTransfer a c v)
  then obtain u where "on_acc a (add_balance v) s = Val u" "on_acc c (sub_balance v) u = Val t"
    using assms(1) by (auto simp: bind_comp_Val_iff)
  with assms(3) show ?thesis by (metis (mono_tags, lifting) balance_codes on_acc_codes)
next
  case (StorageChange a k v)
  then show ?thesis using assms
    by (auto elim!: on_acc_codes split: option.splits simp: bind_comp_Val_iff acc_ok_def)
qed (use assms in \<open>auto elim!: on_acc_codes split: if_splits simp: acc_ok_def state_ok_upd(2)\<close>)

lemma revert_entries_codes:
  "revert_entries f es s = Val t \<Longrightarrow> list_all entry_ok es \<Longrightarrow> state_ok s \<Longrightarrow> state_ok t"
  by (induction es arbitrary: s) (auto simp: bind_comp_Val_iff dest: revert_entry_codes)

lemma checkpoint_revert_codes:
  assumes "codes_ok js" "checkpoint_revert cp js = Val js'"
  shows "codes_ok js'"
proof -
  define n where "n = (if journal_i cp \<le> length (journal js) then length (journal js) - journal_i cp else length (journal js))"
  obtain st where st: "revert_frames (dragon js) (take n (rev (journal js))) (state js) = Val st"
    and js': "state js' = st"
      "journal js' = take (journal_i cp) (take (length (journal js) - n) (journal js) @ replicate n [])"
    using assms(2) unfolding n_def by (auto simp: checkpoint_revert_def Let_def bind_comp_Val_iff)
  have "list_all entry_ok (concat (map rev (take n (rev (journal js)))))"
    using assms(1) by (auto simp: codes_ok_def list_all_iff dest!: in_set_takeD)
  then have "state_ok st"
    using st assms(1) by (auto simp: revert_frames_concat codes_ok_def dest!: revert_entries_codes)
  moreover have "list_all (list_all entry_ok) (journal js')"
    using assms(1) unfolding js' by (auto simp: codes_ok_def list_all_iff dest!: in_set_takeD)
  ultimately show ?thesis by (simp add: codes_ok_def js')
qed

context account_equiv
begin

text \<open>\<open>steps js js'\<close>: an extension that keeps the code executable.\<close>

definition steps :: "JournaledState \<Rightarrow> JournaledState \<Rightarrow> bool" where
  "steps js js' \<longleftrightarrow> extends js js' \<and> (codes_ok js \<longrightarrow> codes_ok js')"

lemma steps_refl: "journal js \<noteq> [] \<Longrightarrow> steps js js"
  by (simp add: steps_def extends_refl)

lemma steps_trans [trans]: "steps js js' \<Longrightarrow> steps js' js'' \<Longrightarrow> steps js js''"
  by (auto simp: steps_def intro: extends_trans)

lemma steps_journal: "steps js js' \<Longrightarrow> journal js' \<noteq> []"
  by (auto simp: steps_def dest: extends_journal)

lemma steps_dom: "steps js js' \<Longrightarrow> a \<in> dom (state js) \<Longrightarrow> a \<in> dom (state js')"
  using extends_dom [of js js'] by (auto simp: steps_def)

lemma steps_same:
  "steps js js' \<Longrightarrow> depth js' = depth js \<and> is_before_spurious_dragon js' = is_before_spurious_dragon js \<and>
     num_of_precompiles js' = num_of_precompiles js"
  by (simp add: steps_def extends_def)

lemma steps_quiet:
  "journal js \<noteq> [] \<Longrightarrow> restores (state js) st \<Longrightarrow> codes_kept (state js) st \<Longrightarrow> steps js (js\<lparr>state := st\<rparr>)"
  by (simp add: steps_def extends_quiet codes_ok_kept_quiet)

lemma steps_entries:
  "journal js \<noteq> [] \<Longrightarrow> revert_entries (dragon js) (rev es) st = Val s \<Longrightarrow> restores (state js) s \<Longrightarrow>
   codes_kept (state js) st \<Longrightarrow> list_all entry_ok es \<Longrightarrow>
   steps js (js\<lparr>state := st, journal := appended (journal js) es []\<rparr>)"
  by (simp add: steps_def extends_entries codes_ok_kept)

lemma checkpoint_revert_steps:
  assumes "checkpoint js = (cp, js1)" "journal js \<noteq> []" "steps js1 js2"
  shows "ok (\<lambda>js3. journal js3 = journal js \<and> logs js3 = logs js \<and>
      restores (state js) (state js3) \<and> steps js js3) (checkpoint_revert cp js2)"
proof -
  have c: "codes_ok js1 = codes_ok js" using assms(1) by (auto simp: codes_ok_def checkpoint_def)
  have "extends js1 js2" using assms(3) by (simp add: steps_def)
  from checkpoint_revert_restores [OF assms(1,2) this]
  obtain js3 where js3: "checkpoint_revert cp js2 = Val js3" "journal js3 = journal js"
    "logs js3 = logs js" "restores (state js) (state js3)" "extends js js3" by (auto simp: ok_iff)
  moreover have "codes_ok js \<longrightarrow> codes_ok js3"
    using checkpoint_revert_codes [OF _ js3(1)] assms(3) c by (auto simp: steps_def)
  ultimately show ?thesis by (simp add: steps_def)
qed

lemma checkpoint_commit_steps:
  assumes "checkpoint js = (cp, js1)" "journal js \<noteq> []" "steps js1 js2"
  shows "steps js (checkpoint_commit js2)"
  using checkpoint_commit_extends [OF assms(1,2)] assms
  by (auto simp: steps_def checkpoint_def codes_ok_def checkpoint_commit_def)

end

lemma exact_steps_shape: "exact.steps js js' \<Longrightarrow> shape.steps js js'"
  unfolding exact.steps_def shape.steps_def using exact_extends_shape by blast

end
