(* ===== verification/Journal_Ops.thy ===== *)
theory Journal_Ops
  imports Journal_Revert
begin

text \<open>
  Every operation of the journaled state extends the journal by the entries that undo it, for every
  database that satisfies the contract \<open>database\<close>. Not covered by the journal, and so excluded from
  the exact statement: the cache of code bytes, the load and touch of address 3 (which the code keeps
  on purpose), the debit of a sender whose transfer overflows the receiver, and the changes of
  \<open>create_account\<close> and \<open>set_code\<close>. For those the weaker statement on the shape of the state holds,
  which is what rules out a panic.
\<close>

section \<open>Every operation extends the journal\<close>

lemma push_entry_appended [simp]:
  "journal js \<noteq> [] \<Longrightarrow> push_entry e js = Val (js\<lparr>journal := appended (journal js) [e] []\<rparr>)"
  by (simp add: push_entry_def appended_def)

lemma state_before_journal [simp]: "js\<lparr>journal := j, state := st\<rparr> = js\<lparr>state := st, journal := j\<rparr>"
  by (cases js) simp

lemmas journal_defs = get_acc_def put_acc_def on_acc_def add_balance_def sub_balance_def set_balance_def

lemma restores_same [intro]: "st a = Some x \<Longrightarrow> acc_eq a x y \<Longrightarrow> exact.restores st (st(a \<mapsto> y))"
  by (auto simp: exact.restores_def)

lemma touch_account_steps:
  assumes "journal js \<noteq> []" "state js a = Some acc"
  shows "ok (\<lambda>js'. exact.steps js js' \<and> state js' = (state js)(a \<mapsto> acc\<lparr>is_touched := True\<rparr>))
    (touch_account a js)"
proof (cases "is_touched acc")
  case True
  then have "acc\<lparr>is_touched := True\<rparr> = acc" by simp
  with True assms show ?thesis
    by (auto simp: touch_account_def get_acc_def exact.steps_refl)
next
  case False
  let ?st = "(state js)(a \<mapsto> acc\<lparr>is_touched := True\<rparr>)"
  let ?s = "if dragon js \<and> a = PRECOMPILE3 then ?st else state js"
  have "exact.steps js (js\<lparr>state := ?st, journal := appended (journal js) [AccountTouched a] []\<rparr>)"
    using assms False
    by (intro exact.steps_entries [where s = ?s])
       (auto simp: on_acc_def fun_upd_idem acc_eq_iff intro!: codes_kept_upd(2))
  with False assms show ?thesis by (simp add: touch_account_def journal_defs)
qed

lemma touch_steps: "journal js \<noteq> [] \<Longrightarrow> ok (exact.steps js) (touch a js)"
  unfolding touch_def
  by (auto split: option.split simp: exact.steps_refl elim!: ok_mono dest!: touch_account_steps)

lemma inc_nonce_steps:
  assumes "journal js \<noteq> []" "state js a = Some acc"
  shows "ok (\<lambda>(r, js'). exact.steps js js' \<and>
      (if nonce (info acc) = u64_MAX then r = None \<and> js' = js
       else r = Some (nonce (info acc) + 1) \<and>
         state js' = (state js)(a \<mapsto> acc\<lparr>is_touched := True, info := (info acc)\<lparr>nonce := nonce (info acc) + 1\<rparr>\<rparr>)))
    (inc_nonce a js)"
proof (cases "nonce (info acc) = u64_MAX")
  case True
  then show ?thesis using assms by (simp add: inc_nonce_def get_acc_def exact.steps_refl)
next
  case False
  obtain js1 where js1: "touch_account a js = Val js1" "exact.steps js js1"
    "state js1 = (state js)(a \<mapsto> acc\<lparr>is_touched := True\<rparr>)"
    using touch_account_steps [OF assms] by (auto simp: ok_iff)
  let ?x = "acc\<lparr>is_touched := True, info := (info acc)\<lparr>nonce := nonce (info acc) + 1\<rparr>\<rparr>"
  have j: "journal js1 \<noteq> []" using js1(2) by (rule exact.steps_journal)
  moreover have "state js1 a = Some (acc\<lparr>is_touched := True\<rparr>)" by (simp add: js1)
  ultimately have "exact.steps js1 (js1\<lparr>state := (state js1)(a \<mapsto> ?x), journal := appended (journal js1) [NonceChange a] []\<rparr>)"
    by (intro exact.steps_entries [where s = "state js1"])
       (auto simp: on_acc_def fun_upd_idem intro!: codes_kept_upd(2))
  with js1 j False assms show ?thesis
    by (auto simp: inc_nonce_def journal_defs Let_def intro: exact.steps_trans)
qed

lemma inc_nonce_keeps:
  "journal js \<noteq> [] \<Longrightarrow> state js a = Some acc \<Longrightarrow> ok (\<lambda>(r, js'). exact.steps js js') (inc_nonce a js)"
  by (rule ok_mono [OF inc_nonce_steps]) auto

lemma log_steps: "journal js \<noteq> [] \<Longrightarrow> exact.steps js (log l js)"
  by (auto simp: log_def exact.steps_def exact.extends_def codes_ok_def intro!: exI [of _ "[]"])

lemma shape_restores_upd: "st a = Some x \<Longrightarrow> dom (storage x) = dom (storage y) \<Longrightarrow> shape.restores st (st(a \<mapsto> y))"
  by (auto simp: shape.restores_def acc_shape_def)

lemma set_code_steps:
  assumes "journal js \<noteq> []" "state js a = Some acc" "code_ok c"
  shows "ok (\<lambda>js'. shape.steps js js' \<and> state js' = (state js)(a \<mapsto>
      acc\<lparr>is_touched := True, info := (info acc)\<lparr>code_hash := bc_hash c, code := Some c\<rparr>\<rparr>)) (set_code a c js)"
proof -
  obtain js1 where js1: "touch_account a js = Val js1" "exact.steps js js1"
    "state js1 = (state js)(a \<mapsto> acc\<lparr>is_touched := True\<rparr>)"
    using touch_account_steps [OF assms(1,2)] by (auto simp: ok_iff)
  let ?x = "acc\<lparr>is_touched := True, info := (info acc)\<lparr>code_hash := bc_hash c, code := Some c\<rparr>\<rparr>"
  have j: "journal js1 \<noteq> []" using js1(2) by (rule exact.steps_journal)
  moreover have "state js1 a = Some (acc\<lparr>is_touched := True\<rparr>)" by (simp add: js1)
  ultimately have "shape.steps js1 (js1\<lparr>state := (state js1)(a \<mapsto> ?x), journal := appended (journal js1) [CodeChange a c] []\<rparr>)"
    using assms(3)
    by (intro shape.steps_entries [where s = "(state js1)(a \<mapsto> ?x)"])
       (auto simp: on_acc_def acc_ok_def intro!: codes_kept_upd(1) shape_restores_upd)
  with js1 j assms show ?thesis
    by (auto simp: set_code_def journal_defs intro: shape.steps_trans exact_steps_shape)
qed

section \<open>Databases\<close>

text \<open>
  What the journaled state relies on in a database: its calls keep an invariant of their own, and the
  code they deliver is executable. Errors are allowed everywhere.
\<close>

locale database =
  fixes D :: "('db, 'e) db_ops" and DI :: "'db \<Rightarrow> bool"
  assumes basic_ok: "DI db \<Longrightarrow> db_basic D db a = (r, db') \<Longrightarrow>
      DI db' \<and> (\<forall>i c. r = Inr (Some i) \<longrightarrow> code i = Some c \<longrightarrow> code_ok c)"
    and code_by_hash_ok: "DI db \<Longrightarrow> db_code_by_hash D db h = (rc, db') \<Longrightarrow>
      DI db' \<and> (\<forall>c. rc = Inr c \<longrightarrow> code_ok c)"
    and storage_ok: "DI db \<Longrightarrow> db_storage D db a k = (v, db') \<Longrightarrow> DI db'"
    and block_hash_ok: "DI db \<Longrightarrow> db_block_hash D db n = (hash, db') \<Longrightarrow> DI db'"
begin

lemma load_account_steps:
  assumes "journal js \<noteq> []" "DI db"
  shows "ok (\<lambda>(r, js', db'). exact.steps js js' \<and> DI db' \<and> (\<forall>cold. r = Inr cold \<longrightarrow> a \<in> dom (state js')))
    (load_account D a js db)"
proof (cases "state js a")
  case (Some acc)
  then show ?thesis using assms by (simp add: load_account_def exact.steps_refl dom_def)
next
  case None
  obtain r db1 where b: "db_basic D db a = (r, db1)" by fastforce
  note d = basic_ok [OF assms(2) b]
  show ?thesis
  proof (cases r)
    case (Inl e)
    then show ?thesis using None b d assms by (simp add: load_account_def exact.steps_refl)
  next
    case (Inr i)
    let ?x = "case i of Some i \<Rightarrow> Account_from i | None \<Rightarrow> new_not_existing"
    let ?st = "(state js)(a \<mapsto> ?x)"
    have "acc_ok ?x" using d Inr by (cases i) (simp, simp add: acc_ok_def Account_from_def)
    then have "exact.steps js (js\<lparr>state := ?st, journal := appended (journal js) [AccountLoaded a] []\<rparr>)"
      using None assms
      by (intro exact.steps_entries [where s = "if dragon js \<and> a = PRECOMPILE3 then ?st else state js"])
         (auto simp: fun_upd_idem exact.restores_def intro!: codes_kept_upd(1))
    then show ?thesis using None b d Inr assms
      by (auto simp: load_account_def journal_defs Let_def split: option.split)
  qed
qed

lemma load_code_steps:
  assumes "journal js \<noteq> []" "DI db"
  shows "ok (\<lambda>(r, js', db'). exact.steps js js' \<and> DI db' \<and>
      (\<forall>cold. r = Inr cold \<longrightarrow> (\<exists>acc c. state js' a = Some acc \<and> code (info acc) = Some c)))
    (load_code D a js db)"
proof -
  obtain r js1 db1 where l: "load_account D a js db = Val (r, js1, db1)" "exact.steps js js1" "DI db1"
    "\<And>cold. r = Inr cold \<Longrightarrow> a \<in> dom (state js1)"
    using load_account_steps [OF assms, of a] by (auto simp: ok_iff)
  show ?thesis
  proof (cases r)
    case (Inl e)
    then show ?thesis using l by (simp add: load_code_def)
  next
    case (Inr cold)
    then obtain acc where acc: "state js1 a = Some acc" using l(4) by blast
    have q: "exact.steps js (js1\<lparr>state := (state js1)(a \<mapsto> acc\<lparr>info := (info acc)\<lparr>code := Some c\<rparr>\<rparr>)\<rparr>)"
      if "code_ok c" for c
      using l(2) acc that exact.steps_journal [OF l(2)]
      by (intro exact.steps_trans [OF l(2)] exact.steps_quiet)
         (auto simp: acc_eq_iff acc_ok_def intro!: codes_kept_upd(1))
    obtain rc db2 where rc: "db_code_by_hash D db1 (code_hash (info acc)) = (rc, db2)" by fastforce
    note d = code_by_hash_ok [OF l(3) rc]
    show ?thesis using Inr l acc q rc d
      by (cases rc; cases "code (info acc)") (auto simp: load_code_def journal_defs)
  qed
qed

lemma load_account_exist_steps:
  assumes "journal js \<noteq> []" "DI db"
  shows "ok (\<lambda>(r, js', db'). exact.steps js js' \<and> DI db' \<and> (\<forall>p. r = Inr p \<longrightarrow> a \<in> dom (state js')))
    (load_account_exist D a js db)"
  using load_code_steps [OF assms, of a]
  by (auto simp: load_account_exist_def ok_iff journal_defs Let_def split: sum.splits)

end

text \<open>Touching an account commutes with an update of another field.\<close>

lemma touch_commutes:
  assumes "touch_account a js = Val js'" "state js b = Some x"
    and f: "\<And>y. is_touched (f y) = is_touched y" "\<And>y. f (y\<lparr>is_touched := True\<rparr>) = (f y)\<lparr>is_touched := True\<rparr>"
  shows "touch_account a (put_acc b (f x) js) = Val (put_acc b (f (the (state js' b))) js')"
proof -
  obtain acc where acc: "state js a = Some acc" "journal js \<noteq> []"
    using assms(1) by (cases "state js a"; cases "journal js") (auto simp: touch_account_def get_acc_def)
  show ?thesis
  proof (cases "is_touched acc")
    case True
    then show ?thesis using assms acc by (cases "a = b") (auto simp: touch_account_def journal_defs)
  next
    case False
    then have "js' = js\<lparr>state := (state js)(a \<mapsto> acc\<lparr>is_touched := True\<rparr>),
        journal := appended (journal js) [AccountTouched a] []\<rparr>"
      using assms(1) acc by (simp add: touch_account_def journal_defs)
    with False show ?thesis using assms acc
      by (cases "a = b") (auto simp: touch_account_def journal_defs fun_upd_twist)
  qed
qed

text \<open>Moving funds between two loaded accounts, and what \<open>transfer\<close> leaves behind on overflow.\<close>

lemma moved_steps:
  assumes "journal js \<noteq> []" "state js a = Some x" "bal \<le> balance (info x)"
    and "st = (state js)(a \<mapsto> set_balance (balance (info x) - bal) x)" "st b = Some y"
  shows "exact.steps js (js\<lparr>state := st(b \<mapsto> set_balance (balance (info y) + bal) y),
      journal := appended (journal js) [BalanceTransfer a b bal] []\<rparr>)"
proof (rule exact.steps_entries [where s = "state js"])
  show "revert_entries (dragon js) (rev [BalanceTransfer a b bal]) (st(b \<mapsto> set_balance (balance (info y) + bal) y)) =
      Val (state js)"
    using assms by (cases "a = b") (auto simp: journal_defs fun_upd_idem fun_upd_twist)
  show "codes_kept (state js) (st(b \<mapsto> set_balance (balance (info y) + bal) y))"
    using assms by (cases "a = b") (auto simp: set_balance_def intro!: codes_kept_upd(2))
qed (use assms in auto)

lemma debited_steps:
  "journal js \<noteq> [] \<Longrightarrow> state js a = Some x \<Longrightarrow> shape.steps js (put_acc a (set_balance v x) js)"
  unfolding put_acc_def
  by (intro shape.steps_quiet shape_restores_upd codes_kept_upd(2)) (auto simp: set_balance_def)

context database
begin

lemma transfer_steps:
  assumes "journal js \<noteq> []" "DI db"
  shows "ok (\<lambda>(r, js', db'). shape.steps js js' \<and> DI db' \<and> (r \<noteq> Inl OverflowPayment \<longrightarrow> exact.steps js js') \<and>
      (\<forall>p. r = Inr p \<longrightarrow> a \<in> dom (state js') \<and> b \<in> dom (state js')))
    (transfer D a b bal js db)"
proof -
  obtain r1 js1 db1 where 1: "load_account D a js db = Val (r1, js1, db1)" "exact.steps js js1" "DI db1"
    "\<And>c. r1 = Inr c \<Longrightarrow> a \<in> dom (state js1)"
    using load_account_steps [OF assms, of a] by (auto simp: ok_iff)
  show ?thesis
  proof (cases r1)
    case (Inl e)
    then show ?thesis using 1 exact_steps_shape by (simp add: transfer_def)
  next
    case r1: (Inr c1)
    obtain r2 js2 db2 where 2: "load_account D b js1 db1 = Val (r2, js2, db2)" "exact.steps js1 js2" "DI db2"
      "\<And>c. r2 = Inr c \<Longrightarrow> b \<in> dom (state js2)"
      using load_account_steps [OF exact.steps_journal [OF 1(2)] 1(3), of b] by (auto simp: ok_iff)
    note s2 = exact.steps_trans [OF 1(2) 2(2)]
    show ?thesis
    proof (cases r2)
      case (Inl e)
      then show ?thesis using 1 2 r1 s2 exact_steps_shape by (simp add: transfer_def)
    next
      case r2: (Inr c2)
      obtain xa where xa: "state js2 a = Some xa" using exact.steps_dom [OF 2(2)] 1(4) r1 by blast
      obtain js3 where 3: "touch_account a js2 = Val js3" "exact.steps js2 js3"
        "state js3 = (state js2)(a \<mapsto> xa\<lparr>is_touched := True\<rparr>)"
        using touch_account_steps [OF exact.steps_journal [OF 2(2)] xa] by (auto simp: ok_iff)
      note s3 = exact.steps_trans [OF s2 3(2)]
      define x where "x = xa\<lparr>is_touched := True\<rparr>"
      have x: "state js3 a = Some x" by (simp add: 3 x_def)
      obtain yb where yb: "state js3 b = Some yb" using exact.steps_dom [OF 3(2)] 2(4) r2 by blast
      obtain js4 where 4: "touch_account b js3 = Val js4" "exact.steps js3 js4"
        "state js4 = (state js3)(b \<mapsto> yb\<lparr>is_touched := True\<rparr>)"
        using touch_account_steps [OF exact.steps_journal [OF 3(2)] yb] by (auto simp: ok_iff)
      note s4 = exact.steps_trans [OF s3 4(2)]
      note j4 = exact.steps_journal [OF s4]
      obtain x4 where x4: "state js4 a = Some x4" "balance (info x4) = balance (info x)"
        using x yb 4(3) by (cases "a = b") auto
      let ?rest = "balance (info x) - bal"
      note t = touch_commutes [OF 4(1) x, of "set_balance ?rest", simplified set_balance_def, simplified,
        folded set_balance_def]
      let ?st = "(state js4)(a \<mapsto> set_balance ?rest x4)"
      obtain y where y: "?st b = Some y" using 4(3) by (cases "a = b") auto
      have "shape.steps js (put_acc a (set_balance ?rest x4) js4)"
        using debited_steps [OF j4 x4(1)] exact_steps_shape [OF s4] shape.steps_trans by blast
      moreover have "exact.steps js (js4\<lparr>state := ?st(b \<mapsto> set_balance (balance (info y) + bal) y),
          journal := appended (journal js4) [BalanceTransfer a b bal] []\<rparr>)" if "bal \<le> balance (info x)"
        using moved_steps [OF j4 x4(1) _ refl] that x4(2) y exact.steps_trans [OF s4] by metis
      ultimately show ?thesis using 1(1) 2(1,3) 3(1) r1 r2 x t y j4 s3 x4 exact_steps_shape
        by (auto simp: transfer_def get_acc_def checked_sub_def checked_add_def put_acc_def Let_def)
    qed
  qed
qed

end

text \<open>The two changes of a self-destruction: the balance moves, and the account is marked.\<close>

lemma destroyed_steps:
  assumes "journal js \<noteq> []" "state js a = Some x"
    and "st = (state js)(a \<mapsto> (set_balance 0 x)\<lparr>is_destroyed := True\<rparr>)"
  shows "exact.steps js (js\<lparr>state := st, journal := appended (journal js)
      [AccountDestroyed a a (is_destroyed x) (balance (info x))] []\<rparr>)"
    "a \<noteq> b \<Longrightarrow> state js b = Some y \<Longrightarrow>
     exact.steps js (js\<lparr>state := st(b \<mapsto> set_balance (balance (info y) + balance (info x)) y),
       journal := appended (journal js) [AccountDestroyed a b (is_destroyed x) (balance (info x))] []\<rparr>)"
  by (rule exact.steps_entries [where s = "state js"];
      use assms in \<open>auto simp: journal_defs fun_upd_idem fun_upd_twist intro!: codes_kept_upd(2)\<close>)+

context database
begin

lemma selfdestruct_steps:
  assumes "journal js \<noteq> []" "DI db" "a \<in> dom (state js)"
  shows "ok (\<lambda>(r, js', db'). exact.steps js js' \<and> DI db') (selfdestruct D a b js db)"
proof -
  obtain r js1 db1 where 1: "load_account_exist D b js db = Val (r, js1, db1)" "exact.steps js js1" "DI db1"
    "\<And>p. r = Inr p \<Longrightarrow> b \<in> dom (state js1)"
    using load_account_exist_steps [OF assms(1,2), of b] by (auto simp: ok_iff)
  note j1 = exact.steps_journal [OF 1(2)]
  obtain x where x: "state js1 a = Some x" using exact.steps_dom [OF 1(2) assms(3)] by blast
  show ?thesis
  proof (cases r)
    case (Inl e)
    then show ?thesis using 1 by (simp add: selfdestruct_def)
  next
    case (Inr p)
    then obtain yb where yb: "state js1 b = Some yb" using 1(4) by blast
    let ?f = "\<lambda>x. (set_balance 0 x)\<lparr>is_destroyed := True\<rparr>"
    show ?thesis
    proof (cases "a = b")
      case True
      have "exact.steps js (js1\<lparr>state := (state js1)(a \<mapsto> ?f x), journal := appended (journal js1)
          [AccountDestroyed a a (is_destroyed x) (balance (info x))] []\<rparr>)"
        using exact.steps_trans [OF 1(2) destroyed_steps(1) [OF j1 x refl]] .
      then show ?thesis using True Inr 1 x j1
        by (cases p) (auto simp: selfdestruct_def get_acc_def put_acc_def Let_def)
    next
      case False
      obtain js2 where 2: "touch_account b js1 = Val js2" "exact.steps js1 js2"
        "state js2 = (state js1)(b \<mapsto> yb\<lparr>is_touched := True\<rparr>)"
        using touch_account_steps [OF j1 yb] by (auto simp: ok_iff)
      note j2 = exact.steps_journal [OF 2(2)]
      have x2: "state js2 a = Some x" "state js2 b = Some (yb\<lparr>is_touched := True\<rparr>)" using False x 2(3) by auto
      have t: "touch_account b (put_acc a (?f x) js1) = Val (put_acc a (?f x) js2)"
        using touch_commutes [OF 2(1) x, of ?f] x2 by (simp add: set_balance_def)
      have "exact.steps js (js2\<lparr>state := (state js2)(a \<mapsto> ?f x, b \<mapsto> set_balance (balance (info yb) + balance (info x))
            (yb\<lparr>is_touched := True\<rparr>)),
          journal := appended (journal js2) [AccountDestroyed a b (is_destroyed x) (balance (info x))] []\<rparr>)"
        using exact.steps_trans [OF 1(2) exact.steps_trans [OF 2(2) destroyed_steps(2) [OF j2 x2(1) refl False x2(2)]]]
        by simp
      then show ?thesis using False Inr 1 x x2 t j2
        by (cases p) (auto simp: selfdestruct_def get_acc_def put_acc_def Let_def)
    qed
  qed
qed

lemma sload_steps:
  assumes "journal js \<noteq> []" "DI db" "state js a = Some x"
  shows "ok (\<lambda>(r, js', db'). exact.steps js js' \<and> DI db' \<and>
      (\<forall>v cold. r = Inr (v, cold) \<longrightarrow> (\<exists>x' slot. state js' a = Some x' \<and> storage x' k = Some slot \<and> present_value slot = v)))
    (sload D a k js db)"
proof (cases "storage x k")
  case (Some slot)
  then show ?thesis using assms by (simp add: sload_def get_acc_def exact.steps_refl)
next
  case None
  obtain r db1 where q: "(if storage_cleared x then (Inr 0, db) else db_storage D db a k) = (r, db1)" by fastforce
  then have d: "DI db1" using assms(2) storage_ok by (auto split: if_splits)
  have "exact.steps js (js\<lparr>state := (state js)(a \<mapsto> x\<lparr>storage := (storage x)(k \<mapsto> StorageSlot_new v)\<rparr>),
      journal := appended (journal js) [StorageChange a k None] []\<rparr>)" for v
    using assms None
    by (intro exact.steps_entries [where s = "state js"])
       (auto simp: on_acc_def fun_upd_idem intro!: codes_kept_upd(2))
  then show ?thesis using assms None d
    by (cases r) (auto simp: sload_def get_acc_def put_acc_def q exact.steps_refl StorageSlot_new_def)
qed

lemma sstore_steps:
  assumes "journal js \<noteq> []" "DI db" "state js a = Some x"
  shows "ok (\<lambda>(r, js', db'). exact.steps js js' \<and> DI db') (sstore D a k new js db)"
proof -
  obtain r js1 db1 where 1: "sload D a k js db = Val (r, js1, db1)" "exact.steps js js1" "DI db1"
    "\<And>v cold. r = Inr (v, cold) \<Longrightarrow>
      \<exists>x' slot. state js1 a = Some x' \<and> storage x' k = Some slot \<and> present_value slot = v"
    using sload_steps [OF assms, of k] by (auto simp: ok_iff)
  show ?thesis
  proof (cases r)
    case (Inl e)
    then show ?thesis using 1 by (simp add: sstore_def)
  next
    case (Inr p)
    obtain v cold where p: "p = (v, cold)" by fastforce
    obtain x1 slot where x1: "state js1 a = Some x1" "storage x1 k = Some slot" "present_value slot = v"
      using 1(4) Inr p by blast
    have "exact.steps js1 (js1\<lparr>state := (state js1)(a \<mapsto> x1\<lparr>storage := (storage x1)(k \<mapsto> slot\<lparr>present_value := new\<rparr>)\<rparr>),
        journal := appended (journal js1) [StorageChange a k (Some v)] []\<rparr>)"
      using x1 exact.steps_journal [OF 1(2)]
      by (intro exact.steps_entries [where s = "state js1"])
         (auto simp: on_acc_def fun_upd_idem intro!: codes_kept_upd(2))
    then show ?thesis using 1 Inr p x1 exact.steps_journal [OF 1(2)] exact.steps_trans [OF 1(2)]
      by (auto simp: sstore_def get_acc_def put_acc_def)
  qed
qed

lemma create_account_steps:
  assumes "journal js \<noteq> []" "DI db"
  shows "ok (\<lambda>(r, js', db'). shape.steps js js' \<and> DI db' \<and> (r = Inr True \<longrightarrow> a \<in> dom (state js')))
    (create_account D a precompile js db)"
proof -
  obtain r js1 db1 where 1: "load_code D a js db = Val (r, js1, db1)" "exact.steps js js1" "DI db1"
    "\<And>cold. r = Inr cold \<Longrightarrow> \<exists>acc c. state js1 a = Some acc \<and> code (info acc) = Some c"
    using load_code_steps [OF assms, of a] by (auto simp: ok_iff)
  note s1 = exact_steps_shape [OF 1(2)] and j1 = exact.steps_journal [OF 1(2)]
  show ?thesis
  proof (cases r)
    case (Inl e)
    then show ?thesis using 1 s1 by (simp add: create_account_def)
  next
    case (Inr cold)
    then obtain x where x: "state js1 a = Some x" using 1(4) by blast
    let ?x = "x\<lparr>storage_cleared := True, storage := (\<lambda>k. map_option (\<lambda>_. \<lparr>original_value = 0, present_value = 0\<rparr>) (storage x k)),
      info := (info x)\<lparr>code_hash := KECCAK_EMPTY, code := None\<rparr>\<rparr>"
    have d: "dom (storage x) = dom (storage ?x)" by auto
    have "shape.steps js1 (js1\<lparr>state := (state js1)(a \<mapsto> ?x)\<rparr>)"
      using j1 x d by (intro shape.steps_quiet shape_restores_upd codes_kept_upd(1)) (auto simp: acc_ok_def)
    moreover have "shape.steps js1 (js1\<lparr>state := (state js1)(a \<mapsto> ?x\<lparr>is_touched := True\<rparr>),
        journal := appended (journal js1) [AccountTouched a] []\<rparr>)"
      using j1 x d
      by (intro shape.steps_entries [where s = "(state js1)(a \<mapsto>
            (if dragon js1 \<and> a = PRECOMPILE3 then ?x\<lparr>is_touched := True\<rparr> else ?x\<lparr>is_touched := False\<rparr>))"])
         (auto simp: on_acc_def acc_ok_def intro!: codes_kept_upd(1) shape_restores_upd)
    ultimately show ?thesis using 1 Inr x j1 s1 shape.steps_trans [OF s1]
      by (auto simp: create_account_def get_acc_def put_acc_def Let_def split: option.split)
  qed
qed

end

section \<open>Runs of operations\<close>

text \<open>
  A run of the journaled state as the EVM drives it: an account is loaded before it is used, a nested
  frame is a checkpoint, its operations, and a commit or a revert. \<open>exec\<close> also tells whether some
  transfer failed with \<open>OverflowPayment\<close>, after which the sender stays debited.
\<close>

datatype jop =
  Load B160 | Load_code B160 | Load_exist B160 | Touch B160 | Inc_nonce B160
| Transfer_op B160 B160 U256 | Selfdestruct_op B160 B160 | Sload_op B160 U256 | Sstore_op B160 U256 U256
| Log_op Log | Nested "jop list" bool

definition after_load ::
  "('db, 'e) db_ops \<Rightarrow> B160 \<Rightarrow> (JournaledState \<Rightarrow> 'db \<Rightarrow> (bool \<times> JournaledState \<times> 'db) comp) \<Rightarrow>
     JournaledState \<Rightarrow> 'db \<Rightarrow> (bool \<times> JournaledState \<times> 'db) comp" where
  "after_load D a f js db =
     bind_comp (load_account D a js db) (\<lambda>(r, js, db). case r of Inl _ \<Rightarrow> Val (True, js, db) | Inr _ \<Rightarrow> f js db)"

fun exec :: "('db, 'e) db_ops \<Rightarrow> jop \<Rightarrow> JournaledState \<Rightarrow> 'db \<Rightarrow> (bool \<times> JournaledState \<times> 'db) comp"
and execs :: "('db, 'e) db_ops \<Rightarrow> jop list \<Rightarrow> JournaledState \<Rightarrow> 'db \<Rightarrow> (bool \<times> JournaledState \<times> 'db) comp" where
  "exec D (Load a) js db = after_load D a (\<lambda>js db. Val (True, js, db)) js db"
| "exec D (Load_code a) js db = bind_comp (load_code D a js db) (\<lambda>(_, js, db). Val (True, js, db))"
| "exec D (Load_exist a) js db = bind_comp (load_account_exist D a js db) (\<lambda>(_, js, db). Val (True, js, db))"
| "exec D (Touch a) js db = bind_comp (touch a js) (\<lambda>js. Val (True, js, db))"
| "exec D (Inc_nonce a) js db =
     after_load D a (\<lambda>js db. bind_comp (inc_nonce a js) (\<lambda>(_, js). Val (True, js, db))) js db"
| "exec D (Transfer_op a b v) js db =
     bind_comp (transfer D a b v js db) (\<lambda>(r, js, db). Val (r \<noteq> Inl OverflowPayment, js, db))"
| "exec D (Selfdestruct_op a b) js db =
     after_load D a (\<lambda>js db. bind_comp (selfdestruct D a b js db) (\<lambda>(_, js, db). Val (True, js, db))) js db"
| "exec D (Sload_op a k) js db =
     after_load D a (\<lambda>js db. bind_comp (sload D a k js db) (\<lambda>(_, js, db). Val (True, js, db))) js db"
| "exec D (Sstore_op a k v) js db =
     after_load D a (\<lambda>js db. bind_comp (sstore D a k v js db) (\<lambda>(_, js, db). Val (True, js, db))) js db"
| "exec D (Log_op l) js db = Val (True, log l js, db)"
| "exec D (Nested ops commit) js db =
     (let (cp, js) = checkpoint js in
      bind_comp (execs D ops js db) (\<lambda>(b, js, db).
        if commit then Val (b, checkpoint_commit js, db)
        else bind_comp (checkpoint_revert cp js) (\<lambda>js. Val (b, js, db))))"
| "execs D [] js db = Val (True, js, db)"
| "execs D (op # ops) js db =
     bind_comp (exec D op js db) (\<lambda>(b, js, db).
     bind_comp (execs D ops js db) (\<lambda>(c, js, db). Val (b \<and> c, js, db)))"

context database
begin

definition exec_post :: "JournaledState \<Rightarrow> bool \<times> JournaledState \<times> 'db \<Rightarrow> bool" where
  "exec_post js = (\<lambda>(b, js', db'). shape.steps js js' \<and> (b \<longrightarrow> exact.steps js js') \<and> DI db')"

lemma exec_post_exact: "exact.steps js js' \<Longrightarrow> DI db' \<Longrightarrow> exec_post js (b, js', db')"
  using exact_steps_shape by (auto simp: exec_post_def)

lemma after_load_post:
  assumes "journal js \<noteq> []" "DI db"
    and "\<And>js db x. journal js \<noteq> [] \<Longrightarrow> DI db \<Longrightarrow> state js a = Some x \<Longrightarrow> ok (\<lambda>(_, js', db'). exact.steps js js' \<and> DI db') (f js db)"
  shows "ok (exec_post js) (after_load D a f js db)"
proof -
  obtain r js1 db1 where 1: "load_account D a js db = Val (r, js1, db1)" "exact.steps js js1" "DI db1"
    "\<And>c. r = Inr c \<Longrightarrow> a \<in> dom (state js1)"
    using load_account_steps [OF assms(1,2), of a] by (auto simp: ok_iff)
  show ?thesis
  proof (cases r)
    case (Inr c)
    then obtain x where "state js1 a = Some x" using 1(4) by blast
    from assms(3) [OF exact.steps_journal [OF 1(2)] 1(3) this] show ?thesis
      using 1 Inr exact.steps_trans [OF 1(2)]
      by (auto simp: after_load_def ok_iff intro!: exec_post_exact)
  qed (use 1 in \<open>auto simp: after_load_def intro!: exec_post_exact\<close>)
qed

lemma exec_steps_gen:
  "D' = D \<Longrightarrow> journal js \<noteq> [] \<Longrightarrow> DI db \<Longrightarrow> ok (exec_post js) (exec D' op js db)"
  "D' = D \<Longrightarrow> journal js \<noteq> [] \<Longrightarrow> DI db \<Longrightarrow> ok (exec_post js) (execs D' ops js db)"
proof (induction D' op js db and D' ops js db rule: exec_execs.induct)
  case (1 D' a js db)
  then show ?case by (auto intro!: after_load_post exact.steps_refl)
next
  case (2 D' a js db)
  then show ?case using load_code_steps [of js db a] by (auto elim!: ok_mono intro!: exec_post_exact)
next
  case (3 D' a js db)
  then show ?case using load_account_exist_steps [of js db a] by (auto elim!: ok_mono intro!: exec_post_exact)
next
  case (4 D' a js db)
  then show ?case using touch_steps [of js a] by (auto elim!: ok_mono intro!: exec_post_exact)
next
  case (5 D' a js db)
  then show ?case by (auto intro!: after_load_post ok_mono [OF inc_nonce_keeps])
next
  case (6 D' a b v js db)
  then show ?case using transfer_steps [of js db a b v] by (auto elim!: ok_mono simp: exec_post_def)
next
  case (7 D' a b js db)
  then show ?case
    by (auto intro!: after_load_post ok_mono [OF selfdestruct_steps])
next
  case (8 D' a k js db)
  then show ?case by (auto intro!: after_load_post ok_mono [OF sload_steps])
next
  case (9 D' a k v js db)
  then show ?case by (auto intro!: after_load_post ok_mono [OF sstore_steps])
next
  case (10 D' l js db)
  then show ?case by (simp add: exec_post_exact log_steps)
next
  case (11 D' ops commit js db)
  obtain cp js1 where c: "checkpoint js = (cp, js1)" by fastforce
  then have "journal js1 \<noteq> []" by (auto simp: checkpoint_def)
  then obtain b js2 db2 where e: "execs D ops js1 db = Val (b, js2, db2)"
    and p: "shape.steps js1 js2" "b \<Longrightarrow> exact.steps js1 js2" "DI db2"
    using 11(1) [OF c [symmetric] refl 11(2)] 11(2,4) by (auto simp: ok_iff exec_post_def)
  show ?case
    using 11 c e p shape.checkpoint_commit_steps [OF c 11(3) p(1)] exact.checkpoint_commit_steps [OF c 11(3) p(2)]
      shape.checkpoint_revert_steps [OF c 11(3) p(1)] exact.checkpoint_revert_steps [OF c 11(3) p(2)]
    by (auto simp: exec_post_def ok_iff)
next
  case (12 D' js db)
  then show ?case by (simp add: exec_post_exact exact.steps_refl)
next
  case (13 D' op ops js db)
  then obtain b js1 db1 where 1: "exec D op js db = Val (b, js1, db1)"
    and p: "shape.steps js js1" "b \<Longrightarrow> exact.steps js js1" "DI db1"
    by (auto simp: ok_iff exec_post_def)
  then obtain c js2 db2 where 2: "execs D ops js1 db1 = Val (c, js2, db2)"
    and q: "shape.steps js1 js2" "c \<Longrightarrow> exact.steps js1 js2" "DI db2"
    using 13(2) [OF 13(3), of js1 db1] 13(3) shape.steps_journal [OF p(1)]
    by (auto simp: ok_iff exec_post_def)
  show ?case using 1 2 p q 13(3) shape.steps_trans [OF p(1) q(1)] exact.steps_trans [of js js1 js2]
    by (auto simp: exec_post_def)
qed

lemmas exec_steps = exec_steps_gen [OF refl]

lemma nested_revert_undoes:
  assumes "journal js \<noteq> []" "DI db"
  shows "ok (\<lambda>(b, js', db'). journal js' = journal js \<and> logs js' = logs js \<and> depth js' = depth js \<and>
      (b \<longrightarrow> exact.restores (state js) (state js'))) (exec D (Nested ops False) js db)"
proof -
  obtain cp js1 where c: "checkpoint js = (cp, js1)" by fastforce
  then have "journal js1 \<noteq> []" by (auto simp: checkpoint_def)
  then obtain b js2 db2 where e: "execs D ops js1 db = Val (b, js2, db2)"
    and p: "shape.steps js1 js2" "b \<Longrightarrow> exact.steps js1 js2" "DI db2"
    using exec_steps(2) [of js1 db ops] assms by (auto simp: ok_iff exec_post_def)
  obtain js3 where 3: "checkpoint_revert cp js2 = Val js3" "journal js3 = journal js" "logs js3 = logs js"
    "shape.steps js js3"
    using shape.checkpoint_revert_steps [OF c assms(1) p(1)] by (auto simp: ok_iff)
  moreover have "exact.restores (state js) (state js3)" if b
    using exact.checkpoint_revert_steps [OF c assms(1) p(2) [OF that]] 3(1) by simp
  ultimately show ?thesis using c e shape.steps_same [OF 3(4)] by simp
qed

end

end
