(* ===== verification/Precompiles.thy ===== *)
theory Precompiles
  imports Environment "HOL-Library.AList"
begin

text \<open>
  The precompiled contracts with code of their own in \<open>crates/precompile/src\<close>: the linear price, the
  identity (\<open>identity.rs\<close>), the hash wrappers (\<open>hash.rs\<close>), key recovery (\<open>secp256k1.rs\<close>), the BLAKE2
  compression (\<open>blake2.rs\<close>) and the patched administration contract (\<open>admin.rs\<close>, with the kinds of
  \<open>crates/primitives/src/lib.rs\<close>). The digests, the recovery of a public key and the number and curve
  libraries are crates outside the repository and come as the fields of \<open>Crypto\<close>.

  The administration contract keeps two mutable statics, and can send its own process a signal: they
  form the record \<open>Admin\<close>, which is passed through. A write outside the buffer that it allocates is a
  \<open>Panic\<close>, as is an index out of range.
\<close>

datatype PrecompileError =
  PE_OutOfGas | Blake2WrongLength | Blake2WrongFinalIndicatorFlag | ModexpExpOverflow
| ModexpBaseOverflow | ModexpModOverflow | Bn128FieldPointNotAMember | Bn128AffineGFailedToCreate
| Bn128PairLength | EnterpriseHalt

type_synonym PrecompileResult = "PrecompileError + u64 \<times> bytes"

record Crypto =
  lib_sha256 :: "bytes \<Rightarrow> bytes"
  lib_ripemd160 :: "bytes \<Rightarrow> bytes"
  lib_recover :: "bytes \<Rightarrow> u8 \<Rightarrow> bytes \<Rightarrow> bytes option"

definition calc_linear_cost_u32 :: "usize \<Rightarrow> u64 \<Rightarrow> u64 \<Rightarrow> u64" where
  "calc_linear_cost_u32 len base word = (len + 32 - 1) div 32 * word + base"

section \<open>Identity and hashes\<close>

definition identity_run :: "bytes \<Rightarrow> u64 \<Rightarrow> PrecompileResult" where
  "identity_run input gas_limit =
     (let gas_used = calc_linear_cost_u32 (of_nat (length input)) 15 3 in
      if gas_used > gas_limit then Inl PE_OutOfGas else Inr (gas_used, input))"

definition sha256_run :: "Crypto \<Rightarrow> bytes \<Rightarrow> u64 \<Rightarrow> PrecompileResult" where
  "sha256_run K input gas_limit =
     (let cost = calc_linear_cost_u32 (of_nat (length input)) 60 12 in
      if cost > gas_limit then Inl PE_OutOfGas else Inr (cost, lib_sha256 K input))"

definition ripemd160_run :: "Crypto \<Rightarrow> bytes \<Rightarrow> u64 \<Rightarrow> PrecompileResult" where
  "ripemd160_run K input gas_limit =
     (let gas_used = calc_linear_cost_u32 (of_nat (length input)) 600 120 in
      if gas_used > gas_limit then Inl PE_OutOfGas
      else Inr (gas_used, replicate 12 0 @ lib_ripemd160 K input))"

section \<open>Key recovery\<close>

definition ecrecover :: "Libs \<Rightarrow> Crypto \<Rightarrow> bytes \<Rightarrow> bytes \<Rightarrow> bytes option" where
  "ecrecover L K sig msg =
     (case lib_recover K (take 64 sig) (sig ! 64) msg of
        None \<Rightarrow> None
      | Some public_key \<Rightarrow>
          (let hash = to_be_bytes 32 (lib_keccak256 L (drop 1 public_key)) in
           Some (replicate 12 0 @ drop 12 hash)))"

definition ec_recover_run :: "Libs \<Rightarrow> Crypto \<Rightarrow> bytes \<Rightarrow> u64 \<Rightarrow> PrecompileResult" where
  "ec_recover_run L K i target_gas =
     (if 3000 > target_gas then Inl PE_OutOfGas
      else
        (let n = min (length i) 128;
             input = take n i @ replicate (128 - n) 0;
             msg = slice 0 32 input;
             sig = slice 64 32 input @ slice 96 32 input in
         if slice 32 31 input \<noteq> replicate 31 0 \<or> \<not> (input ! 63 = 27 \<or> input ! 63 = 28)
         then Inr (3000, [])
         else
           (let sig = sig @ [input ! 63 - 27];
                out = (case ecrecover L K sig msg of Some h \<Rightarrow> h | None \<Rightarrow> []) in
            Inr (3000, out))))"

section \<open>BLAKE2 compression\<close>

definition BLAKE2_SIGMA :: "nat list list" where
  "BLAKE2_SIGMA =
     [ [0, 1, 2, 3, 4, 5, 6, 7, 8, 9, 10, 11, 12, 13, 14, 15],
      [14, 10, 4, 8, 9, 15, 13, 6, 1, 12, 0, 2, 11, 7, 5, 3],
      [11, 8, 12, 0, 5, 2, 15, 13, 10, 14, 3, 6, 7, 1, 9, 4],
      [7, 9, 3, 1, 13, 12, 11, 14, 2, 6, 5, 10, 4, 0, 15, 8],
      [9, 0, 5, 7, 2, 4, 10, 15, 14, 1, 11, 12, 6, 8, 3, 13],
      [2, 12, 6, 10, 0, 11, 8, 3, 4, 13, 7, 5, 15, 14, 1, 9],
      [12, 5, 1, 15, 14, 13, 4, 10, 0, 7, 6, 3, 9, 2, 8, 11],
      [13, 11, 7, 14, 12, 1, 3, 9, 5, 0, 15, 4, 8, 6, 2, 10],
      [6, 15, 14, 9, 11, 3, 0, 8, 12, 2, 13, 7, 1, 4, 10, 5],
      [10, 2, 8, 4, 7, 6, 1, 5, 15, 11, 9, 14, 3, 12, 13, 0] ]"

definition IV :: "u64 list" where
  "IV =
     [0x6a09e667f3bcc908, 0xbb67ae8584caa73b, 0x3c6ef372fe94f82b, 0xa54ff53a5f1d36f1,
      0x510e527fade682d1, 0x9b05688c2b3e6c1f, 0x1f83d9abfb41bd6b, 0x5be0cd19137e2179]"

text \<open>The indices of \<open>g\<close> are constants below 16, and \<open>v\<close> has 16 words.\<close>

definition g :: "nat \<Rightarrow> nat \<Rightarrow> nat \<Rightarrow> nat \<Rightarrow> u64 \<Rightarrow> u64 \<Rightarrow> u64 list \<Rightarrow> u64 list" where
  "g a b c d x y v =
     (let v = v[a := v ! a + v ! b + x];
          v = v[d := word_rotr 32 (v ! d XOR v ! a)];
          v = v[c := v ! c + v ! d];
          v = v[b := word_rotr 24 (v ! b XOR v ! c)];
          v = v[a := v ! a + v ! b + y];
          v = v[d := word_rotr 16 (v ! d XOR v ! a)];
          v = v[c := v ! c + v ! d];
          v = v[b := word_rotr 63 (v ! b XOR v ! c)] in
      v)"

definition round_v :: "nat \<Rightarrow> u64 list \<Rightarrow> u64 list \<Rightarrow> u64 list" where
  "round_v i m v =
     (let s = BLAKE2_SIGMA ! (i mod 10);
          v = g 0 4 8 12 (m ! (s ! 0)) (m ! (s ! 1)) v;
          v = g 1 5 9 13 (m ! (s ! 2)) (m ! (s ! 3)) v;
          v = g 2 6 10 14 (m ! (s ! 4)) (m ! (s ! 5)) v;
          v = g 3 7 11 15 (m ! (s ! 6)) (m ! (s ! 7)) v;
          v = g 0 5 10 15 (m ! (s ! 8)) (m ! (s ! 9)) v;
          v = g 1 6 11 12 (m ! (s ! 10)) (m ! (s ! 11)) v;
          v = g 2 7 8 13 (m ! (s ! 12)) (m ! (s ! 13)) v;
          v = g 3 4 9 14 (m ! (s ! 14)) (m ! (s ! 15)) v in
      v)"

fun rounds_v :: "nat \<Rightarrow> nat \<Rightarrow> u64 list \<Rightarrow> u64 list \<Rightarrow> u64 list" where
  "rounds_v 0 i m v = v"
| "rounds_v (Suc n) i m v = rounds_v n (i + 1) m (round_v i m v)"

definition compress :: "nat \<Rightarrow> u64 list \<Rightarrow> u64 list \<Rightarrow> u64 \<Rightarrow> u64 \<Rightarrow> bool \<Rightarrow> u64 list" where
  "compress rounds h m t0 t1 f =
     (let v = h @ IV;
          v = v[12 := v ! 12 XOR t0];
          v = v[13 := v ! 13 XOR t1];
          v = (if f then v[14 := NOT (v ! 14)] else v);
          v = rounds_v rounds 0 m v in
      map (\<lambda>i. h ! i XOR (v ! i XOR v ! (i + 8))) [0..<8])"

definition blake2_run :: "bytes \<Rightarrow> u64 \<Rightarrow> PrecompileResult" where
  "blake2_run input gas_limit =
     (if length input \<noteq> 213 then Inl Blake2WrongLength
      else if input ! 212 \<noteq> 1 \<and> input ! 212 \<noteq> 0 then Inl Blake2WrongFinalIndicatorFlag
      else
        (let f = (input ! 212 = 1);
             rounds = unat (from_be_bytes (take 4 input) :: u32);
             gas_used = of_nat rounds * 1 in
         if gas_used > gas_limit then Inl PE_OutOfGas
         else
           (let h = map (\<lambda>i. from_le_bytes (slice (4 + 8 * i) 8 input)) [0..<8];
                m = map (\<lambda>i. from_le_bytes (slice (68 + 8 * i) 8 input)) [0..<16];
                t0 = from_le_bytes (slice 196 8 input);
                t1 = from_le_bytes (slice 204 8 input);
                h = compress rounds h m t0 t1 f;
                out = concat (map (to_le_bytes 8) h) in
            Inr (gas_used, out))))"

section \<open>Administration\<close>

datatype ConfigKind = MultisigAddress | RequiredGas | SetBalance | DumpState | ConfigKind_Unknown

definition ConfigKind_from_u8 :: "u8 \<Rightarrow> ConfigKind" where
  "ConfigKind_from_u8 v =
     (if v = 1 then MultisigAddress else if v = 2 then RequiredGas else if v = 3 then SetBalance
      else if v = 4 then DumpState else ConfigKind_Unknown)"

datatype AdminCallKind = EmergencyStop | ReloadRuntimeConfig | Mint | Burn | AdminCallKind_Unknown

definition AdminCallKind_from_u8 :: "u8 \<Rightarrow> AdminCallKind" where
  "AdminCallKind_from_u8 v =
     (if v = 1 then EmergencyStop else if v = 2 then ReloadRuntimeConfig else if v = 3 then Mint
      else if v = 4 then Burn else AdminCallKind_Unknown)"

record Admin =
  MULTISIG :: B160
  REQUIRED_GAS :: u64
  sigterm_sent :: bool

definition Admin_init :: Admin where
  "Admin_init = \<lparr> MULTISIG = 0x31337, REQUIRED_GAS = 2000, sigterm_sent = False \<rparr>"

definition is_multisig :: "CallContext \<Rightarrow> Admin \<Rightarrow> bool" where
  "is_multisig context s \<longleftrightarrow> ctx_caller context = MULTISIG s \<and> ctx_scheme context = CallScheme_StaticCall"

definition fn_emergency_stop :: "Admin \<Rightarrow> (u64 \<times> Admin) comp" where
  "fn_emergency_stop s = Val (0, s\<lparr>sigterm_sent := True\<rparr>)"

definition fn_reload_multisig_address :: "bytes \<Rightarrow> Admin \<Rightarrow> (u64 \<times> Admin) comp" where
  "fn_reload_multisig_address x s =
     (if length x \<noteq> 20 then Panic else Val (0, s\<lparr>MULTISIG := from_be_bytes x\<rparr>))"

definition fn_reload_required_gas :: "bytes \<Rightarrow> Admin \<Rightarrow> (u64 \<times> Admin) comp" where
  "fn_reload_required_gas x s =
     (if length x \<noteq> 8 then Panic else Val (0, s\<lparr>REQUIRED_GAS := from_be_bytes x\<rparr>))"

definition fn_set_balance :: "bytes \<Rightarrow> Admin \<Rightarrow> (u64 \<times> Admin) comp" where
  "fn_set_balance x s = Val (0, s)"

text \<open>
  The loop of \<open>fn_dump_state\<close>: \<open>states\<close> points to \<open>0x100\<close> bytes and has elements of 16 bytes, each
  iteration reads \<open>x[i]\<close> and fills element \<open>i\<close> with it, and the loop runs while
  \<open>i <= x.len() && i <= 0x10\<close>. What follows it opens a file, writes the slice that the buffer's first
  element denotes, and frees the buffer; it is the argument \<open>rest\<close>.
\<close>

function dump_loop :: "bytes \<Rightarrow> nat \<Rightarrow> bytes \<Rightarrow> (bytes \<Rightarrow> 'a comp) \<Rightarrow> 'a comp" where
  "dump_loop x i states rest =
     (if i \<le> length x \<and> i \<le> 0x10 then
        if length x \<le> i then Panic
        else if length states < 16 * i + 16 then Panic
        else dump_loop x (i + 1) (splice (16 * i) (replicate 16 (x ! i)) states) rest
      else rest states)"
  by pat_completeness auto
termination by (relation "measure (\<lambda>(x, i, states, rest). 17 - i)") auto

declare dump_loop.simps [simp del]

definition fn_dump_state :: "(bytes \<Rightarrow> unit comp) \<Rightarrow> bytes \<Rightarrow> Admin \<Rightarrow> (u64 \<times> Admin) comp" where
  "fn_dump_state write_file x s =
     dump_loop x 0 (replicate 0x100 0) (\<lambda>states. bind_comp (write_file states) (\<lambda>_. Val (0, s)))"

definition fn_reload_runtime_config :: "(bytes \<Rightarrow> unit comp) \<Rightarrow> bytes \<Rightarrow> Admin \<Rightarrow> (u64 \<times> Admin) comp" where
  "fn_reload_runtime_config write_file rest s =
     (if length rest = 0 then Val (1, s)
      else
        (case ConfigKind_from_u8 (rest ! 0) of
           MultisigAddress \<Rightarrow> fn_reload_multisig_address (drop 1 rest) s
         | RequiredGas \<Rightarrow> fn_reload_required_gas (drop 1 rest) s
         | SetBalance \<Rightarrow> fn_set_balance (drop 1 rest) s
         | DumpState \<Rightarrow> fn_dump_state write_file (drop 1 rest) s
         | ConfigKind_Unknown \<Rightarrow> Val (1, s)))"

definition fn_mint :: "Admin \<Rightarrow> (u64 \<times> Admin) comp" where
  "fn_mint s = Val (0, s)"

definition fn_burn :: "Admin \<Rightarrow> (u64 \<times> Admin) comp" where
  "fn_burn s = Val (0, s)"

definition admin_func_run ::
  "(bytes \<Rightarrow> unit comp) \<Rightarrow> bytes \<Rightarrow> u64 \<Rightarrow> CallContext \<Rightarrow> Admin \<Rightarrow> (PrecompileResult \<times> Admin) comp" where
  "admin_func_run write_file i target_gas context s =
     (let gas_base = REQUIRED_GAS s in
      if gas_base \<noteq> target_gas then Val (Inl PE_OutOfGas, s)
      else if length i = 0 \<or> \<not> is_multisig context s then Val (Inl EnterpriseHalt, s)
      else
        bind_comp
          (case AdminCallKind_from_u8 (i ! 0) of
             EmergencyStop \<Rightarrow> fn_emergency_stop s
           | ReloadRuntimeConfig \<Rightarrow> fn_reload_runtime_config write_file (drop 1 i) s
           | Mint \<Rightarrow> fn_mint s
           | Burn \<Rightarrow> fn_burn s
           | AdminCallKind_Unknown \<Rightarrow> Val (u64_MAX, s))
          (\<lambda>(out, s).
            Val (if out = 0 then Inr (gas_base, [0])
                 else if out = 1 then Inr (gas_base, [1])
                 else Inl EnterpriseHalt, s)))"

end
