(* ===== verification/Bn128.thy ===== *)
theory Bn128
  imports Precompiles
begin

text \<open>
  The pairing-curve contracts, \<open>crates/precompile/src/bn128.rs\<close>. The field, group and pairing
  arithmetic is the crate \<open>bn\<close>; what the code calls of it is the record \<open>bn_ops\<close> over the crate's
  types: field elements \<open>'fq\<close>, scalars \<open>'fr\<close>, points \<open>'g1\<close> and \<open>'g2\<close>, quadratic field elements
  \<open>'fq2\<close> and pairing values \<open>'gt\<close>. A failing constructor returns \<open>None\<close>.
\<close>

record ('fq, 'fr, 'g1, 'fq2, 'g2, 'gt) bn_ops =
  fq_from_slice :: "bytes \<Rightarrow> 'fq option"
  fq_zero :: 'fq
  fq_is_zero :: "'fq \<Rightarrow> bool"
  fq_to_big_endian :: "'fq \<Rightarrow> bytes"
  fr_from_slice :: "bytes \<Rightarrow> 'fr option"
  g1_zero :: 'g1
  g1_new :: "'fq \<Rightarrow> 'fq \<Rightarrow> 'g1 option"
  g1_add :: "'g1 \<Rightarrow> 'g1 \<Rightarrow> 'g1"
  g1_mul :: "'g1 \<Rightarrow> 'fr \<Rightarrow> 'g1"
  g1_from_jacobian :: "'g1 \<Rightarrow> ('fq \<times> 'fq) option"
  fq2_new :: "'fq \<Rightarrow> 'fq \<Rightarrow> 'fq2"
  fq2_is_zero :: "'fq2 \<Rightarrow> bool"
  g2_zero :: 'g2
  g2_new :: "'fq2 \<Rightarrow> 'fq2 \<Rightarrow> 'g2 option"
  pairing :: "'g1 \<Rightarrow> 'g2 \<Rightarrow> 'gt"
  gt_one :: 'gt
  gt_mul :: "'gt \<Rightarrow> 'gt \<Rightarrow> 'gt"

text \<open>\<open>r.map_err(|_| e)?\<close> and the \<open>?\<close> operator.\<close>

definition or_err :: "PrecompileError \<Rightarrow> 'a option \<Rightarrow> ('a \<Rightarrow> PrecompileError + 'b) \<Rightarrow> PrecompileError + 'b" where
  "or_err e r k = (case r of None \<Rightarrow> Inl e | Some x \<Rightarrow> k x)"

definition propagate :: "PrecompileError + 'a \<Rightarrow> ('a \<Rightarrow> PrecompileError + 'b) \<Rightarrow> PrecompileError + 'b" where
  "propagate r k = (case r of Inl e \<Rightarrow> Inl e | Inr x \<Rightarrow> k x)"

definition resize :: "nat \<Rightarrow> bytes \<Rightarrow> bytes" where
  "resize n input = take n input @ replicate (n - length input) 0"

definition read_point :: "('fq, 'fr, 'g1, 'fq2, 'g2, 'gt) bn_ops \<Rightarrow> bytes \<Rightarrow> nat \<Rightarrow> PrecompileError + 'g1" where
  "read_point N input pos =
     or_err Bn128FieldPointNotAMember (fq_from_slice N (slice pos 32 input)) (\<lambda>px.
     or_err Bn128FieldPointNotAMember (fq_from_slice N (slice (pos + 32) 32 input)) (\<lambda>py.
     if px = fq_zero N \<and> py = fq_zero N then Inr (g1_zero N)
     else or_err Bn128AffineGFailedToCreate (g1_new N px py) Inr))"

definition point_bytes :: "('fq, 'fr, 'g1, 'fq2, 'g2, 'gt) bn_ops \<Rightarrow> 'g1 \<Rightarrow> bytes" where
  "point_bytes N p =
     (case g1_from_jacobian N p of
        Some (x, y) \<Rightarrow> fq_to_big_endian N x @ fq_to_big_endian N y
      | None \<Rightarrow> replicate 64 0)"

definition run_add :: "('fq, 'fr, 'g1, 'fq2, 'g2, 'gt) bn_ops \<Rightarrow> bytes \<Rightarrow> PrecompileError + bytes" where
  "run_add N input =
     (let input = resize 128 input in
      propagate (read_point N input 0) (\<lambda>p1.
      propagate (read_point N input 64) (\<lambda>p2.
      Inr (point_bytes N (g1_add N p1 p2)))))"

text \<open>\<open>Fr::from_slice(..).unwrap()\<close> panics on \<open>None\<close>.\<close>

definition run_mul :: "('fq, 'fr, 'g1, 'fq2, 'g2, 'gt) bn_ops \<Rightarrow> bytes \<Rightarrow> (PrecompileError + bytes) comp" where
  "run_mul N input =
     (let input = resize 128 input in
      case read_point N input 0 of
        Inl e \<Rightarrow> Val (Inl e)
      | Inr p \<Rightarrow>
          bind_comp (unwrap (fr_from_slice N (slice 64 32 input))) (\<lambda>fr.
            Val (Inr (point_bytes N (g1_mul N p fr)))))"

text \<open>One iteration of the loop of \<open>run_pair\<close>, and the loop.\<close>

definition read_pair ::
  "('fq, 'fr, 'g1, 'fq2, 'g2, 'gt) bn_ops \<Rightarrow> bytes \<Rightarrow> nat \<Rightarrow> PrecompileError + 'g1 \<times> 'g2" where
  "read_pair N input idx =
     (let fq = (\<lambda>off. or_err Bn128FieldPointNotAMember (fq_from_slice N (slice (idx * 192 + off) 32 input))) in
      fq 0 (\<lambda>ax. fq 32 (\<lambda>ay. fq 64 (\<lambda>bay. fq 96 (\<lambda>bax. fq 128 (\<lambda>bby. fq 160 (\<lambda>bbx.
      propagate
        (if fq_is_zero N ax \<and> fq_is_zero N ay then Inr (g1_zero N)
         else or_err Bn128AffineGFailedToCreate (g1_new N ax ay) Inr) (\<lambda>a.
      propagate
        (let ba = fq2_new N bax bay; bb = fq2_new N bbx bby in
         if fq2_is_zero N ba \<and> fq2_is_zero N bb then Inr (g2_zero N)
         else or_err Bn128AffineGFailedToCreate (g2_new N ba bb) Inr) (\<lambda>b.
      Inr (a, b))))))))))"

fun read_pairs ::
  "('fq, 'fr, 'g1, 'fq2, 'g2, 'gt) bn_ops \<Rightarrow> bytes \<Rightarrow> nat \<Rightarrow> nat \<Rightarrow> PrecompileError + ('g1 \<times> 'g2) list" where
  "read_pairs N input idx 0 = Inr []"
| "read_pairs N input idx (Suc n) =
     propagate (read_pair N input idx) (\<lambda>p.
     propagate (read_pairs N input (idx + 1) n) (\<lambda>ps. Inr (p # ps)))"

definition run_pair ::
  "('fq, 'fr, 'g1, 'fq2, 'g2, 'gt) bn_ops \<Rightarrow> bytes \<Rightarrow> u64 \<Rightarrow> u64 \<Rightarrow> u64 \<Rightarrow> PrecompileResult" where
  "run_pair N input pair_per_point_cost pair_base_cost gas_limit =
     (let gas_used = pair_per_point_cost * of_nat (length input) div 192 + pair_base_cost in
      if gas_used > gas_limit then Inl PE_OutOfGas
      else if length input mod 192 \<noteq> 0 then Inl Bn128PairLength
      else if input = [] then Inr (gas_used, to_be_bytes 32 (1 :: U256))
      else
        propagate (read_pairs N input 0 (length input div 192)) (\<lambda>vals.
          let mul = foldl (\<lambda>s (a, b). gt_mul N s (pairing N a b)) (gt_one N) vals;
              output = (if mul = gt_one N then 1 else 0 :: U256) in
          Inr (gas_used, to_be_bytes 32 output)))"

text \<open>The contracts of the two price lists.\<close>

definition bn_add :: "('fq, 'fr, 'g1, 'fq2, 'g2, 'gt) bn_ops \<Rightarrow> u64 \<Rightarrow> bytes \<Rightarrow> u64 \<Rightarrow> PrecompileResult" where
  "bn_add N cost input target_gas =
     (if cost > target_gas then Inl PE_OutOfGas
      else propagate (run_add N input) (\<lambda>out. Inr (cost, out)))"

definition bn_mul :: "('fq, 'fr, 'g1, 'fq2, 'g2, 'gt) bn_ops \<Rightarrow> u64 \<Rightarrow> bytes \<Rightarrow> u64 \<Rightarrow> PrecompileResult comp" where
  "bn_mul N cost input gas_limit =
     (if cost > gas_limit then Val (Inl PE_OutOfGas)
      else bind_comp (run_mul N input) (\<lambda>r. Val (propagate r (\<lambda>out. Inr (cost, out)))))"

definition add_istanbul :: "('fq, 'fr, 'g1, 'fq2, 'g2, 'gt) bn_ops \<Rightarrow> bytes \<Rightarrow> u64 \<Rightarrow> PrecompileResult" where
  "add_istanbul N = bn_add N 150"

definition add_byzantium :: "('fq, 'fr, 'g1, 'fq2, 'g2, 'gt) bn_ops \<Rightarrow> bytes \<Rightarrow> u64 \<Rightarrow> PrecompileResult" where
  "add_byzantium N = bn_add N 500"

definition mul_istanbul :: "('fq, 'fr, 'g1, 'fq2, 'g2, 'gt) bn_ops \<Rightarrow> bytes \<Rightarrow> u64 \<Rightarrow> PrecompileResult comp" where
  "mul_istanbul N = bn_mul N 6000"

definition mul_byzantium :: "('fq, 'fr, 'g1, 'fq2, 'g2, 'gt) bn_ops \<Rightarrow> bytes \<Rightarrow> u64 \<Rightarrow> PrecompileResult comp" where
  "mul_byzantium N = bn_mul N 40000"

definition pair_istanbul :: "('fq, 'fr, 'g1, 'fq2, 'g2, 'gt) bn_ops \<Rightarrow> bytes \<Rightarrow> u64 \<Rightarrow> PrecompileResult" where
  "pair_istanbul N input target_gas = run_pair N input 34000 45000 target_gas"

definition pair_byzantium :: "('fq, 'fr, 'g1, 'fq2, 'g2, 'gt) bn_ops \<Rightarrow> bytes \<Rightarrow> u64 \<Rightarrow> PrecompileResult" where
  "pair_byzantium N input target_gas = run_pair N input 80000 100000 target_gas"

end
