(* ===== verification/Modexp.thy ===== *)
theory Modexp
  imports Precompiles
begin

text \<open>
  Modular exponentiation, \<open>crates/precompile/src/modexp.rs\<close>. A \<open>BigUint\<close> of the crate \<open>num\<close> is a
  natural number; the functions of the crate that the code calls are the fields of \<open>BigUint\<close>, and
  \<open>biguint_laws\<close> is what its documentation says of them. Lengths are kept as 64-bit words up to the
  range checks; the slices then use them as natural numbers.
\<close>

record BigUint =
  from_bytes_be :: "bytes \<Rightarrow> nat"
  to_bytes_be :: "nat \<Rightarrow> bytes"
  modpow :: "nat \<Rightarrow> nat \<Rightarrow> nat \<Rightarrow> nat"
  bits :: "nat \<Rightarrow> u64"

definition calculate_iteration_count :: "BigUint \<Rightarrow> u64 \<Rightarrow> nat \<Rightarrow> u64" where
  "calculate_iteration_count B exp_length exp_highp =
     (let iteration_count =
        (if exp_length \<le> 32 \<and> exp_highp = 0 then 0
         else if exp_length \<le> 32 then bits B exp_highp - 1
         else if exp_length > 32 then 8 * (exp_length - 32) + max 1 (bits B exp_highp) - 1
         else 0) in
      max iteration_count 1)"

definition read_u64_with_overflow :: "bytes \<Rightarrow> nat \<Rightarrow> nat \<Rightarrow> u64 \<Rightarrow> u64 \<times> bool" where
  "read_u64_with_overflow input from' to' overflow_limit =
     (let len = length input;
          from_zero = min from' len;
          fr = min (from_zero + 24) len;
          to = min to' len;
          overflow_bytes = slice from_zero (fr - from_zero) input;
          len_bytes = slice fr (to - fr) input @ replicate (8 - (to - fr)) 0;
          out = from_be_bytes len_bytes in
      (out, \<not> (out < overflow_limit \<and> list_all (\<lambda>b. b = 0) overflow_bytes)))"

definition read_big :: "BigUint \<Rightarrow> bytes \<Rightarrow> nat \<Rightarrow> nat \<Rightarrow> nat" where
  "read_big B input from' to' =
     (let len = length input;
          fr = min from' len;
          to = min to' len in
      from_bytes_be B (slice fr (to - fr) input @ replicate (to' - from' - (to - fr)) 0))"

text \<open>The first 32 bytes of the exponent, or all of it, as a number.\<close>

definition read_exp_highp :: "BigUint \<Rightarrow> bytes \<Rightarrow> nat \<Rightarrow> nat \<Rightarrow> nat" where
  "read_exp_highp B input base_end exp_highp_end =
     (let len = length input;
          fr = min base_end len;
          to = min exp_highp_end len;
          target_from = 32 - (exp_highp_end - base_end) in
      from_bytes_be B (splice target_from (slice fr (to - fr) input) (replicate 32 0)))"

definition run_inner ::
  "BigUint \<Rightarrow> bytes \<Rightarrow> u64 \<Rightarrow> u64 \<Rightarrow> (u64 \<Rightarrow> u64 \<Rightarrow> u64 \<Rightarrow> nat \<Rightarrow> u64) \<Rightarrow> PrecompileResult" where
  "run_inner B input gas_limit min_gas calc_gas =
     (let (base_len, base_overflow) = read_u64_with_overflow input 0 32 0xFFFFFFFF;
          (exp_len, exp_overflow) = read_u64_with_overflow input 32 64 0xFFFFFFFF;
          (mod_len, mod_overflow) = read_u64_with_overflow input 64 96 0xFFFFFFFF;
          finish = (\<lambda>r gas_cost.
            let bytes = to_bytes_be B r in
            if length bytes = unat mod_len then Inr (gas_cost, bytes)
            else if length bytes < unat mod_len
            then Inr (gas_cost, replicate (unat mod_len - length bytes) 0 @ bytes)
            else Inr (gas_cost, [])) in
      if base_overflow \<or> mod_overflow then Inl ModexpBaseOverflow
      else if mod_overflow then Inl ModexpModOverflow
      else if base_len = 0 \<and> mod_len = 0 then finish 0 min_gas
      else if exp_overflow then Inl ModexpExpOverflow
      else
        (let base_start = 96;
             base_end = base_start + unat base_len;
             exp_end = base_end + unat exp_len;
             exp_highp_end = base_end + min 32 (unat exp_len);
             mod_end = exp_end + unat mod_len;
             exp_highp = read_exp_highp B input base_end exp_highp_end;
             gas_cost = calc_gas base_len exp_len mod_len exp_highp in
         if gas_cost > gas_limit then Inl PE_OutOfGas
         else
           (let base = read_big B input base_start base_end;
                exponent = read_big B input base_end exp_end;
                modulus = read_big B input exp_end mod_end in
            if modulus = 0 \<or> modulus = 1 then finish 0 gas_cost
            else finish (modpow B base exponent modulus) gas_cost)))"

definition mul_complexity :: "u64 \<Rightarrow> U256" where
  "mul_complexity x =
     (if x \<le> 64 then ucast (x * x)
      else if x \<le> 1024 then ucast (x * x div 4 + 96 * x - 3072)
      else
        (let x = ucast x :: U256; x_sq = x * x in
         x_sq div 16 + 480 * x - 199680))"

definition capped_u64 :: "U256 \<Rightarrow> (u64 \<Rightarrow> u64) \<Rightarrow> u64" where
  "capped_u64 gas f =
     (if limb 1 gas \<noteq> 0 \<or> limb 2 gas \<noteq> 0 \<or> limb 3 gas \<noteq> 0 then u64_MAX else f (limb 0 gas))"

definition byzantium_gas_calc :: "BigUint \<Rightarrow> u64 \<Rightarrow> u64 \<Rightarrow> u64 \<Rightarrow> nat \<Rightarrow> u64" where
  "byzantium_gas_calc B base_len exp_len mod_len exp_highp =
     (let mul = mul_complexity (max mod_len base_len);
          iter_count = ucast (calculate_iteration_count B exp_len exp_highp);
          gas = mul * iter_count div 20 in
      capped_u64 gas (\<lambda>x. x))"

definition calculate_multiplication_complexity :: "u64 \<Rightarrow> u64 \<Rightarrow> U256" where
  "calculate_multiplication_complexity base_length mod_length =
     (let max_length = max base_length mod_length;
          words = max_length div 8;
          words = (if max_length mod 8 > 0 then words + 1 else words);
          words = ucast words in
      words * words)"

definition berlin_gas_calc :: "BigUint \<Rightarrow> u64 \<Rightarrow> u64 \<Rightarrow> u64 \<Rightarrow> nat \<Rightarrow> u64" where
  "berlin_gas_calc B base_length exp_length mod_length exp_highp =
     (let multiplication_complexity = calculate_multiplication_complexity base_length mod_length;
          iteration_count = calculate_iteration_count B exp_length exp_highp;
          gas = multiplication_complexity * ucast iteration_count div 3 in
      capped_u64 gas (max 200))"

definition byzantium_run :: "BigUint \<Rightarrow> bytes \<Rightarrow> u64 \<Rightarrow> PrecompileResult" where
  "byzantium_run B input gas_limit = run_inner B input gas_limit 0 (byzantium_gas_calc B)"

definition berlin_run :: "BigUint \<Rightarrow> bytes \<Rightarrow> u64 \<Rightarrow> PrecompileResult" where
  "berlin_run B input gas_limit = run_inner B input gas_limit 200 (berlin_gas_calc B)"

end
