(* ===== verification/Precompile_Table.thy ===== *)
theory Precompile_Table
  imports Bn128 Modexp
begin

text \<open>
  The table of precompiled contracts, \<open>crates/precompile/src/lib.rs\<close>: the contracts per hard fork and
  the lookup. The hash map is an association list with distinct keys; \<open>extend\<close> replaces the contract
  of a key that is present. The results of \<open>OnceCell\<close> are the values it caches.
\<close>

datatype Precompile =
  Standard "bytes \<Rightarrow> u64 \<Rightarrow> PrecompileResult comp"
| Custom "bytes \<Rightarrow> u64 \<Rightarrow> PrecompileResult comp"
| CustomEnterprise "bytes \<Rightarrow> u64 \<Rightarrow> CallContext \<Rightarrow> Admin \<Rightarrow> (PrecompileResult \<times> Admin) comp"

type_synonym Precompiles = "(B160 \<times> Precompile) list"

datatype PrecompileSpecId = PS_HOMESTEAD | PS_BYZANTIUM | PS_ISTANBUL | PS_BERLIN | PS_LATEST

fun from_spec_id :: "SpecId \<Rightarrow> PrecompileSpecId" where
  "from_spec_id FRONTIER = PS_HOMESTEAD"
| "from_spec_id FRONTIER_THAWING = PS_HOMESTEAD"
| "from_spec_id HOMESTEAD = PS_HOMESTEAD"
| "from_spec_id DAO_FORK = PS_HOMESTEAD"
| "from_spec_id TANGERINE = PS_HOMESTEAD"
| "from_spec_id SPURIOUS_DRAGON = PS_HOMESTEAD"
| "from_spec_id BYZANTIUM = PS_BYZANTIUM"
| "from_spec_id CONSTANTINOPLE = PS_BYZANTIUM"
| "from_spec_id PETERSBURG = PS_BYZANTIUM"
| "from_spec_id ISTANBUL = PS_ISTANBUL"
| "from_spec_id MUIR_GLACIER = PS_ISTANBUL"
| "from_spec_id LATEST = PS_LATEST"
| "from_spec_id _ = PS_BERLIN"

definition PrecompileSpecId_code :: "PrecompileSpecId \<Rightarrow> u8" where
  "PrecompileSpecId_code s =
     (case s of PS_HOMESTEAD \<Rightarrow> 0 | PS_BYZANTIUM \<Rightarrow> 1 | PS_ISTANBUL \<Rightarrow> 2 | PS_BERLIN \<Rightarrow> 3 | PS_LATEST \<Rightarrow> 4)"

definition PrecompileSpecId_enabled :: "PrecompileSpecId \<Rightarrow> u8 \<Rightarrow> bool" where
  "PrecompileSpecId_enabled s spec_id \<longleftrightarrow> PrecompileSpecId_code s \<le> spec_id"

definition u64_to_b160 :: "u64 \<Rightarrow> B160" where
  "u64_to_b160 x = from_be_bytes (replicate 12 0 @ to_be_bytes 8 x)"

text \<open>Everything outside the repository that a contract of the table uses.\<close>

record ('fq, 'fr, 'g1, 'fq2, 'g2, 'gt) Deps =
  dep_libs :: Libs
  dep_crypto :: Crypto
  dep_big :: BigUint
  dep_bn :: "('fq, 'fr, 'g1, 'fq2, 'g2, 'gt) bn_ops"
  dep_write_file :: "bytes \<Rightarrow> unit comp"

abbreviation pure :: "(bytes \<Rightarrow> u64 \<Rightarrow> PrecompileResult) \<Rightarrow> Precompile" where
  "pure f \<equiv> Standard (\<lambda>input gas_limit. Val (f input gas_limit))"

definition ECRECOVER :: "('fq, 'fr, 'g1, 'fq2, 'g2, 'gt) Deps \<Rightarrow> B160 \<times> Precompile" where
  "ECRECOVER X = (u64_to_b160 1, pure (ec_recover_run (dep_libs X) (dep_crypto X)))"

definition SHA256 :: "('fq, 'fr, 'g1, 'fq2, 'g2, 'gt) Deps \<Rightarrow> B160 \<times> Precompile" where
  "SHA256 X = (u64_to_b160 2, pure (sha256_run (dep_crypto X)))"

definition RIPEMD160 :: "('fq, 'fr, 'g1, 'fq2, 'g2, 'gt) Deps \<Rightarrow> B160 \<times> Precompile" where
  "RIPEMD160 X = (u64_to_b160 3, pure (ripemd160_run (dep_crypto X)))"

definition identity_FUN :: "B160 \<times> Precompile" where
  "identity_FUN = (u64_to_b160 4, pure identity_run)"

definition modexp_BYZANTIUM :: "('fq, 'fr, 'g1, 'fq2, 'g2, 'gt) Deps \<Rightarrow> B160 \<times> Precompile" where
  "modexp_BYZANTIUM X = (u64_to_b160 5, pure (byzantium_run (dep_big X)))"

definition modexp_BERLIN :: "('fq, 'fr, 'g1, 'fq2, 'g2, 'gt) Deps \<Rightarrow> B160 \<times> Precompile" where
  "modexp_BERLIN X = (u64_to_b160 5, pure (berlin_run (dep_big X)))"

definition blake2_FUN :: "B160 \<times> Precompile" where
  "blake2_FUN = (u64_to_b160 9, pure blake2_run)"

definition ADMIN :: "('fq, 'fr, 'g1, 'fq2, 'g2, 'gt) Deps \<Rightarrow> B160 \<times> Precompile" where
  "ADMIN X = (u64_to_b160 1337, CustomEnterprise (admin_func_run (dep_write_file X)))"

definition table_extend :: "(B160 \<times> Precompile) list \<Rightarrow> Precompiles \<Rightarrow> Precompiles" where
  "table_extend kvs m = foldl (\<lambda>m (k, v). AList.update k v m) m kvs"

definition homestead :: "('fq, 'fr, 'g1, 'fq2, 'g2, 'gt) Deps \<Rightarrow> Precompiles" where
  "homestead X = table_extend [ECRECOVER X, SHA256 X, RIPEMD160 X, identity_FUN, ADMIN X] []"

definition byzantium :: "('fq, 'fr, 'g1, 'fq2, 'g2, 'gt) Deps \<Rightarrow> Precompiles" where
  "byzantium X =
     table_extend
       [(u64_to_b160 6, pure (add_byzantium (dep_bn X))),
        (u64_to_b160 7, Standard (mul_byzantium (dep_bn X))),
        (u64_to_b160 8, pure (pair_byzantium (dep_bn X))),
        modexp_BYZANTIUM X] (homestead X)"

definition istanbul :: "('fq, 'fr, 'g1, 'fq2, 'g2, 'gt) Deps \<Rightarrow> Precompiles" where
  "istanbul X =
     table_extend
       [blake2_FUN,
        (u64_to_b160 6, pure (add_istanbul (dep_bn X))),
        (u64_to_b160 7, Standard (mul_istanbul (dep_bn X))),
        (u64_to_b160 8, pure (pair_istanbul (dep_bn X)))] (byzantium X)"

definition berlin :: "('fq, 'fr, 'g1, 'fq2, 'g2, 'gt) Deps \<Rightarrow> Precompiles" where
  "berlin X = table_extend [modexp_BERLIN X] (istanbul X)"

definition latest :: "('fq, 'fr, 'g1, 'fq2, 'g2, 'gt) Deps \<Rightarrow> Precompiles" where
  "latest X = berlin X"

fun Precompiles_new :: "('fq, 'fr, 'g1, 'fq2, 'g2, 'gt) Deps \<Rightarrow> PrecompileSpecId \<Rightarrow> Precompiles" where
  "Precompiles_new X PS_HOMESTEAD = homestead X"
| "Precompiles_new X PS_BYZANTIUM = byzantium X"
| "Precompiles_new X PS_ISTANBUL = istanbul X"
| "Precompiles_new X PS_BERLIN = berlin X"
| "Precompiles_new X PS_LATEST = latest X"

definition Precompiles_addresses :: "Precompiles \<Rightarrow> B160 list" where
  "Precompiles_addresses m = map fst m"

definition Precompiles_contains :: "Precompiles \<Rightarrow> B160 \<Rightarrow> bool" where
  "Precompiles_contains m address \<longleftrightarrow> map_of m address \<noteq> None"

definition Precompiles_get :: "Precompiles \<Rightarrow> B160 \<Rightarrow> Precompile option" where
  "Precompiles_get m address = map_of m address"

definition Precompiles_is_empty :: "Precompiles \<Rightarrow> bool" where
  "Precompiles_is_empty m \<longleftrightarrow> length m = 0"

definition Precompiles_len :: "Precompiles \<Rightarrow> usize" where
  "Precompiles_len m = of_nat (length m)"

end
