(* ===== verification/Evm_Impl.thy ===== *)
theory Evm_Impl
  imports Interp_Run Journal_Ops Precompile_Table
begin

text \<open>
  The EVM around the interpreter: \<open>crates/revm/src/evm_impl.rs\<close> (the host that a frame talks to, calls,
  creations, and the processing of a transaction) and \<open>evm.rs\<close> (the entry points), with the results of
  \<open>crates/primitives/src/result.rs\<close>. \<open>EVMData\<close> is the struct of the same name; it also carries the
  statics of the administration contract, which are process-wide in the code. This is the
  build without inspection (\<open>INSPECT = false\<close>); \<open>Inspectors\<close> has the other one.

  A host operation that reaches the database stores a failure in \<open>error\<close> and returns \<open>None\<close>. Calls
  and creations run an interpreter on the host itself; the model ties the knot with fuel for the
  nesting of frames (\<open>evm_host\<close>), and gives each run of an interpreter one unit of fuel per unit of
  gas and one more.
\<close>

section \<open>Results\<close>

datatype Output = Output_Call bytes | Output_Create bytes "B160 option"

datatype ExecutionResult =
  ER_Success Eval u64 u64 "Log list" Output
| ER_Revert u64 bytes
| ER_Halt Halt u64

datatype InvalidTransaction =
  GasMaxFeeGreaterThanPriorityFee | GasPriceLessThanBasefee | CallerGasLimitMoreThanBlock
| CallGasCostMoreThanGasLimit | RejectCallerWithCode | LackOfFundForGasLimit U256 U256
| OverflowPaymentInTransaction | NonceOverflowInTransaction | NonceTooHigh u64 u64
| NonceTooLow u64 u64 | Invalid_CreateInitcodeSizeLimit | InvalidChainId

datatype 'e EVMError = Transaction InvalidTransaction | PrevrandaoNotSet | Database 'e

record ResultAndState =
  rs_result :: ExecutionResult
  rs_state :: State

fun is_success :: "ExecutionResult \<Rightarrow> bool" where
  "is_success (ER_Success _ _ _ _ _) = True"
| "is_success _ = False"

fun ER_logs :: "ExecutionResult \<Rightarrow> Log list" where
  "ER_logs (ER_Success _ _ _ ls _) = ls"
| "ER_logs _ = []"

fun into_logs :: "ExecutionResult \<Rightarrow> Log list" where
  "into_logs (ER_Success _ _ _ ls _) = ls"
| "into_logs _ = []"

fun gas_used :: "ExecutionResult \<Rightarrow> u64" where
  "gas_used (ER_Success _ used _ _ _) = used"
| "gas_used (ER_Revert used _) = used"
| "gas_used (ER_Halt _ used) = used"

fun into_data :: "Output \<Rightarrow> bytes" where
  "into_data (Output_Call data) = data"
| "into_data (Output_Create data _) = data"

section \<open>The host\<close>

record ('db, 'e) EVMData =
  ed_env :: Env
  journaled_state :: JournaledState
  ed_db :: 'db
  ed_error :: "'e option"
  ed_precompiles :: Precompiles
  ed_admin :: Admin

definition put_journal :: "JournaledState \<Rightarrow> ('db, 'e) EVMData \<Rightarrow> ('db, 'e) EVMData" where
  "put_journal js h = h\<lparr>journaled_state := js\<rparr>"

text \<open>\<open>.map_err(|e| self.data.error = Some(e)).ok()\<close> after an operation of the journaled state.\<close>

definition or_error ::
  "(JournaledState \<Rightarrow> 'db \<Rightarrow> (('e + 'a) \<times> JournaledState \<times> 'db) comp) \<Rightarrow>
     ('db, 'e) EVMData \<Rightarrow> ('a option \<times> ('db, 'e) EVMData) comp" where
  "or_error f h =
     bind_comp (f (journaled_state h) (ed_db h)) (\<lambda>(r, js, db).
       let h = h\<lparr>journaled_state := js, ed_db := db\<rparr> in
       case r of
         Inl e \<Rightarrow> Val (None, h\<lparr>ed_error := Some e\<rparr>)
       | Inr x \<Rightarrow> Val (Some x, h))"

definition evm_block_hash :: "('db, 'e) db_ops \<Rightarrow> ('db, 'e) EVMData \<Rightarrow> U256 \<Rightarrow> (B256 option \<times> ('db, 'e) EVMData) comp" where
  "evm_block_hash D h number =
     or_error (\<lambda>js db. case db_block_hash D db number of (r, db) \<Rightarrow> Val (r, js, db)) h"

definition evm_load_account ::
  "('db, 'e) db_ops \<Rightarrow> ('db, 'e) EVMData \<Rightarrow> B160 \<Rightarrow> ((bool \<times> bool) option \<times> ('db, 'e) EVMData) comp" where
  "evm_load_account D h address = or_error (load_account_exist D address) h"

definition evm_balance ::
  "('db, 'e) db_ops \<Rightarrow> ('db, 'e) EVMData \<Rightarrow> B160 \<Rightarrow> ((U256 \<times> bool) option \<times> ('db, 'e) EVMData) comp" where
  "evm_balance D h address =
     bind_comp (or_error (load_account D address) h) (\<lambda>(r, h).
       case r of
         None \<Rightarrow> Val (None, h)
       | Some is_cold \<Rightarrow>
           bind_comp (get_acc address (journaled_state h)) (\<lambda>acc. Val (Some (balance (info acc), is_cold), h)))"

definition evm_code ::
  "('db, 'e) db_ops \<Rightarrow> ('db, 'e) EVMData \<Rightarrow> B160 \<Rightarrow> ((Bytecode \<times> bool) option \<times> ('db, 'e) EVMData) comp" where
  "evm_code D h address =
     bind_comp (or_error (load_code D address) h) (\<lambda>(r, h).
       case r of
         None \<Rightarrow> Val (None, h)
       | Some is_cold \<Rightarrow>
           bind_comp (get_acc address (journaled_state h)) (\<lambda>acc.
           bind_comp (unwrap (code (info acc))) (\<lambda>c. Val (Some (c, is_cold), h))))"

definition evm_code_hash ::
  "('db, 'e) db_ops \<Rightarrow> ('db, 'e) EVMData \<Rightarrow> B160 \<Rightarrow> ((B256 \<times> bool) option \<times> ('db, 'e) EVMData) comp" where
  "evm_code_hash D h address =
     bind_comp (or_error (load_code D address) h) (\<lambda>(r, h).
       case r of
         None \<Rightarrow> Val (None, h)
       | Some is_cold \<Rightarrow>
           bind_comp (get_acc address (journaled_state h)) (\<lambda>acc.
             if Precompiles_contains (ed_precompiles h) address \<and> perf_all_precompiles_have_balance (cfg (ed_env h))
             then Val (Some (KECCAK_EMPTY, is_cold), h)
             else if Account_is_empty acc then Val (Some (0, is_cold), h)
             else Val (Some (code_hash (info acc), is_cold), h)))"

definition evm_sload ::
  "('db, 'e) db_ops \<Rightarrow> ('db, 'e) EVMData \<Rightarrow> B160 \<Rightarrow> U256 \<Rightarrow> ((U256 \<times> bool) option \<times> ('db, 'e) EVMData) comp" where
  "evm_sload D h address index = or_error (sload D address index) h"

definition evm_sstore ::
  "('db, 'e) db_ops \<Rightarrow> ('db, 'e) EVMData \<Rightarrow> B160 \<Rightarrow> U256 \<Rightarrow> U256 \<Rightarrow>
     ((U256 \<times> U256 \<times> U256 \<times> bool) option \<times> ('db, 'e) EVMData) comp" where
  "evm_sstore D h address index v = or_error (sstore D address index v) h"

definition evm_log :: "('db, 'e) EVMData \<Rightarrow> B160 \<Rightarrow> B256 list \<Rightarrow> bytes \<Rightarrow> ('db, 'e) EVMData comp" where
  "evm_log h address topics data =
     Val (put_journal (log \<lparr>log_address = address, log_topics = topics, log_data = data\<rparr> (journaled_state h)) h)"

definition evm_selfdestruct ::
  "('db, 'e) db_ops \<Rightarrow> ('db, 'e) EVMData \<Rightarrow> B160 \<Rightarrow> B160 \<Rightarrow> (SelfDestructResult option \<times> ('db, 'e) EVMData) comp" where
  "evm_selfdestruct D h address target = or_error (selfdestruct D address target) h"

section \<open>Frames\<close>

definition evm_checkpoint :: "('db, 'e) EVMData \<Rightarrow> JournalCheckpoint \<times> ('db, 'e) EVMData" where
  "evm_checkpoint h = (let (cp, js) = checkpoint (journaled_state h) in (cp, put_journal js h))"

definition evm_commit :: "('db, 'e) EVMData \<Rightarrow> ('db, 'e) EVMData" where
  "evm_commit h = put_journal (checkpoint_commit (journaled_state h)) h"

definition evm_revert :: "JournalCheckpoint \<Rightarrow> ('db, 'e) EVMData \<Rightarrow> ('db, 'e) EVMData comp" where
  "evm_revert cp h = bind_comp (checkpoint_revert cp (journaled_state h)) (\<lambda>js. Val (put_journal js h))"

definition evm_transfer ::
  "('db, 'e) db_ops \<Rightarrow> B160 \<Rightarrow> B160 \<Rightarrow> U256 \<Rightarrow> ('db, 'e) EVMData \<Rightarrow>
     ((InstructionResult + bool \<times> bool) \<times> ('db, 'e) EVMData) comp" where
  "evm_transfer D source target v h =
     bind_comp (transfer D source target v (journaled_state h) (ed_db h)) (\<lambda>(r, js, db).
       Val (r, h\<lparr>journaled_state := js, ed_db := db\<rparr>))"

text \<open>\<open>Interpreter::new_with_memory_limit(..).run(self)\<close>.\<close>

definition run_frame ::
  "Libs \<Rightarrow> ('db, 'e) EVMData host_ops \<Rightarrow> SpecId \<Rightarrow> Contract \<Rightarrow> u64 \<Rightarrow> bool \<Rightarrow> ('db, 'e) EVMData \<Rightarrow>
     ('db, 'e) EVMData machine comp" where
  "run_frame L H spec c gas_limit static h =
     run L H spec (unat gas_limit + 1)
       (interpreter.extend
         (new_with_memory_limit c gas_limit static (cfg_memory_limit (cfg (ed_env h)))) (machine.fields h))"

definition run_precompile ::
  "Precompile \<Rightarrow> bytes \<Rightarrow> u64 \<Rightarrow> CallContext \<Rightarrow> ('db, 'e) EVMData \<Rightarrow> (PrecompileResult \<times> ('db, 'e) EVMData) comp" where
  "run_precompile p input gas_limit context h =
     (case p of
        Standard f \<Rightarrow> bind_comp (f input gas_limit) (\<lambda>out. Val (out, h))
      | Custom f \<Rightarrow> bind_comp (f input gas_limit) (\<lambda>out. Val (out, h))
      | CustomEnterprise f \<Rightarrow>
          bind_comp (f input gas_limit context (ed_admin h)) (\<lambda>(out, s). Val (out, h\<lparr>ed_admin := s\<rparr>)))"

definition call_precompile ::
  "Precompile \<Rightarrow> CallInputs \<Rightarrow> JournalCheckpoint \<Rightarrow> ('db, 'e) EVMData \<Rightarrow>
     (InstructionResult \<times> Gas \<times> bytes \<times> ('db, 'e) EVMData) comp" where
  "call_precompile p inputs cp h =
     (let gas' = Gas_new (ci_gas_limit inputs) in
      bind_comp (run_precompile p (ci_input inputs) (ci_gas_limit inputs) (ci_context inputs) h) (\<lambda>(out, h).
        case out of
          Inr (used, data) \<Rightarrow>
            (let (success, gas') = record_cost gas' used in
             if success then Val (Return, gas', data, evm_commit h)
             else bind_comp (evm_revert cp h) (\<lambda>h. Val (PrecompileOOG, gas', [], h)))
        | Inl e \<Rightarrow>
            (let ret = (case e of PE_OutOfGas \<Rightarrow> PrecompileOOG | _ \<Rightarrow> InstructionResult.PrecompileError) in
             bind_comp (evm_revert cp h) (\<lambda>h. Val (ret, gas', [], h)))))"

definition call_frame ::
  "Libs \<Rightarrow> ('db, 'e) EVMData host_ops \<Rightarrow> SpecId \<Rightarrow> Bytecode \<Rightarrow> CallInputs \<Rightarrow> JournalCheckpoint \<Rightarrow> ('db, 'e) EVMData \<Rightarrow>
     (InstructionResult \<times> Gas \<times> bytes \<times> ('db, 'e) EVMData) comp" where
  "call_frame L H spec b inputs cp h =
     bind_comp (new_with_context (ci_input inputs) b (ci_context inputs)) (\<lambda>c.
     bind_comp (run_frame L H spec c (ci_gas_limit inputs) (ci_is_static inputs) h) (\<lambda>m.
     bind_comp (if return_ok (instruction_result m) then Val (evm_commit (host m)) else evm_revert cp (host m)) (\<lambda>h.
     bind_comp (return_value m) (\<lambda>out. Val (instruction_result m, gas m, out, h)))))"

definition call_inner ::
  "Libs \<Rightarrow> ('db, 'e) db_ops \<Rightarrow> ('db, 'e) EVMData host_ops \<Rightarrow> SpecId \<Rightarrow> ('db, 'e) EVMData \<Rightarrow> CallInputs \<Rightarrow>
     (InstructionResult \<times> Gas \<times> bytes \<times> ('db, 'e) EVMData) comp" where
  "call_inner L D H spec h inputs =
     (let gas' = Gas_new (ci_gas_limit inputs); t = ci_transfer inputs; address = ctx_address (ci_context inputs) in
      bind_comp (evm_code D h (ci_contract inputs)) (\<lambda>(r, h).
      case r of None \<Rightarrow> Val (FatalExternalError, gas', [], h) | Some (b, _) \<Rightarrow>
      if depth (journaled_state h) > CALL_STACK_LIMIT then Val (CallTooDeep, gas', [], h)
      else
        (let (cp, h) = evm_checkpoint h in
         bind_comp
           (if tr_value t = 0 then
              bind_comp (evm_load_account D h address) (\<lambda>(_, h).
              bind_comp (touch address (journaled_state h)) (\<lambda>js. Val (put_journal js h)))
            else Val h) (\<lambda>h.
         bind_comp (evm_transfer D (tr_source t) (tr_target t) (tr_value t) h) (\<lambda>(r, h).
         case r of
           Inl e \<Rightarrow> bind_comp (evm_revert cp h) (\<lambda>h. Val (e, gas', [], h))
         | Inr _ \<Rightarrow>
             (case Precompiles_get (ed_precompiles h) (ci_contract inputs) of
                Some p \<Rightarrow> call_precompile p inputs cp h
              | None \<Rightarrow> call_frame L H spec b inputs cp h))))))"

text \<open>What follows a creation's initialisation code.\<close>

definition create_finish ::
  "Libs \<Rightarrow> SpecId \<Rightarrow> B160 \<Rightarrow> JournalCheckpoint \<Rightarrow> ('db, 'e) EVMData machine \<Rightarrow>
     (InstructionResult \<times> B160 option \<times> Gas \<times> bytes \<times> ('db, 'e) EVMData) comp" where
  "create_finish L spec created cp m =
     bind_comp (return_value m) (\<lambda>bs.
       let h = host m; c = cfg (ed_env h);
           fail = (\<lambda>r gas'. bind_comp (evm_revert cp h) (\<lambda>h. Val (r, Some created, gas', bs, h))) in
       if return_ok (instruction_result m) then
         if enabled spec LONDON \<and> bs \<noteq> [] \<and> hd bs = 0xEF then fail CreateContractStartingWithEF (gas m)
         else if enabled spec SPURIOUS_DRAGON \<and>
             of_nat (length bs) > (case limit_contract_code_size c of Some limit \<Rightarrow> limit | None \<Rightarrow> MAX_CODE_SIZE)
         then fail CreateContractSizeLimit (gas m)
         else
           (let (success, gas') = record_cost (gas m) (of_nat (length bs) * gas_CODEDEPOSIT) in
            if \<not> success \<and> enabled spec HOMESTEAD then fail OutOfGas gas'
            else
              (let bs = (if success then bs else []);
                   h = evm_commit h;
                   b = (case perf_analyse_created_bytecodes c of
                          AnalysisRaw \<Rightarrow> new_raw L bs
                        | AnalysisCheck \<Rightarrow> to_checked (new_raw L bs)
                        | AnalysisAnalyse \<Rightarrow> to_analysed (new_raw L bs)) in
               bind_comp (set_code created b (journaled_state h)) (\<lambda>js.
                 Val (Return, Some created, gas', bs, put_journal js h))))
       else fail (instruction_result m) (gas m))"

text \<open>The creation at the address \<open>created\<close>, from loading it on.\<close>

definition create_frame ::
  "Libs \<Rightarrow> ('db, 'e) db_ops \<Rightarrow> ('db, 'e) EVMData host_ops \<Rightarrow> SpecId \<Rightarrow> B160 \<Rightarrow> CreateInputs \<Rightarrow> ('db, 'e) EVMData \<Rightarrow>
     (InstructionResult \<times> B160 option \<times> Gas \<times> bytes \<times> ('db, 'e) EVMData) comp" where
  "create_frame L D H spec created inputs h =
     (let gas' = Gas_new (cr_gas_limit inputs); caller = cr_caller inputs in
      bind_comp (evm_load_account D h created) (\<lambda>(_, h).
      let (cp, h) = evm_checkpoint h in
      bind_comp (create_account D created (Precompiles_contains (ed_precompiles h) created) (journaled_state h) (ed_db h))
        (\<lambda>(r, js, db).
      let h = h\<lparr>journaled_state := js, ed_db := db\<rparr> in
      case r of
        Inl e \<Rightarrow> Val (FatalExternalError, Some created, gas', [], h\<lparr>ed_error := Some e\<rparr>)
      | Inr created_ok \<Rightarrow>
      if \<not> created_ok
      then bind_comp (evm_revert cp h) (\<lambda>h. Val (CreateCollision, Some created, gas', [], h))
      else
      bind_comp (evm_transfer D caller created (cr_value inputs) h) (\<lambda>(r, h).
      case r of
        Inl e \<Rightarrow> bind_comp (evm_revert cp h) (\<lambda>h. Val (e, Some created, gas', [], h))
      | Inr _ \<Rightarrow>
      bind_comp
        (if enabled spec SPURIOUS_DRAGON then inc_nonce created (journaled_state h)
         else Val (Some 0, journaled_state h)) (\<lambda>(r, js).
      let h = put_journal js h in
      case r of
        None \<Rightarrow> bind_comp (evm_revert cp h) (\<lambda>h. Val (Return, None, gas', [], h))
      | Some _ \<Rightarrow>
      bind_comp (Contract_new [] (new_raw L (cr_init_code inputs)) created caller (cr_value inputs)) (\<lambda>c.
      bind_comp (run_frame L H spec c (cr_gas_limit inputs) False h) (create_finish L spec created cp)))))))"

definition create_inner ::
  "Libs \<Rightarrow> ('db, 'e) db_ops \<Rightarrow> ('db, 'e) EVMData host_ops \<Rightarrow> SpecId \<Rightarrow> ('db, 'e) EVMData \<Rightarrow> CreateInputs \<Rightarrow>
     (InstructionResult \<times> B160 option \<times> Gas \<times> bytes \<times> ('db, 'e) EVMData) comp" where
  "create_inner L D H spec h inputs =
     (let gas' = Gas_new (cr_gas_limit inputs); caller = cr_caller inputs in
      bind_comp (evm_load_account D h caller) (\<lambda>(_, h).
      if depth (journaled_state h) > CALL_STACK_LIMIT then Val (CallTooDeep, None, gas', [], h)
      else
      bind_comp (evm_balance D h caller) (\<lambda>(r, h).
      case r of None \<Rightarrow> Val (FatalExternalError, None, gas', [], h) | Some (bal, _) \<Rightarrow>
      if bal < cr_value inputs then Val (OutOfFund, None, gas', [], h)
      else
      bind_comp (inc_nonce caller (journaled_state h)) (\<lambda>(r, js).
      let h = put_journal js h in
      case r of None \<Rightarrow> Val (Return, None, gas', [], h) | Some new_nonce \<Rightarrow>
      (let old_nonce = new_nonce - 1;
           init_hash = lib_keccak256 L (cr_init_code inputs);
           created = (case cr_scheme inputs of
                        Create \<Rightarrow> create_address L caller old_nonce
                      | Create2 salt \<Rightarrow> create2_address L caller init_hash salt) in
       create_frame L D H spec created inputs h)))))"

text \<open>The host with room for \<open>n\<close> nested frames.\<close>

fun evm_host :: "Libs \<Rightarrow> ('db, 'e) db_ops \<Rightarrow> SpecId \<Rightarrow> nat \<Rightarrow> ('db, 'e) EVMData host_ops" where
  "evm_host L D spec n =
     \<lparr> h_env = ed_env,
       h_load_account = evm_load_account D,
       h_block_hash = evm_block_hash D,
       h_balance = evm_balance D,
       h_code = evm_code D,
       h_code_hash = evm_code_hash D,
       h_sload = evm_sload D,
       h_sstore = evm_sstore D,
       h_log = evm_log,
       h_selfdestruct = evm_selfdestruct D,
       h_create = (case n of 0 \<Rightarrow> (\<lambda>_ _. Timeout) | Suc n \<Rightarrow> create_inner L D (evm_host L D spec n) spec),
       h_call = (case n of 0 \<Rightarrow> (\<lambda>_ _. Timeout) | Suc n \<Rightarrow> call_inner L D (evm_host L D spec n) spec) \<rparr>"

declare evm_host.simps [simp del]

end
