(* ===== verification/Cache_DB.thy ===== *)
theory Cache_DB
  imports Journal_Ops
begin

text \<open>
  Databases: the read-only interface \<open>DatabaseRef\<close> with its wrapper (\<open>crates/primitives/src/db.rs\<close>),
  the database split into components (\<open>db/components.rs\<close>), and the in-memory cache, the empty and the
  benchmark database of \<open>crates/revm/src/db/in_memory_db.rs\<close>. A read-only database of type \<open>'x\<close> is
  a record of functions. The hash map of changes that \<open>commit\<close> iterates over is the list of its
  entries, in the order of the iteration.

  The theorems: the cache satisfies the contract \<open>database\<close> of the journaled state; its mutating
  reads return what its read-only reads return and leave them unchanged; \<open>commit\<close> writes exactly the
  changed accounts. The last two need an external database that reports no storage for an account
  that it does not have.
\<close>

section \<open>Read-only databases\<close>

record ('x, 'e) ref_ops =
  ref_basic :: "'x \<Rightarrow> B160 \<Rightarrow> 'e + AccountInfo option"
  ref_code_by_hash :: "'x \<Rightarrow> B256 \<Rightarrow> 'e + Bytecode"
  ref_storage :: "'x \<Rightarrow> B160 \<Rightarrow> U256 \<Rightarrow> 'e + U256"
  ref_block_hash :: "'x \<Rightarrow> U256 \<Rightarrow> 'e + B256"

definition RefDBWrapper :: "('x, 'e) ref_ops \<Rightarrow> ('x, 'e) db_ops" where
  "RefDBWrapper X =
     \<lparr> db_basic = (\<lambda>x a. (ref_basic X x a, x)),
       db_code_by_hash = (\<lambda>x h. (ref_code_by_hash X x h, x)),
       db_storage = (\<lambda>x a k. (ref_storage X x a k, x)),
       db_block_hash = (\<lambda>x n. (ref_block_hash X x n, x)) \<rparr>"

text \<open>A state component and a block hash component, with an error of either.\<close>

record ('s, 'e) state_ops =
  st_basic :: "'s \<Rightarrow> B160 \<Rightarrow> ('e + AccountInfo option) \<times> 's"
  st_code_by_hash :: "'s \<Rightarrow> B256 \<Rightarrow> ('e + Bytecode) \<times> 's"
  st_storage :: "'s \<Rightarrow> B160 \<Rightarrow> U256 \<Rightarrow> ('e + U256) \<times> 's"

datatype ('se, 'be) DatabaseComponentError = StateError 'se | BlockHashError 'be

record ('s, 'b) DatabaseComponents =
  dc_state :: 's
  dc_block_hash :: 'b

definition on_state :: "('s \<Rightarrow> ('se + 'r) \<times> 's) \<Rightarrow> ('s, 'b) DatabaseComponents \<Rightarrow>
    (('se, 'be) DatabaseComponentError + 'r) \<times> ('s, 'b) DatabaseComponents" where
  "on_state f d =
     (let (r, s) = f (dc_state d) in (map_sum StateError id r, d\<lparr>dc_state := s\<rparr>))"

definition on_block_hash :: "('b \<Rightarrow> ('be + 'r) \<times> 'b) \<Rightarrow> ('s, 'b) DatabaseComponents \<Rightarrow>
    (('se, 'be) DatabaseComponentError + 'r) \<times> ('s, 'b) DatabaseComponents" where
  "on_block_hash f d =
     (let (r, b) = f (dc_block_hash d) in (map_sum BlockHashError id r, d\<lparr>dc_block_hash := b\<rparr>))"

definition DatabaseComponents_ops ::
  "('s, 'se) state_ops \<Rightarrow> ('b \<Rightarrow> U256 \<Rightarrow> ('be + B256) \<times> 'b) \<Rightarrow>
     (('s, 'b) DatabaseComponents, ('se, 'be) DatabaseComponentError) db_ops" where
  "DatabaseComponents_ops S block_hash =
     \<lparr> db_basic = (\<lambda>d a. on_state (\<lambda>s. st_basic S s a) d),
       db_code_by_hash = (\<lambda>d h. on_state (\<lambda>s. st_code_by_hash S s h) d),
       db_storage = (\<lambda>d a k. on_state (\<lambda>s. st_storage S s a k) d),
       db_block_hash = (\<lambda>d n. on_block_hash (\<lambda>b. block_hash b n) d) \<rparr>"

section \<open>The cache\<close>

datatype AccountState = NotExisting | Touched | StorageCleared | AccountState_None

record DbAccount =
  dba_info :: AccountInfo
  dba_state :: AccountState
  dba_storage :: "U256 \<rightharpoonup> U256"

record 'x CacheDB =
  cdb_accounts :: "B160 \<rightharpoonup> DbAccount"
  cdb_contracts :: "B256 \<rightharpoonup> Bytecode"
  cdb_logs :: "Log list"
  cdb_block_hashes :: "U256 \<rightharpoonup> B256"
  cdb_db :: 'x

definition DbAccount_default :: DbAccount where
  "DbAccount_default =
     \<lparr> dba_info = AccountInfo_default, dba_state = AccountState_None, dba_storage = Map.empty \<rparr>"

definition DbAccount_new_not_existing :: DbAccount where
  "DbAccount_new_not_existing = DbAccount_default\<lparr>dba_state := NotExisting\<rparr>"

definition DbAccount_info :: "DbAccount \<Rightarrow> AccountInfo option" where
  "DbAccount_info acc = (if dba_state acc = NotExisting then None else Some (dba_info acc))"

definition DbAccount_from_info :: "AccountInfo \<Rightarrow> DbAccount" where
  "DbAccount_from_info i = DbAccount_default\<lparr>dba_info := i, dba_state := AccountState_None\<rparr>"

definition DbAccount_from :: "AccountInfo option \<Rightarrow> DbAccount" where
  "DbAccount_from r =
     (case r of
        Some i \<Rightarrow> DbAccount_default\<lparr>dba_info := i, dba_state := AccountState_None\<rparr>
      | None \<Rightarrow> DbAccount_new_not_existing)"

definition is_storage_cleared :: "AccountState \<Rightarrow> bool" where
  "is_storage_cleared s \<longleftrightarrow> s = StorageCleared"

definition CacheDB_new :: "'x \<Rightarrow> 'x CacheDB" where
  "CacheDB_new x =
     \<lparr> cdb_accounts = Map.empty, cdb_contracts = [KECCAK_EMPTY \<mapsto> Bytecode_new, 0 \<mapsto> Bytecode_new],
       cdb_logs = [], cdb_block_hashes = Map.empty, cdb_db = x \<rparr>"

text \<open>\<open>insert_contract\<close> also changes the account info, which it returns here.\<close>

definition insert_contract :: "AccountInfo \<Rightarrow> 'x CacheDB \<Rightarrow> AccountInfo \<times> 'x CacheDB" where
  "insert_contract account c =
     (let (account, c) =
        (case code account of
           Some bc \<Rightarrow>
             if \<not> Bytecode_is_empty bc then
               (let account = account\<lparr>code_hash := bc_hash bc\<rparr> in
                (account,
                 case cdb_contracts c (code_hash account) of
                   Some _ \<Rightarrow> c
                 | None \<Rightarrow> c\<lparr>cdb_contracts := (cdb_contracts c)(code_hash account \<mapsto> bc)\<rparr>))
             else (account, c)
         | None \<Rightarrow> (account, c)) in
      (if code_hash account = 0 then account\<lparr>code_hash := KECCAK_EMPTY\<rparr> else account, c))"

definition or_default :: "DbAccount option \<Rightarrow> DbAccount" where
  "or_default r = (case r of Some acc \<Rightarrow> acc | None \<Rightarrow> DbAccount_default)"

definition insert_account_info :: "B160 \<Rightarrow> AccountInfo \<Rightarrow> 'x CacheDB \<Rightarrow> 'x CacheDB" where
  "insert_account_info address i c =
     (let (i, c) = insert_contract i c in
      c\<lparr>cdb_accounts := (cdb_accounts c)(address \<mapsto> (or_default (cdb_accounts c address))\<lparr>dba_info := i\<rparr>)\<rparr>)"

definition cdb_load_account ::
  "('x, 'e) ref_ops \<Rightarrow> B160 \<Rightarrow> 'x CacheDB \<Rightarrow> ('e + DbAccount) \<times> 'x CacheDB" where
  "cdb_load_account X address c =
     (case cdb_accounts c address of
        Some acc \<Rightarrow> (Inr acc, c)
      | None \<Rightarrow>
          (case ref_basic X (cdb_db c) address of
             Inl e \<Rightarrow> (Inl e, c)
           | Inr r \<Rightarrow>
               (let acc = (case r of
                    Some i \<Rightarrow> DbAccount_default\<lparr>dba_info := i\<rparr>
                  | None \<Rightarrow> DbAccount_new_not_existing) in
                (Inr acc, c\<lparr>cdb_accounts := (cdb_accounts c)(address \<mapsto> acc)\<rparr>))))"

definition insert_account_storage ::
  "('x, 'e) ref_ops \<Rightarrow> B160 \<Rightarrow> U256 \<Rightarrow> U256 \<Rightarrow> 'x CacheDB \<Rightarrow> ('e + unit) \<times> 'x CacheDB" where
  "insert_account_storage X address slot v c =
     (case cdb_load_account X address c of
        (Inl e, c) \<Rightarrow> (Inl e, c)
      | (Inr acc, c) \<Rightarrow>
          (Inr (), c\<lparr>cdb_accounts := (cdb_accounts c)(address \<mapsto>
             acc\<lparr>dba_storage := (dba_storage acc)(slot \<mapsto> v)\<rparr>)\<rparr>))"

definition replace_account_storage ::
  "('x, 'e) ref_ops \<Rightarrow> B160 \<Rightarrow> (U256 \<rightharpoonup> U256) \<Rightarrow> 'x CacheDB \<Rightarrow> ('e + unit) \<times> 'x CacheDB" where
  "replace_account_storage X address st c =
     (case cdb_load_account X address c of
        (Inl e, c) \<Rightarrow> (Inl e, c)
      | (Inr acc, c) \<Rightarrow>
          (Inr (), c\<lparr>cdb_accounts := (cdb_accounts c)(address \<mapsto>
             acc\<lparr>dba_state := StorageCleared, dba_storage := st\<rparr>)\<rparr>))"

text \<open>One iteration of \<open>commit\<close>, and the loop.\<close>

definition commit_one :: "B160 \<times> Account \<Rightarrow> 'x CacheDB \<Rightarrow> 'x CacheDB" where
  "commit_one change c =
     (let (address, account) = change in
      if is_destroyed account then
        (let db_account = or_default (cdb_accounts c address);
             db_account = db_account\<lparr>dba_storage := Map.empty\<rparr>;
             db_account = db_account\<lparr>dba_state := NotExisting\<rparr>;
             db_account = db_account\<lparr>dba_info := AccountInfo_default\<rparr> in
         c\<lparr>cdb_accounts := (cdb_accounts c)(address \<mapsto> db_account)\<rparr>)
      else
        (let (i, c) = insert_contract (info account) c;
             db_account = (or_default (cdb_accounts c address))\<lparr>dba_info := i\<rparr>;
             db_account =
               (if storage_cleared account then
                  db_account\<lparr>dba_storage := Map.empty, dba_state := StorageCleared\<rparr>
                else if is_storage_cleared (dba_state db_account) then
                  db_account\<lparr>dba_state := StorageCleared\<rparr>
                else db_account\<lparr>dba_state := Touched\<rparr>);
             db_account = db_account\<lparr>dba_storage :=
               dba_storage db_account ++ (map_option present_value \<circ> storage account)\<rparr> in
         c\<lparr>cdb_accounts := (cdb_accounts c)(address \<mapsto> db_account)\<rparr>))"

fun commit :: "(B160 \<times> Account) list \<Rightarrow> 'x CacheDB \<Rightarrow> 'x CacheDB" where
  "commit [] c = c"
| "commit (change # changes) c = commit changes (commit_one change c)"

subsection \<open>The cache as a database\<close>

definition cdb_block_hash :: "('x, 'e) ref_ops \<Rightarrow> 'x CacheDB \<Rightarrow> U256 \<Rightarrow> ('e + B256) \<times> 'x CacheDB" where
  "cdb_block_hash X c number =
     (case cdb_block_hashes c number of
        Some h \<Rightarrow> (Inr h, c)
      | None \<Rightarrow>
          (case ref_block_hash X (cdb_db c) number of
             Inl e \<Rightarrow> (Inl e, c)
           | Inr h \<Rightarrow> (Inr h, c\<lparr>cdb_block_hashes := (cdb_block_hashes c)(number \<mapsto> h)\<rparr>)))"

definition cdb_basic :: "('x, 'e) ref_ops \<Rightarrow> 'x CacheDB \<Rightarrow> B160 \<Rightarrow> ('e + AccountInfo option) \<times> 'x CacheDB" where
  "cdb_basic X c address =
     (case cdb_accounts c address of
        Some acc \<Rightarrow> (Inr (DbAccount_info acc), c)
      | None \<Rightarrow>
          (case ref_basic X (cdb_db c) address of
             Inl e \<Rightarrow> (Inl e, c)
           | Inr r \<Rightarrow>
               (let acc = (case r of
                    Some i \<Rightarrow> DbAccount_default\<lparr>dba_info := i\<rparr>
                  | None \<Rightarrow> DbAccount_new_not_existing) in
                (Inr (DbAccount_info acc), c\<lparr>cdb_accounts := (cdb_accounts c)(address \<mapsto> acc)\<rparr>))))"

definition cdb_storage :: "('x, 'e) ref_ops \<Rightarrow> 'x CacheDB \<Rightarrow> B160 \<Rightarrow> U256 \<Rightarrow> ('e + U256) \<times> 'x CacheDB" where
  "cdb_storage X c address index =
     (case cdb_accounts c address of
        Some acc \<Rightarrow>
          (case dba_storage acc index of
             Some v \<Rightarrow> (Inr v, c)
           | None \<Rightarrow>
               if dba_state acc = StorageCleared \<or> dba_state acc = NotExisting then (Inr 0, c)
               else
                 (case ref_storage X (cdb_db c) address index of
                    Inl e \<Rightarrow> (Inl e, c)
                  | Inr slot \<Rightarrow>
                      (Inr slot, c\<lparr>cdb_accounts := (cdb_accounts c)(address \<mapsto>
                         acc\<lparr>dba_storage := (dba_storage acc)(index \<mapsto> slot)\<rparr>)\<rparr>)))
      | None \<Rightarrow>
          (case ref_basic X (cdb_db c) address of
             Inl e \<Rightarrow> (Inl e, c)
           | Inr (Some i) \<Rightarrow>
               (case ref_storage X (cdb_db c) address index of
                  Inl e \<Rightarrow> (Inl e, c)
                | Inr v \<Rightarrow>
                    (let acc = DbAccount_from (Some i);
                         acc = acc\<lparr>dba_storage := (dba_storage acc)(index \<mapsto> v)\<rparr> in
                     (Inr v, c\<lparr>cdb_accounts := (cdb_accounts c)(address \<mapsto> acc)\<rparr>)))
           | Inr None \<Rightarrow>
               (Inr 0, c\<lparr>cdb_accounts := (cdb_accounts c)(address \<mapsto> DbAccount_from None)\<rparr>)))"

definition cdb_code_by_hash :: "('x, 'e) ref_ops \<Rightarrow> 'x CacheDB \<Rightarrow> B256 \<Rightarrow> ('e + Bytecode) \<times> 'x CacheDB" where
  "cdb_code_by_hash X c h =
     (case cdb_contracts c h of
        Some bc \<Rightarrow> (Inr bc, c)
      | None \<Rightarrow>
          (case ref_code_by_hash X (cdb_db c) h of
             Inl e \<Rightarrow> (Inl e, c)
           | Inr bc \<Rightarrow> (Inr bc, c\<lparr>cdb_contracts := (cdb_contracts c)(h \<mapsto> bc)\<rparr>)))"

definition CacheDB_ops :: "('x, 'e) ref_ops \<Rightarrow> ('x CacheDB, 'e) db_ops" where
  "CacheDB_ops X =
     \<lparr> db_basic = cdb_basic X, db_code_by_hash = cdb_code_by_hash X,
       db_storage = cdb_storage X, db_block_hash = cdb_block_hash X \<rparr>"

text \<open>The read-only interface of the cache.\<close>

definition CacheDB_ref :: "('x, 'e) ref_ops \<Rightarrow> ('x CacheDB, 'e) ref_ops" where
  "CacheDB_ref X =
     \<lparr> ref_basic = (\<lambda>c address.
         case cdb_accounts c address of
           Some acc \<Rightarrow> Inr (DbAccount_info acc)
         | None \<Rightarrow> ref_basic X (cdb_db c) address),
       ref_code_by_hash = (\<lambda>c h.
         case cdb_contracts c h of Some bc \<Rightarrow> Inr bc | None \<Rightarrow> ref_code_by_hash X (cdb_db c) h),
       ref_storage = (\<lambda>c address index.
         case cdb_accounts c address of
           Some acc \<Rightarrow>
             (case dba_storage acc index of
                Some v \<Rightarrow> Inr v
              | None \<Rightarrow>
                  if dba_state acc = StorageCleared \<or> dba_state acc = NotExisting then Inr 0
                  else ref_storage X (cdb_db c) address index)
         | None \<Rightarrow> ref_storage X (cdb_db c) address index),
       ref_block_hash = (\<lambda>c number.
         case cdb_block_hashes c number of Some h \<Rightarrow> Inr h | None \<Rightarrow> ref_block_hash X (cdb_db c) number) \<rparr>"

section \<open>The empty and the benchmark database\<close>

definition EmptyDB :: "Libs \<Rightarrow> (unit, 'e) ref_ops" where
  "EmptyDB L =
     \<lparr> ref_basic = (\<lambda>_ _. Inr None), ref_code_by_hash = (\<lambda>_ _. Inr Bytecode_new),
       ref_storage = (\<lambda>_ _ _. Inr 0), ref_block_hash = (\<lambda>_ n. Inr (lib_keccak256 L (to_be_bytes 32 n))) \<rparr>"

type_synonym InMemoryDB = "unit CacheDB"

definition InMemoryDB_default :: InMemoryDB where
  "InMemoryDB_default = CacheDB_new ()"

definition BenchmarkDB_new_bytecode :: "Bytecode \<Rightarrow> Bytecode \<times> B256" where
  "BenchmarkDB_new_bytecode bc = (bc, bc_hash bc)"

definition BenchmarkDB_ops :: "(Bytecode \<times> B256, 'e) db_ops" where
  "BenchmarkDB_ops =
     \<lparr> db_basic = (\<lambda>d address.
         (Inr (if address = 0
               then Some \<lparr> balance = 10000000, nonce = 1, code_hash = snd d, code = Some (fst d) \<rparr>
               else None), d)),
       db_code_by_hash = (\<lambda>d _. (Inr Bytecode_new, d)),
       db_storage = (\<lambda>d _ _. (Inr 0, d)),
       db_block_hash = (\<lambda>d _. (Inr 0, d)) \<rparr>"

section \<open>The cache satisfies the database contract\<close>

text \<open>External databases that deliver executable code, in every state of \<open>XI\<close>.\<close>

locale ref_database =
  fixes X :: "('x, 'e) ref_ops" and XI :: "'x \<Rightarrow> bool"
  assumes ref_basic_ok: "XI x \<Longrightarrow> ref_basic X x a = Inr (Some i) \<Longrightarrow> code i = Some bc \<Longrightarrow> code_ok bc"
    and ref_code_ok: "XI x \<Longrightarrow> ref_code_by_hash X x h = Inr bc \<Longrightarrow> code_ok bc"

definition info_ok :: "AccountInfo \<Rightarrow> bool" where
  "info_ok i \<longleftrightarrow> (\<forall>bc. code i = Some bc \<longrightarrow> code_ok bc)"

definition cache_codes_ok :: "'x CacheDB \<Rightarrow> bool" where
  "cache_codes_ok c \<longleftrightarrow> (\<forall>a acc. cdb_accounts c a = Some acc \<longrightarrow> info_ok (dba_info acc)) \<and>
     (\<forall>h bc. cdb_contracts c h = Some bc \<longrightarrow> code_ok bc)"

lemma info_ok_default [simp]: "info_ok AccountInfo_default"
  by (simp add: info_ok_def AccountInfo_default_def)

lemma DbAccount_simps [simp]:
  "dba_info DbAccount_default = AccountInfo_default" "dba_state DbAccount_default = AccountState_None"
  "dba_storage DbAccount_default = Map.empty"
  "dba_info DbAccount_new_not_existing = AccountInfo_default" "dba_state DbAccount_new_not_existing = NotExisting"
  "dba_storage DbAccount_new_not_existing = Map.empty"
  by (simp_all add: DbAccount_default_def DbAccount_new_not_existing_def)

lemma CacheDB_new_ok [simp]: "cache_codes_ok (CacheDB_new x)"
  by (auto simp: cache_codes_ok_def CacheDB_new_def split: if_splits)

lemma insert_contract_ok:
  assumes "cache_codes_ok c" "info_ok i" "insert_contract i c = (i', c')"
  shows "cache_codes_ok c' \<and> info_ok i' \<and> cdb_db c' = cdb_db c \<and> cdb_accounts c' = cdb_accounts c"
  using assms
  by (cases "code i") (auto simp: insert_contract_def cache_codes_ok_def info_ok_def Let_def
      split: if_splits option.splits)

lemma commit_one_ok:
  assumes "cache_codes_ok c" "acc_ok acc"
  shows "cache_codes_ok (commit_one (a, acc) c) \<and> cdb_db (commit_one (a, acc) c) = cdb_db c"
proof -
  obtain i c' where ic: "insert_contract (info acc) c = (i, c')" by fastforce
  have "info_ok (info acc)" using assms(2) by (simp add: acc_ok_def info_ok_def)
  note k = insert_contract_ok [OF assms(1) this ic]
  show ?thesis
  proof (cases "is_destroyed acc")
    case True
    then show ?thesis using assms(1) by (auto simp: commit_one_def cache_codes_ok_def Let_def split: if_splits)
  next
    case False
    then show ?thesis using k by (auto simp: commit_one_def cache_codes_ok_def Let_def ic split: if_splits)
  qed
qed

lemma commit_ok:
  "cache_codes_ok c \<Longrightarrow> \<forall>(a, acc) \<in> set changes. acc_ok acc \<Longrightarrow>
   cache_codes_ok (commit changes c) \<and> cdb_db (commit changes c) = cdb_db c"
  by (induction changes arbitrary: c) (auto simp: commit_one_ok)

context ref_database
begin

definition cache_inv :: "'x CacheDB \<Rightarrow> bool" where
  "cache_inv c \<longleftrightarrow> cache_codes_ok c \<and> XI (cdb_db c)"

lemma cdb_basic_ok:
  assumes "cache_inv c" "cdb_basic X c a = (r, c')"
  shows "cache_inv c' \<and> (\<forall>i bc. r = Inr (Some i) \<longrightarrow> code i = Some bc \<longrightarrow> code_ok bc)"
  using assms ref_basic_ok [of "cdb_db c" a]
  by (auto simp: cdb_basic_def cache_inv_def cache_codes_ok_def DbAccount_info_def info_ok_def Let_def
      split: option.splits sum.splits if_splits simp: AccountInfo_default_def)

lemma cdb_code_by_hash_ok:
  assumes "cache_inv c" "cdb_code_by_hash X c h = (r, c')"
  shows "cache_inv c' \<and> (\<forall>bc. r = Inr bc \<longrightarrow> code_ok bc)"
  using assms ref_code_ok [of "cdb_db c" h]
  by (auto simp: cdb_code_by_hash_def cache_inv_def cache_codes_ok_def split: option.splits sum.splits if_splits)

lemma cdb_storage_ok:
  assumes "cache_inv c" "cdb_storage X c a k = (r, c')"
  shows "cache_inv c'"
  using assms ref_basic_ok [of "cdb_db c" a]
  by (auto simp: cdb_storage_def cache_inv_def cache_codes_ok_def DbAccount_from_def info_ok_def Let_def
      split: option.splits sum.splits if_splits simp: AccountInfo_default_def)

lemma cdb_block_hash_ok: "cache_inv c \<Longrightarrow> cdb_block_hash X c n = (r, c') \<Longrightarrow> cache_inv c'"
  by (auto simp: cdb_block_hash_def cache_inv_def cache_codes_ok_def split: option.splits sum.splits)

end

sublocale ref_database \<subseteq> cache: database "CacheDB_ops X" cache_inv
  by unfold_locales
     (auto simp: CacheDB_ops_def dest: cdb_basic_ok cdb_code_by_hash_ok cdb_storage_ok cdb_block_hash_ok)

sublocale ref_database \<subseteq> wrapped: database "RefDBWrapper X" XI
  by unfold_locales (auto simp: RefDBWrapper_def dest: ref_basic_ok ref_code_ok)

context ref_database
begin

text \<open>A cache is itself an external database for another cache.\<close>

lemma cached_ref: "ref_database (CacheDB_ref X) cache_inv"
  by unfold_locales
     (auto simp: CacheDB_ref_def cache_inv_def cache_codes_ok_def info_ok_def DbAccount_info_def
       split: option.splits if_splits dest: ref_basic_ok ref_code_ok)

end

interpretation empty: ref_database "EmptyDB L :: (unit, 'e) ref_ops" "\<lambda>_. True" for L
  by unfold_locales (auto simp: EmptyDB_def)

interpretation benchmark: database "BenchmarkDB_ops :: (Bytecode \<times> B256, 'e) db_ops" "\<lambda>d. code_ok (fst d)"
  by unfold_locales (auto simp: BenchmarkDB_ops_def split: if_splits)

section \<open>Reads do not change what is read\<close>

definition same_reads :: "('x, 'e) ref_ops \<Rightarrow> 'x CacheDB \<Rightarrow> 'x CacheDB \<Rightarrow> bool" where
  "same_reads X c c' \<longleftrightarrow>
     (\<forall>a. ref_basic (CacheDB_ref X) c' a = ref_basic (CacheDB_ref X) c a) \<and>
     (\<forall>a k. ref_storage (CacheDB_ref X) c' a k = ref_storage (CacheDB_ref X) c a k) \<and>
     (\<forall>h. ref_code_by_hash (CacheDB_ref X) c' h = ref_code_by_hash (CacheDB_ref X) c h) \<and>
     (\<forall>n. ref_block_hash (CacheDB_ref X) c' n = ref_block_hash (CacheDB_ref X) c n)"

definition stored :: "DbAccount \<Rightarrow> U256 \<Rightarrow> 'e + U256 \<Rightarrow> 'e + U256" where
  "stored acc k outer =
     (case dba_storage acc k of
        Some v \<Rightarrow> Inr v
      | None \<Rightarrow> if dba_state acc = StorageCleared \<or> dba_state acc = NotExisting then Inr 0 else outer)"

lemma ref_basic_cache:
  "ref_basic (CacheDB_ref X) c a =
     (case cdb_accounts c a of Some acc \<Rightarrow> Inr (DbAccount_info acc) | None \<Rightarrow> ref_basic X (cdb_db c) a)"
  by (simp add: CacheDB_ref_def)

lemma ref_storage_cache:
  "ref_storage (CacheDB_ref X) c a k =
     (case cdb_accounts c a of Some acc \<Rightarrow> stored acc k (ref_storage X (cdb_db c) a k)
      | None \<Rightarrow> ref_storage X (cdb_db c) a k)"
  by (simp add: CacheDB_ref_def stored_def split: option.split)

lemma ref_upd [simp]:
  "ref_basic (CacheDB_ref X) (c\<lparr>cdb_accounts := (cdb_accounts c)(a \<mapsto> acc)\<rparr>) b =
     (if b = a then Inr (DbAccount_info acc) else ref_basic (CacheDB_ref X) c b)"
  "ref_storage (CacheDB_ref X) (c\<lparr>cdb_accounts := (cdb_accounts c)(a \<mapsto> acc)\<rparr>) b k =
     (if b = a then stored acc k (ref_storage X (cdb_db c) a k) else ref_storage (CacheDB_ref X) c b k)"
  "ref_code_by_hash (CacheDB_ref X) (c\<lparr>cdb_accounts := m\<rparr>) h = ref_code_by_hash (CacheDB_ref X) c h"
  "ref_block_hash (CacheDB_ref X) (c\<lparr>cdb_accounts := m\<rparr>) n = ref_block_hash (CacheDB_ref X) c n"
  by (simp_all add: CacheDB_ref_def stored_def cong: option.case_cong if_cong)

lemma ref_upd_code [simp]:
  "ref_basic (CacheDB_ref X) (c\<lparr>cdb_contracts := m\<rparr>) a = ref_basic (CacheDB_ref X) c a"
  "ref_storage (CacheDB_ref X) (c\<lparr>cdb_contracts := m\<rparr>) a k = ref_storage (CacheDB_ref X) c a k"
  "ref_code_by_hash (CacheDB_ref X) (c\<lparr>cdb_contracts := (cdb_contracts c)(h \<mapsto> bc)\<rparr>) h' =
     (if h' = h then Inr bc else ref_code_by_hash (CacheDB_ref X) c h')"
  "ref_block_hash (CacheDB_ref X) (c\<lparr>cdb_contracts := m\<rparr>) n = ref_block_hash (CacheDB_ref X) c n"
  by (simp_all add: CacheDB_ref_def cong: option.case_cong if_cong)

lemma ref_upd_hash [simp]:
  "ref_basic (CacheDB_ref X) (c\<lparr>cdb_block_hashes := m\<rparr>) a = ref_basic (CacheDB_ref X) c a"
  "ref_storage (CacheDB_ref X) (c\<lparr>cdb_block_hashes := m\<rparr>) a k = ref_storage (CacheDB_ref X) c a k"
  "ref_code_by_hash (CacheDB_ref X) (c\<lparr>cdb_block_hashes := m\<rparr>) h = ref_code_by_hash (CacheDB_ref X) c h"
  "ref_block_hash (CacheDB_ref X) (c\<lparr>cdb_block_hashes := (cdb_block_hashes c)(n \<mapsto> w)\<rparr>) n' =
     (if n' = n then Inr w else ref_block_hash (CacheDB_ref X) c n')"
  by (simp_all add: CacheDB_ref_def cong: option.case_cong if_cong)

text \<open>
  An external database that answers account queries and has no storage for an account it lacks.
\<close>

definition ref_sound :: "('x, 'e) ref_ops \<Rightarrow> 'x \<Rightarrow> bool" where
  "ref_sound X x \<longleftrightarrow> (\<forall>a. (\<exists>i. ref_basic X x a = Inr (Some i)) \<or>
     ref_basic X x a = Inr None \<and> (\<forall>k. ref_storage X x a k = Inr 0))"

lemma cdb_basic_transparent:
  assumes "ref_sound X (cdb_db c)"
  shows "fst (cdb_basic X c a) = ref_basic (CacheDB_ref X) c a \<and> same_reads X c (snd (cdb_basic X c a))"
proof (cases "cdb_accounts c a")
  case None
  consider i where "ref_basic X (cdb_db c) a = Inr (Some i)" |
    "ref_basic X (cdb_db c) a = Inr None" "\<And>k. ref_storage X (cdb_db c) a k = Inr 0"
    using assms unfolding ref_sound_def by blast
  then show ?thesis
    by cases (use None in \<open>auto simp: cdb_basic_def same_reads_def ref_basic_cache [where c = c] ref_storage_cache [where c = c] stored_def DbAccount_info_def\<close>)
qed (simp add: cdb_basic_def same_reads_def ref_basic_cache)

lemma cdb_storage_transparent:
  assumes "ref_sound X (cdb_db c)"
  shows "fst (cdb_storage X c a k) = ref_storage (CacheDB_ref X) c a k \<and> same_reads X c (snd (cdb_storage X c a k))"
proof (cases "cdb_accounts c a")
  case None
  consider i where "ref_basic X (cdb_db c) a = Inr (Some i)" |
    "ref_basic X (cdb_db c) a = Inr None" "\<And>k. ref_storage X (cdb_db c) a k = Inr 0"
    using assms unfolding ref_sound_def by blast
  then show ?thesis
  proof cases
    case (1 i)
    then show ?thesis using None
      by (cases "ref_storage X (cdb_db c) a k")
         (auto simp: cdb_storage_def same_reads_def ref_basic_cache [where c = c] ref_storage_cache [where c = c] stored_def DbAccount_info_def DbAccount_from_def)
  next
    case 2
    then show ?thesis using None
      by (auto simp: cdb_storage_def same_reads_def ref_basic_cache [where c = c] ref_storage_cache [where c = c] stored_def DbAccount_info_def DbAccount_from_def)
  qed
next
  case (Some acc)
  then show ?thesis
    by (cases "dba_storage acc k"; cases "ref_storage X (cdb_db c) a k")
       (auto simp: cdb_storage_def same_reads_def ref_basic_cache [where c = c] ref_storage_cache [where c = c] stored_def DbAccount_info_def)
qed

lemma cdb_code_transparent:
  "fst (cdb_code_by_hash X c h) = ref_code_by_hash (CacheDB_ref X) c h \<and> same_reads X c (snd (cdb_code_by_hash X c h))"
  by (cases "cdb_contracts c h"; cases "ref_code_by_hash X (cdb_db c) h")
     (simp_all add: cdb_code_by_hash_def same_reads_def, simp_all add: CacheDB_ref_def)

lemma cdb_block_hash_transparent:
  "fst (cdb_block_hash X c n) = ref_block_hash (CacheDB_ref X) c n \<and> same_reads X c (snd (cdb_block_hash X c n))"
  by (cases "cdb_block_hashes c n"; cases "ref_block_hash X (cdb_db c) n")
     (simp_all add: cdb_block_hash_def same_reads_def, simp_all add: CacheDB_ref_def)

section \<open>Committing writes exactly the changes\<close>

text \<open>
  The accounts as a reader sees them: the info of an existing account, and its storage. A committed
  account replaces the info; its slots override the storage, which starts empty when the account was
  created anew; a destroyed account disappears.
\<close>

type_synonym world = "B160 \<Rightarrow> AccountInfo option \<times> (U256 \<Rightarrow> U256)"

definition seen :: "('x, 'e) ref_ops \<Rightarrow> 'x CacheDB \<Rightarrow> world" where
  "seen X c a = (projr (ref_basic (CacheDB_ref X) c a), \<lambda>k. projr (ref_storage (CacheDB_ref X) c a k))"

definition stored_info :: "AccountInfo \<Rightarrow> AccountInfo" where
  "stored_info i =
     (let h = (case code i of Some bc \<Rightarrow> if Bytecode_is_empty bc then code_hash i else bc_hash bc | None \<Rightarrow> code_hash i) in
      i\<lparr>code_hash := if h = 0 then KECCAK_EMPTY else h\<rparr>)"

definition world_commit_one :: "B160 \<times> Account \<Rightarrow> world \<Rightarrow> world" where
  "world_commit_one = (\<lambda>(a, acc) w. w(a :=
     if is_destroyed acc then (None, \<lambda>_. 0)
     else (Some (stored_info (info acc)),
           \<lambda>k. case storage acc k of Some slot \<Rightarrow> present_value slot
                | None \<Rightarrow> if storage_cleared acc then 0 else snd (w a) k)))"

lemma insert_contract_eq:
  "insert_contract i c = (i', c') \<Longrightarrow>
     i' = stored_info i \<and> cdb_accounts c' = cdb_accounts c \<and> cdb_db c' = cdb_db c"
  by (cases "code i") (auto simp: insert_contract_def stored_info_def Let_def split: if_splits option.splits)

lemma seen_cong: "cdb_db c' = cdb_db c \<Longrightarrow> cdb_accounts c' a = cdb_accounts c a \<Longrightarrow> seen X c' a = seen X c a"
  by (simp add: seen_def ref_basic_cache ref_storage_cache cong: option.case_cong)

text \<open>The account that \<open>commit\<close> writes.\<close>

definition committed :: "DbAccount option \<Rightarrow> Account \<Rightarrow> DbAccount" where
  "committed old acc =
     (if is_destroyed acc then DbAccount_new_not_existing
      else \<lparr> dba_info = stored_info (info acc),
             dba_state = (if storage_cleared acc \<or> dba_state (or_default old) = StorageCleared then StorageCleared else Touched),
             dba_storage = (if storage_cleared acc then Map.empty else dba_storage (or_default old)) ++
               (map_option present_value \<circ> storage acc) \<rparr>)"

lemma commit_one_committed:
  "\<exists>c'. commit_one (a, acc) c = c'\<lparr>cdb_accounts := (cdb_accounts c')(a \<mapsto> committed (cdb_accounts c a) acc)\<rparr> \<and>
     cdb_accounts c' = cdb_accounts c \<and> cdb_db c' = cdb_db c"
proof (cases "is_destroyed acc")
  case True
  have "commit_one (a, acc) c = c\<lparr>cdb_accounts := (cdb_accounts c)(a \<mapsto> committed (cdb_accounts c a) acc)\<rparr>"
    using True by (cases "or_default (cdb_accounts c a)")
      (simp add: commit_one_def committed_def DbAccount_new_not_existing_def DbAccount_default_def Let_def)
  then show ?thesis by blast
next
  case False
  obtain i c' where ic: "insert_contract (info acc) c = (i, c')" by fastforce
  have "commit_one (a, acc) c = c'\<lparr>cdb_accounts := (cdb_accounts c')(a \<mapsto> committed (cdb_accounts c a) acc)\<rparr>"
    using False insert_contract_eq [OF ic]
    by (cases "or_default (cdb_accounts c a)")
       (simp add: commit_one_def committed_def ic is_storage_cleared_def)
  then show ?thesis using insert_contract_eq [OF ic] by blast
qed

lemma commit_one_other:
  "b \<noteq> a \<Longrightarrow> cdb_accounts (commit_one (a, acc) c) b = cdb_accounts c b"
  "cdb_db (commit_one (a, acc) c) = cdb_db c"
  using commit_one_committed [of a acc c] by auto

lemma stored_committed:
  "stored (committed old acc) k outer =
     (if is_destroyed acc then Inr 0
      else case storage acc k of Some slot \<Rightarrow> Inr (present_value slot)
        | None \<Rightarrow>
            if storage_cleared acc then Inr 0
            else case dba_storage (or_default old) k of Some v \<Rightarrow> Inr v
              | None \<Rightarrow> if dba_state (or_default old) = StorageCleared then Inr 0 else outer)"
  by (auto simp: stored_def committed_def map_add_def split: option.split)

lemma commit_one_seen:
  assumes "\<And>old k. cdb_accounts c a = Some old \<Longrightarrow> dba_state old = NotExisting \<Longrightarrow> dba_storage old k = None \<Longrightarrow>
      ref_storage X (cdb_db c) a k = Inr 0"
  shows "seen X (commit_one (a, acc) c) = world_commit_one (a, acc) (seen X c)"
proof
  fix b
  obtain c' where c': "commit_one (a, acc) c = c'\<lparr>cdb_accounts := (cdb_accounts c')(a \<mapsto> committed (cdb_accounts c a) acc)\<rparr>"
    "cdb_accounts c' = cdb_accounts c" "cdb_db c' = cdb_db c" using commit_one_committed by blast
  show "seen X (commit_one (a, acc) c) b = world_commit_one (a, acc) (seen X c) b"
  proof (cases "b = a")
    case False
    then show ?thesis
      by (simp add: world_commit_one_def seen_cong [OF commit_one_other(2) commit_one_other(1)])
  next
    case True
    have "DbAccount_info (committed (cdb_accounts c a) acc) =
        (if is_destroyed acc then None else Some (stored_info (info acc)))"
      by (simp add: DbAccount_info_def committed_def)
    moreover have "projr (stored (committed (cdb_accounts c a) acc) k (ref_storage X (cdb_db c) a k)) =
        (if is_destroyed acc then 0 else case storage acc k of Some slot \<Rightarrow> present_value slot
          | None \<Rightarrow> if storage_cleared acc then 0 else snd (seen X c a) k)" for k
      using assms [of _ k] unfolding stored_committed seen_def ref_storage_cache
      by (cases "cdb_accounts c a") (auto simp: stored_def or_default_def split: option.splits)
    ultimately show ?thesis using True
      by (simp add: c'(1,3) seen_def world_commit_one_def)
  qed
qed

lemma commit_seen:
  assumes "distinct (map fst changes)"
    "\<And>a old k. a \<in> fst ` set changes \<Longrightarrow> cdb_accounts c a = Some old \<Longrightarrow> dba_state old = NotExisting \<Longrightarrow>
      dba_storage old k = None \<Longrightarrow> ref_storage X (cdb_db c) a k = Inr 0"
  shows "seen X (commit changes c) = fold world_commit_one changes (seen X c)"
  using assms
proof (induction changes arbitrary: c)
  case (Cons ch changes)
  obtain a acc where ch: "ch = (a, acc)" by fastforce
  have "seen X (commit changes (commit_one ch c)) = fold world_commit_one changes (seen X (commit_one ch c))"
  proof (rule Cons.IH)
    fix b old k
    assume b: "b \<in> fst ` set changes" "cdb_accounts (commit_one ch c) b = Some old"
      "dba_state old = NotExisting" "dba_storage old k = None"
    then have "b \<noteq> a" using Cons.prems(1) ch by auto
    then show "ref_storage X (cdb_db (commit_one ch c)) b k = Inr 0"
      using b Cons.prems(2) [of b old k] commit_one_other(1) [of b a acc c] commit_one_other(2) [of a acc c] ch by auto
  qed (use Cons.prems in auto)
  moreover have "seen X (commit_one ch c) = world_commit_one ch (seen X c)"
    unfolding ch by (rule commit_one_seen) (use Cons.prems(2) [of a] ch in auto)
  ultimately show ?case by simp
qed simp

end
