(* ===== verification/Evm_Transact.thy ===== *)
theory Evm_Transact
  imports Evm_Impl Cache_DB
begin

text \<open>
  The processing of a transaction, \<open>Transact::transact\<close> of \<open>crates/revm/src/evm_impl.rs\<close> with
  \<open>initialization\<close> and \<open>finalize\<close>, and the entry points of \<open>evm.rs\<close>. The validation is split into the
  checks of the environment, of the caller's account and of its funds; each returns the error of the
  first check that fails. Iterating over the table of contracts follows the order of the list.
\<close>

section \<open>Validation\<close>

text \<open>The checks of \<open>transact\<close> before the caller is loaded.\<close>

definition validate_env :: "SpecId \<Rightarrow> Env \<Rightarrow> 'e EVMError option" where
  "validate_env spec env =
     (if enabled spec MERGE \<and> prevrandao (block env) = None then Some PrevrandaoNotSet
      else if enabled spec LONDON \<and>
          (case gas_priority_fee (tx env) of Some priority_fee \<Rightarrow> priority_fee > tx_gas_price (tx env) | None \<Rightarrow> False)
      then Some (Transaction GasMaxFeeGreaterThanPriorityFee)
      else if enabled spec LONDON \<and> \<not> disable_base_fee (cfg env) \<and> effective_gas_price env < basefee (block env)
      then Some (Transaction GasPriceLessThanBasefee)
      else if \<not> disable_block_gas_limit (cfg env) \<and> ucast (tx_gas_limit (tx env)) > blk_gas_limit (block env)
      then Some (Transaction CallerGasLimitMoreThanBlock)
      else None)"

text \<open>The checks of the caller's account: code, chain id, nonce, funds.\<close>

definition validate_caller :: "Env \<Rightarrow> AccountInfo \<Rightarrow> 'e EVMError option" where
  "validate_caller env i =
     (if \<not> disable_eip3607 (cfg env) \<and> code_hash i \<noteq> KECCAK_EMPTY then Some (Transaction RejectCallerWithCode)
      else if (case tx_chain_id (tx env) of Some tx_id \<Rightarrow> ucast tx_id \<noteq> cfg_chain_id (cfg env) | None \<Rightarrow> False)
      then Some (Transaction InvalidChainId)
      else
        (case tx_nonce (tx env) of
           Some n \<Rightarrow>
             if n > nonce i then Some (Transaction (NonceTooHigh n (nonce i)))
             else if n < nonce i then Some (Transaction (NonceTooLow n (nonce i)))
             else None
         | None \<Rightarrow> None))"

definition validate_funds :: "Env \<Rightarrow> AccountInfo \<Rightarrow> 'e EVMError option" where
  "validate_funds env i =
     (let price = ucast (tx_gas_limit (tx env)) in
      case Option.bind (checked_mul price (tx_gas_price (tx env))) (\<lambda>cost. checked_add cost (tx_value (tx env))) of
        None \<Rightarrow> Some (Transaction OverflowPaymentInTransaction)
      | Some balance_check \<Rightarrow>
          if balance_check > balance i \<and> \<not> disable_balance_check (cfg env)
          then Some (Transaction (LackOfFundForGasLimit balance_check (balance i)))
          else None)"

text \<open>The caller's balance without the gas it may use.\<close>

definition prepaid_balance :: "Env \<Rightarrow> U256 \<Rightarrow> U256" where
  "prepaid_balance env bal =
     (case checked_sub bal (ucast (tx_gas_limit (tx env)) * effective_gas_price env) of
        Some rest \<Rightarrow> rest
      | None \<Rightarrow> 0)"

section \<open>Intrinsic gas\<close>

fun access_slots ::
  "('db, 'e) db_ops \<Rightarrow> B160 \<Rightarrow> U256 list \<Rightarrow> JournaledState \<Rightarrow> 'db \<Rightarrow> (('e + unit) \<times> JournaledState \<times> 'db) comp" where
  "access_slots D address [] js db = Val (Inr (), js, db)"
| "access_slots D address (slot # slots) js db =
     bind_comp (sload D address slot js db) (\<lambda>(r, js, db).
       case r of Inl e \<Rightarrow> Val (Inl e, js, db) | Inr _ \<Rightarrow> access_slots D address slots js db)"

fun access_accounts ::
  "('db, 'e) db_ops \<Rightarrow> (B160 \<times> U256 list) list \<Rightarrow> u64 \<Rightarrow> JournaledState \<Rightarrow> 'db \<Rightarrow>
     (('e + u64) \<times> JournaledState \<times> 'db) comp" where
  "access_accounts D [] accessed_slots js db = Val (Inr accessed_slots, js, db)"
| "access_accounts D ((address, slots) # rest) accessed_slots js db =
     bind_comp (load_account D address js db) (\<lambda>(r, js, db).
       case r of Inl e \<Rightarrow> Val (Inl e, js, db) | Inr _ \<Rightarrow>
       bind_comp (access_slots D address slots js db) (\<lambda>(r, js, db).
         case r of Inl e \<Rightarrow> Val (Inl e, js, db) | Inr _ \<Rightarrow>
         access_accounts D rest (accessed_slots + of_nat (length slots)) js db))"

definition intrinsic_gas :: "SpecId \<Rightarrow> Env \<Rightarrow> u64 \<Rightarrow> u64 \<Rightarrow> u64" where
  "intrinsic_gas spec env initcode accessed_slots =
     (let input = tx_data (tx env);
          zero_data_len = of_nat (length (filter (\<lambda>v. v = 0) input));
          non_zero_data_len = of_nat (length input) - zero_data_len;
          accessed_accounts = (if enabled spec BERLIN then of_nat (length (access_list (tx env))) else 0);
          transact = (if is_create (transact_to (tx env)) then if enabled spec HOMESTEAD then 53000 else 21000
                      else 21000);
          gas_transaction_non_zero_data = (if enabled spec ISTANBUL then 16 else 68) in
      transact + initcode + zero_data_len * gas_TRANSACTION_ZERO_DATA +
        non_zero_data_len * gas_transaction_non_zero_data + accessed_accounts * gas_ACCESS_LIST_ADDRESS +
        accessed_slots * gas_ACCESS_LIST_STORAGE_KEY)"

definition initialization ::
  "('db, 'e) db_ops \<Rightarrow> SpecId \<Rightarrow> ('db, 'e) EVMData \<Rightarrow> (('e EVMError + u64) \<times> ('db, 'e) EVMData) comp" where
  "initialization D spec h =
     (let env = ed_env h; t = tx env;
          metered = enabled spec SHANGHAI \<and> is_create (transact_to t);
          initcode_len = of_nat (length (tx_data t));
          max_initcode_size = (case limit_contract_code_size (cfg env) of
              Some limit \<Rightarrow> saturating_mul limit 2
            | None \<Rightarrow> MAX_INITCODE_SIZE) in
      if metered \<and> initcode_len > max_initcode_size then Val (Inl (Transaction Invalid_CreateInitcodeSizeLimit), h)
      else
        bind_comp
          (if enabled spec BERLIN then access_accounts D (access_list t) 0 (journaled_state h) (ed_db h)
           else Val (Inr 0, journaled_state h, ed_db h)) (\<lambda>(r, js, db).
          let h = h\<lparr>journaled_state := js, ed_db := db\<rparr> in
          case r of
            Inl e \<Rightarrow> Val (Inl (Database e), h)
          | Inr accessed_slots \<Rightarrow>
              Val (Inr (intrinsic_gas spec env (if metered then initcode_cost initcode_len else 0) accessed_slots), h)))"

section \<open>Settlement\<close>

definition set_acc_balance :: "B160 \<Rightarrow> (U256 \<Rightarrow> U256) \<Rightarrow> JournaledState \<Rightarrow> JournaledState comp" where
  "set_acc_balance address f js =
     bind_comp (get_acc address js) (\<lambda>acc. Val (put_acc address (set_balance (f (balance (info acc))) acc) js))"

fun add_precompile_balances ::
  "('db, 'e) db_ops \<Rightarrow> B160 list \<Rightarrow> State \<Rightarrow> 'db \<Rightarrow> State \<times> 'db" where
  "add_precompile_balances D [] st db = (st, db)"
| "add_precompile_balances D (address # rest) st db =
     (case st address of
        None \<Rightarrow> add_precompile_balances D rest st db
      | Some acc \<Rightarrow>
          (case db_basic D db address of (r, db) \<Rightarrow>
             let stored = (case r of Inr (Some i) \<Rightarrow> balance i | _ \<Rightarrow> 0) in
             add_precompile_balances D rest (st(address \<mapsto> set_balance (balance (info acc) + stored) acc)) db))"

definition refund_of :: "SpecId \<Rightarrow> Env \<Rightarrow> Gas \<Rightarrow> u64" where
  "refund_of spec env gas' =
     (if disable_gas_refund (cfg env) then 0
      else
        (let max_refund_quotient = (if enabled spec LONDON then 5 else 2) in
         min (g_refunded gas') (spend gas' div max_refund_quotient)))"

definition evm_finalize ::
  "('db, 'e) db_ops \<Rightarrow> SpecId \<Rightarrow> B160 \<Rightarrow> Gas \<Rightarrow> ('db, 'e) EVMData \<Rightarrow>
     ((State \<times> Log list \<times> u64 \<times> u64) \<times> ('db, 'e) EVMData) comp" where
  "evm_finalize D spec caller gas' h =
     (let env = ed_env h; beneficiary = coinbase (block env); price = effective_gas_price env;
          gas_refunded = refund_of spec env gas' in
      bind_comp (set_acc_balance caller
          (\<lambda>bal. saturating_add bal (price * ucast (remaining gas' + gas_refunded))) (journaled_state h)) (\<lambda>js.
      let coinbase_gas_price = (if enabled spec LONDON then saturating_sub price (basefee (block env)) else price) in
      bind_comp (load_account D beneficiary js (ed_db h)) (\<lambda>(_, js, db).
      bind_comp (touch beneficiary js) (\<lambda>js.
      bind_comp (set_acc_balance beneficiary
          (\<lambda>bal. saturating_add bal (coinbase_gas_price * ucast (spend gas' - gas_refunded))) js) (\<lambda>js.
      let (new_state, ls, js) = finalize js;
          (new_state, db) =
            (if perf_all_precompiles_have_balance (cfg env)
             then add_precompile_balances D (Precompiles_addresses (ed_precompiles h)) new_state db
             else (new_state, db)) in
      Val ((new_state, ls, spend gas' - gas_refunded, gas_refunded), h\<lparr>journaled_state := js, ed_db := db\<rparr>))))))"

section \<open>Transactions\<close>

text \<open>The top-level call or creation, with the gas that is left after the intrinsic cost.\<close>

definition transact_inner ::
  "Libs \<Rightarrow> ('db, 'e) db_ops \<Rightarrow> SpecId \<Rightarrow> nat \<Rightarrow> u64 \<Rightarrow> Gas \<Rightarrow> ('db, 'e) EVMData \<Rightarrow>
     (InstructionResult \<times> Gas \<times> Output \<times> ('db, 'e) EVMData) comp" where
  "transact_inner L D spec n gas_limit gas' h =
     (let t = tx (ed_env h); caller = tx_caller t; v = tx_value t; data = tx_data t;
          H = evm_host L D spec n in
      case transact_to t of
        TransactCall address \<Rightarrow>
          bind_comp (inc_nonce caller (journaled_state h)) (\<lambda>(r, js).
          let h = put_journal js h in
          case r of
            Some _ \<Rightarrow>
              (let context = \<lparr> ctx_address = address, ctx_caller = caller, ctx_code_address = address,
                               ctx_apparent_value = v, ctx_scheme = CallScheme_Call \<rparr>;
                   call_input = \<lparr> ci_contract = address,
                                  ci_transfer = \<lparr> tr_source = caller, tr_target = address, tr_value = v \<rparr>,
                                  ci_input = data, ci_gas_limit = gas_limit, ci_context = context,
                                  ci_is_static = False \<rparr> in
               bind_comp (call_inner L D H spec h call_input) (\<lambda>(exit_reason, ret_gas, bs, h).
                 Val (exit_reason, ret_gas, Output_Call bs, h)))
          | None \<Rightarrow> Val (NonceOverflow, gas', Output_Call [], h))
      | TransactCreate scheme \<Rightarrow>
          (let create_input = \<lparr> cr_caller = caller, cr_scheme = scheme, cr_value = v, cr_init_code = data,
                                cr_gas_limit = gas_limit \<rparr> in
           bind_comp (create_inner L D H spec h create_input) (\<lambda>(exit_reason, address, ret_gas, bs, h).
             Val (exit_reason, ret_gas, Output_Create bs address, h))))"

definition returned_gas :: "InstructionResult \<Rightarrow> Gas \<Rightarrow> Gas \<Rightarrow> Gas" where
  "returned_gas exit_reason ret_gas gas' =
     (if return_ok exit_reason then record_refund (erase_cost gas' (remaining ret_gas)) (g_refunded ret_gas)
      else if return_revert exit_reason then erase_cost gas' (remaining ret_gas)
      else gas')"

definition transact_result ::
  "InstructionResult \<Rightarrow> Output \<Rightarrow> State \<times> Log list \<times> u64 \<times> u64 \<Rightarrow> ('db, 'e) EVMData \<Rightarrow>
     (('e EVMError + ResultAndState) \<times> ('db, 'e) EVMData) comp" where
  "transact_result exit_reason output = (\<lambda>(st, ls, used, gas_refunded) h.
     let done = (\<lambda>result. Val (Inr \<lparr> rs_result = result, rs_state = st \<rparr>, h)) in
     case SuccessOrHalt_from exit_reason of
       SH_Success reason \<Rightarrow> done (ER_Success reason used gas_refunded ls output)
     | SH_Revert \<Rightarrow> done (ER_Revert used (into_data output))
     | SH_Halt reason \<Rightarrow> done (ER_Halt reason used)
     | SH_FatalExternalError \<Rightarrow>
         bind_comp (unwrap (ed_error h)) (\<lambda>e. Val (Inl (Database e), h\<lparr>ed_error := None\<rparr>))
     | SH_InternalContinue \<Rightarrow> Panic)"

definition execute ::
  "Libs \<Rightarrow> ('db, 'e) db_ops \<Rightarrow> SpecId \<Rightarrow> nat \<Rightarrow> u64 \<Rightarrow> ('db, 'e) EVMData \<Rightarrow>
     (('e EVMError + ResultAndState) \<times> ('db, 'e) EVMData) comp" where
  "execute L D spec n initial_cost h =
     (let env = ed_env h; (paid, gas') = record_cost (Gas_new (tx_gas_limit (tx env))) initial_cost in
      if \<not> paid then Val (Inl (Transaction CallGasCostMoreThanGasLimit), h)
      else
        (let gas_limit = remaining gas'; gas' = snd (record_cost gas' gas_limit) in
         bind_comp
           (if enabled spec SHANGHAI then load_account D (coinbase (block env)) (journaled_state h) (ed_db h)
            else Val (Inr False, journaled_state h, ed_db h)) (\<lambda>(r, js, db).
         let h = h\<lparr>journaled_state := js, ed_db := db\<rparr> in
         case r of Inl e \<Rightarrow> Val (Inl (Database e), h) | Inr _ \<Rightarrow>
         bind_comp (transact_inner L D spec n gas_limit gas' h) (\<lambda>(exit_reason, ret_gas, output, h).
         bind_comp (evm_finalize D spec (tx_caller (tx env)) (returned_gas exit_reason ret_gas gas') h)
           (\<lambda>(out, h). transact_result exit_reason output out h)))))"

definition transact ::
  "Libs \<Rightarrow> ('db, 'e) db_ops \<Rightarrow> SpecId \<Rightarrow> nat \<Rightarrow> ('db, 'e) EVMData \<Rightarrow>
     (('e EVMError + ResultAndState) \<times> ('db, 'e) EVMData) comp" where
  "transact L D spec n h =
     (let env = ed_env h; caller = tx_caller (tx env) in
      case validate_env spec env of Some e \<Rightarrow> Val (Inl e, h) | None \<Rightarrow>
      bind_comp (load_account D caller (journaled_state h) (ed_db h)) (\<lambda>(r, js, db).
      let h = h\<lparr>journaled_state := js, ed_db := db\<rparr> in
      case r of Inl e \<Rightarrow> Val (Inl (Database e), h) | Inr _ \<Rightarrow>
      bind_comp (get_acc caller js) (\<lambda>acc.
      case validate_caller env (info acc) of Some e \<Rightarrow> Val (Inl e, h) | None \<Rightarrow>
      case validate_funds env (info acc) of Some e \<Rightarrow> Val (Inl e, h) | None \<Rightarrow>
      (let h = put_journal (put_acc caller (set_balance (prepaid_balance env (balance (info acc))) acc) js) h in
       bind_comp (initialization D spec h) (\<lambda>(r, h).
       case r of Inl e \<Rightarrow> Val (Inl e, h) | Inr initial_cost \<Rightarrow> execute L D spec n initial_cost h)))))"

section \<open>Entry points\<close>

definition EVMImpl_new :: "'db \<Rightarrow> Env \<Rightarrow> SpecId \<Rightarrow> Precompiles \<Rightarrow> Admin \<Rightarrow> ('db, 'e) EVMData" where
  "EVMImpl_new db env spec precompiles admin =
     (let js = (if enabled spec SPURIOUS_DRAGON then JournaledState_new (Precompiles_len precompiles)
                else new_legacy (Precompiles_len precompiles)) in
      \<lparr> ed_env = env, journaled_state = js, ed_db = db, ed_error = None, ed_precompiles = precompiles,
        ed_admin = admin \<rparr>)"

fun to_precompile_id :: "SpecId \<Rightarrow> PrecompileSpecId" where
  "to_precompile_id FRONTIER = PS_HOMESTEAD"
| "to_precompile_id FRONTIER_THAWING = PS_HOMESTEAD"
| "to_precompile_id HOMESTEAD = PS_HOMESTEAD"
| "to_precompile_id DAO_FORK = PS_HOMESTEAD"
| "to_precompile_id TANGERINE = PS_HOMESTEAD"
| "to_precompile_id SPURIOUS_DRAGON = PS_HOMESTEAD"
| "to_precompile_id BYZANTIUM = PS_BYZANTIUM"
| "to_precompile_id CONSTANTINOPLE = PS_BYZANTIUM"
| "to_precompile_id PETERSBURG = PS_BYZANTIUM"
| "to_precompile_id ISTANBUL = PS_ISTANBUL"
| "to_precompile_id MUIR_GLACIER = PS_ISTANBUL"
| "to_precompile_id _ = PS_BERLIN"

text \<open>The specification type that \<open>evm_inner\<close> selects for a hard fork.\<close>

fun spec_type :: "SpecId \<Rightarrow> SpecId" where
  "spec_type FRONTIER_THAWING = FRONTIER"
| "spec_type DAO_FORK = HOMESTEAD"
| "spec_type CONSTANTINOPLE = PETERSBURG"
| "spec_type MUIR_GLACIER = ISTANBUL"
| "spec_type ARROW_GLACIER = LONDON"
| "spec_type GRAY_GLACIER = LONDON"
| "spec_type CANCUN = LATEST"
| "spec_type s = s"

text \<open>The nesting that suffices: frames at depth 0 to \<open>CALL_STACK_LIMIT\<close> may start another one.\<close>

definition frames :: nat where "frames = 1026"

definition evm_inner ::
  "('fq, 'fr, 'g1, 'fq2, 'g2, 'gt) Deps \<Rightarrow> ('db, 'e) db_ops \<Rightarrow> Env \<Rightarrow> 'db \<Rightarrow> Admin \<Rightarrow>
     (('e EVMError + ResultAndState) \<times> ('db, 'e) EVMData) comp" where
  "evm_inner X D env db admin =
     (let spec = spec_type (cfg_spec_id (cfg env)) in
      transact (dep_libs X) D spec frames
        (EVMImpl_new db env spec (Precompiles_new X (to_precompile_id spec)) admin))"

text \<open>The struct \<open>EVM\<close>, here with the statics of the administration contract.\<close>

record 'db EVM =
  evm_env :: Env
  evm_db :: "'db option"
  evm_admin :: Admin

definition EVM_with_env :: "Env \<Rightarrow> Admin \<Rightarrow> 'db EVM" where
  "EVM_with_env env admin = \<lparr> evm_env = env, evm_db = None, evm_admin = admin \<rparr>"

definition EVM_new :: "Admin \<Rightarrow> 'db EVM" where
  "EVM_new admin = EVM_with_env Env_default admin"

definition EVM_database :: "'db \<Rightarrow> 'db EVM \<Rightarrow> 'db EVM" where
  "EVM_database db evm = evm\<lparr>evm_db := Some db\<rparr>"

definition EVM_take_db :: "'db EVM \<Rightarrow> ('db \<times> 'db EVM) comp" where
  "EVM_take_db evm = bind_comp (unwrap (evm_db evm)) (\<lambda>db. Val (db, evm\<lparr>evm_db := None\<rparr>))"

definition EVM_transact ::
  "('fq, 'fr, 'g1, 'fq2, 'g2, 'gt) Deps \<Rightarrow> ('db, 'e) db_ops \<Rightarrow> 'db EVM \<Rightarrow>
     (('e EVMError + ResultAndState) \<times> 'db EVM) comp" where
  "EVM_transact X D evm =
     (case evm_db evm of
        None \<Rightarrow> Panic
      | Some db \<Rightarrow>
          bind_comp (evm_inner X D (evm_env evm) db (evm_admin evm)) (\<lambda>(r, h).
            Val (r, evm\<lparr>evm_env := ed_env h, evm_db := Some (ed_db h), evm_admin := ed_admin h\<rparr>)))"

text \<open>\<open>transact_commit\<close>, over a function that commits a map of changes to the database.\<close>

definition EVM_transact_commit ::
  "('fq, 'fr, 'g1, 'fq2, 'g2, 'gt) Deps \<Rightarrow> ('db, 'e) db_ops \<Rightarrow> (State \<Rightarrow> 'db \<Rightarrow> 'db) \<Rightarrow> 'db EVM \<Rightarrow>
     (('e EVMError + ExecutionResult) \<times> 'db EVM) comp" where
  "EVM_transact_commit X D commit_db evm =
     bind_comp (EVM_transact X D evm) (\<lambda>(r, evm).
       case r of
         Inl e \<Rightarrow> Val (Inl e, evm)
       | Inr rs \<Rightarrow>
           bind_comp (unwrap (evm_db evm)) (\<lambda>db.
             Val (Inr (rs_result rs), evm\<lparr>evm_db := Some (commit_db (rs_state rs) db)\<rparr>)))"

text \<open>\<open>transact_ref\<close>: the database is only read, through a wrapper that is dropped.\<close>

definition EVM_transact_ref ::
  "('fq, 'fr, 'g1, 'fq2, 'g2, 'gt) Deps \<Rightarrow> ('db, 'e) ref_ops \<Rightarrow> 'db EVM \<Rightarrow>
     (('e EVMError + ResultAndState) \<times> 'db EVM) comp" where
  "EVM_transact_ref X R evm =
     (case evm_db evm of
        None \<Rightarrow> Panic
      | Some db \<Rightarrow>
          bind_comp (evm_inner X (RefDBWrapper R) (evm_env evm) db (evm_admin evm)) (\<lambda>(r, h).
            Val (r, evm\<lparr>evm_admin := ed_admin h\<rparr>)))"

end
