(* ===== verification/Inspectors.thy ===== *)
theory Inspectors
  imports Evm_Transact
begin

text \<open>
  Inspection (\<open>crates/revm/src/inspector.rs\<close>): the hooks of the trait \<open>Inspector\<close>, the inspectors of
  \<open>inspector/noop.rs\<close>, \<open>gas.rs\<close>, \<open>customprinter.rs\<close> and \<open>tracer_eip3155.rs\<close>, the loop \<open>run_inspect\<close> of
  \<open>interpreter.rs\<close> and the build \<open>INSPECT = true\<close> of \<open>evm_impl.rs\<close> and \<open>evm.rs\<close>. A hook may panic and may
  change what it gets by \<open>&mut\<close>: the interpreter, \<open>EVMData\<close>, the inputs and the inspector itself.

  An inspector that rewinds the interpreter can keep it running for ever, so the loop takes its own fuel
  \<open>f\<close> per frame, next to the nesting \<open>n\<close> of frames. What a tracer writes is kept as the list of the
  values it formats: the text of \<open>println!\<close> and of \<open>serde_json\<close> is not modelled, and writing to the
  output does not fail. The function \<open>hex::encode\<close> is a parameter of the tracer.
\<close>

section \<open>Hooks\<close>

type_synonym ('i, 'db, 'e, 'a) hook = "('db, 'e) EVMData \<Rightarrow> 'i \<Rightarrow> ('a \<times> ('db, 'e) EVMData \<times> 'i) comp"

type_synonym call_out = "InstructionResult \<times> Gas \<times> bytes"

type_synonym create_out = "InstructionResult \<times> B160 option \<times> Gas \<times> bytes"

record ('i, 'db, 'e) Inspector =
  ins_initialize_interp :: "interpreter \<Rightarrow> bool \<Rightarrow> ('i, 'db, 'e, InstructionResult \<times> interpreter) hook"
  ins_step :: "interpreter \<Rightarrow> bool \<Rightarrow> ('i, 'db, 'e, InstructionResult \<times> interpreter) hook"
  ins_log :: "B160 \<Rightarrow> B256 list \<Rightarrow> bytes \<Rightarrow> ('i, 'db, 'e, unit) hook"
  ins_step_end :: "interpreter \<Rightarrow> bool \<Rightarrow> InstructionResult \<Rightarrow> ('i, 'db, 'e, InstructionResult \<times> interpreter) hook"
  ins_call :: "CallInputs \<Rightarrow> bool \<Rightarrow> ('i, 'db, 'e, call_out \<times> CallInputs) hook"
  ins_call_end :: "CallInputs \<Rightarrow> Gas \<Rightarrow> InstructionResult \<Rightarrow> bytes \<Rightarrow> bool \<Rightarrow> ('i, 'db, 'e, call_out) hook"
  ins_create :: "CreateInputs \<Rightarrow> ('i, 'db, 'e, create_out \<times> CreateInputs) hook"
  ins_create_end :: "CreateInputs \<Rightarrow> InstructionResult \<Rightarrow> B160 option \<Rightarrow> Gas \<Rightarrow> bytes \<Rightarrow> ('i, 'db, 'e, create_out) hook"
  ins_selfdestruct :: "B160 \<Rightarrow> B160 \<Rightarrow> 'i \<Rightarrow> 'i comp"

text \<open>The default methods of the trait. \<open>NoOpInspector\<close> overrides none of them.\<close>

definition default_inspector :: "('i, 'db, 'e) Inspector" where
  "default_inspector =
     \<lparr> ins_initialize_interp = (\<lambda>it static d i. Val ((Continue, it), d, i)),
       ins_step = (\<lambda>it static d i. Val ((Continue, it), d, i)),
       ins_log = (\<lambda>address topics data d i. Val ((), d, i)),
       ins_step_end = (\<lambda>it static eval_result d i. Val ((Continue, it), d, i)),
       ins_call = (\<lambda>inputs static d i. Val (((Continue, Gas_new 0, []), inputs), d, i)),
       ins_call_end = (\<lambda>inputs remaining_gas ret out static d i. Val ((ret, remaining_gas, out), d, i)),
       ins_create = (\<lambda>inputs d i. Val (((Continue, None, Gas_new 0, []), inputs), d, i)),
       ins_create_end = (\<lambda>inputs ret address remaining_gas out d i. Val ((ret, address, remaining_gas, out), d, i)),
       ins_selfdestruct = (\<lambda>address target i. Val i) \<rparr>"

definition NoOpInspector :: "(unit, 'db, 'e) Inspector" where
  "NoOpInspector = default_inspector"

section \<open>The gas inspector\<close>

record GasInspector =
  gi_gas_remaining :: u64
  gi_last_gas_cost :: u64

definition GasInspector_default :: GasInspector where
  "GasInspector_default = \<lparr> gi_gas_remaining = 0, gi_last_gas_cost = 0 \<rparr>"

definition gi_initialize_interp :: "interpreter \<Rightarrow> GasInspector \<Rightarrow> GasInspector" where
  "gi_initialize_interp it i = i\<lparr>gi_gas_remaining := g_limit (gas it)\<rparr>"

definition gi_step_end :: "interpreter \<Rightarrow> GasInspector \<Rightarrow> GasInspector" where
  "gi_step_end it i =
     (let last_gas = gi_gas_remaining i;
          i = i\<lparr>gi_gas_remaining := remaining (gas it)\<rparr> in
      if last_gas > gi_gas_remaining i then i\<lparr>gi_last_gas_cost := last_gas - gi_gas_remaining i\<rparr>
      else i\<lparr>gi_last_gas_cost := 0\<rparr>)"

definition gas_inspector :: "(GasInspector, 'db, 'e) Inspector" where
  "gas_inspector = default_inspector
     \<lparr> ins_initialize_interp := (\<lambda>it static d i. Val ((Continue, it), d, gi_initialize_interp it i)),
       ins_step_end := (\<lambda>it static eval_result d i. Val ((Continue, it), d, gi_step_end it i)) \<rparr>"

section \<open>The printing tracer\<close>

datatype PrintEvent =
  Print_Step u64 nat u64 string u8 u64 Stack nat
| Print_Call B160 CallContext bool Transfer nat
| Print_Create B160 CreateScheme U256 bytes u64
| Print_Selfdestruct B160 B160

record CustomPrintTracer =
  cp_gas_inspector :: GasInspector
  cp_output :: "PrintEvent list"

definition cp_println :: "PrintEvent \<Rightarrow> CustomPrintTracer \<Rightarrow> CustomPrintTracer" where
  "cp_println ev i = i\<lparr>cp_output := cp_output i @ [ev]\<rparr>"

definition cp_step ::
  "interpreter \<Rightarrow> ('db, 'e) EVMData \<Rightarrow> CustomPrintTracer \<Rightarrow> CustomPrintTracer comp" where
  "cp_step it d i =
     bind_comp (current_opcode it) (\<lambda>opcode.
       let opcode_str = OPCODE_JUMPMAP ! unat opcode;
           gas_left = gi_gas_remaining (cp_gas_inspector i) in
       Val (cp_println
         (Print_Step (depth (journaled_state d)) (program_counter it) gas_left
           (case opcode_str of Some str \<Rightarrow> str | None \<Rightarrow> ''UNKNOWN'') opcode (g_refunded (gas it))
           (stack it) (length (memory it))) i))"

definition custom_print_tracer :: "(CustomPrintTracer, 'db, 'e) Inspector" where
  "custom_print_tracer = default_inspector
     \<lparr> ins_initialize_interp := (\<lambda>it static d i.
         Val ((Continue, it), d, i\<lparr>cp_gas_inspector := gi_initialize_interp it (cp_gas_inspector i)\<rparr>)),
       ins_step := (\<lambda>it static d i. bind_comp (cp_step it d i) (\<lambda>i. Val ((Continue, it), d, i))),
       ins_step_end := (\<lambda>it static eval_result d i.
         Val ((Continue, it), d, i\<lparr>cp_gas_inspector := gi_step_end it (cp_gas_inspector i)\<rparr>)),
       ins_call := (\<lambda>inputs static d i.
         Val (((Continue, Gas_new 0, []), inputs), d,
           cp_println (Print_Call (ci_contract inputs) (ci_context inputs) static (ci_transfer inputs)
             (length (ci_input inputs))) i)),
       ins_create := (\<lambda>inputs d i.
         Val (((Continue, None, Gas_new 0, []), inputs), d,
           cp_println (Print_Create (cr_caller inputs) (cr_scheme inputs) (cr_value inputs)
             (cr_init_code inputs) (cr_gas_limit inputs)) i)),
       ins_selfdestruct := (\<lambda>address target i. Val (cp_println (Print_Selfdestruct address target) i)) \<rparr>"

section \<open>The EIP-3155 tracer\<close>

definition hex_digit :: "nat \<Rightarrow> char" where
  "hex_digit n = ''0123456789abcdef'' ! n"

text \<open>The format \<open>{:x}\<close> of an unsigned integer.\<close>

fun lower_hex :: "nat \<Rightarrow> string" where
  "lower_hex n = (if n < 16 then [hex_digit n] else lower_hex (n div 16) @ [hex_digit (n mod 16)])"

declare lower_hex.simps [simp del]

definition format_hex :: "u64 \<Rightarrow> string" where
  "format_hex x = ''0x'' @ lower_hex (unat x)"

definition short_hex :: "(bytes \<Rightarrow> string) \<Rightarrow> U256 \<Rightarrow> string" where
  "short_hex hex_encode b =
     (let s = dropWhile (\<lambda>c. c = CHR ''0'') (hex_encode (to_be_bytes 32 b)) in
      if s = [] then ''0x0'' else ''0x'' @ s)"

record LogLine =
  ll_pc :: nat
  ll_op :: u8
  ll_gas :: string
  ll_gasCost :: string
  ll_memSize :: nat
  ll_stack :: "string list"
  ll_depth :: u64
  ll_opName :: "string option"

datatype TraceLine = StepLine LogLine | EndLine bytes string

record TracerEip3155 =
  t_output :: "TraceLine list"
  t_gas_inspector :: GasInspector
  t_trace_mem :: bool
  t_trace_return_data :: bool
  t_stack :: Stack
  t_pc :: nat
  t_opcode :: u8
  t_gas :: u64
  t_mem_size :: nat
  t_memory :: "Memory option"
  t_skip :: bool

definition TracerEip3155_new :: "TraceLine list \<Rightarrow> bool \<Rightarrow> bool \<Rightarrow> TracerEip3155" where
  "TracerEip3155_new output trace_mem trace_return_data =
     \<lparr> t_output = output, t_gas_inspector = GasInspector_default, t_trace_mem = trace_mem,
       t_trace_return_data = trace_return_data, t_stack = Stack_new, t_pc = 0, t_opcode = 0, t_gas = 0,
       t_mem_size = 0, t_memory = None, t_skip = False \<rparr>"

definition t_writeln :: "TraceLine \<Rightarrow> TracerEip3155 \<Rightarrow> TracerEip3155" where
  "t_writeln line i = i\<lparr>t_output := t_output i @ [line]\<rparr>"

definition print_log_line :: "(bytes \<Rightarrow> string) \<Rightarrow> u64 \<Rightarrow> TracerEip3155 \<Rightarrow> TracerEip3155" where
  "print_log_line hex_encode dep i =
     t_writeln (StepLine
       \<lparr> ll_pc = t_pc i, ll_op = t_opcode i, ll_gas = format_hex (t_gas i),
         ll_gasCost = format_hex (gi_last_gas_cost (t_gas_inspector i)), ll_memSize = t_mem_size i,
         ll_stack = map (short_hex hex_encode) (t_stack i), ll_depth = dep,
         ll_opName = OPCODE_JUMPMAP ! unat (t_opcode i) \<rparr>) i"

definition t_step :: "interpreter \<Rightarrow> TracerEip3155 \<Rightarrow> TracerEip3155 comp" where
  "t_step it i =
     bind_comp (current_opcode it) (\<lambda>opcode.
       Val (i\<lparr>t_stack := stack it, t_pc := program_counter it, t_opcode := opcode,
              t_mem_size := length (memory it), t_gas := gi_gas_remaining (t_gas_inspector i)\<rparr>))"

definition t_step_end ::
  "(bytes \<Rightarrow> string) \<Rightarrow> interpreter \<Rightarrow> ('db, 'e) EVMData \<Rightarrow> TracerEip3155 \<Rightarrow> TracerEip3155" where
  "t_step_end hex_encode it d i =
     (let i = i\<lparr>t_gas_inspector := gi_step_end it (t_gas_inspector i)\<rparr> in
      if t_skip i then i\<lparr>t_skip := False\<rparr> else print_log_line hex_encode (depth (journaled_state d)) i)"

definition t_call_end :: "bytes \<Rightarrow> ('db, 'e) EVMData \<Rightarrow> TracerEip3155 \<Rightarrow> TracerEip3155" where
  "t_call_end out d i =
     (let i = i\<lparr>t_skip := True\<rparr> in
      if depth (journaled_state d) = 0
      then t_writeln (EndLine out (format_hex (gi_gas_remaining (t_gas_inspector i)))) i
      else i)"

definition tracer_eip3155 :: "(bytes \<Rightarrow> string) \<Rightarrow> (TracerEip3155, 'db, 'e) Inspector" where
  "tracer_eip3155 hex_encode = default_inspector
     \<lparr> ins_initialize_interp := (\<lambda>it static d i.
         Val ((Continue, it), d, i\<lparr>t_gas_inspector := gi_initialize_interp it (t_gas_inspector i)\<rparr>)),
       ins_step := (\<lambda>it static d i. bind_comp (t_step it i) (\<lambda>i. Val ((Continue, it), d, i))),
       ins_step_end := (\<lambda>it static eval_result d i. Val ((Continue, it), d, t_step_end hex_encode it d i)),
       ins_call := (\<lambda>inputs static d i.
         Val (((Continue, Gas_new 0, []), inputs), d, print_log_line hex_encode (depth (journaled_state d)) i)),
       ins_call_end := (\<lambda>inputs remaining_gas ret out static d i.
         Val ((ret, remaining_gas, out), d, t_call_end out d i)) \<rparr>"

section \<open>The inspected loop\<close>

text \<open>The methods \<open>step\<close> and \<open>step_end\<close> of the trait \<open>Host\<close>, on a machine.\<close>

record 'h step_ops =
  h_step :: "bool \<Rightarrow> 'h machine \<Rightarrow> (InstructionResult \<times> 'h machine) comp"
  h_step_end :: "bool \<Rightarrow> InstructionResult \<Rightarrow> 'h machine \<Rightarrow> (InstructionResult \<times> 'h machine) comp"

fun run_inspect ::
  "Libs \<Rightarrow> 'h host_ops \<Rightarrow> 'h step_ops \<Rightarrow> SpecId \<Rightarrow> nat \<Rightarrow> 'h machine \<Rightarrow> (InstructionResult \<times> 'h machine) comp" where
  "run_inspect L H S spec fuel m =
     (if instruction_result m = Continue then
        (case fuel of
           0 \<Rightarrow> Timeout
         | Suc fuel \<Rightarrow>
             bind_comp (h_step S (is_static m) m) (\<lambda>(ret, m).
             if ret \<noteq> Continue then Val (ret, m) else
             bind_comp (step L H spec m) (\<lambda>m.
             bind_comp (h_step_end S (is_static m) (instruction_result m) m) (\<lambda>(ret, m).
             if ret \<noteq> Continue then Val (ret, m) else run_inspect L H S spec fuel m))))
      else Val (instruction_result m, m))"

declare run_inspect.simps [simp del]

section \<open>The inspected host\<close>

record ('i, 'db, 'e) EVMImpl =
  imp_data :: "('db, 'e) EVMData"
  imp_inspector :: 'i

text \<open>An operation on \<open>self.data\<close>, and a hook of \<open>self.inspector\<close>.\<close>

definition on_data ::
  "(('db, 'e) EVMData \<Rightarrow> ('a \<times> ('db, 'e) EVMData) comp) \<Rightarrow> ('i, 'db, 'e) EVMImpl \<Rightarrow>
     ('a \<times> ('i, 'db, 'e) EVMImpl) comp" where
  "on_data f s = bind_comp (f (imp_data s)) (\<lambda>(r, d). Val (r, s\<lparr>imp_data := d\<rparr>))"

definition apply_hook ::
  "('i, 'db, 'e, 'a) hook \<Rightarrow> ('i, 'db, 'e) EVMImpl \<Rightarrow> ('a \<times> ('i, 'db, 'e) EVMImpl) comp" where
  "apply_hook f s =
     bind_comp (f (imp_data s) (imp_inspector s)) (\<lambda>(r, d, i). Val (r, \<lparr> imp_data = d, imp_inspector = i \<rparr>))"

definition machine_of :: "interpreter \<Rightarrow> 'h \<Rightarrow> 'h machine" where
  "machine_of it h = interpreter.extend it (machine.fields h)"

definition impl_steps :: "('i, 'db, 'e) Inspector \<Rightarrow> ('i, 'db, 'e) EVMImpl step_ops" where
  "impl_steps Ins =
     \<lparr> h_step = (\<lambda>static m.
         bind_comp (apply_hook (ins_step Ins (interpreter.truncate m) static) (host m)) (\<lambda>((ret, it), s).
           Val (ret, machine_of it s))),
       h_step_end = (\<lambda>static eval_result m.
         bind_comp (apply_hook (ins_step_end Ins (interpreter.truncate m) static eval_result) (host m)) (\<lambda>((ret, it), s).
           Val (ret, machine_of it s))) \<rparr>"

definition impl_log ::
  "('i, 'db, 'e) Inspector \<Rightarrow> ('i, 'db, 'e) EVMImpl \<Rightarrow> B160 \<Rightarrow> B256 list \<Rightarrow> bytes \<Rightarrow> ('i, 'db, 'e) EVMImpl comp" where
  "impl_log Ins s address topics data =
     bind_comp (apply_hook (ins_log Ins address topics data) s) (\<lambda>(_, s).
     bind_comp (evm_log (imp_data s) address topics data) (\<lambda>d. Val (s\<lparr>imp_data := d\<rparr>)))"

definition impl_selfdestruct ::
  "('i, 'db, 'e) Inspector \<Rightarrow> ('db, 'e) db_ops \<Rightarrow> ('i, 'db, 'e) EVMImpl \<Rightarrow> B160 \<Rightarrow> B160 \<Rightarrow>
     (SelfDestructResult option \<times> ('i, 'db, 'e) EVMImpl) comp" where
  "impl_selfdestruct Ins D s address target =
     bind_comp (ins_selfdestruct Ins address target (imp_inspector s)) (\<lambda>i.
       on_data (\<lambda>d. evm_selfdestruct D d address target) (s\<lparr>imp_inspector := i\<rparr>))"

text \<open>A new interpreter, \<open>initialize_interp\<close> (whose answer the code drops) and \<open>run_inspect\<close>.\<close>

definition inspect_frame ::
  "('i, 'db, 'e) Inspector \<Rightarrow> Libs \<Rightarrow> ('i, 'db, 'e) EVMImpl host_ops \<Rightarrow> SpecId \<Rightarrow> nat \<Rightarrow> Contract \<Rightarrow> u64 \<Rightarrow> bool \<Rightarrow>
     ('i, 'db, 'e) EVMImpl \<Rightarrow> (InstructionResult \<times> ('i, 'db, 'e) EVMImpl machine) comp" where
  "inspect_frame Ins L H spec f c gas_limit static s =
     (let it = new_with_memory_limit c gas_limit static (cfg_memory_limit (cfg (ed_env (imp_data s)))) in
      bind_comp (apply_hook (ins_initialize_interp Ins it False) s) (\<lambda>((_, it), s).
        run_inspect L H (impl_steps Ins) spec f (machine_of it s)))"

definition impl_call_end ::
  "('i, 'db, 'e) Inspector \<Rightarrow> CallInputs \<Rightarrow> InstructionResult \<times> Gas \<times> bytes \<times> ('i, 'db, 'e) EVMImpl \<Rightarrow>
     (InstructionResult \<times> Gas \<times> bytes \<times> ('i, 'db, 'e) EVMImpl) comp" where
  "impl_call_end Ins inputs = (\<lambda>(ret, gas', out, s).
     bind_comp (apply_hook (ins_call_end Ins inputs gas' ret out (ci_is_static inputs)) s)
       (\<lambda>((ret, gas', out), s). Val (ret, gas', out, s)))"

definition impl_create_end ::
  "('i, 'db, 'e) Inspector \<Rightarrow> CreateInputs \<Rightarrow> InstructionResult \<times> B160 option \<times> Gas \<times> bytes \<times> ('i, 'db, 'e) EVMImpl \<Rightarrow>
     (InstructionResult \<times> B160 option \<times> Gas \<times> bytes \<times> ('i, 'db, 'e) EVMImpl) comp" where
  "impl_create_end Ins inputs = (\<lambda>(ret, address, gas', out, s).
     bind_comp (apply_hook (ins_create_end Ins inputs ret address gas' out) s)
       (\<lambda>((ret, address, gas', out), s). Val (ret, address, gas', out, s)))"

section \<open>Inspected calls and creations\<close>

text \<open>The result of a frame as a machine over \<open>EVMData\<close>, with the exit reason that \<open>run_inspect\<close> returned.\<close>

definition frame_end :: "InstructionResult \<Rightarrow> ('i, 'db, 'e) EVMImpl machine \<Rightarrow> ('db, 'e) EVMData machine" where
  "frame_end exit_reason m =
     machine_of ((interpreter.truncate m)\<lparr>instruction_result := exit_reason\<rparr>) (imp_data (host m))"

definition inspect_call_frame ::
  "('i, 'db, 'e) Inspector \<Rightarrow> Libs \<Rightarrow> ('i, 'db, 'e) EVMImpl host_ops \<Rightarrow> SpecId \<Rightarrow> nat \<Rightarrow> Bytecode \<Rightarrow> CallInputs \<Rightarrow>
     JournalCheckpoint \<Rightarrow> ('i, 'db, 'e) EVMImpl \<Rightarrow> (InstructionResult \<times> Gas \<times> bytes \<times> ('i, 'db, 'e) EVMImpl) comp" where
  "inspect_call_frame Ins L H spec f b inputs cp s =
     bind_comp (new_with_context (ci_input inputs) b (ci_context inputs)) (\<lambda>c.
     bind_comp (inspect_frame Ins L H spec f c (ci_gas_limit inputs) (ci_is_static inputs) s) (\<lambda>(exit_reason, m).
     let s = host m; d = imp_data s in
     bind_comp (if return_ok exit_reason then Val (evm_commit d) else evm_revert cp d) (\<lambda>d.
     bind_comp (return_value m) (\<lambda>out. Val (exit_reason, gas m, out, s\<lparr>imp_data := d\<rparr>)))))"

definition inspect_call_inner ::
  "('i, 'db, 'e) Inspector \<Rightarrow> Libs \<Rightarrow> ('db, 'e) db_ops \<Rightarrow> ('i, 'db, 'e) EVMImpl host_ops \<Rightarrow> SpecId \<Rightarrow> nat \<Rightarrow>
     ('i, 'db, 'e) EVMImpl \<Rightarrow> CallInputs \<Rightarrow> (InstructionResult \<times> Gas \<times> bytes \<times> ('i, 'db, 'e) EVMImpl) comp" where
  "inspect_call_inner Ins L D H spec f s inputs =
     bind_comp (apply_hook (ins_call Ins inputs (ci_is_static inputs)) s) (\<lambda>(((ret, ret_gas, out), inputs), s).
     if ret \<noteq> Continue then impl_call_end Ins inputs (ret, ret_gas, out, s)
     else
     (let gas' = Gas_new (ci_gas_limit inputs); t = ci_transfer inputs; address = ctx_address (ci_context inputs);
          put = (\<lambda>d. s\<lparr>imp_data := d\<rparr>) in
      bind_comp (evm_code D (imp_data s) (ci_contract inputs)) (\<lambda>(r, d).
      case r of None \<Rightarrow> Val (FatalExternalError, gas', [], put d) | Some (b, _) \<Rightarrow>
      if depth (journaled_state d) > CALL_STACK_LIMIT then impl_call_end Ins inputs (CallTooDeep, gas', [], put d)
      else
        (let (cp, d) = evm_checkpoint d in
         bind_comp
           (if tr_value t = 0 then
              bind_comp (evm_load_account D d address) (\<lambda>(_, d).
              bind_comp (touch address (journaled_state d)) (\<lambda>js. Val (put_journal js d)))
            else Val d) (\<lambda>d.
         bind_comp (evm_transfer D (tr_source t) (tr_target t) (tr_value t) d) (\<lambda>(r, d).
         case r of
           Inl e \<Rightarrow> bind_comp (evm_revert cp d) (\<lambda>d. impl_call_end Ins inputs (e, gas', [], put d))
         | Inr _ \<Rightarrow>
             bind_comp
               (case Precompiles_get (ed_precompiles d) (ci_contract inputs) of
                  Some p \<Rightarrow>
                    bind_comp (call_precompile p inputs cp d) (\<lambda>(ret, gas', out, d). Val (ret, gas', out, put d))
                | None \<Rightarrow> inspect_call_frame Ins L H spec f b inputs cp (put d))
               (impl_call_end Ins inputs)))))))"

definition inspect_create_frame ::
  "('i, 'db, 'e) Inspector \<Rightarrow> Libs \<Rightarrow> ('db, 'e) db_ops \<Rightarrow> ('i, 'db, 'e) EVMImpl host_ops \<Rightarrow> SpecId \<Rightarrow> nat \<Rightarrow> B160 \<Rightarrow>
     CreateInputs \<Rightarrow> ('i, 'db, 'e) EVMImpl \<Rightarrow>
     (InstructionResult \<times> B160 option \<times> Gas \<times> bytes \<times> ('i, 'db, 'e) EVMImpl) comp" where
  "inspect_create_frame Ins L D H spec f created inputs s =
     (let gas' = Gas_new (cr_gas_limit inputs); caller = cr_caller inputs; put = (\<lambda>d. s\<lparr>imp_data := d\<rparr>) in
      bind_comp (evm_load_account D (imp_data s) created) (\<lambda>(_, d).
      let (cp, d) = evm_checkpoint d in
      bind_comp (create_account D created (Precompiles_contains (ed_precompiles d) created) (journaled_state d) (ed_db d))
        (\<lambda>(r, js, db).
      let d = d\<lparr>journaled_state := js, ed_db := db\<rparr> in
      case r of
        Inl e \<Rightarrow> Val (FatalExternalError, Some created, gas', [], put (d\<lparr>ed_error := Some e\<rparr>))
      | Inr created_ok \<Rightarrow>
      if \<not> created_ok
      then bind_comp (evm_revert cp d) (\<lambda>d. Val (CreateCollision, Some created, gas', [], put d))
      else
      bind_comp (evm_transfer D caller created (cr_value inputs) d) (\<lambda>(r, d).
      case r of
        Inl e \<Rightarrow> bind_comp (evm_revert cp d) (\<lambda>d. Val (e, Some created, gas', [], put d))
      | Inr _ \<Rightarrow>
      bind_comp
        (if enabled spec SPURIOUS_DRAGON then inc_nonce created (journaled_state d)
         else Val (Some 0, journaled_state d)) (\<lambda>(r, js).
      let d = put_journal js d in
      case r of
        None \<Rightarrow> bind_comp (evm_revert cp d) (\<lambda>d. Val (Return, None, gas', [], put d))
      | Some _ \<Rightarrow>
      bind_comp (Contract_new [] (new_raw L (cr_init_code inputs)) created caller (cr_value inputs)) (\<lambda>c.
      bind_comp (inspect_frame Ins L H spec f c (cr_gas_limit inputs) False (put d)) (\<lambda>(exit_reason, m).
      bind_comp (create_finish L spec created cp (frame_end exit_reason m)) (\<lambda>(ret, address, gas', out, d).
        Val (ret, address, gas', out, (host m)\<lparr>imp_data := d\<rparr>)))))))))"

definition inspect_create_inner ::
  "('i, 'db, 'e) Inspector \<Rightarrow> Libs \<Rightarrow> ('db, 'e) db_ops \<Rightarrow> ('i, 'db, 'e) EVMImpl host_ops \<Rightarrow> SpecId \<Rightarrow> nat \<Rightarrow>
     ('i, 'db, 'e) EVMImpl \<Rightarrow> CreateInputs \<Rightarrow>
     (InstructionResult \<times> B160 option \<times> Gas \<times> bytes \<times> ('i, 'db, 'e) EVMImpl) comp" where
  "inspect_create_inner Ins L D H spec f s inputs =
     bind_comp (apply_hook (ins_create Ins inputs) s) (\<lambda>(((ret, address, ret_gas, out), inputs), s).
     bind_comp
     (if ret \<noteq> Continue then Val (ret, address, ret_gas, out, s)
      else
      (let gas' = Gas_new (cr_gas_limit inputs); caller = cr_caller inputs; put = (\<lambda>d. s\<lparr>imp_data := d\<rparr>) in
       bind_comp (evm_load_account D (imp_data s) caller) (\<lambda>(_, d).
       if depth (journaled_state d) > CALL_STACK_LIMIT then Val (CallTooDeep, None, gas', [], put d)
       else
       bind_comp (evm_balance D d caller) (\<lambda>(r, d).
       case r of None \<Rightarrow> Val (FatalExternalError, None, gas', [], put d) | Some (bal, _) \<Rightarrow>
       if bal < cr_value inputs then Val (OutOfFund, None, gas', [], put d)
       else
       bind_comp (inc_nonce caller (journaled_state d)) (\<lambda>(r, js).
       let d = put_journal js d in
       case r of None \<Rightarrow> Val (Return, None, gas', [], put d) | Some new_nonce \<Rightarrow>
       (let old_nonce = new_nonce - 1;
            init_hash = lib_keccak256 L (cr_init_code inputs);
            created = (case cr_scheme inputs of
                         Create \<Rightarrow> create_address L caller old_nonce
                       | Create2 salt \<Rightarrow> create2_address L caller init_hash salt) in
        inspect_create_frame Ins L D H spec f created inputs (put d)))))))
     (impl_create_end Ins inputs))"

fun inspect_host ::
  "('i, 'db, 'e) Inspector \<Rightarrow> Libs \<Rightarrow> ('db, 'e) db_ops \<Rightarrow> SpecId \<Rightarrow> nat \<Rightarrow> nat \<Rightarrow> ('i, 'db, 'e) EVMImpl host_ops" where
  "inspect_host Ins L D spec f n =
     \<lparr> h_env = (\<lambda>s. ed_env (imp_data s)),
       h_load_account = (\<lambda>s address. on_data (\<lambda>d. evm_load_account D d address) s),
       h_block_hash = (\<lambda>s number. on_data (\<lambda>d. evm_block_hash D d number) s),
       h_balance = (\<lambda>s address. on_data (\<lambda>d. evm_balance D d address) s),
       h_code = (\<lambda>s address. on_data (\<lambda>d. evm_code D d address) s),
       h_code_hash = (\<lambda>s address. on_data (\<lambda>d. evm_code_hash D d address) s),
       h_sload = (\<lambda>s address index. on_data (\<lambda>d. evm_sload D d address index) s),
       h_sstore = (\<lambda>s address index v. on_data (\<lambda>d. evm_sstore D d address index v) s),
       h_log = impl_log Ins,
       h_selfdestruct = impl_selfdestruct Ins D,
       h_create = (case n of 0 \<Rightarrow> (\<lambda>_ _. Timeout)
                   | Suc n \<Rightarrow> inspect_create_inner Ins L D (inspect_host Ins L D spec f n) spec f),
       h_call = (case n of 0 \<Rightarrow> (\<lambda>_ _. Timeout)
                 | Suc n \<Rightarrow> inspect_call_inner Ins L D (inspect_host Ins L D spec f n) spec f) \<rparr>"

declare inspect_host.simps [simp del]

section \<open>Inspected transactions\<close>

definition inspect_inner ::
  "('i, 'db, 'e) Inspector \<Rightarrow> Libs \<Rightarrow> ('db, 'e) db_ops \<Rightarrow> SpecId \<Rightarrow> nat \<Rightarrow> nat \<Rightarrow> u64 \<Rightarrow> Gas \<Rightarrow> ('i, 'db, 'e) EVMImpl \<Rightarrow>
     (InstructionResult \<times> Gas \<times> Output \<times> ('i, 'db, 'e) EVMImpl) comp" where
  "inspect_inner Ins L D spec f n gas_limit gas' s =
     (let d = imp_data s; t = tx (ed_env d); caller = tx_caller t; v = tx_value t; data = tx_data t;
          H = inspect_host Ins L D spec f n in
      case transact_to t of
        TransactCall address \<Rightarrow>
          bind_comp (inc_nonce caller (journaled_state d)) (\<lambda>(r, js).
          let s = s\<lparr>imp_data := put_journal js d\<rparr> in
          case r of
            Some _ \<Rightarrow>
              (let context = \<lparr> ctx_address = address, ctx_caller = caller, ctx_code_address = address,
                               ctx_apparent_value = v, ctx_scheme = CallScheme_Call \<rparr>;
                   call_input = \<lparr> ci_contract = address,
                                  ci_transfer = \<lparr> tr_source = caller, tr_target = address, tr_value = v \<rparr>,
                                  ci_input = data, ci_gas_limit = gas_limit, ci_context = context,
                                  ci_is_static = False \<rparr> in
               bind_comp (inspect_call_inner Ins L D H spec f s call_input) (\<lambda>(exit_reason, ret_gas, bs, s).
                 Val (exit_reason, ret_gas, Output_Call bs, s)))
          | None \<Rightarrow> Val (NonceOverflow, gas', Output_Call [], s))
      | TransactCreate scheme \<Rightarrow>
          (let create_input = \<lparr> cr_caller = caller, cr_scheme = scheme, cr_value = v, cr_init_code = data,
                                cr_gas_limit = gas_limit \<rparr> in
           bind_comp (inspect_create_inner Ins L D H spec f s create_input) (\<lambda>(exit_reason, address, ret_gas, bs, s).
             Val (exit_reason, ret_gas, Output_Create bs address, s))))"

definition inspect_execute ::
  "('i, 'db, 'e) Inspector \<Rightarrow> Libs \<Rightarrow> ('db, 'e) db_ops \<Rightarrow> SpecId \<Rightarrow> nat \<Rightarrow> nat \<Rightarrow> u64 \<Rightarrow> ('i, 'db, 'e) EVMImpl \<Rightarrow>
     (('e EVMError + ResultAndState) \<times> ('i, 'db, 'e) EVMImpl) comp" where
  "inspect_execute Ins L D spec f n initial_cost s =
     (let d = imp_data s; env = ed_env d;
          (paid, gas') = record_cost (Gas_new (tx_gas_limit (tx env))) initial_cost in
      if \<not> paid then Val (Inl (Transaction CallGasCostMoreThanGasLimit), s)
      else
        (let gas_limit = remaining gas'; gas' = snd (record_cost gas' gas_limit) in
         bind_comp
           (if enabled spec SHANGHAI then load_account D (coinbase (block env)) (journaled_state d) (ed_db d)
            else Val (Inr False, journaled_state d, ed_db d)) (\<lambda>(r, js, db).
         let s = s\<lparr>imp_data := d\<lparr>journaled_state := js, ed_db := db\<rparr>\<rparr> in
         case r of Inl e \<Rightarrow> Val (Inl (Database e), s) | Inr _ \<Rightarrow>
         bind_comp (inspect_inner Ins L D spec f n gas_limit gas' s) (\<lambda>(exit_reason, ret_gas, output, s).
         on_data (\<lambda>d.
           bind_comp (evm_finalize D spec (tx_caller (tx env)) (returned_gas exit_reason ret_gas gas') d)
             (\<lambda>(out, d). transact_result exit_reason output out d)) s))))"

definition inspect_transact ::
  "('i, 'db, 'e) Inspector \<Rightarrow> Libs \<Rightarrow> ('db, 'e) db_ops \<Rightarrow> SpecId \<Rightarrow> nat \<Rightarrow> nat \<Rightarrow> ('i, 'db, 'e) EVMImpl \<Rightarrow>
     (('e EVMError + ResultAndState) \<times> ('i, 'db, 'e) EVMImpl) comp" where
  "inspect_transact Ins L D spec f n s =
     (let d = imp_data s; env = ed_env d; caller = tx_caller (tx env); put = (\<lambda>d. s\<lparr>imp_data := d\<rparr>) in
      case validate_env spec env of Some e \<Rightarrow> Val (Inl e, s) | None \<Rightarrow>
      bind_comp (load_account D caller (journaled_state d) (ed_db d)) (\<lambda>(r, js, db).
      let d = d\<lparr>journaled_state := js, ed_db := db\<rparr> in
      case r of Inl e \<Rightarrow> Val (Inl (Database e), put d) | Inr _ \<Rightarrow>
      bind_comp (get_acc caller js) (\<lambda>acc.
      case validate_caller env (info acc) of Some e \<Rightarrow> Val (Inl e, put d) | None \<Rightarrow>
      case validate_funds env (info acc) of Some e \<Rightarrow> Val (Inl e, put d) | None \<Rightarrow>
      (let d = put_journal (put_acc caller (set_balance (prepaid_balance env (balance (info acc))) acc) js) d in
       bind_comp (initialization D spec d) (\<lambda>(r, d).
       case r of Inl e \<Rightarrow> Val (Inl e, put d) | Inr initial_cost \<Rightarrow>
         inspect_execute Ins L D spec f n initial_cost (put d))))))"

text \<open>The entry points take the state of the inspector and return the one it ends in.\<close>

definition evm_inner_inspect ::
  "('i, 'db, 'e) Inspector \<Rightarrow> ('fq, 'fr, 'g1, 'fq2, 'g2, 'gt) Deps \<Rightarrow> ('db, 'e) db_ops \<Rightarrow> nat \<Rightarrow> nat \<Rightarrow> Env \<Rightarrow> 'db \<Rightarrow>
     Admin \<Rightarrow> 'i \<Rightarrow> (('e EVMError + ResultAndState) \<times> ('i, 'db, 'e) EVMImpl) comp" where
  "evm_inner_inspect Ins X D f n env db admin i =
     (let spec = spec_type (cfg_spec_id (cfg env)) in
      inspect_transact Ins (dep_libs X) D spec f n
        \<lparr> imp_data = EVMImpl_new db env spec (Precompiles_new X (to_precompile_id spec)) admin, imp_inspector = i \<rparr>)"

definition EVM_inspect ::
  "('i, 'db, 'e) Inspector \<Rightarrow> ('fq, 'fr, 'g1, 'fq2, 'g2, 'gt) Deps \<Rightarrow> ('db, 'e) db_ops \<Rightarrow> nat \<Rightarrow> nat \<Rightarrow> 'db EVM \<Rightarrow> 'i \<Rightarrow>
     (('e EVMError + ResultAndState) \<times> 'db EVM \<times> 'i) comp" where
  "EVM_inspect Ins X D f n evm i =
     (case evm_db evm of
        None \<Rightarrow> Panic
      | Some db \<Rightarrow>
          bind_comp (evm_inner_inspect Ins X D f n (evm_env evm) db (evm_admin evm) i) (\<lambda>(r, s).
            Val (r, evm\<lparr>evm_env := ed_env (imp_data s), evm_db := Some (ed_db (imp_data s)),
              evm_admin := ed_admin (imp_data s)\<rparr>, imp_inspector s)))"

definition EVM_inspect_commit ::
  "('i, 'db, 'e) Inspector \<Rightarrow> ('fq, 'fr, 'g1, 'fq2, 'g2, 'gt) Deps \<Rightarrow> ('db, 'e) db_ops \<Rightarrow> (State \<Rightarrow> 'db \<Rightarrow> 'db) \<Rightarrow> nat \<Rightarrow> nat \<Rightarrow>
     'db EVM \<Rightarrow> 'i \<Rightarrow> (('e EVMError + ExecutionResult) \<times> 'db EVM \<times> 'i) comp" where
  "EVM_inspect_commit Ins X D commit_db f n evm i =
     bind_comp (EVM_inspect Ins X D f n evm i) (\<lambda>(r, evm, i).
       case r of
         Inl e \<Rightarrow> Val (Inl e, evm, i)
       | Inr rs \<Rightarrow>
           bind_comp (unwrap (evm_db evm)) (\<lambda>db.
             Val (Inr (rs_result rs), evm\<lparr>evm_db := Some (commit_db (rs_state rs) db)\<rparr>, i)))"

definition EVM_inspect_ref ::
  "('i, 'db, 'e) Inspector \<Rightarrow> ('fq, 'fr, 'g1, 'fq2, 'g2, 'gt) Deps \<Rightarrow> ('db, 'e) ref_ops \<Rightarrow> nat \<Rightarrow> nat \<Rightarrow> 'db EVM \<Rightarrow> 'i \<Rightarrow>
     (('e EVMError + ResultAndState) \<times> 'db EVM \<times> 'i) comp" where
  "EVM_inspect_ref Ins X R f n evm i =
     (case evm_db evm of
        None \<Rightarrow> Panic
      | Some db \<Rightarrow>
          bind_comp (evm_inner_inspect Ins X (RefDBWrapper R) f n (evm_env evm) db (evm_admin evm) i) (\<lambda>(r, s).
            Val (r, evm\<lparr>evm_admin := ed_admin (imp_data s)\<rparr>, imp_inspector s)))"

end
