(* ===== verification/Inspect_Simulation.thy ===== *)
theory Inspect_Simulation
  imports Host_Simulation Inspectors Dummy_Host
begin

text \<open>
  Inspection does not interfere. The locale \<open>passive_inspector\<close> states what an inspector promises when it
  only watches: its hooks return, leave the interpreter, \<open>EVMData\<close> and the inputs as they are, and
  answer with \<open>Continue\<close> or what they were given. Inside it the inspected build of every component is
  shown to match the plain one, up to the entry points: the hosts are related by \<open>host_sim same_data\<close>, and
  parametricity carries this over the interpreter. \<open>quiet_inspector\<close> adds that the inspector changes
  only in the hooks of instructions, frames and calls. The inspectors of the crate interpret them.
\<close>

section \<open>Rules for matching computations\<close>

named_theorems refine

lemma refines_same [refine]: "(\<And>x. refines R (f1 x) (f2 x)) \<Longrightarrow> refines R (bind_comp c f1) (bind_comp c f2)"
  by (rule refines_bind [OF refines_refl]) simp

lemma refines_cases [refine]:
  "\<lbrakk>P \<Longrightarrow> refines R a b; \<not> P \<Longrightarrow> refines R a' b'\<rbrakk> \<Longrightarrow> refines R (if P then a else a') (if P then b else b')"
  "\<lbrakk>x = None \<Longrightarrow> refines R a b; \<And>y. refines R (f y) (f' y)\<rbrakk> \<Longrightarrow> refines R (case_option a f x) (case_option b f' x)"
  "\<lbrakk>\<And>y. refines R (k y) (k' y); \<And>z. refines R (l z) (l' z)\<rbrakk> \<Longrightarrow> refines R (case_sum k l w) (case_sum k' l' w)"
  "(\<And>y z. refines R (q y z) (q' y z)) \<Longrightarrow> refines R (case_prod q p) (case_prod q' p)"
  "\<lbrakk>\<And>y. refines R (u y) (u' y); \<And>z. refines R (v z) (v' z)\<rbrakk> \<Longrightarrow>
     refines R (case_TransactTo u v t) (case_TransactTo u' v' t)"
  by (auto split: option.split sum.split prod.split TransactTo.split)

lemma refines_Val [refine]: "R x y \<Longrightarrow> refines R (Val x) (Val y)"
  by simp

section \<open>Inspectors that only watch\<close>

locale passive_inspector =
  fixes Ins :: "('i, 'db, 'e) Inspector"
  assumes initialize_passive: "\<exists>r i'. ins_initialize_interp Ins it static d i = Val ((r, it), d, i')"
    and step_passive: "instruction_pointer it < length (code_of it) \<Longrightarrow>
      \<exists>i'. ins_step Ins it static d i = Val ((Continue, it), d, i')"
    and log_passive: "\<exists>i'. ins_log Ins address topics data d i = Val ((), d, i')"
    and step_end_passive: "\<exists>r i'. ins_step_end Ins it static res d i = Val ((r, it), d, i') \<and> r \<in> {Continue, res}"
    and call_passive: "\<exists>x i'. ins_call Ins inputs static d i = Val (((Continue, x), inputs), d, i')"
    and call_end_passive: "\<exists>i'. ins_call_end Ins inputs gas' res out static d i = Val ((res, gas', out), d, i')"
    and create_passive: "\<exists>x i'. ins_create Ins inputs' d i = Val (((Continue, x), inputs'), d, i')"
    and create_end_passive: "\<exists>i'. ins_create_end Ins inputs' res created gas' out d i = Val ((res, created, gas', out), d, i')"
    and selfdestruct_passive: "\<exists>i'. ins_selfdestruct Ins address target i = Val i'"

definition same_data :: "('db, 'e) EVMData \<Rightarrow> ('i, 'db, 'e) EVMImpl \<Rightarrow> bool" where
  "same_data d s \<longleftrightarrow> imp_data s = d"

lemma same_data_simps [simp]:
  "same_data (imp_data s) s" "same_data d (s\<lparr>imp_data := d\<rparr>)" "same_data d \<lparr>imp_data = d, imp_inspector = i\<rparr>"
  by (simp_all add: same_data_def)

lemma same_dataD: "same_data d s \<Longrightarrow> imp_data s = d"
  by (simp add: same_data_def)

abbreviation same_exit :: "('db, 'e) EVMData machine \<Rightarrow> InstructionResult \<times> ('i, 'db, 'e) EVMImpl machine \<Rightarrow> bool" where
  "same_exit m p \<equiv> fst p = instruction_result m \<and> msim same_data m (snd p)"

abbreviation same_call ::
  "InstructionResult \<times> Gas \<times> bytes \<times> ('db, 'e) EVMData \<Rightarrow> InstructionResult \<times> Gas \<times> bytes \<times> ('i, 'db, 'e) EVMImpl \<Rightarrow> bool" where
  "same_call \<equiv> rel_prod (=) (rel_prod (=) (rel_prod (=) same_data))"

abbreviation same_create ::
  "InstructionResult \<times> B160 option \<times> Gas \<times> bytes \<times> ('db, 'e) EVMData \<Rightarrow>
     InstructionResult \<times> B160 option \<times> Gas \<times> bytes \<times> ('i, 'db, 'e) EVMImpl \<Rightarrow> bool" where
  "same_create \<equiv> rel_prod (=) (rel_prod (=) (rel_prod (=) (rel_prod (=) same_data)))"

lemma machine_of_simps [simp]:
  "host (machine_of it h) = h" "interpreter.truncate (machine_of it h) = it"
  "instruction_result (machine_of it h) = instruction_result it" "is_static (machine_of it h) = is_static it"
  "gas (machine_of it h) = gas it"
  by (simp_all add: machine_of_def interpreter.defs machine.defs)

lemma truncate_fields [simp]:
  "instruction_result (interpreter.truncate m) = instruction_result m"
  "instruction_pointer (interpreter.truncate m) = instruction_pointer m"
  "contract (interpreter.truncate m) = contract m" "gas (interpreter.truncate m) = gas m"
  "is_static (interpreter.truncate m) = is_static m" "stack (interpreter.truncate m) = stack m"
  "memory (interpreter.truncate m) = memory m" "current_opcode (interpreter.truncate m) = current_opcode m"
  by (simp_all add: interpreter.defs current_opcode_def)

lemma same_exitD:
  assumes "same_exit m p"
  shows "\<exists>m'. p = (instruction_result m, m') \<and> imp_data (host m') = host m \<and> gas m' = gas m \<and>
    return_value m' = return_value m \<and> frame_end (instruction_result m) m' = m"
proof -
  obtain m' where p: "p = (instruction_result m, m')" and sim [transfer_rule]: "msim same_data m m'"
    using assms by (cases p) auto
  have "gas m = gas m'" "return_value m = return_value m'" by transfer_prover+
  moreover have "imp_data (host m') = host m" "interpreter.truncate m' = interpreter.truncate m"
    using sim by (auto simp: msim_def same_data_def)
  moreover from this have "frame_end (instruction_result m) m' = m"
    by (simp add: frame_end_def machine_of_def interpreter.defs machine.defs)
  ultimately show ?thesis using p by simp
qed

context passive_inspector
begin

lemma h_step_passive:
  assumes "instruction_pointer m < length (code_of m)"
  obtains s where "h_step (impl_steps Ins) static m = Val (Continue, machine_of (interpreter.truncate m) s)"
    "imp_data s = imp_data (host m)"
proof -
  obtain i' where "ins_step Ins (interpreter.truncate m) static (imp_data (host m)) (imp_inspector (host m)) =
      Val ((Continue, interpreter.truncate m), imp_data (host m), i')"
    using step_passive [of "interpreter.truncate m" static "imp_data (host m)" "imp_inspector (host m)"] assms by auto
  then show ?thesis by (intro that [of "\<lparr>imp_data = imp_data (host m), imp_inspector = i'\<rparr>"])
    (simp_all add: impl_steps_def apply_hook_def)
qed

lemma h_step_end_passive:
  obtains r s where "h_step_end (impl_steps Ins) static res m = Val (r, machine_of (interpreter.truncate m) s)"
    "imp_data s = imp_data (host m)" "r \<in> {Continue, res}"
proof -
  obtain r i' where "ins_step_end Ins (interpreter.truncate m) static res (imp_data (host m)) (imp_inspector (host m)) =
      Val ((r, interpreter.truncate m), imp_data (host m), i')" "r \<in> {Continue, res}"
    using step_end_passive by blast
  then show ?thesis by (intro that [of r "\<lparr>imp_data = imp_data (host m), imp_inspector = i'\<rparr>"])
    (simp_all add: impl_steps_def apply_hook_def)
qed

lemma run_inspect_refines:
  assumes H [transfer_rule]: "host_sim same_data H1 H2" and "msim same_data m1 m2" "fuel \<le> f"
  shows "refines same_exit (run L H1 spec fuel m1) (run_inspect L H2 (impl_steps Ins) spec f m2)"
  using assms(2-)
proof (induction fuel arbitrary: m1 m2 f)
  case 0
  then show ?case by (auto simp: run_inspect.simps [of _ _ _ _ _ m2] msim_def interpreter.truncate_def)
next
  case (Suc fuel)
  note [transfer_rule] = Suc.prems(1)
  have r: "instruction_result m1 = instruction_result m2" by transfer_prover
  obtain f' where f: "f = Suc f'" "fuel \<le> f'" using Suc.prems(2) by (cases f) auto
  show ?case
  proof (cases "instruction_result m2 = Continue")
    case False
    with r Suc.prems show ?thesis by (simp add: run_inspect.simps [of _ _ _ _ _ m2])
  next
    case True
    show ?thesis
    proof (cases "step L H1 spec m1")
      case (Val m1')
      then have "instruction_pointer m1 < length (code_of m1)"
        by (auto simp: step_def bind_comp_Val_iff current_opcode_def split: if_splits)
      moreover have "contract m1 = contract m2" "instruction_pointer m1 = instruction_pointer m2" by transfer_prover+
      ultimately obtain s where s: "imp_data s = imp_data (host m2)"
        "h_step (impl_steps Ins) (is_static m2) m2 = Val (Continue, machine_of (interpreter.truncate m2) s)"
        by (auto elim: h_step_passive)
      let ?m2 = "machine_of (interpreter.truncate m2) s"
      have [transfer_rule]: "msim same_data m1 ?m2" using Suc.prems(1) s by (simp add: msim_def same_data_def)
      have "refines (msim same_data) (step L H1 spec m1) (step L H2 spec ?m2)" by transfer_prover
      then obtain m2' where m2': "step L H2 spec ?m2 = Val m2'" "msim same_data m1' m2'" using Val by auto
      obtain q t where q: "h_step_end (impl_steps Ins) (is_static m2') (instruction_result m2') m2' =
          Val (q, machine_of (interpreter.truncate m2') t)"
        "imp_data t = imp_data (host m2')" "q \<in> {Continue, instruction_result m2'}"
        by (rule h_step_end_passive)
      let ?m3 = "machine_of (interpreter.truncate m2') t"
      have m3: "msim same_data m1' ?m3" using m2'(2) q(2) by (simp add: msim_def same_data_def)
      have "instruction_result m1' = instruction_result m2'"
        using m2'(2) by (metis truncate_fields(1) msim_def)
      moreover have "refines same_exit (run L H1 spec fuel m1') (run_inspect L H2 (impl_steps Ins) spec f' ?m3)"
        using m3 f(2) by (rule Suc.IH)
      moreover have "run L H1 spec fuel m1' = Val m1'" if "instruction_result m1' \<noteq> Continue"
        using that by (cases fuel) simp_all
      ultimately show ?thesis using r True Val s m2' q f m3
        by (auto simp: run_inspect.simps [of _ _ _ _ _ m2])
    qed (simp_all add: r True)
  qed
qed

lemma frame_refines:
  assumes H: "host_sim same_data H1 H2" and f: "2 ^ 64 \<le> f" and s: "same_data d s"
  shows "refines same_exit (run_frame L H1 spec c gas_limit static d) (inspect_frame Ins L H2 spec f c gas_limit static s)"
proof -
  let ?it = "new_with_memory_limit c gas_limit static (cfg_memory_limit (cfg (ed_env (imp_data s))))"
  obtain r i where i: "ins_initialize_interp Ins ?it False (imp_data s) (imp_inspector s) = Val ((r, ?it), imp_data s, i)"
    using initialize_passive by blast
  have "unat gas_limit + 1 \<le> f" using f unsigned_less [of gas_limit, where ?'a = nat] by simp
  then have "refines same_exit (run L H1 spec (unat gas_limit + 1) (machine_of ?it (imp_data s)))
      (run_inspect L H2 (impl_steps Ins) spec f (machine_of ?it \<lparr>imp_data = imp_data s, imp_inspector = i\<rparr>))"
    by (intro run_inspect_refines H) (simp_all add: msim_def)
  then show ?thesis by (simp add: run_frame_def inspect_frame_def apply_hook_def i machine_of_def flip: s [unfolded same_data_def])
qed

lemma call_end_refines:
  assumes "same_data d s"
  shows "refines same_call (Val (res, gas', out, d)) (impl_call_end Ins inputs (res, gas', out, s))"
proof -
  obtain i where "ins_call_end Ins inputs gas' res out (ci_is_static inputs) d (imp_inspector s) = Val ((res, gas', out), d, i)"
    using call_end_passive by blast
  with assms show ?thesis by (simp add: impl_call_end_def apply_hook_def same_data_def)
qed

lemma create_end_refines:
  assumes "same_data d s"
  shows "refines same_create (Val (res, created, gas', out, d)) (impl_create_end Ins inputs (res, created, gas', out, s))"
proof -
  obtain i where "ins_create_end Ins inputs res created gas' out d (imp_inspector s) = Val ((res, created, gas', out), d, i)"
    using create_end_passive by blast
  with assms show ?thesis by (simp add: impl_create_end_def apply_hook_def same_data_def)
qed

lemma ended_refines:
  "refines same_call c c' \<Longrightarrow> refines same_call c (bind_comp c' (impl_call_end Ins inputs))"
  "refines same_create k k' \<Longrightarrow> refines same_create k (bind_comp k' (impl_create_end Ins inputs'))"
  using call_end_refines create_end_refines by (fastforce simp: refines_def bind_comp_Val_iff)+

lemma call_frame_refines:
  assumes "host_sim same_data H1 H2" "2 ^ 64 \<le> f" "same_data d s"
  shows "refines same_call (call_frame L H1 spec b inputs cp d) (inspect_call_frame Ins L H2 spec f b inputs cp s)"
  unfolding call_frame_def inspect_call_frame_def
  by (intro refines_same refines_bind [OF frame_refines [OF assms]])
    (auto simp: Let_def dest!: same_exitD intro!: refine)

lemma create_finish_refines:
  assumes "same_exit m p"
  shows "refines same_create (create_finish L spec created cp m)
    (case p of (exit_reason, m) \<Rightarrow>
       bind_comp (create_finish L spec created cp (frame_end exit_reason m)) (\<lambda>(ret, address, gas', out, d).
         Val (ret, address, gas', out, (host m)\<lparr>imp_data := d\<rparr>)))"
  using same_exitD [OF assms] by (auto simp: refines_def bind_comp_Val_iff)

lemma create_frame_refines:
  assumes "host_sim same_data H1 H2" "2 ^ 64 \<le> f" "same_data d s"
  shows "refines same_create (create_frame L D H1 spec created inputs d)
    (inspect_create_frame Ins L D H2 spec f created inputs s)"
  using assms(3) unfolding create_frame_def inspect_create_frame_def Let_def same_dataD [OF assms(3)]
  by (intro refine refines_bind [OF frame_refines [OF assms(1,2)]] create_finish_refines) simp_all

lemma precompile_refines:
  "refines same_call (call_precompile p inputs cp d) (bind_comp (call_precompile p inputs cp d)
     (\<lambda>(ret, gas', out, d). Val (ret, gas', out, \<lparr>imp_data = d, imp_inspector = i\<rparr>)))"
  by (fastforce simp: refines_def bind_comp_Val_iff)

lemma call_inner_refines:
  assumes "host_sim same_data H1 H2" "2 ^ 64 \<le> f" "same_data d s"
  shows "refines same_call (call_inner L D H1 spec d inputs) (inspect_call_inner Ins L D H2 spec f s inputs)"
proof -
  obtain x i where "ins_call Ins inputs (ci_is_static inputs) d (imp_inspector s) = Val (((Continue, x), inputs), d, i)"
    using call_passive by blast
  then have hook: "apply_hook (ins_call Ins inputs (ci_is_static inputs)) s =
      Val (((Continue, fst x, snd x), inputs), \<lparr>imp_data = d, imp_inspector = i\<rparr>)"
    using assms(3) by (simp add: apply_hook_def same_data_def)
  show ?thesis
    unfolding call_inner_def inspect_call_inner_def hook bind_comp.simps prod.case Let_def
    by (simp only: simp_thms if_False EVMImpl.simps,
        intro refine call_end_refines ended_refines precompile_refines call_frame_refines assms(1,2)) simp_all
qed

lemma create_inner_refines:
  assumes "host_sim same_data H1 H2" "2 ^ 64 \<le> f" "same_data d s"
  shows "refines same_create (create_inner L D H1 spec d inputs) (inspect_create_inner Ins L D H2 spec f s inputs)"
proof -
  obtain x i where "ins_create Ins inputs d (imp_inspector s) = Val (((Continue, x), inputs), d, i)"
    using create_passive by blast
  then have hook: "apply_hook (ins_create Ins inputs) s =
      Val (((Continue, fst x, fst (snd x), snd (snd x)), inputs), \<lparr>imp_data = d, imp_inspector = i\<rparr>)"
    using assms(3) by (simp add: apply_hook_def same_data_def)
  show ?thesis
    unfolding create_inner_def inspect_create_inner_def hook bind_comp.simps prod.case Let_def
    by (rule ended_refines, simp only: simp_thms if_False EVMImpl.simps,
        intro refine create_frame_refines assms(1,2)) simp_all
qed

section \<open>The hosts\<close>

lemma log_refines:
  assumes "same_data d s"
  shows "refines same_data (evm_log d address topics data) (impl_log Ins s address topics data)"
proof -
  obtain i where "ins_log Ins address topics data d (imp_inspector s) = Val ((), d, i)" using log_passive by blast
  with assms show ?thesis by (simp add: impl_log_def apply_hook_def same_data_def evm_log_def)
qed

lemma on_data_refines:
  "same_data d s \<Longrightarrow> refines (rel_prod (=) same_data) (fn d) (on_data fn s)"
  by (fastforce simp: on_data_def refines_def bind_comp_Val_iff same_data_def)

lemma selfdestruct_refines:
  assumes "same_data d s"
  shows "refines (rel_prod (=) same_data) (evm_selfdestruct D d address target) (impl_selfdestruct Ins D s address target)"
proof -
  obtain i where "ins_selfdestruct Ins address target (imp_inspector s) = Val i" using selfdestruct_passive by blast
  moreover have "same_data d (s\<lparr>imp_inspector := i\<rparr>)" using assms by (simp add: same_data_def)
  ultimately show ?thesis
    using on_data_refines [where fn = "\<lambda>d. evm_selfdestruct D d address target"] by (simp add: impl_selfdestruct_def)
qed

lemma host_refines:
  assumes "2 ^ 64 \<le> f"
  shows "n \<le> n' \<Longrightarrow> host_sim same_data (evm_host L D spec n) (inspect_host Ins L D spec f n')"
proof (induction n arbitrary: n')
  case 0
  then show ?case
    unfolding host_sim_def evm_host.simps [of _ _ _ 0] inspect_host.simps [of _ _ _ _ _ n']
    by (auto intro!: rel_funI on_data_refines log_refines selfdestruct_refines dest: same_dataD)
next
  case (Suc n)
  then obtain n'' where n'': "n' = Suc n''" "n \<le> n''" by (cases n') auto
  then have IH: "host_sim same_data (evm_host L D spec n) (inspect_host Ins L D spec f n'')" by (intro Suc.IH)
  show ?case
    unfolding host_sim_def evm_host.simps [of _ _ _ "Suc n"] inspect_host.simps [of _ _ _ _ _ "Suc n''"] n''
    by (auto intro!: rel_funI on_data_refines log_refines selfdestruct_refines
        create_inner_refines [OF IH assms] call_inner_refines [OF IH assms] dest: same_dataD)
qed

section \<open>Transactions\<close>

lemma inner_refines:
  assumes "2 ^ 64 \<le> f" "n \<le> n'" "same_data d s"
  shows "refines (rel_prod (=) (rel_prod (=) (rel_prod (=) same_data)))
    (transact_inner L D spec n gas_limit gas' d) (inspect_inner Ins L D spec f n' gas_limit gas' s)"
proof -
  note H = host_refines [OF assms(1,2)]
  show ?thesis
    unfolding transact_inner_def inspect_inner_def Let_def same_dataD [OF assms(3)]
    by (intro refine refines_bind [OF call_inner_refines [OF H assms(1)]]
        refines_bind [OF create_inner_refines [OF H assms(1)]]) (auto simp: assms(3))
qed

lemma execute_refines:
  assumes "2 ^ 64 \<le> f" "n \<le> n'" "same_data d s"
  shows "refines (rel_prod (=) same_data) (execute L D spec n initial_cost d) (inspect_execute Ins L D spec f n' initial_cost s)"
  unfolding execute_def inspect_execute_def Let_def same_dataD [OF assms(3)]
  by (intro refine refines_bind [OF inner_refines [OF assms(1,2)]]) (auto simp: assms(3) intro: on_data_refines)

lemma transact_refines:
  assumes "2 ^ 64 \<le> f" "n \<le> n'" "same_data d s"
  shows "refines (rel_prod (=) same_data) (transact L D spec n d) (inspect_transact Ins L D spec f n' s)"
  unfolding transact_def inspect_transact_def Let_def same_dataD [OF assms(3)]
  by (intro refine execute_refines assms(1,2)) (auto simp: assms(3))

lemma transact_returns:
  assumes "transact L D spec n d = Val (r, d')" "n \<le> n'" "2 ^ 64 \<le> f"
  shows "\<exists>i'. inspect_transact Ins L D spec f n' \<lparr>imp_data = d, imp_inspector = i\<rparr> =
    Val (r, \<lparr>imp_data = d', imp_inspector = i'\<rparr>)"
proof -
  have "refines (rel_prod (=) same_data) (transact L D spec n d)
      (inspect_transact Ins L D spec f n' \<lparr>imp_data = d, imp_inspector = i\<rparr>)"
    by (rule transact_refines) (use assms in simp_all)
  then obtain s where "inspect_transact Ins L D spec f n' \<lparr>imp_data = d, imp_inspector = i\<rparr> = Val (r, s)"
    "imp_data s = d'" using assms(1) by (auto simp: same_data_def)
  then show ?thesis by (cases s) auto
qed

lemma inspect_matches:
  assumes "evm_inner X D env db admin = Val (r, h)" "2 ^ 64 \<le> f" "frames \<le> n"
  shows "\<exists>i'. evm_inner_inspect Ins X D f n env db admin i = Val (r, \<lparr>imp_data = h, imp_inspector = i'\<rparr>)"
  using assms transact_returns by (auto simp: evm_inner_def evm_inner_inspect_def Let_def)

lemma EVM_inspect_matches:
  assumes "EVM_transact X D evm = Val (r, evm')" "2 ^ 64 \<le> f" "frames \<le> n"
  shows "\<exists>i'. EVM_inspect Ins X D f n evm i = Val (r, evm', i')"
proof -
  obtain db h where db: "evm_db evm = Some db" "evm_inner X D (evm_env evm) db (evm_admin evm) = Val (r, h)"
    "evm' = evm\<lparr>evm_env := ed_env h, evm_db := Some (ed_db h), evm_admin := ed_admin h\<rparr>"
    using assms(1) by (cases "evm_db evm") (auto simp: EVM_transact_def bind_comp_Val_iff)
  then show ?thesis using inspect_matches [OF db(2) assms(2,3), of i] by (auto simp: EVM_inspect_def)
qed

lemma EVM_inspect_commit_matches:
  assumes "EVM_transact_commit X D commit_db evm = Val (r, evm')" "2 ^ 64 \<le> f" "frames \<le> n"
  shows "\<exists>i'. EVM_inspect_commit Ins X D commit_db f n evm i = Val (r, evm', i')"
proof -
  obtain r1 evm1 where t: "EVM_transact X D evm = Val (r1, evm1)"
    using assms(1) by (auto simp: EVM_transact_commit_def bind_comp_Val_iff)
  then obtain i' where "EVM_inspect Ins X D f n evm i = Val (r1, evm1, i')"
    using EVM_inspect_matches [OF t assms(2,3)] by blast
  with assms(1) t show ?thesis
    by (auto simp: EVM_transact_commit_def EVM_inspect_commit_def bind_comp_Val_iff split: sum.splits)
qed

lemma EVM_inspect_ref_matches:
  assumes "EVM_transact_ref X R evm = Val (r, evm')" "2 ^ 64 \<le> f" "frames \<le> n"
  shows "\<exists>i'. EVM_inspect_ref Ins X R f n evm i = Val (r, evm', i')"
proof -
  obtain db h where db: "evm_db evm = Some db" "evm_inner X (RefDBWrapper R) (evm_env evm) db (evm_admin evm) = Val (r, h)"
    "evm' = evm\<lparr>evm_admin := ed_admin h\<rparr>"
    using assms(1) by (cases "evm_db evm") (auto simp: EVM_transact_ref_def bind_comp_Val_iff)
  then show ?thesis using inspect_matches [OF db(2) assms(2,3), of i] by (auto simp: EVM_inspect_ref_def)
qed

end

section \<open>Inspectors that are silent between the hooks of an instruction\<close>

locale quiet_inspector = passive_inspector Ins for Ins :: "('i, 'db, 'e) Inspector" +
  assumes log_quiet: "ins_log Ins address topics data d i = Val ((), d, i)"
    and selfdestruct_quiet: "ins_selfdestruct Ins address target i = Val i"

definition watched :: "'i \<Rightarrow> ('db, 'e) EVMData \<Rightarrow> ('i, 'db, 'e) EVMImpl \<Rightarrow> bool" where
  "watched i d s \<longleftrightarrow> s = \<lparr> imp_data = d, imp_inspector = i \<rparr>"

lemma on_data_watched:
  "watched i d s \<Longrightarrow> refines (rel_prod (=) (watched i)) (fn d) (on_data fn s)"
  by (fastforce simp: on_data_def refines_def bind_comp_Val_iff watched_def)

context quiet_inspector
begin

text \<open>Without room for another frame, the hosts agree and the inspector is left alone.\<close>

lemma host_watched: "host_sim (watched i) (evm_host L D spec 0) (inspect_host Ins L D spec f n)"
proof -
  have "refines (watched i) (evm_log d address topics data) (impl_log Ins s address topics data)"
    if "watched i d s" for d s address topics data
    using that by (simp add: impl_log_def apply_hook_def log_quiet watched_def evm_log_def)
  moreover have "impl_selfdestruct Ins D s address target = on_data (\<lambda>d. evm_selfdestruct D d address target) s"
    for s address target by (simp add: impl_selfdestruct_def selfdestruct_quiet)
  ultimately show ?thesis
    unfolding host_sim_def evm_host.simps [of _ _ _ 0] inspect_host.simps [of _ _ _ _ _ n]
    by (auto intro!: rel_funI on_data_watched simp: watched_def [of i _ "_ :: ('i, 'db, 'e) EVMImpl"])
qed

lemma iteration:
  assumes c: "instruction_result m = Continue" and st: "step L (evm_host L D spec 0) spec m = Val m'"
    and h: "ins_step Ins (interpreter.truncate m) (is_static m) (host m) i = Val ((Continue, interpreter.truncate m), host m, i1)"
    and e: "ins_step_end Ins (interpreter.truncate m') (is_static m') (instruction_result m') (host m') i1 =
      Val ((Continue, interpreter.truncate m'), host m', i2)"
  shows "run_inspect L (inspect_host Ins L D spec f n) (impl_steps Ins) spec (Suc fuel)
      (machine_of (interpreter.truncate m) \<lparr>imp_data = host m, imp_inspector = i\<rparr>) =
    run_inspect L (inspect_host Ins L D spec f n) (impl_steps Ins) spec fuel
      (machine_of (interpreter.truncate m') \<lparr>imp_data = host m', imp_inspector = i2\<rparr>)"
proof -
  let ?H = "inspect_host Ins L D spec f n"
  let ?m = "\<lambda>m i. machine_of (interpreter.truncate m) \<lparr>imp_data = host m, imp_inspector = i\<rparr>"
  note [transfer_rule] = host_watched [of i1 L D spec f n]
  have [transfer_rule]: "msim (watched i1) m (?m m i1)" by (simp add: msim_def watched_def)
  have "refines (msim (watched i1)) (step L (evm_host L D spec 0) spec m) (step L ?H spec (?m m i1))"
    by transfer_prover
  then obtain m2 where m2: "step L ?H spec (?m m i1) = Val m2" "msim (watched i1) m' m2" using st by auto
  have "m2 = ?m m' i1" using m2(2) by (cases m2) (auto simp: msim_def watched_def machine_of_def interpreter.defs machine.defs)
  moreover have "h_step (impl_steps Ins) (is_static m) (?m m i) = Val (Continue, ?m m i1)"
    "h_step_end (impl_steps Ins) (is_static m') (instruction_result m') (?m m' i1) = Val (Continue, ?m m' i2)"
    using h e by (simp_all add: impl_steps_def apply_hook_def)
  ultimately show ?thesis using m2(1) c by (subst run_inspect.simps) simp
qed

end

section \<open>The inspectors of the crate\<close>

lemmas inspector_defs =
  default_inspector_def NoOpInspector_def gas_inspector_def custom_print_tracer_def tracer_eip3155_def

interpretation noop: quiet_inspector NoOpInspector
  by unfold_locales (simp_all add: inspector_defs)

interpretation gas_insp: quiet_inspector gas_inspector
  by unfold_locales (simp_all add: inspector_defs)

interpretation print_insp: passive_inspector custom_print_tracer
  by unfold_locales (simp_all add: inspector_defs cp_step_def current_opcode_def)

interpretation tracer: quiet_inspector "tracer_eip3155 hex_encode" for hex_encode
  by unfold_locales (simp_all add: inspector_defs t_step_def current_opcode_def)

section \<open>The test host\<close>

definition dummy_steps :: "DummyHost step_ops" where
  "dummy_steps = \<lparr> h_step = (\<lambda>static m. Val (Continue, m)), h_step_end = (\<lambda>static res m. Val (Continue, m)) \<rparr>"

lemma dummy_run_inspect:
  "run_inspect L H dummy_steps spec fuel m = bind_comp (run L H spec fuel m) (\<lambda>m. Val (instruction_result m, m))"
proof (induction fuel arbitrary: m)
  case 0
  then show ?case by (subst run_inspect.simps) simp
next
  case (Suc fuel)
  then show ?case by (subst run_inspect.simps) (simp add: dummy_steps_def)
qed

end
