(* ===== verification/Frame_Relation.thy ===== *)
theory Frame_Relation
  imports Journal_Ops
begin

text \<open>
  What running a frame does to the journaled state, as a relation between the state at its start and
  the state later: it can always be reverted without a panic (\<open>grows\<close>), and a static frame changes
  nothing (\<open>quiet\<close>). The relation is closed under the operations, and under committing and reverting
  the checkpoint of an inner frame.
\<close>

section \<open>What a static frame may do\<close>

text \<open>
  \<open>quiet js js'\<close>: every loaded account keeps its balance, nonce, code hash and flags, and every loaded
  slot its value; no log is added. Accounts and slots may be loaded, and accounts touched.
\<close>

definition same_account :: "Account \<Rightarrow> Account \<Rightarrow> bool" where
  "same_account x y \<longleftrightarrow> balance (info x) = balance (info y) \<and> nonce (info x) = nonce (info y) \<and>
     code_hash (info x) = code_hash (info y) \<and> storage x \<subseteq>\<^sub>m storage y \<and>
     storage_cleared x = storage_cleared y \<and> is_destroyed x = is_destroyed y \<and>
     is_not_existing x = is_not_existing y"

definition same_world :: "State \<Rightarrow> State \<Rightarrow> bool" where
  "same_world s t \<longleftrightarrow> (\<forall>a x. s a = Some x \<longrightarrow> (\<exists>y. t a = Some y \<and> same_account x y))"

definition quiet :: "JournaledState \<Rightarrow> JournaledState \<Rightarrow> bool" where
  "quiet js js' \<longleftrightarrow> same_world (state js) (state js') \<and> logs js' = logs js"

lemma same_account_refl [simp]: "same_account x x"
  by (simp add: same_account_def)

lemma same_account_trans: "same_account x y \<Longrightarrow> same_account y z \<Longrightarrow> same_account x z"
  by (auto simp: same_account_def intro: map_le_trans)

lemma same_world_trans: "same_world s t \<Longrightarrow> same_world t u \<Longrightarrow> same_world s u"
  unfolding same_world_def by (meson same_account_trans)

lemma quiet_refl [simp]: "quiet js js"
  by (simp add: quiet_def same_world_def)

lemma quiet_trans: "quiet a b \<Longrightarrow> quiet b c \<Longrightarrow> quiet a c"
  by (auto simp: quiet_def intro: same_world_trans)

lemma same_world_upd:
  "same_world s t \<Longrightarrow> (\<And>x. s a = Some x \<Longrightarrow> same_account x y) \<Longrightarrow> same_world s (t(a \<mapsto> y))"
  by (auto simp: same_world_def)

lemma quiet_put_acc: "state js a = Some x \<Longrightarrow> same_account x y \<Longrightarrow> quiet js (put_acc a y js)"
  by (auto simp: quiet_def put_acc_def same_world_def)

lemma quiet_push_entry: "push_entry e js = Val js' \<Longrightarrow> quiet js js' \<and> state js' = state js"
  by (auto simp: push_entry_def quiet_def same_world_def split: if_splits)

lemma quiet_touch_account: "touch_account a js = Val js' \<Longrightarrow> quiet js js'"
  by (cases "state js a")
     (auto simp: touch_account_def get_acc_def put_acc_def quiet_def same_world_def same_account_def push_entry_def
       split: if_splits)

lemma quiet_touch: "touch a js = Val js' \<Longrightarrow> quiet js js'"
  by (auto simp: touch_def quiet_touch_account split: option.splits)

lemma quiet_load_account: "load_account D a js db = Val (r, js', db') \<Longrightarrow> quiet js js'"
  by (auto simp: load_account_def push_entry_def put_acc_def quiet_def same_world_def Let_def bind_comp_Val_iff
      split: option.splits prod.splits sum.splits if_splits)

lemma quiet_load_code:
  assumes "load_code D a js db = Val (r, js', db')"
  shows "quiet js js'"
proof -
  obtain r1 js1 db1 where 1: "load_account D a js db = Val (r1, js1, db1)"
    using assms by (auto simp: load_code_def bind_comp_Val_iff)
  have c: "state js1 a = Some x \<Longrightarrow> quiet js1 (put_acc a (x\<lparr>info := (info x)\<lparr>code := c\<rparr>\<rparr>) js1)" for x c
    by (rule quiet_put_acc) (auto simp: same_account_def)
  have "quiet js1 js'"
    using assms 1 c by (cases "state js1 a")
      (auto simp: load_code_def get_acc_def split: sum.splits if_splits prod.splits)
  then show ?thesis using quiet_load_account [OF 1] quiet_trans by blast
qed

lemma quiet_load_account_exist: "load_account_exist D a js db = Val (r, js', db') \<Longrightarrow> quiet js js'"
proof -
  assume l: "load_account_exist D a js db = Val (r, js', db')"
  then obtain r1 js1 db1 where 1: "load_code D a js db = Val (r1, js1, db1)"
    by (auto simp: load_account_exist_def bind_comp_Val_iff)
  with l have "js' = js1"
    by (cases r1) (auto simp: load_account_exist_def bind_comp_Val_iff Let_def)
  then show ?thesis using quiet_load_code [OF 1] by simp
qed

lemma quiet_sload: "sload D a k js db = Val (r, js', db') \<Longrightarrow> quiet js js'"
  by (cases "state js a")
     (auto simp: sload_def get_acc_def push_entry_def put_acc_def quiet_def same_world_def same_account_def map_le_def
       bind_comp_Val_iff split: option.splits prod.splits sum.splits if_splits)

lemma quiet_balance:
  "state js a = Some x \<Longrightarrow> v = balance (info x) \<Longrightarrow> quiet js (put_acc a (set_balance v x) js)"
  by (rule quiet_put_acc) (auto simp: same_account_def set_balance_def)


lemma touch_account_state:
  "touch_account a js = Val js' \<Longrightarrow>
     \<exists>x. state js a = Some x \<and> state js' = (state js)(a \<mapsto> x\<lparr>is_touched := True\<rparr>) \<and> logs js' = logs js"
  by (cases "state js a")
     (auto simp: touch_account_def get_acc_def put_acc_def push_entry_def fun_upd_idem split: if_splits)

lemma checked_add_sub: "v \<le> w \<Longrightarrow> checked_add (w - v) v = Some w" for w :: "'a::len word"
  by (simp add: checked_add_def unat_sub word_le_nat_alt)

lemma quiet_transfer:
  assumes "transfer D a b v js db = Val (r, js', db')" "v = 0 \<or> a = b"
  shows "quiet js js' \<and> r \<noteq> Inl OverflowPayment"
proof -
  obtain r1 js1 db1 where 1: "load_account D a js db = Val (r1, js1, db1)"
    using assms(1) by (auto simp: transfer_def bind_comp_Val_iff)
  note q1 = quiet_load_account [OF 1]
  show ?thesis
  proof (cases r1)
    case (Inl e)
    then show ?thesis using assms(1) 1 q1 by (auto simp: transfer_def)
  next
    case r1: (Inr c1)
    obtain r2 js2 db2 where 2: "load_account D b js1 db1 = Val (r2, js2, db2)"
      using assms(1) 1 r1 by (auto simp: transfer_def bind_comp_Val_iff)
    note q2 = quiet_trans [OF q1 quiet_load_account [OF 2]]
    show ?thesis
    proof (cases r2)
      case (Inl e)
      then show ?thesis using assms(1) 1 2 r1 q2 by (auto simp: transfer_def)
    next
      case r2: (Inr c2)
      obtain js3 x where 3: "touch_account a js2 = Val js3" "state js3 a = Some x"
        using assms(1) 1 2 r1 r2
        by (auto simp: transfer_def bind_comp_Val_iff get_acc_def unwrap_def split: option.splits)
      note q3 = quiet_trans [OF q2 quiet_touch_account [OF 3(1)]]
      show ?thesis
      proof (cases "v \<le> balance (info x)")
        case False
        then show ?thesis using assms(1) 1 2 3 r1 r2 q3
          by (auto simp: transfer_def get_acc_def checked_sub_def)
      next
        case True
        let ?js = "put_acc a (set_balance (balance (info x) - v) x) js3"
        obtain js4 y where 4: "touch_account b ?js = Val js4" "state js4 b = Some y"
          using assms(1) 1 2 3 r1 r2 True
          by (auto simp: transfer_def bind_comp_Val_iff get_acc_def unwrap_def checked_sub_def Let_def split: option.splits)
        have add: "checked_add (balance (info y)) v = Some (balance (info y) + v)"
          and q4: "quiet js (put_acc b (set_balance (balance (info y) + v) y) js4)"
        proof -
          obtain y0 where y0: "state ?js b = Some y0" "state js4 = (state ?js)(b \<mapsto> y0\<lparr>is_touched := True\<rparr>)"
            "logs js4 = logs ?js" using touch_account_state [OF 4(1)] by blast
          then have y: "y = y0\<lparr>is_touched := True\<rparr>" using 4(2) by simp
          have "checked_add (balance (info y)) v = Some (balance (info y) + v) \<and>
              quiet js3 (put_acc b (set_balance (balance (info y) + v) y) js4)"
          proof (cases "a = b")
            case True
            then have "y0 = set_balance (balance (info x) - v) x" using y0(1) by (simp add: put_acc_def)
            with True y y0 3(2) show ?thesis using checked_add_sub [OF \<open>v \<le> balance (info x)\<close>]
              by (auto simp: put_acc_def set_balance_def quiet_def same_account_def same_world_def)
          next
            case False
            then have "v = 0" using assms(2) by simp
            with False y y0 3(2) unsigned_less [of "balance (info y0)", where ?'a = nat] show ?thesis
              by (auto simp: put_acc_def set_balance_def quiet_def same_account_def same_world_def checked_add_def)
          qed
          then show "checked_add (balance (info y)) v = Some (balance (info y) + v)"
            "quiet js (put_acc b (set_balance (balance (info y) + v) y) js4)" using quiet_trans [OF q3] by blast+
        qed
        then show ?thesis using assms(1) 1 2 3 4 r1 r2 True
          by (auto simp: transfer_def get_acc_def checked_sub_def Let_def bind_comp_Val_iff
              dest!: quiet_push_entry intro: quiet_trans)
      qed
    qed
  qed
qed

section \<open>The journal over a frame\<close>

text \<open>
  What a frame does to the journaled state from its start. A creation whose account cannot be read
  returns without leaving its checkpoint, so the depth may grow; nothing else may. A static frame is
  also exact and quiet.
\<close>

definition grows :: "JournaledState \<Rightarrow> JournaledState \<Rightarrow> bool" where
  "grows js js' \<longleftrightarrow> shape.steps js (js'\<lparr>depth := depth js\<rparr>) \<and> depth js \<le> depth js'"

definition frame_rel :: "bool \<Rightarrow> JournaledState \<Rightarrow> JournaledState \<Rightarrow> bool" where
  "frame_rel st js js' \<longleftrightarrow> (if st then exact.steps js js' \<and> quiet js js' else grows js js')"

lemma depth_id [simp]: "js\<lparr>depth := depth js\<rparr> = js" for js :: JournaledState
  by simp

lemma shape_steps_depth: "shape.steps js js' \<Longrightarrow> shape.steps (js\<lparr>depth := d\<rparr>) (js'\<lparr>depth := d\<rparr>)"
  by (auto simp: shape.steps_def shape.extends_def codes_ok_def)

lemma grows_steps: "shape.steps js js' \<Longrightarrow> grows js js'"
  using shape.steps_same [of js js'] by (metis depth_id grows_def order_refl)

lemma grows_trans: "grows a b \<Longrightarrow> grows b c \<Longrightarrow> grows a c"
  using shape_steps_depth [of b "c\<lparr>depth := depth b\<rparr>" "depth a"]
  by (auto simp: grows_def intro: shape.steps_trans order_trans)

lemma grows_props:
  assumes "grows js js'"
  shows "journal js' \<noteq> []" "dom (state js) \<subseteq> dom (state js')" "codes_ok js \<Longrightarrow> codes_ok js'" "depth js \<le> depth js'"
proof -
  have g: "shape.steps js (js'\<lparr>depth := depth js\<rparr>)" using assms by (simp add: grows_def)
  show "journal js' \<noteq> []" using shape.steps_journal [OF g] by simp
  show "dom (state js) \<subseteq> dom (state js')" using shape.steps_dom [OF g] by auto
  show "codes_ok js \<Longrightarrow> codes_ok js'" using g by (simp add: shape.steps_def codes_ok_def)
  show "depth js \<le> depth js'" using assms by (simp add: grows_def)
qed

lemma frame_rel_grows: "frame_rel st js js' \<Longrightarrow> grows js js'"
  by (auto simp: frame_rel_def intro: grows_steps exact_steps_shape split: if_splits)

lemma frame_rel_weaken: "frame_rel st js js' \<Longrightarrow> (st' \<longrightarrow> st) \<Longrightarrow> frame_rel st' js js'"
  using frame_rel_grows [of st js js'] by (cases st'; cases st) (auto simp: frame_rel_def)

lemma frame_rel_trans: "frame_rel st a b \<Longrightarrow> frame_rel st b c \<Longrightarrow> frame_rel st a c"
  by (auto simp: frame_rel_def intro: exact.steps_trans quiet_trans grows_trans split: if_splits)

lemma frame_rel_quiet: "exact.steps js js' \<Longrightarrow> quiet js js' \<Longrightarrow> frame_rel st js js'"
  by (auto simp: frame_rel_def intro: grows_steps exact_steps_shape)

lemma frame_rel_shape: "shape.steps js js' \<Longrightarrow> frame_rel False js js'"
  by (simp add: frame_rel_def grows_steps)

lemma frame_rel_refl: "journal js \<noteq> [] \<Longrightarrow> frame_rel st js js"
  by (simp add: frame_rel_quiet exact.steps_refl)

lemma checkpoint_commit_depth: "checkpoint_commit (js\<lparr>depth := d + 1\<rparr>) = (checkpoint_commit js)\<lparr>depth := d\<rparr>"
  by (simp add: checkpoint_commit_def)

lemma checkpoint_revert_depth:
  "checkpoint_revert cp (js\<lparr>depth := d\<rparr>) = bind_comp (checkpoint_revert cp js) (\<lambda>js'. Val (js'\<lparr>depth := d - 1\<rparr>))"
  by (cases js) (simp add: checkpoint_revert_def Let_def cong: bind_comp_cong)

lemma checkpoint_revert_lowers: "checkpoint_revert cp js = Val js' \<Longrightarrow> depth js' = depth js - 1"
  by (auto simp: checkpoint_revert_def Let_def bind_comp_Val_iff)

lemma checkpointD:
  "checkpoint js = (cp, js1) \<Longrightarrow> state js1 = state js \<and> logs js1 = logs js \<and> depth js1 = depth js + 1 \<and> journal js1 \<noteq> [] \<and>
     codes_ok js1 = codes_ok js"
  by (auto simp: checkpoint_def codes_ok_def)

lemma depth_step:
  assumes "(a :: usize) + 1 \<le> b" "a \<le> 1024"
  shows "a \<le> b - 1"
proof -
  have "unat (a + 1) = unat a + 1" using assms(2) unat_add_nowrap [of a 1] by (simp add: word_le_nat_alt)
  moreover from this have "unat (b - 1) = unat b - 1" using assms(1) unat_sub_nowrap [of 1 b] by (simp add: word_le_nat_alt)
  ultimately show ?thesis using assms(1) by (simp add: word_le_nat_alt)
qed

lemma frame_commit:
  assumes "checkpoint js = (cp, js1)" "journal js \<noteq> []" "frame_rel st js1 js2" "depth js \<le> 1024"
  shows "frame_rel st js (checkpoint_commit js2)"
proof (cases st)
  case True
  with assms have "exact.steps js1 js2" "quiet js1 js2" by (auto simp: frame_rel_def)
  moreover from this(2) have "quiet js (checkpoint_commit js2)"
    using checkpointD [OF assms(1)] by (simp add: quiet_def checkpoint_commit_def)
  ultimately show ?thesis using True exact.checkpoint_commit_steps [OF assms(1,2)] by (simp add: frame_rel_def)
next
  case False
  note c = checkpointD [OF assms(1)]
  have g: "shape.steps js1 (js2\<lparr>depth := depth js + 1\<rparr>)" "depth js + 1 \<le> depth js2"
    using False assms(3) c by (auto simp: frame_rel_def grows_def)
  have "shape.steps js ((checkpoint_commit js2)\<lparr>depth := depth js\<rparr>)"
    using shape.checkpoint_commit_steps [OF assms(1,2) g(1)] by (simp only: checkpoint_commit_depth)
  then show ?thesis using False depth_step [OF g(2) assms(4)]
    by (simp add: frame_rel_def grows_def) (simp add: checkpoint_commit_def)
qed

lemma restores_same_world: "exact.restores s t \<Longrightarrow> same_world s t"
  by (auto simp: same_world_def same_account_def acc_eq_iff dest!: exact.restores_Some)

lemma frame_revert:
  assumes "checkpoint js = (cp, js1)" "journal js \<noteq> []" "frame_rel st js1 js2" "depth js \<le> 1024"
  shows "ok (\<lambda>js3. frame_rel st js js3 \<and> depth js3 = depth js2 - 1) (checkpoint_revert cp js2)"
proof (cases st)
  case True
  with assms have "exact.steps js1 js2" "quiet js1 js2" by (auto simp: frame_rel_def)
  then obtain js3 where "checkpoint_revert cp js2 = Val js3" "logs js3 = logs js"
    "exact.restores (state js) (state js3)" "exact.steps js js3"
    using exact.checkpoint_revert_steps [OF assms(1,2)] by (auto simp: ok_iff)
  then show ?thesis using True checkpoint_revert_lowers
    by (simp add: frame_rel_def quiet_def restores_same_world)
next
  case False
  note c = checkpointD [OF assms(1)]
  have g: "shape.steps js1 (js2\<lparr>depth := depth js + 1\<rparr>)" "depth js + 1 \<le> depth js2"
    using False assms(3) c by (auto simp: frame_rel_def grows_def)
  obtain js3 where 3: "checkpoint_revert cp js2 = Val js3" "shape.steps js (js3\<lparr>depth := depth js\<rparr>)"
    using shape.checkpoint_revert_steps [OF assms(1,2) g(1)] unfolding checkpoint_revert_depth
    by (auto simp: ok_iff bind_comp_Val_iff)
  then show ?thesis using False depth_step [OF g(2) assms(4)] checkpoint_revert_lowers [OF 3(1)]
    by (simp add: frame_rel_def grows_def)
qed

end
