(* ===== verification/Evm_Host.thy ===== *)
theory Evm_Host
  imports Evm_Impl Frame_Relation
begin

text \<open>
  The host of \<open>Evm_Impl\<close> keeps the contract that the interpreter relies on. The invariant \<open>evm_inv\<close> of
  a running frame relates the journaled state to the one at the frame's start (\<open>frame_rel\<close>): the frame
  only appends to the journal, and a static frame leaves the world as it was. Each operation of the host keeps it, every frame
  that is entered is left by a commit or a revert of its checkpoint, and by induction on the room
  for nested frames the host with its own calls and creations satisfies the laws of \<open>full_host\<close>. The
  invariant ties that room to the journal's depth, so the call stack limit of the code is what
  bounds the recursion.
\<close>

section \<open>The invariant of the host\<close>

text \<open>
  A table of precompiled contracts that always return. All contracts of the code but the
  administration contract do (see below); the administration contract can panic.
\<close>

definition out_ok :: "PrecompileResult \<Rightarrow> bool" where
  "out_ok r \<longleftrightarrow> (case r of Inl _ \<Rightarrow> True | Inr (_, data) \<Rightarrow> length data < 2 ^ 63)"

definition precompile_ok :: "Precompile \<Rightarrow> bool" where
  "precompile_ok p \<longleftrightarrow> (\<forall>input gas_limit. length input < 2 ^ 63 \<longrightarrow>
     (case p of
        Standard f \<Rightarrow> ok out_ok (f input gas_limit)
      | Custom f \<Rightarrow> ok out_ok (f input gas_limit)
      | CustomEnterprise f \<Rightarrow> (\<forall>context s. ok (\<lambda>(r, _). out_ok r) (f input gas_limit context s))))"

definition table_total :: "Precompiles \<Rightarrow> bool" where
  "table_total P \<longleftrightarrow> (\<forall>a p. Precompiles_get P a = Some p \<longrightarrow> precompile_ok p)"

definition setup_ok :: "SpecId \<Rightarrow> Env \<Rightarrow> Precompiles \<Rightarrow> bool" where
  "setup_ok spec env P \<longleftrightarrow> (enabled spec MERGE \<longrightarrow> prevrandao (block env) \<noteq> None) \<and>
     cfg_memory_limit (cfg env) \<le> limit_MAX \<and> table_total P"

definition failed :: "('db, 'e) EVMData \<Rightarrow> bool" where
  "failed h \<longleftrightarrow> ed_error h \<noteq> None"

text \<open>
  The invariant while a frame of the contract at \<open>s\<close> runs, which started from \<open>js0\<close>, with room for \<open>n\<close>
  nested frames.
\<close>

definition evm_inv ::
  "('db \<Rightarrow> bool) \<Rightarrow> SpecId \<Rightarrow> Env \<Rightarrow> Precompiles \<Rightarrow> nat \<Rightarrow> JournaledState \<Rightarrow> bool \<Rightarrow> B160 \<Rightarrow> ('db, 'e) EVMData \<Rightarrow> bool" where
  "evm_inv DI spec env P n js0 st s h \<longleftrightarrow>
     frame_rel st js0 (journaled_state h) \<and> codes_ok (journaled_state h) \<and> s \<in> dom (state js0) \<and> DI (ed_db h) \<and>
     unat (depth (journaled_state h)) \<le> 1025 \<and> 1026 \<le> n + unat (depth (journaled_state h)) \<and>
     ed_env h = env \<and> ed_precompiles h = P \<and> setup_ok spec env P"

lemma evm_invD:
  assumes "evm_inv DI spec env P n js0 st s h"
  shows "journal (journaled_state h) \<noteq> []" "s \<in> dom (state (journaled_state h))" "DI (ed_db h)"
    "codes_ok (journaled_state h)"
proof -
  have "grows js0 (journaled_state h)" using assms frame_rel_grows by (auto simp: evm_inv_def)
  from grows_props(1,2) [OF this] show "journal (journaled_state h) \<noteq> []" "s \<in> dom (state (journaled_state h))"
    using assms by (auto simp: evm_inv_def)
qed (use assms in \<open>auto simp: evm_inv_def\<close>)

lemma evm_inv_step:
  assumes "evm_inv DI spec env P n js0 st s h" "frame_rel st (journaled_state h) js" "depth js = depth (journaled_state h)"
    "DI db"
  shows "evm_inv DI spec env P n js0 st s (h\<lparr>journaled_state := js, ed_db := db\<rparr>)"
    "evm_inv DI spec env P n js0 st s (h\<lparr>journaled_state := js, ed_db := db, ed_error := e\<rparr>)"
  using assms frame_rel_trans [of st js0 "journaled_state h" js] grows_props(3) [OF frame_rel_grows [OF assms(2)]]
  by (auto simp: evm_inv_def)

lemma or_error_ok:
  assumes "evm_inv DI spec env P n js0 st s h"
    and "ok (\<lambda>(r, js, db). frame_rel st (journaled_state h) js \<and> depth js = depth (journaled_state h) \<and> DI db \<and> R r js)
      (f (journaled_state h) (ed_db h))"
  shows "ok (\<lambda>(r, h'). evm_inv DI spec env P n js0 st s h' \<and> (r = None \<longrightarrow> failed h') \<and>
      (\<forall>x. r = Some x \<longrightarrow> R (Inr x) (journaled_state h'))) (or_error f h)"
proof -
  obtain r js db where f: "f (journaled_state h) (ed_db h) = Val (r, js, db)" "frame_rel st (journaled_state h) js"
    "depth js = depth (journaled_state h)" "DI db" "R r js" using assms(2) by (auto simp: ok_iff)
  show ?thesis
    using f evm_inv_step [OF assms(1) f(2-4)] by (cases r) (auto simp: or_error_def failed_def)
qed

lemma or_error_keeps:
  assumes "evm_inv DI spec env P n js0 st s h"
    and "ok (\<lambda>(r, js, db). frame_rel st (journaled_state h) js \<and> depth js = depth (journaled_state h) \<and> DI db)
      (f (journaled_state h) (ed_db h))"
  shows "ok (\<lambda>(r, h'). evm_inv DI spec env P n js0 st s h' \<and> (r = None \<longrightarrow> failed h')) (or_error f h)"
  using or_error_ok [OF assms(1), where R = "\<lambda>_ _. True"] assms(2) by simp

lemma ok_result: "ok P c \<Longrightarrow> (\<And>x. c = Val x \<Longrightarrow> P x \<Longrightarrow> Q x) \<Longrightarrow> ok Q c"
  by (auto simp: ok_iff)

lemma quiet_read: "exact.steps js js' \<Longrightarrow> quiet js js' \<Longrightarrow> frame_rel st js js' \<and> depth js' = depth js"
  using exact.steps_same frame_rel_quiet by blast

lemma exact_change: "exact.steps js js' \<Longrightarrow> frame_rel False js js' \<and> depth js' = depth js"
  using exact.steps_same frame_rel_shape exact_steps_shape by blast

section \<open>Operations of the host\<close>

context database
begin

lemma load_code_read:
  assumes "journal js \<noteq> []" "DI db"
  shows "ok (\<lambda>(r, js', db'). frame_rel st js js' \<and> depth js' = depth js \<and> DI db' \<and>
      (\<forall>c. r = Inr c \<longrightarrow> (\<exists>acc c. state js' a = Some acc \<and> code (info acc) = Some c))) (load_code D a js db)"
  by (rule ok_result [OF load_code_steps [OF assms, of a]]) (auto dest: quiet_load_code quiet_read)

lemma load_account_read:
  assumes "journal js \<noteq> []" "DI db"
  shows "ok (\<lambda>(r, js', db'). frame_rel st js js' \<and> depth js' = depth js \<and> DI db' \<and>
      (\<forall>c. r = Inr c \<longrightarrow> a \<in> dom (state js'))) (load_account D a js db)"
  by (rule ok_result [OF load_account_steps [OF assms, of a]]) (auto dest: quiet_load_account quiet_read)

lemma load_account_exist_read:
  assumes "journal js \<noteq> []" "DI db"
  shows "ok (\<lambda>(r, js', db'). frame_rel st js js' \<and> depth js' = depth js \<and> DI db' \<and>
      (\<forall>c. r = Inr c \<longrightarrow> a \<in> dom (state js'))) (load_account_exist D a js db)"
  by (rule ok_result [OF load_account_exist_steps [OF assms, of a]]) (auto dest: quiet_load_account_exist quiet_read)

lemma sload_read:
  assumes "journal js \<noteq> []" "DI db" "a \<in> dom (state js)"
  shows "ok (\<lambda>(r, js', db'). frame_rel st js js' \<and> depth js' = depth js \<and> DI db') (sload D a k js db)"
proof -
  obtain x where "state js a = Some x" using assms(3) by blast
  from sload_steps [OF assms(1,2) this, of k] show ?thesis
    by (rule ok_result) (auto dest: quiet_sload quiet_read)
qed

lemma evm_load_account_ok:
  assumes "evm_inv DI spec env P n js0 st s h"
  shows "ok (\<lambda>(r, h'). evm_inv DI spec env P n js0 st s h' \<and> (r = None \<longrightarrow> failed h') \<and>
      (\<forall>x. r = Some x \<longrightarrow> a \<in> dom (state (journaled_state h')))) (evm_load_account D h a)"
  unfolding evm_load_account_def
  by (rule ok_mono [OF or_error_ok [where f = "load_account_exist D a" and R = "\<lambda>r js. \<forall>c. r = Inr c \<longrightarrow> a \<in> dom (state js)",
          OF assms load_account_exist_read [OF evm_invD(1,3) [OF assms]]]]) auto

lemma evm_block_hash_ok:
  assumes "evm_inv DI spec env P n js0 st s h"
  shows "ok (\<lambda>(r, h'). evm_inv DI spec env P n js0 st s h' \<and> (r = None \<longrightarrow> failed h')) (evm_block_hash D h number)"
proof -
  obtain r db where b: "db_block_hash D (ed_db h) number = (r, db)" by fastforce
  then have "DI db" using block_hash_ok [OF evm_invD(3) [OF assms]] by blast
  then show ?thesis unfolding evm_block_hash_def
    by (intro or_error_keeps [OF assms]) (simp add: b frame_rel_refl [OF evm_invD(1) [OF assms]])
qed

lemma evm_balance_ok:
  assumes "evm_inv DI spec env P n js0 st s h"
  shows "ok (\<lambda>(r, h'). evm_inv DI spec env P n js0 st s h' \<and> (r = None \<longrightarrow> failed h')) (evm_balance D h a)"
proof -
  have "ok (\<lambda>(r, h'). evm_inv DI spec env P n js0 st s h' \<and> (r = None \<longrightarrow> failed h') \<and>
      (\<forall>x. r = Some x \<longrightarrow> a \<in> dom (state (journaled_state h')))) (or_error (load_account D a) h)"
    using or_error_ok [OF assms, where R = "\<lambda>r js. \<forall>c. r = Inr c \<longrightarrow> a \<in> dom (state js)"]
      load_account_read [OF evm_invD(1,3) [OF assms], of st a] by simp
  then show ?thesis
    by (auto simp: evm_balance_def ok_iff get_acc_def split: option.splits)
qed

lemma loaded_code:
  assumes "evm_inv DI spec env P n js0 st s h"
  shows "ok (\<lambda>(r, h'). evm_inv DI spec env P n js0 st s h' \<and> (r = None \<longrightarrow> failed h') \<and>
      (\<forall>x. r = Some x \<longrightarrow> (\<exists>acc c. state (journaled_state h') a = Some acc \<and> code (info acc) = Some c)))
    (or_error (load_code D a) h)"
  using or_error_ok [OF assms, where R = "\<lambda>r js. \<forall>c. r = Inr c \<longrightarrow> (\<exists>acc c. state js a = Some acc \<and> code (info acc) = Some c)"]
    load_code_read [OF evm_invD(1,3) [OF assms], of st a] by simp

lemma evm_code_ok:
  assumes "evm_inv DI spec env P n js0 st s h"
  shows "ok (\<lambda>(r, h'). evm_inv DI spec env P n js0 st s h' \<and> (r = None \<longrightarrow> failed h') \<and>
      (\<forall>c cold. r = Some (c, cold) \<longrightarrow> Journal_Revert.code_ok c \<and> a \<in> dom (state (journaled_state h')))) (evm_code D h a)"
proof -
  obtain r h' where 1: "or_error (load_code D a) h = Val (r, h')" "evm_inv DI spec env P n js0 st s h'"
    "r = None \<longrightarrow> failed h'" "\<forall>x. r = Some x \<longrightarrow> (\<exists>acc c. state (journaled_state h') a = Some acc \<and> code (info acc) = Some c)"
    using loaded_code [OF assms, of a] by (auto simp: ok_iff)
  have "code_ok c" if "state (journaled_state h') a = Some acc" "code (info acc) = Some c" for acc c
    using evm_invD(4) [OF 1(2)] that by (auto simp: codes_ok_def state_ok_def acc_ok_def)
  then show ?thesis using 1 by (cases r) (auto simp: evm_code_def get_acc_def)
qed

lemma evm_code_hash_ok:
  assumes "evm_inv DI spec env P n js0 st s h"
  shows "ok (\<lambda>(r, h'). evm_inv DI spec env P n js0 st s h' \<and> (r = None \<longrightarrow> failed h')) (evm_code_hash D h a)"
  using loaded_code [OF assms, of a]
  by (auto simp: evm_code_hash_def ok_iff get_acc_def split: option.splits)

lemma evm_sload_ok:
  assumes "evm_inv DI spec env P n js0 st s h"
  shows "ok (\<lambda>(r, h'). evm_inv DI spec env P n js0 st s h' \<and> (r = None \<longrightarrow> failed h')) (evm_sload D h s k)"
  unfolding evm_sload_def by (intro or_error_keeps [OF assms] sload_read [OF evm_invD(1,3,2) [OF assms]])

lemma evm_sstore_ok:
  assumes "evm_inv DI spec env P n js0 False s h"
  shows "ok (\<lambda>(r, h'). evm_inv DI spec env P n js0 False s h' \<and> (r = None \<longrightarrow> failed h')) (evm_sstore D h s k v)"
proof -
  obtain x where "state (journaled_state h) s = Some x" using evm_invD(2) [OF assms] by blast
  from sstore_steps [OF evm_invD(1,3) [OF assms] this, of k v] show ?thesis
    unfolding evm_sstore_def by (intro or_error_keeps [OF assms]) (auto elim!: ok_mono dest: exact_change)
qed

lemma evm_selfdestruct_ok:
  assumes "evm_inv DI spec env P n js0 False s h"
  shows "ok (\<lambda>(r, h'). evm_inv DI spec env P n js0 False s h' \<and> (r = None \<longrightarrow> failed h')) (evm_selfdestruct D h s b)"
  using selfdestruct_steps [OF evm_invD(1,3,2) [OF assms], of b]
  unfolding evm_selfdestruct_def by (intro or_error_keeps [OF assms]) (auto elim!: ok_mono dest: exact_change)

lemma evm_log_ok:
  assumes "evm_inv DI spec env P n js0 False s h"
  shows "ok (evm_inv DI spec env P n js0 False s) (evm_log h a topics data)"
  using evm_inv_step(1) [OF assms, of _ "ed_db h"] evm_invD(3) [OF assms] exact_change [OF log_steps [OF evm_invD(1) [OF assms]]]
  by (simp add: evm_log_def put_journal_def)

end

section \<open>Frames\<close>

lemma to_analysed_length: "length (bytecode (to_analysed b)) \<le> length (bytecode b) + 33"
  by (auto simp: to_analysed_def to_checked_def Let_def split: BytecodeState.split)

lemma new_contract_ok:
  assumes "bytecode_wf b" "length (bytecode b) + 33 < 2 ^ 63" "length inp < 2 ^ 63"
  shows "ok (\<lambda>c. contract_wf c \<and> ct_address c = a) (Contract_new inp b a clr v)"
proof (rule ok_mono [OF Contract_new_ok [OF assms(1)]], elim conjE, intro conjI)
  fix c :: Contract assume c: "locked_wf (ct_bytecode c)" "unlock (ct_bytecode c) = to_analysed b" "ct_input c = inp"
  have "bl_bytecode (ct_bytecode c) = bytecode (to_analysed b)" using arg_cong [OF c(2), of bytecode] by (simp add: unlock_def)
  then show "contract_wf c" using c assms(2,3) to_analysed_length [of b] by (simp add: contract_wf_def)
qed

lemma run_frame_ok:
  assumes "full_host H (evm_inv DI spec env P n js1) failed spec" "contract_wf c"
    and inv: "evm_inv DI spec env P n js1 static (ct_address c) h"
  shows "ok (\<lambda>m. evm_inv DI spec env P n js1 static (ct_address c) (host m) \<and>
      (instruction_result m = FatalExternalError \<longrightarrow> failed (host m)) \<and> instruction_result m \<noteq> Continue \<and>
      gas_wf (gas m) \<and> g_limit (gas m) = gas_limit \<and> ok (\<lambda>bs. length bs + 128 < 2 ^ 63) (return_value m))
    (run_frame L H spec c gas_limit static h)"
proof -
  let ?m = "interpreter.extend (new_with_memory_limit c gas_limit static (cfg_memory_limit (cfg (ed_env h)))) (machine.fields h)"
  have m: "instruction_result ?m = Continue" "remaining (gas ?m) = gas_limit" "g_limit (gas ?m) = gas_limit"
    "contract ?m = c" "is_static ?m = static"
    by (simp_all add: new_with_memory_limit_def interpreter.defs machine.defs)
  have "frame_ok (evm_inv DI spec env P n js1) ?m"
    using assms inv by (intro new_frame_ok) (auto simp: evm_inv_def setup_ok_def)
  then have "ok (run_post (evm_inv DI spec env P n js1) failed ?m) (run L H spec (unat gas_limit + 1) ?m)"
    by (rule full_host.run_ok [OF assms(1)]) (simp_all add: m)
  then show ?thesis unfolding run_frame_def
  proof (rule ok_mono)
    fix m' assume r: "run_post (evm_inv DI spec env P n js1) failed ?m m'"
    then have w: "interp_wf m'" by (simp add: run_post_def frame_ok_def)
    from r return_value_ok [OF w] w show "evm_inv DI spec env P n js1 static (ct_address c) (host m') \<and>
        (instruction_result m' = FatalExternalError \<longrightarrow> failed (host m')) \<and> instruction_result m' \<noteq> Continue \<and>
        gas_wf (gas m') \<and> g_limit (gas m') = gas_limit \<and> ok (\<lambda>bs. length bs + 128 < 2 ^ 63) (return_value m')"
      by (auto simp: run_post_def frame_ok_def m interp_wf_def)
  qed
qed

lemma evm_enter:
  assumes "evm_inv DI spec env P (Suc n) js0 st s h" "evm_checkpoint h = (cp, h1)"
    and "depth (journaled_state h) \<le> 1024" "s' \<in> dom (state (journaled_state h))"
  shows "evm_inv DI spec env P n (journaled_state h1) st' s' h1"
proof -
  obtain js1 where c: "checkpoint (journaled_state h) = (cp, js1)" "h1 = put_journal js1 h"
    using assms(2) by (cases "checkpoint (journaled_state h)") (auto simp: evm_checkpoint_def)
  note d = checkpointD [OF c(1)]
  have u: "unat (depth (journaled_state h) + 1) = unat (depth (journaled_state h)) + 1"
    using assms(3) unat_add_nowrap [of "depth (journaled_state h)" 1] by (simp add: word_le_nat_alt)
  show ?thesis using assms d u
    by (auto simp: evm_inv_def c(2) put_journal_def frame_rel_refl word_le_nat_alt)
qed

lemma evm_leave:
  assumes "evm_inv DI spec env P (Suc n) js0 st s h" "evm_checkpoint h = (cp, h1)" "depth (journaled_state h) \<le> 1024"
    and "evm_inv DI spec env P n (journaled_state h1) st' s' h2" "st \<longrightarrow> st'"
  shows "evm_inv DI spec env P (Suc n) js0 st s (evm_commit h2)"
    "ok (\<lambda>h3. evm_inv DI spec env P (Suc n) js0 st s h3 \<and> ed_error h3 = ed_error h2) (evm_revert cp h2)"
proof -
  obtain js1 where c: "checkpoint (journaled_state h) = (cp, js1)" "h1 = put_journal js1 h"
    using assms(2) by (cases "checkpoint (journaled_state h)") (auto simp: evm_checkpoint_def)
  let ?js2 = "journaled_state h2"
  have r: "frame_rel st' js1 ?js2" using assms(4) by (simp add: evm_inv_def c(2) put_journal_def)
  note j = evm_invD(1) [OF assms(1)]
  have "depth js1 \<le> depth ?js2" using grows_props(4) [OF frame_rel_grows [OF r]] .
  then have "depth (journaled_state h) + 1 \<le> depth ?js2" using checkpointD [OF c(1)] by simp
  then have "1 \<le> depth ?js2" using assms(3) unat_add_nowrap [of "depth (journaled_state h)" 1] by (simp add: word_le_nat_alt)
  then have u: "unat (depth ?js2 - 1) = unat (depth ?js2) - 1" "0 < unat (depth ?js2)"
    using unat_sub_nowrap [of 1 "depth ?js2"] by (simp_all add: word_le_nat_alt)
  have step: "evm_inv DI spec env P (Suc n) js0 st s (put_journal js3 h2)"
    if "frame_rel st' (journaled_state h) js3" "depth js3 = depth ?js2 - 1" for js3
  proof -
    have "frame_rel st (journaled_state h) js3" using that(1) assms(5) by (rule frame_rel_weaken)
    then show ?thesis using assms(1,4) that(2) u frame_rel_trans [of st js0 "journaled_state h" js3]
        grows_props(3) [OF frame_rel_grows [OF that(1)]]
      by (auto simp: evm_inv_def put_journal_def)
  qed
  show "evm_inv DI spec env P (Suc n) js0 st s (evm_commit h2)"
    unfolding evm_commit_def using frame_commit [OF c(1) j r assms(3)] by (intro step) (simp_all add: checkpoint_commit_def)
  show "ok (\<lambda>h3. evm_inv DI spec env P (Suc n) js0 st s h3 \<and> ed_error h3 = ed_error h2) (evm_revert cp h2)"
    unfolding evm_revert_def using frame_revert [OF c(1) j r assms(3)] step
    by (auto simp: ok_iff) (auto simp: put_journal_def)
qed

text \<open>What a call of the host returns.\<close>

definition call_post :: "(('db, 'e) EVMData \<Rightarrow> bool) \<Rightarrow> u64 \<Rightarrow> InstructionResult \<times> Gas \<times> bytes \<times> ('db, 'e) EVMData \<Rightarrow> bool" where
  "call_post J limit = (\<lambda>(r, gas', data, h). J h \<and> (r = FatalExternalError \<longrightarrow> failed h) \<and> r \<noteq> Continue \<and> gas_wf gas' \<and>
     g_limit gas' = limit \<and> length data < 2 ^ 63)"

lemma charged_gas: "record_cost (Gas_new l) c = (b, gas') \<Longrightarrow> gas_wf gas' \<and> g_limit gas' = l"
  using record_cost_fails [of "Gas_new l" c] charged_record_cost [of "Gas_new l" c]
  by (cases b) (auto simp: charged_def)

lemma run_precompile_ok:
  assumes "precompile_ok p" "length input < 2 ^ 63" "evm_inv DI spec env P n js1 st s h"
  shows "ok (\<lambda>(r, h'). out_ok r \<and> evm_inv DI spec env P n js1 st s h') (run_precompile p input gas_limit context h)"
proof (cases p)
  case (CustomEnterprise f)
  then have "ok (\<lambda>(r, _). out_ok r) (f input gas_limit context (ed_admin h))"
    using assms(1,2) by (simp add: precompile_ok_def)
  then show ?thesis using assms(3) CustomEnterprise
    by (auto simp: run_precompile_def evm_inv_def elim!: ok_mono)
qed (use assms in \<open>auto simp: precompile_ok_def run_precompile_def elim!: ok_mono\<close>)

lemma call_precompile_ok:
  assumes "evm_inv DI spec env P (Suc n) js0 st s h" "evm_checkpoint h = (cp, h1)" "depth (journaled_state h) \<le> 1024"
    and "evm_inv DI spec env P n (journaled_state h1) st' s' h2" "st \<longrightarrow> st'"
    and "precompile_ok p" "length (ci_input i) < 2 ^ 63"
  shows "ok (call_post (evm_inv DI spec env P (Suc n) js0 st s) (ci_gas_limit i)) (call_precompile p i cp h2)"
proof -
  obtain r h3 where 3: "run_precompile p (ci_input i) (ci_gas_limit i) (ci_context i) h2 = Val (r, h3)" "out_ok r"
    "evm_inv DI spec env P n (journaled_state h1) st' s' h3"
    using run_precompile_ok [OF assms(6,7,4), of "ci_gas_limit i" "ci_context i"] by (auto simp: ok_iff)
  obtain h4 where 4: "evm_revert cp h3 = Val h4" "evm_inv DI spec env P (Suc n) js0 st s h4"
    using evm_leave(2) [OF assms(1-3) 3(3) assms(5)] by (auto simp: ok_iff)
  note commit = evm_leave(1) [OF assms(1-3) 3(3) assms(5)]
  show ?thesis
  proof (cases r)
    case (Inl e)
    then show ?thesis using 3(1) 4 by (cases e) (auto simp: call_precompile_def call_post_def)
  next
    case (Inr p)
    obtain used data where p: "p = (used, data)" by fastforce
    obtain b gas' where rc: "record_cost (Gas_new (ci_gas_limit i)) used = (b, gas')" by fastforce
    show ?thesis using 3(1,2) 4 commit Inr p rc charged_gas [OF rc]
      by (auto simp: call_precompile_def call_post_def out_ok_def)
  qed
qed

lemma call_frame_ok:
  assumes "evm_inv DI spec env P (Suc n) js0 st s h" "evm_checkpoint h = (cp, h1)" "depth (journaled_state h) \<le> 1024"
    and "evm_inv DI spec env P n (journaled_state h1) (ci_is_static i) (ctx_address (ci_context i)) h2" "st \<longrightarrow> ci_is_static i"
    and "full_host H (evm_inv DI spec env P n (journaled_state h1)) failed spec" "code_ok b" "length (ci_input i) < 2 ^ 63"
  shows "ok (call_post (evm_inv DI spec env P (Suc n) js0 st s) (ci_gas_limit i)) (call_frame L H spec b i cp h2)"
proof -
  obtain c where c: "new_with_context (ci_input i) b (ci_context i) = Val c" "contract_wf c" "ct_address c = ctx_address (ci_context i)"
    using new_contract_ok [of b "ci_input i" "ctx_address (ci_context i)" "ctx_caller (ci_context i)"
        "ctx_apparent_value (ci_context i)"] assms(7,8) by (auto simp: new_with_context_def code_ok_def ok_iff)
  obtain m where m: "run_frame L H spec c (ci_gas_limit i) (ci_is_static i) h2 = Val m"
    "evm_inv DI spec env P n (journaled_state h1) (ci_is_static i) (ctx_address (ci_context i)) (host m)"
    "instruction_result m = FatalExternalError \<longrightarrow> failed (host m)" "instruction_result m \<noteq> Continue"
    "gas_wf (gas m)" "g_limit (gas m) = ci_gas_limit i" "ok (\<lambda>bs. length bs + 128 < 2 ^ 63) (return_value m)"
    using run_frame_ok [OF assms(6) c(2), of "ci_is_static i" h2 "ci_gas_limit i" L] assms(4) c(3) by (auto simp: ok_iff)
  obtain bs where bs: "return_value m = Val bs" "length bs + 128 < 2 ^ 63" using m(7) by (auto simp: ok_iff)
  obtain h4 where 4: "evm_revert cp (host m) = Val h4" "evm_inv DI spec env P (Suc n) js0 st s h4" "ed_error h4 = ed_error (host m)"
    using evm_leave(2) [OF assms(1-3) m(2) assms(5)] by (auto simp: ok_iff)
  note commit = evm_leave(1) [OF assms(1-3) m(2) assms(5)]
  show ?thesis using c m bs 4 commit by (auto simp: call_frame_def call_post_def failed_def)
qed

section \<open>Calls\<close>

lemma transfer_errors:
  assumes "transfer D a b v js db = Val (r, js', db')" "a \<in> dom (state js)" "b \<in> dom (state js)"
  shows "r \<noteq> Inl FatalExternalError \<and> r \<noteq> Inl Continue"
proof -
  have l: "load_account D a js db = Val (Inr False, js, db)" "load_account D b js db = Val (Inr False, js, db)"
    using assms(2,3) by (auto simp: load_account_def)
  show ?thesis using assms(1)
    by (auto simp: transfer_def l bind_comp_Val_iff Let_def split: option.splits)
qed

context database
begin

lemma evm_transfer_ok:
  assumes "evm_inv DI spec env P n js1 st s h" "st \<longrightarrow> v = 0 \<or> a = b"
    and "a \<in> dom (state (journaled_state h))" "b \<in> dom (state (journaled_state h))"
  shows "ok (\<lambda>(r, h'). evm_inv DI spec env P n js1 st s h' \<and> r \<noteq> Inl FatalExternalError \<and> r \<noteq> Inl Continue \<and>
      ed_error h' = ed_error h) (evm_transfer D a b v h)"
proof -
  obtain r js db where t: "transfer D a b v (journaled_state h) (ed_db h) = Val (r, js, db)"
    "shape.steps (journaled_state h) js" "DI db" "r \<noteq> Inl OverflowPayment \<Longrightarrow> exact.steps (journaled_state h) js"
    using transfer_steps [OF evm_invD(1,3) [OF assms(1)], of a b v] by (auto simp: ok_iff)
  have "frame_rel st (journaled_state h) js"
  proof (cases st)
    case True
    then show ?thesis using quiet_transfer [OF t(1)] assms(2) t(4) by (auto intro: frame_rel_quiet)
  qed (use t(2) frame_rel_shape in simp)
  moreover have "depth js = depth (journaled_state h)" using shape.steps_same [OF t(2)] by simp
  ultimately show ?thesis using t transfer_errors [OF t(1) assms(3,4)] evm_inv_step(1) [OF assms(1)]
    by (auto simp: evm_transfer_def)
qed

lemma touched_ok:
  assumes "evm_inv DI spec env P n js1 st s h"
  shows "ok (\<lambda>js. evm_inv DI spec env P n js1 st s (put_journal js h) \<and> dom (state (journaled_state h)) \<subseteq> dom (state js))
    (touch a (journaled_state h))"
proof (rule ok_result [OF touch_steps [OF evm_invD(1) [OF assms], of a]])
  fix js assume t: "touch a (journaled_state h) = Val js" "exact.steps (journaled_state h) js"
  note r = quiet_read [OF t(2) quiet_touch [OF t(1)]]
  show "evm_inv DI spec env P n js1 st s (put_journal js h) \<and> dom (state (journaled_state h)) \<subseteq> dom (state js)"
    using evm_inv_step(1) [OF assms conjunct1 [OF r] conjunct2 [OF r] evm_invD(3) [OF assms]] exact.steps_dom [OF t(2)]
    by (auto simp: put_journal_def)
qed

text \<open>Before the transfer, an account that is called without value is loaded and touched.\<close>

lemma load_and_touch_ok:
  assumes "evm_inv DI spec env P n js1 st s h"
  shows "ok (evm_inv DI spec env P n js1 st s)
    (if v = 0 then bind_comp (evm_load_account D h a) (\<lambda>(_, h).
       bind_comp (touch a (journaled_state h)) (\<lambda>js. Val (put_journal js h))) else Val h)"
proof -
  obtain r h' where "evm_load_account D h a = Val (r, h')" "evm_inv DI spec env P n js1 st s h'"
    using evm_load_account_ok [OF assms, of a] by (auto simp: ok_iff)
  moreover from this(2) obtain js where "touch a (journaled_state h') = Val js" "evm_inv DI spec env P n js1 st s (put_journal js h')"
    using touched_ok [of spec env P n js1 st s h' a] by (auto simp: ok_iff)
  ultimately show ?thesis using assms by simp
qed

lemma evm_inv_dom:
  "evm_inv DI spec env P n js1 st s h \<Longrightarrow> a \<in> dom (state js1) \<Longrightarrow> a \<in> dom (state (journaled_state h))"
  using grows_props(2) frame_rel_grows by (fastforce simp: evm_inv_def)

lemma call_inner_ok:
  assumes inv: "evm_inv DI spec env P (Suc n) js0 st s h"
    and host: "\<And>js. full_host H (evm_inv DI spec env P n js) failed spec"
    and i: "length (ci_input i) < 2 ^ 63" "tr_source (ci_transfer i) = s"
      "tr_target (ci_transfer i) \<in> {s, ci_contract i}" "ctx_address (ci_context i) \<in> {s, ci_contract i}"
      "st \<longrightarrow> ci_is_static i" "ci_is_static i \<longrightarrow> tr_value (ci_transfer i) = 0 \<or> tr_target (ci_transfer i) = s"
  shows "ok (call_post (evm_inv DI spec env P (Suc n) js0 st s) (ci_gas_limit i)) (call_inner L D H spec h i)"
proof -
  let ?t = "ci_transfer i"
  obtain r h1 where 1: "evm_code D h (ci_contract i) = Val (r, h1)" "evm_inv DI spec env P (Suc n) js0 st s h1"
    "r = None \<longrightarrow> failed h1" "\<And>c cold. r = Some (c, cold) \<Longrightarrow> Journal_Revert.code_ok c \<and> ci_contract i \<in> dom (state (journaled_state h1))"
    using evm_code_ok [OF inv, of "ci_contract i"] by (auto simp: ok_iff)
  show ?thesis
  proof (cases r)
    case None
    then show ?thesis using 1 by (simp add: call_inner_def call_post_def)
  next
    case (Some p)
    then obtain b cold where r: "r = Some (b, cold)" by (cases p) simp
    note c = 1(4) [OF r]
    show ?thesis
    proof (cases "depth (journaled_state h1) > CALL_STACK_LIMIT")
      case True
      then show ?thesis using 1 r by (simp add: call_inner_def call_post_def)
    next
      case False
      then have d: "depth (journaled_state h1) \<le> 1024" by (simp add: CALL_STACK_LIMIT_def)
      obtain cp h2 where 2: "evm_checkpoint h1 = (cp, h2)" by fastforce
      have s': "s \<in> dom (state (journaled_state h1))" using evm_invD(2) [OF 1(2)] .
      then have "ctx_address (ci_context i) \<in> dom (state (journaled_state h1))" using c i(4) by auto
      from evm_enter [OF 1(2) 2 d this]
      have in2: "evm_inv DI spec env P n (journaled_state h2) (ci_is_static i) (ctx_address (ci_context i)) h2" .
      have dom2: "state (journaled_state h2) = state (journaled_state h1)"
        using 2 by (auto simp: evm_checkpoint_def checkpoint_def put_journal_def)
      obtain h3 where 3: "(if tr_value ?t = 0 then bind_comp (evm_load_account D h2 (ctx_address (ci_context i))) (\<lambda>(_, h).
          bind_comp (touch (ctx_address (ci_context i)) (journaled_state h)) (\<lambda>js. Val (put_journal js h))) else Val h2) = Val h3"
        "evm_inv DI spec env P n (journaled_state h2) (ci_is_static i) (ctx_address (ci_context i)) h3"
        using load_and_touch_ok [OF in2, of "tr_value ?t" "ctx_address (ci_context i)"] unfolding ok_iff by blast
      have dom3: "s \<in> dom (state (journaled_state h3))" "tr_target ?t \<in> dom (state (journaled_state h3))"
        using evm_inv_dom [OF 3(2)] s' c i(3) dom2 by (metis insertE singletonD)+
      obtain q h4 where 4: "evm_transfer D (tr_source ?t) (tr_target ?t) (tr_value ?t) h3 = Val (q, h4)"
        "evm_inv DI spec env P n (journaled_state h2) (ci_is_static i) (ctx_address (ci_context i)) h4"
        "q \<noteq> Inl FatalExternalError" "q \<noteq> Inl Continue"
        using evm_transfer_ok [OF 3(2), of "tr_value ?t" s "tr_target ?t"] i(2,6) dom3 by (auto simp: ok_iff)
      have run: "call_inner L D H spec h i =
          (case q of
             Inl e \<Rightarrow> bind_comp (evm_revert cp h4) (\<lambda>h. Val (e, Gas_new (ci_gas_limit i), [], h))
           | Inr _ \<Rightarrow> (case Precompiles_get (ed_precompiles h4) (ci_contract i) of
                Some p \<Rightarrow> call_precompile p i cp h4 | None \<Rightarrow> call_frame L H spec b i cp h4))"
        unfolding call_inner_def Let_def 1(1) r bind_comp.simps prod.case option.case 2 3(1) 4(1)
        using False by (simp only: if_False)
      have t: "table_total (ed_precompiles h4)" using 4(2) by (simp add: evm_inv_def setup_ok_def)
      show ?thesis
      proof (cases q)
        case (Inl e)
        from evm_leave(2) [OF 1(2) 2 d 4(2) i(5)] show ?thesis
          unfolding run using Inl 4 by (auto simp: call_post_def elim!: ok_mono)
      next
        case (Inr u)
        show ?thesis
        proof (cases "Precompiles_get (ed_precompiles h4) (ci_contract i)")
          case None
          then show ?thesis unfolding run using Inr call_frame_ok [OF 1(2) 2 d 4(2) i(5) host conjunct1 [OF c] i(1)] by simp
        next
          case (Some p)
          then have "precompile_ok p" using t by (simp add: table_total_def)
          then show ?thesis unfolding run using Inr Some call_precompile_ok [OF 1(2) 2 d 4(2) i(5) _ i(1)] by simp
        qed
      qed
    qed
  qed
qed

end

section \<open>Creations\<close>

definition create_post ::
  "(('db, 'e) EVMData \<Rightarrow> bool) \<Rightarrow> u64 \<Rightarrow> InstructionResult \<times> B160 option \<times> Gas \<times> bytes \<times> ('db, 'e) EVMData \<Rightarrow> bool" where
  "create_post J limit = (\<lambda>(r, a, gas', data, h). call_post J limit (r, gas', data, h))"

lemma record_cost_keeps:
  assumes "gas_wf x" "record_cost x c = (b, gas')"
  shows "gas_wf gas' \<and> g_limit gas' = g_limit x"
proof (cases b)
  case True
  then show ?thesis using charged_record_cost [OF assms(1), of c] assms(2) by (simp add: charged_def)
next
  case False
  then show ?thesis using record_cost_fails [of x c] assms by simp
qed

lemma created_code_ok:
  assumes "length bs + 128 < 2 ^ 63"
  shows "code_ok (case k of AnalysisRaw \<Rightarrow> new_raw L bs | AnalysisCheck \<Rightarrow> to_checked (new_raw L bs)
      | AnalysisAnalyse \<Rightarrow> to_analysed (new_raw L bs))"
proof -
  have w: "bytecode_wf (new_raw L bs)" by (simp add: new_raw_def bytecode_wf_def Let_def)
  have "length (bytecode (to_checked (new_raw L bs))) = length bs + 33"
    "length (bytecode (to_analysed (new_raw L bs))) = length bs + 33" "length (bytecode (new_raw L bs)) = length bs"
    by (simp_all add: new_raw_def to_checked_def to_analysed_def Let_def)
  then show ?thesis using assms w by (cases k) (simp_all add: code_ok_def)
qed

lemma create_finish_ok:
  assumes "evm_inv DI spec env P (Suc n) js0 False s h" "evm_checkpoint h = (cp, h1)" "depth (journaled_state h) \<le> 1024"
    and m: "evm_inv DI spec env P n (journaled_state h1) False s' (host m)" "created \<in> dom (state (journaled_state (host m)))"
      "instruction_result m = FatalExternalError \<longrightarrow> failed (host m)" "instruction_result m \<noteq> Continue"
      "gas_wf (gas m)" "g_limit (gas m) = limit" "ok (\<lambda>bs. length bs + 128 < 2 ^ 63) (return_value m)"
  shows "ok (create_post (evm_inv DI spec env P (Suc n) js0 False s) limit) (create_finish L spec created cp m)"
proof -
  let ?J = "evm_inv DI spec env P (Suc n) js0 False s"
  obtain bs where bs: "return_value m = Val bs" "length bs + 128 < 2 ^ 63" using m(7) by (auto simp: ok_iff)
  have commit: "?J (evm_commit (host m))" using evm_leave(1) [OF assms(1-3) m(1)] by simp
  have fail: "ok (create_post ?J limit) (bind_comp (evm_revert cp (host m)) (\<lambda>h. Val (r, Some created, gas', bs, h)))"
    if "r = FatalExternalError \<longrightarrow> failed (host m)" "r \<noteq> Continue" "gas_wf gas'" "g_limit gas' = limit" for r gas'
    using evm_leave(2) [OF assms(1-3) m(1)] that bs(2)
    by (auto simp: create_post_def call_post_def failed_def elim!: ok_mono)
  have set: "ok (create_post ?J limit) (bind_comp (set_code created b (journaled_state (evm_commit (host m)))) (\<lambda>js.
      Val (Return, Some created, gas', data, put_journal js (evm_commit (host m)))))"
    if b: "code_ok b" and data: "gas_wf gas'" "g_limit gas' = limit" "length data < 2 ^ 63" for b gas' data
  proof -
    have "created \<in> dom (state (journaled_state (evm_commit (host m))))"
      using m(2) by (simp add: evm_commit_def put_journal_def checkpoint_commit_def)
    then obtain x where x: "state (journaled_state (evm_commit (host m))) created = Some x" by blast
    obtain js where "set_code created b (journaled_state (evm_commit (host m))) = Val js"
      and st: "shape.steps (journaled_state (evm_commit (host m))) js"
      using set_code_steps [OF evm_invD(1) [OF commit] x b] by (auto simp: ok_iff)
    moreover have "?J (put_journal js (evm_commit (host m)))"
      using evm_inv_step(1) [OF commit frame_rel_shape [OF st] _ evm_invD(3) [OF commit]] shape.steps_same [OF st]
      by (simp add: put_journal_def)
    ultimately show ?thesis using data by (simp add: create_post_def call_post_def)
  qed
  obtain b gas' where rc: "record_cost (gas m) (of_nat (length bs) * gas_CODEDEPOSIT) = (b, gas')" by fastforce
  note g' = record_cost_keeps [OF m(5) rc]
  let ?c = "case perf_analyse_created_bytecodes (cfg (ed_env (host m))) of AnalysisRaw \<Rightarrow> new_raw L (if b then bs else [])
      | AnalysisCheck \<Rightarrow> to_checked (new_raw L (if b then bs else []))
      | AnalysisAnalyse \<Rightarrow> to_analysed (new_raw L (if b then bs else []))"
  have "code_ok ?c" using bs(2) by (intro created_code_ok) simp
  from set [OF this, of gas' "if b then bs else []"] g' m(6) bs(2)
  have fin: "ok (create_post ?J limit) (bind_comp (set_code created ?c (journaled_state (evm_commit (host m)))) (\<lambda>js.
      Val (Return, Some created, gas', if b then bs else [], put_journal js (evm_commit (host m)))))" by simp
  note f = fail [of CreateContractStartingWithEF "gas m"] fail [of CreateContractSizeLimit "gas m"]
    fail [of OutOfGas gas'] fail [of "instruction_result m" "gas m"]
  show ?thesis
    unfolding create_finish_def bs(1) bind_comp.simps Let_def rc prod.case
    using f fin m(3-6) g' by (simp only: split: if_split) simp
qed

context database
begin

lemma inc_nonce_ok:
  assumes "evm_inv DI spec env P n js0 False s h" "a \<in> dom (state (journaled_state h))"
  shows "ok (\<lambda>(r, js). evm_inv DI spec env P n js0 False s (put_journal js h) \<and> depth js = depth (journaled_state h) \<and>
      dom (state (journaled_state h)) \<subseteq> dom (state js)) (inc_nonce a (journaled_state h))"
proof -
  obtain x where "state (journaled_state h) a = Some x" using assms(2) by blast
  from inc_nonce_keeps [OF evm_invD(1) [OF assms(1)] this] show ?thesis
  proof (rule ok_mono, clarify)
    fix r js assume "exact.steps (journaled_state h) js"
    from exact_change [OF this] exact.steps_dom [OF this]
    show "evm_inv DI spec env P n js0 False s (put_journal js h) \<and> depth js = depth (journaled_state h) \<and>
        dom (state (journaled_state h)) \<subseteq> dom (state js)"
      using evm_inv_step(1) [OF assms(1) _ _ evm_invD(3) [OF assms(1)], of js] by (auto simp: put_journal_def)
  qed
qed

lemma evm_rebase:
  assumes "evm_inv DI spec env P n js2 st s2 h" "frame_rel st js1 js2" "s1 \<in> dom (state js1)"
  shows "evm_inv DI spec env P n js1 st s1 h"
  using assms frame_rel_trans [OF assms(2)] by (auto simp: evm_inv_def)

lemma fatal_create:
  assumes "evm_inv DI spec env P (Suc n) js0 False s h" "evm_checkpoint h = (cp, h1)" "depth (journaled_state h) \<le> 1024"
    and "evm_inv DI spec env P n (journaled_state h1) False s' h2"
  shows "evm_inv DI spec env P (Suc n) js0 False s h2"
proof -
  have h2: "frame_rel False (journaled_state h1) (journaled_state h2)" using assms(4) by (simp add: evm_inv_def)
  obtain js1 where c1: "checkpoint (journaled_state h) = (cp, js1)" "h1 = put_journal js1 h"
    using assms(2) by (cases "checkpoint (journaled_state h)") (auto simp: evm_checkpoint_def)
  have "shape.steps (journaled_state h) (checkpoint_commit js1)"
    using shape.checkpoint_commit_steps [OF c1(1) evm_invD(1) [OF assms(1)] shape.steps_refl] checkpointD [OF c1(1)] by simp
  moreover have "checkpoint_commit js1 = js1\<lparr>depth := depth (journaled_state h)\<rparr>"
    using checkpointD [OF c1(1)] by (simp add: checkpoint_commit_def)
  moreover have "depth (journaled_state h) \<le> depth js1"
    using checkpointD [OF c1(1)] assms(3) unat_add_nowrap [of "depth (journaled_state h)" 1] by (simp add: word_le_nat_alt)
  ultimately have "grows (journaled_state h) (journaled_state h1)" by (simp add: grows_def c1(2) put_journal_def)
  then have "frame_rel False (journaled_state h) (journaled_state h2)"
    using frame_rel_trans [OF _ h2] by (simp add: frame_rel_def)
  then have "frame_rel False js0 (journaled_state h2)"
    using frame_rel_trans [of False js0 "journaled_state h" "journaled_state h2"] assms(1) by (simp add: evm_inv_def)
  then show ?thesis using assms(1,4) by (simp add: evm_inv_def)
qed

lemma evm_inv_self:
  "evm_inv DI spec env P n js0 st s h \<Longrightarrow> evm_inv DI spec env P n (journaled_state h) st' s h"
  using evm_invD(1,2) [of DI spec env P n js0 st s h] by (auto simp: evm_inv_def frame_rel_refl)

lemma quiet_depth: "evm_inv DI spec env P n (journaled_state h) True s h' \<Longrightarrow> depth (journaled_state h') = depth (journaled_state h)"
  using exact.steps_same by (auto simp: evm_inv_def frame_rel_def)

lemma evm_load_account_depth:
  assumes "evm_inv DI spec env P n js0 st s h" "evm_load_account D h a = Val (r, h')"
  shows "depth (journaled_state h') = depth (journaled_state h)"
  using evm_load_account_ok [OF evm_inv_self [OF assms(1), of True], of a] assms(2) by (auto intro: quiet_depth)

lemma evm_balance_depth:
  assumes "evm_inv DI spec env P n js0 st s h" "evm_balance D h a = Val (r, h')"
  shows "depth (journaled_state h') = depth (journaled_state h)"
  using evm_balance_ok [OF evm_inv_self [OF assms(1), of True], of a] assms(2) by (auto intro: quiet_depth)

end

lemma create_post_early:
  "create_post J l (r, a, Gas_new l, [], h) \<longleftrightarrow> J h \<and> (r = FatalExternalError \<longrightarrow> failed h) \<and> r \<noteq> Continue"
  by (simp add: create_post_def call_post_def)

lemma create_post_revert:
  assumes "ok (\<lambda>h'. J h' \<and> ed_error h' = ed_error h) (evm_revert cp h)" "r = FatalExternalError \<longrightarrow> failed h" "r \<noteq> Continue"
  shows "ok (create_post J l) (bind_comp (evm_revert cp h) (\<lambda>h. Val (r, a, Gas_new l, [], h)))"
  using assms by (auto simp: ok_iff create_post_def call_post_def failed_def)

context database
begin

lemma create_run_ok:
  assumes inv: "evm_inv DI spec env P (Suc n) js0 False s h" "evm_checkpoint h = (cp, h1)" "depth (journaled_state h) \<le> 1024"
    and h2: "evm_inv DI spec env P n (journaled_state h1) False s h2" "created \<in> dom (state (journaled_state h2))"
    and host: "\<And>js. full_host H (evm_inv DI spec env P n js) failed spec"
    and i: "length (cr_init_code i) + 128 < 2 ^ 63"
  shows "ok (create_post (evm_inv DI spec env P (Suc n) js0 False s) (cr_gas_limit i))
    (bind_comp (Contract_new [] (new_raw L (cr_init_code i)) created (cr_caller i) (cr_value i)) (\<lambda>c.
      bind_comp (run_frame L H spec c (cr_gas_limit i) False h2) (create_finish L spec created cp)))"
proof -
  have "bytecode_wf (new_raw L (cr_init_code i))" "bytecode (new_raw L (cr_init_code i)) = cr_init_code i"
    by (simp_all add: new_raw_def bytecode_wf_def Let_def)
  then obtain c where c: "Contract_new [] (new_raw L (cr_init_code i)) created (cr_caller i) (cr_value i) = Val c"
    "contract_wf c" "ct_address c = created"
    using new_contract_ok [of "new_raw L (cr_init_code i)" "[]" created "cr_caller i" "cr_value i"] i by (auto simp: ok_iff)
  have "evm_inv DI spec env P n (journaled_state h2) False created h2"
    using h2 evm_invD(1) [OF h2(1)] by (auto simp: evm_inv_def frame_rel_refl)
  with run_frame_ok [OF host c(2), of "journaled_state h2" False h2 "cr_gas_limit i" L] c(3)
  obtain m where m: "run_frame L H spec c (cr_gas_limit i) False h2 = Val m"
    "evm_inv DI spec env P n (journaled_state h2) False created (host m)"
    "instruction_result m = FatalExternalError \<longrightarrow> failed (host m)" "instruction_result m \<noteq> Continue"
    "gas_wf (gas m)" "g_limit (gas m) = cr_gas_limit i" "ok (\<lambda>bs. length bs + 128 < 2 ^ 63) (return_value m)"
    by (auto simp: ok_iff)
  have "evm_inv DI spec env P n (journaled_state h1) False s (host m)"
    by (rule evm_rebase [OF m(2)]) (use h2(1) in \<open>simp_all add: evm_inv_def\<close>)
  from create_finish_ok [OF inv this evm_invD(2) [OF m(2)] m(3-7)] show ?thesis using c(1) m(1) by simp
qed

lemma create_frame_ok:
  assumes inv: "evm_inv DI spec env P (Suc n) js0 False s h" and d: "depth (journaled_state h) \<le> 1024"
    and host: "\<And>js. full_host H (evm_inv DI spec env P n js) failed spec"
    and i: "cr_caller i = s" "length (cr_init_code i) + 128 < 2 ^ 63"
  shows "ok (create_post (evm_inv DI spec env P (Suc n) js0 False s) (cr_gas_limit i)) (create_frame L D H spec created i h)"
proof -
  let ?post = "create_post (evm_inv DI spec env P (Suc n) js0 False s) (cr_gas_limit i)"
  obtain r1 h1 where 1: "evm_load_account D h created = Val (r1, h1)" "evm_inv DI spec env P (Suc n) js0 False s h1"
    using evm_load_account_ok [OF inv, of created] by (auto simp: ok_iff)
  have d1: "depth (journaled_state h1) \<le> 1024" using evm_load_account_depth [OF inv 1(1)] d by simp
  obtain cp h2 where 2: "evm_checkpoint h1 = (cp, h2)" by fastforce
  note in2 = evm_enter [OF 1(2) 2 d1 evm_invD(2) [OF 1(2)], of False]
  obtain r3 js3 db3 where 3: "create_account D created (Precompiles_contains (ed_precompiles h2) created) (journaled_state h2) (ed_db h2) =
      Val (r3, js3, db3)" "shape.steps (journaled_state h2) js3" "DI db3" "r3 = Inr True \<longrightarrow> created \<in> dom (state js3)"
    using create_account_steps [OF evm_invD(1,3) [OF in2], of created "Precompiles_contains (ed_precompiles h2) created"]
    by (auto simp: ok_iff)
  let ?h3 = "h2\<lparr>journaled_state := js3, ed_db := db3\<rparr>"
  note s3 = evm_inv_step [OF in2 frame_rel_shape [OF 3(2)] _ 3(3)]
  have in3: "evm_inv DI spec env P n (journaled_state h2) False s ?h3"
    "evm_inv DI spec env P n (journaled_state h2) False s (?h3\<lparr>ed_error := Some e\<rparr>)" for e
    using s3 shape.steps_same [OF 3(2)] by simp_all
  note leave = evm_leave(2) [OF 1(2) 2 d1]
  show ?thesis
  proof (cases "r3 = Inr True")
    case False
    then consider e where "r3 = Inl e" | "r3 = Inr False" by (cases r3) auto
    then show ?thesis
    proof cases
      case 1
      have "?post (FatalExternalError, Some created, Gas_new (cr_gas_limit i), [], ?h3\<lparr>ed_error := Some e\<rparr>)" for e
        using fatal_create [OF \<open>evm_inv DI spec env P (Suc n) js0 False s h1\<close> 2 d1 in3(2)]
        by (simp add: create_post_early failed_def)
      then show ?thesis using \<open>evm_load_account D h created = Val (r1, h1)\<close> 2 3(1) 1 by (simp add: create_frame_def Let_def)
    next
      case 2
      from create_post_revert [OF leave [OF in3(1)], of CreateCollision] show ?thesis
        using 1(1) \<open>evm_checkpoint h1 = (cp, h2)\<close> 3(1) 2 by (simp add: create_frame_def Let_def)
    qed
  next
    case r3: True
    have dom3: "s \<in> dom (state (journaled_state ?h3))" "created \<in> dom (state (journaled_state ?h3))"
      using evm_invD(2) [OF in3(1)] 3(4) r3 by simp_all
    obtain q h4 where 4: "evm_transfer D s created (cr_value i) ?h3 = Val (q, h4)"
      "evm_inv DI spec env P n (journaled_state h2) False s h4" "q \<noteq> Inl FatalExternalError" "q \<noteq> Inl Continue"
      "evm_inv DI spec env P n (journaled_state ?h3) False s h4"
      using evm_transfer_ok [OF in3(1) _ dom3, of "cr_value i"] evm_transfer_ok [OF evm_inv_self [OF in3(1), of False] _ dom3, of "cr_value i"]
      by (auto simp: ok_iff)
    have dom4: "created \<in> dom (state (journaled_state h4))" using evm_inv_dom [OF 4(5) dom3(2)] .
    have run: "create_frame L D H spec created i h = (case q of
        Inl e \<Rightarrow> bind_comp (evm_revert cp h4) (\<lambda>h. Val (e, Some created, Gas_new (cr_gas_limit i), [], h))
      | Inr _ \<Rightarrow> bind_comp (if enabled spec SPURIOUS_DRAGON then inc_nonce created (journaled_state h4)
             else Val (Some 0, journaled_state h4)) (\<lambda>(r, js). case r of
          None \<Rightarrow> bind_comp (evm_revert cp (put_journal js h4)) (\<lambda>h. Val (Return, None, Gas_new (cr_gas_limit i), [], h))
        | Some _ \<Rightarrow> bind_comp (Contract_new [] (new_raw L (cr_init_code i)) created (cr_caller i) (cr_value i)) (\<lambda>c.
            bind_comp (run_frame L H spec c (cr_gas_limit i) False (put_journal js h4)) (create_finish L spec created cp))))"
      unfolding create_frame_def Let_def 1(1) bind_comp.simps prod.case 2 3(1) r3 sum.case not_True_eq_False if_False i(1) 4(1) ..
    show ?thesis
    proof (cases q)
      case (Inl e)
      then show ?thesis unfolding run using create_post_revert [OF leave [OF 4(2)], of e] 4(3,4) by simp
    next
      case (Inr u)
      obtain r5 js5 where 5: "(if enabled spec SPURIOUS_DRAGON then inc_nonce created (journaled_state h4)
          else Val (Some 0, journaled_state h4)) = Val (r5, js5)"
        "evm_inv DI spec env P n (journaled_state h2) False s (put_journal js5 h4)" "created \<in> dom (state js5)"
        using inc_nonce_ok [OF 4(2) dom4] dom4 4(2)
        by (cases "enabled spec SPURIOUS_DRAGON") (fastforce simp: ok_iff put_journal_def)+
      have "created \<in> dom (state (journaled_state (put_journal js5 h4)))" using 5(3) by (simp add: put_journal_def)
      from create_run_ok [OF 1(2) 2 d1 5(2) this host i(2), of L] create_post_revert [OF leave [OF 5(2)], of Return]
      show ?thesis unfolding run Inr sum.case 5(1) bind_comp.simps prod.case by (cases r5) simp_all
    qed
  qed
qed

lemma create_inner_ok:
  assumes inv: "evm_inv DI spec env P (Suc n) js0 False s h"
    and host: "\<And>js. full_host H (evm_inv DI spec env P n js) failed spec"
    and i: "cr_caller i = s" "length (cr_init_code i) + 128 < 2 ^ 63"
  shows "ok (create_post (evm_inv DI spec env P (Suc n) js0 False s) (cr_gas_limit i)) (create_inner L D H spec h i)"
proof -
  let ?J = "evm_inv DI spec env P (Suc n) js0 False s"
  obtain r1 h1 where 1: "evm_load_account D h s = Val (r1, h1)" "?J h1"
    using evm_load_account_ok [OF inv, of s] by (auto simp: ok_iff)
  show ?thesis
  proof (cases "depth (journaled_state h1) > CALL_STACK_LIMIT")
    case True
    then show ?thesis using 1 i(1) by (simp add: create_inner_def create_post_early)
  next
    case deep: False
    obtain r2 h2 where 2: "evm_balance D h1 s = Val (r2, h2)" "?J h2" "r2 = None \<longrightarrow> failed h2"
      using evm_balance_ok [OF 1(2), of s] by (auto simp: ok_iff)
    have d2: "depth (journaled_state h2) \<le> 1024" using evm_balance_depth [OF 1(2) 2(1)] deep by (simp add: CALL_STACK_LIMIT_def)
    show ?thesis
    proof (cases "r2 = None \<or> (\<exists>b c. r2 = Some (b, c) \<and> b < cr_value i)")
      case True
      then show ?thesis using 1 2 deep i(1) by (auto simp: create_inner_def create_post_early)
    next
      case funds: False
      then obtain bal cold where r2: "r2 = Some (bal, cold)" "\<not> bal < cr_value i" by (cases r2) auto
      obtain r3 js3 where 3: "inc_nonce s (journaled_state h2) = Val (r3, js3)" "?J (put_journal js3 h2)"
        "depth js3 = depth (journaled_state h2)"
        using inc_nonce_ok [OF 2(2) evm_invD(2) [OF 2(2)]] by (auto simp: ok_iff)
      have d3: "depth (journaled_state (put_journal js3 h2)) \<le> 1024" using 3(3) d2 by (simp add: put_journal_def)
      show ?thesis
      proof (cases r3)
        case None
        then show ?thesis using 1(1) 2(1) 3 deep r2 i(1) by (simp add: create_inner_def Let_def create_post_early)
      next
        case (Some nn)
        then show ?thesis using 1(1) 2(1) 3(1) deep r2 i(1) create_frame_ok [OF 3(2) d3 host i, of L]
          by (simp add: create_inner_def Let_def)
      qed
    qed
  qed
qed

end

section \<open>Tying the knot\<close>

lemma evm_host_sel [simp]:
  "h_env (evm_host L D spec n) = ed_env"
  "h_load_account (evm_host L D spec n) = evm_load_account D"
  "h_block_hash (evm_host L D spec n) = evm_block_hash D"
  "h_balance (evm_host L D spec n) = evm_balance D"
  "h_code (evm_host L D spec n) = evm_code D"
  "h_code_hash (evm_host L D spec n) = evm_code_hash D"
  "h_sload (evm_host L D spec n) = evm_sload D"
  "h_sstore (evm_host L D spec n) = evm_sstore D"
  "h_log (evm_host L D spec n) = evm_log"
  "h_selfdestruct (evm_host L D spec n) = evm_selfdestruct D"
  "h_create (evm_host L D spec (Suc k)) = create_inner L D (evm_host L D spec k) spec"
  "h_call (evm_host L D spec (Suc k)) = call_inner L D (evm_host L D spec k) spec"
  by (simp_all add: evm_host.simps [of L D spec n] evm_host.simps [of L D spec "Suc k"])

context database
begin

lemma evm_basic_host: "basic_host (evm_host L D spec n) (evm_inv DI spec env P k js0) failed spec"
proof (unfold_locales, unfold evm_host_sel)
  fix st s h a assume i: "evm_inv DI spec env P k js0 st s (h :: ('db, 'e) EVMData)"
  show "enabled spec MERGE \<Longrightarrow> prevrandao (block (ed_env h)) \<noteq> None" using i by (simp add: evm_inv_def setup_ok_def)
  show "ok (\<lambda>(r, h'). evm_inv DI spec env P k js0 st s h' \<and> (r = None \<longrightarrow> failed h') \<and>
      (\<forall>c cold. r = Some (c, cold) \<longrightarrow> bytecode_wf c \<and> length (bytecode c) < 2 ^ 63)) (evm_code D h a)"
    by (rule ok_mono [OF evm_code_ok [OF i, of a]]) (auto simp: Journal_Revert.code_ok_def)
  show "ok (\<lambda>(r, h'). evm_inv DI spec env P k js0 st s h' \<and> (r = None \<longrightarrow> failed h')) (evm_load_account D h a)"
    by (rule ok_mono [OF evm_load_account_ok [OF i, of a]]) auto
qed (fact evm_block_hash_ok evm_balance_ok evm_code_hash_ok evm_sload_ok evm_sstore_ok evm_log_ok)+

lemma evm_full_host: "full_host (evm_host L D spec n) (evm_inv DI spec env P n js0) failed spec"
proof (induction n arbitrary: js0)
  case 0
  have no: "\<not> evm_inv DI spec env P 0 js0 st s h" for js0 st s and h :: "('db, 'e) EVMData"
    by (auto simp: evm_inv_def)
  show ?case by (intro full_host.intro evm_basic_host full_host_axioms.intro) (simp_all add: no)
next
  case (Suc n)
  show ?case
  proof (intro full_host.intro evm_basic_host full_host_axioms.intro, unfold evm_host_sel)
    fix st s and h :: "('db, 'e) EVMData" and i c b
    assume J: "evm_inv DI spec env P (Suc n) js0 st s h"
    show "ok (\<lambda>(r, gas', d, h'). evm_inv DI spec env P (Suc n) js0 st s h' \<and> (r = FatalExternalError \<longrightarrow> failed h') \<and> gas_wf gas' \<and>
          g_limit gas' = ci_gas_limit i \<and> length d < 2 ^ 63) (call_inner L D (evm_host L D spec n) spec h i)"
      if "length (ci_input i) < 2 ^ 63" "tr_source (ci_transfer i) = s"
        "tr_target (ci_transfer i) \<in> {s, ci_contract i}" "ctx_address (ci_context i) \<in> {s, ci_contract i}"
        "st \<longrightarrow> ci_is_static i" "ci_is_static i \<longrightarrow> tr_value (ci_transfer i) = 0 \<or> tr_target (ci_transfer i) = s"
      by (rule ok_mono [OF call_inner_ok [OF J Suc.IH that, where L = L]]) (auto simp: call_post_def)
  next
    fix s and h :: "('db, 'e) EVMData" and c b
    assume J: "evm_inv DI spec env P (Suc n) js0 False s h"
    show "ok (\<lambda>(r, h'). evm_inv DI spec env P (Suc n) js0 False s h' \<and> (r = None \<longrightarrow> failed h')) (evm_selfdestruct D h s b)"
      by (rule evm_selfdestruct_ok [OF J])
    show "ok (\<lambda>(r, a, gas', d, h'). evm_inv DI spec env P (Suc n) js0 False s h' \<and> (r = FatalExternalError \<longrightarrow> failed h') \<and> gas_wf gas' \<and>
          g_limit gas' = cr_gas_limit c \<and> length d < 2 ^ 63) (create_inner L D (evm_host L D spec n) spec h c)"
      if "cr_caller c = s" "length (cr_init_code c) + 128 < 2 ^ 63"
      by (rule ok_mono [OF create_inner_ok [OF J Suc.IH that, where L = L]]) (auto simp: create_post_def call_post_def)
  qed
qed

end

end
