(* ===== verification/State_Properties.thy ===== *)
theory State_Properties
  imports Cache_DB
begin

text \<open>
  The properties of the journaled state and of the in-memory database, stated over the in-memory
  database where they need one: reverting, transfers, storage, the precompile test, the transparency
  of the cache, and the commit. The last section proves what the code leaves behind.
\<close>

section \<open>Properties of the journaled state and of the cache\<close>

definition no_libs :: Libs where
  "no_libs = \<lparr> lib_keccak256 = \<lambda>_. 0, lib_rlp_pair = \<lambda>_ _. [] \<rparr>"

lemma restores_stripped:
  "exact.restores s t \<Longrightarrow> a \<noteq> 3 \<Longrightarrow> map_option strip (t a) = map_option strip (s a)"
  using exact.restores_Some [of s t a] by (cases "s a") (auto simp: exact.restores_def acc_eq_def)

lemma restores_touched:
  "exact.restores s t \<Longrightarrow> s 3 = Some x \<Longrightarrow>
     \<exists>y. t 3 = Some y \<and> strip (y\<lparr>is_touched := False\<rparr>) = strip (x\<lparr>is_touched := False\<rparr>)"
  using exact.restores_Some [of s t 3] by (auto simp: acc_eq_def)

abbreviation (input) empty_ref :: "(unit, unit) ref_ops" where
  "empty_ref \<equiv> EmptyDB no_libs"

abbreviation (input) inmem_ops :: "(InMemoryDB, unit) db_ops" where
  "inmem_ops \<equiv> CacheDB_ops (EmptyDB no_libs)"



definition balances :: "JournaledState \<Rightarrow> B160 \<rightharpoonup> nat" where
  "balances js a = map_option (\<lambda>acc. unat (balance (info acc))) (state js a)"

lemma balances_journal [simp]: "balances (js\<lparr>journal := j\<rparr>) = balances js" "journal (put_acc a acc js) = journal js"
  by (simp_all add: balances_def fun_eq_iff put_acc_def)

lemma touch_account_balances:
  assumes "journal js \<noteq> []" "state js a = Some acc"
  shows "\<exists>js'. touch_account a js = Val js' \<and> journal js' \<noteq> [] \<and> balances js' = balances js \<and>
    state js' = (state js)(a \<mapsto> acc\<lparr>is_touched := True\<rparr>)"
  using touch_account_steps [OF assms] assms(2)
  by (auto simp: ok_iff fun_eq_iff balances_def dest: exact.steps_journal)

text \<open>
  C8. A transfer between two loaded accounts moves exactly the amount: it fails with \<open>OutOfFund\<close>,
  without a change of any balance, when the sender has less; it fails with \<open>OverflowPayment\<close> when
  the receiver's balance would leave 256 bits; otherwise it succeeds, the sender has the amount less,
  the receiver the amount more, and nobody else's balance changes.
\<close>
theorem transfer_exact:
  assumes "journal js \<noteq> []" "state js a = Some x" "state js b = Some y"
  shows "ok (\<lambda>(r, js', db'). db' = db \<and>
      (if balance (info x) < v then r = Inl OutOfFund \<and> balances js' = balances js
       else if a \<noteq> b \<and> 2 ^ 256 \<le> unat (balance (info y)) + unat v then r = Inl OverflowPayment
       else r = Inr (False, False) \<and>
         balances js' = (if a = b then balances js
           else (balances js)(a \<mapsto> unat (balance (info x)) - unat v, b \<mapsto> unat (balance (info y)) + unat v))))
    (transfer D a b v js db)"
proof -
  obtain js1 where 1: "touch_account a js = Val js1" "journal js1 \<noteq> []" "balances js1 = balances js"
    "state js1 = (state js)(a \<mapsto> x\<lparr>is_touched := True\<rparr>)"
    using touch_account_balances [OF assms(1,2)] by blast
  let ?x = "set_balance (balance (info x) - v) (x\<lparr>is_touched := True\<rparr>)"
  let ?js = "put_acc a ?x js1"
  obtain y' where y': "state ?js b = Some y'"
    "balance (info y') = (if a = b then balance (info x) - v else balance (info y))"
    using assms(3) by (cases "a = b") (auto simp: put_acc_def 1 set_balance_def)
  obtain js2 where 2: "touch_account b ?js = Val js2" "journal js2 \<noteq> []" "balances js2 = balances ?js"
    "state js2 = (state ?js)(b \<mapsto> y'\<lparr>is_touched := True\<rparr>)"
    using touch_account_balances [of ?js b y'] 1(2) y'(1) by (auto simp: put_acc_def)
  have l: "load_account D a js db = Val (Inr False, js, db)" "load_account D b js db = Val (Inr False, js, db)"
    using assms by (simp_all add: load_account_def)
  have u: "unat (balance (info x) - v) + unat v = unat (balance (info x))" if "v \<le> balance (info x)"
    using that by (simp add: unat_sub word_le_nat_alt)
  have b': "balances ?js = (balances js)(a \<mapsto> unat (balance (info x) - v))"
    by (auto simp: balances_def fun_eq_iff put_acc_def 1(4) set_balance_def)
  have g: "get_acc a js1 = Val (x\<lparr>is_touched := True\<rparr>)" "get_acc b js2 = Val (y'\<lparr>is_touched := True\<rparr>)"
    by (simp_all add: get_acc_def 1(4) 2(4))
  show ?thesis
  proof (cases "balance (info x) < v")
    case True
    then have "\<not> v \<le> balance (info x)" by simp
    then show ?thesis using True l 1 g by (simp add: transfer_def checked_sub_def del: not_le)
  next
    case False
    then have v: "v \<le> balance (info x)" by simp
    have "checked_add (balance (info y')) v =
        (if a \<noteq> b \<and> 2 ^ 256 \<le> unat (balance (info y)) + unat v then None else Some (balance (info y') + v))"
      using y'(2) u [OF v] unsigned_less [of "balance (info x)"] by (auto simp: checked_add_def)
    moreover have "unat (balance (info y') + v) = (if a = b then unat (balance (info x)) else unat (balance (info y)) + unat v)"
      if "\<not> (a \<noteq> b \<and> 2 ^ 256 \<le> unat (balance (info y)) + unat v)"
      using that y'(2) by (auto simp: unat_add_nowrap)
    moreover have "balances (put_acc b (set_balance w (y'\<lparr>is_touched := True\<rparr>)) js2) =
        (balances js)(a \<mapsto> unat (balance (info x)) - unat v, b \<mapsto> unat w)" for w
      using b' 2(3,4) v by (auto simp: fun_eq_iff balances_def put_acc_def set_balance_def unat_sub_nowrap)
    moreover have "(balances js)(a \<mapsto> w, a \<mapsto> unat (balance (info x))) = balances js" for w
      by (simp add: fun_upd_idem balances_def assms(2))
    ultimately show ?thesis using False v l 1(1) 2(1,2) g
      by (auto simp: transfer_def checked_sub_def)
  qed
qed

theorem transfer_exact_witness:
  "ok (\<lambda>(r, js', db'). r = Inr (False, False) \<and> balances js' 1 = Some 30 \<and> balances js' 2 = Some 70)
    (transfer (inmem_ops) 1 2 70
      ((JournaledState_new 9)\<lparr>state := [1 \<mapsto> Account_from (from_balance 100), 2 \<mapsto> new_not_existing]\<rparr>) InMemoryDB_default)"
  using transfer_exact [of "(JournaledState_new 9)\<lparr>state := [1 \<mapsto> Account_from (from_balance 100), 2 \<mapsto> new_not_existing]\<rparr>"
      1 "Account_from (from_balance 100)" 2 new_not_existing InMemoryDB_default 70 "inmem_ops"]
  by (auto simp: JournaledState_new_def Account_from_def from_balance_def AccountInfo_default_def
      new_not_existing_def elim!: ok_mono)



lemma high_bytes_zero:
  "list_all (\<lambda>b. b = 0) (take 18 (to_be_bytes 20 (a :: B160))) \<longleftrightarrow> unat a < 2 ^ 16"
proof -
  have "list_all (\<lambda>b. b = 0) (take 18 (to_be_bytes 20 a)) \<longleftrightarrow> (\<forall>k < 18. \<forall>j < 8. \<not> bit a (8 * (19 - k) + j))"
    by (auto simp: list_all_length bit_eq_iff bit_to_be_bytes)
  also have "\<dots> \<longleftrightarrow> (\<forall>i \<ge> 16. \<not> bit a i)"
  proof (intro iffI allI impI)
    fix i :: nat
    assume *: "\<forall>k < 18. \<forall>j < 8. \<not> bit a (8 * (19 - k) + j)" and i: "16 \<le> i"
    show "\<not> bit a i"
    proof (cases "i < 160")
      case True
      then have "19 - i div 8 < 18" "8 * (19 - (19 - i div 8)) + i mod 8 = i" using i by auto
      with * show ?thesis by (metis mod_less_divisor zero_less_numeral)
    qed (auto dest: bit_imp_le_length)
  qed auto
  also have "\<dots> \<longleftrightarrow> unat a < 2 ^ 16"
  proof -
    have "unat a < 2 ^ 16 \<longleftrightarrow> drop_bit 16 (unat a) = 0" by (simp add: drop_bit_eq_div div_eq_0_iff)
    also have "\<dots> \<longleftrightarrow> (\<forall>j. \<not> bit (unat a) (16 + j))" by (simp add: bit_eq_iff bit_drop_bit_eq)
    also have "\<dots> \<longleftrightarrow> (\<forall>i \<ge> 16. \<not> bit a i)"
      by (auto simp: bit_unsigned_iff dest: bit_imp_le_length) (metis le_Suc_ex)
    finally show ?thesis by simp
  qed
  finally show ?thesis .
qed

text \<open>
  The warm precompile addresses are exactly 1 to \<open>num_of_precompiles\<close>: the comparison of the last
  two bytes after a wrapping decrement accepts an address iff its number is in that range.
\<close>
lemma is_precompile_iff:
  assumes "unat n < 2 ^ 16"
  shows "is_precompile a n \<longleftrightarrow> 1 \<le> unat a \<and> unat a \<le> unat n"
proof (cases "unat a < 2 ^ 16")
  case False
  then show ?thesis using assms high_bytes_zero [of a] by (simp add: is_precompile_def Let_def)
next
  case True
  have "from_be_bytes [to_be_bytes 20 a ! 18, to_be_bytes 20 a ! 19] = (ucast a :: u16)"
  proof (rule bit_word_eqI)
    fix i assume "i < LENGTH(16)"
    then have "i div 8 = 0 \<and> i mod 8 = i \<or> i div 8 = 1 \<and> 8 + i mod 8 = i" "i < 16"
      by (simp, presburger, simp)
    then show "bit (from_be_bytes [to_be_bytes 20 a ! 18, to_be_bytes 20 a ! 19] :: u16) i = bit (ucast a :: u16) i"
      by (auto simp: bit_from_be_bytes bit_to_be_bytes bit_unsigned_iff)
  qed
  moreover have "(ucast a :: u16) - 1 < ucast n \<longleftrightarrow> 1 \<le> unat a \<and> unat a \<le> unat n"
  proof -
    have u: "unat (ucast a :: u16) = unat a" "unat (ucast n :: u16) = unat n"
      using True assms by (simp_all add: unsigned_ucast_eq take_bit_nat_eq_self)
    show ?thesis
    proof (cases "unat a = 0")
      case True
      then have "(ucast a :: u16) = 0" using u(1) by (simp add: unsigned_eq_0_iff)
      then show ?thesis using True by (simp add: word_less_nat_alt u(2)) (use assms in simp)
    next
      case False
      then have "unat ((ucast a :: u16) - 1) = unat a - 1"
        by (simp add: unat_sub u word_le_nat_alt)
      then show ?thesis using False u by (auto simp: word_less_nat_alt)
    qed
  qed
  ultimately show ?thesis using True high_bytes_zero [of a] by (simp add: is_precompile_def Let_def)
qed

text \<open>
  C22. The cache is transparent: over an external database that answers account queries and has no
  storage for accounts it lacks, each of the four mutating reads returns what the read-only read
  returns, and leaves every read-only read as it was.
\<close>
theorem cache_reads_transparent:
  assumes "ref_sound X (cdb_db c)"
  shows "fst (cdb_basic X c a) = ref_basic (CacheDB_ref X) c a \<and> same_reads X c (snd (cdb_basic X c a)) \<and>
    fst (cdb_storage X c a k) = ref_storage (CacheDB_ref X) c a k \<and> same_reads X c (snd (cdb_storage X c a k)) \<and>
    fst (cdb_code_by_hash X c h) = ref_code_by_hash (CacheDB_ref X) c h \<and> same_reads X c (snd (cdb_code_by_hash X c h)) \<and>
    fst (cdb_block_hash X c n) = ref_block_hash (CacheDB_ref X) c n \<and> same_reads X c (snd (cdb_block_hash X c n))"
  using cdb_basic_transparent [OF assms] cdb_storage_transparent [OF assms] cdb_code_transparent [of X c h]
    cdb_block_hash_transparent [of X c n] by blast

theorem cache_reads_transparent_witness:
  "ref_sound empty_ref () \<and>
   fst (cdb_storage empty_ref InMemoryDB_default 1 2) = Inr 0"
proof -
  have "ref_sound empty_ref ()" by (simp add: ref_sound_def EmptyDB_def)
  then show ?thesis
    using cache_reads_transparent [of empty_ref InMemoryDB_default 1 2]
    by (simp add: InMemoryDB_default_def CacheDB_new_def CacheDB_ref_def EmptyDB_def)
qed



section \<open>What a revert or a commit does not do\<close>

text \<open>
  \<open>set_code\<close> journals the new code where the code before is documented, so its revert keeps the new
  code. \<open>create_account\<close> journals neither the cleared storage nor the reset code hash. After a
  self-destruction has been committed, a later commit of the same account, not marked as created,
  exposes the storage that the external database still has.
\<close>

lemma set_code_survives_revert:
  assumes "journal js \<noteq> []" "state js a = Some acc" "is_touched acc" "checkpoint js = (cp, js1)"
  shows "ok (\<lambda>js3. map_option (code_hash \<circ> info) (state js3 a) = Some (bc_hash bc))
    (bind_comp (set_code a bc js1) (checkpoint_revert cp))"
  using assms
  by (auto simp: checkpoint_def set_code_def touch_account_def journal_defs checkpoint_revert_def
      journal_revert_def appended_def Let_def)

lemma create_account_survives_revert:
  assumes "journal js \<noteq> []" "state js a = Some acc" "is_touched acc" "checkpoint js = (cp, js1)"
    "code (info acc) = Some Bytecode_new" "nonce (info acc) = 0" "storage acc k = Some slot"
  shows "ok (\<lambda>js3. map_option (\<lambda>x. (storage_cleared x, storage x k)) (state js3 a) =
        Some (True, Some \<lparr>original_value = 0, present_value = 0\<rparr>))
    (bind_comp (create_account D a False js1 db) (\<lambda>(_, js2, _). checkpoint_revert cp js2))"
  using assms
  by (auto simp: checkpoint_def create_account_def load_code_def load_account_def touch_account_def
      journal_defs checkpoint_revert_def journal_revert_def Bytecode_is_empty_def Bytecode_new_def Let_def)

lemma destroyed_storage_reappears:
  assumes "ref_storage X x a k = Inr 7" "storage acc k = None" "\<not> is_destroyed acc" "\<not> storage_cleared acc"
  shows "ref_storage (CacheDB_ref X)
      (commit [(a, acc)] (commit [(a, acc\<lparr>is_destroyed := True\<rparr>)] (CacheDB_new x))) a k = Inr 7"
proof -
  let ?c = "commit_one (a, acc\<lparr>is_destroyed := True\<rparr>) (CacheDB_new x)"
  have "cdb_accounts ?c a = Some DbAccount_new_not_existing" "cdb_db ?c = x"
    using commit_one_committed [of a "acc\<lparr>is_destroyed := True\<rparr>" "CacheDB_new x"]
    by (auto simp: committed_def CacheDB_new_def)
  moreover obtain c' where "commit_one (a, acc) ?c = c'\<lparr>cdb_accounts := (cdb_accounts c')(a \<mapsto> committed (cdb_accounts ?c a) acc)\<rparr>"
    "cdb_db c' = cdb_db ?c" using commit_one_committed by blast
  ultimately show ?thesis using assms by (simp add: stored_committed or_default_def)
qed

lemma overflow_keeps_debit:
  "ok (\<lambda>(no_overflow, js', _). \<not> no_overflow \<and> balances js' 1 = Some 0)
    (exec inmem_ops (Nested [Transfer_op 1 2 5] False)
      ((JournaledState_new 9)\<lparr>state := [1 \<mapsto> Account_from (from_balance 5), 2 \<mapsto> Account_from (from_balance (- 1))]\<rparr>)
      InMemoryDB_default)"
  by (simp add: JournaledState_new_def checkpoint_def transfer_def load_account_def touch_account_def
      journal_defs Account_from_def from_balance_def AccountInfo_default_def checked_sub_def checked_add_def
      checkpoint_revert_def journal_revert_def push_entry_def balances_def Let_def)

end
