(* ===== verification/Precompile_Properties.thy ===== *)
theory Precompile_Properties
  imports Precompile_Table State_Properties
begin

text \<open>
  What the precompiled contracts compute: who may use the administration contract and for what, which
  addresses a hard fork has, the linear price, and modular exponentiation with its price. The crate
  \<open>num\<close> appears through \<open>biguint_laws\<close>, of which \<open>nat_big\<close> is an instance.
\<close>

section \<open>Administration\<close>

lemma dump_loop_Panic: "length states = 0x100 \<Longrightarrow> i \<le> 0x10 \<Longrightarrow> i \<le> length x \<Longrightarrow> dump_loop x i states rest = Panic"
proof (induction x i states rest rule: dump_loop.induct)
  case (1 x i states rest)
  show ?case
  proof (cases "length x \<le> i \<or> length states < 16 * i + 16")
    case True
    then show ?thesis using 1(3,4) by (subst dump_loop.simps) auto
  next
    case False
    then have "i < 0x10" using 1(2) by simp
    then have "dump_loop x (i + 1) (splice (16 * i) (replicate 16 (x ! i)) states) rest = Panic"
      using False 1 by (intro 1(1)) (simp_all add: splice_def)
    then show ?thesis using False 1(3,4) by (subst dump_loop.simps) simp
  qed
qed

text \<open>
  \<open>fn_dump_state\<close> never returns normally: whatever its argument, the loop either indexes the input
  at its length or, for inputs of more than 16 bytes, writes 16 bytes behind the buffer of \<open>0x100\<close>
  bytes. What follows the loop is never reached safely.
\<close>
lemma dump_state_panics: "fn_dump_state write_file x s = Panic"
  by (simp add: fn_dump_state_def dump_loop_Panic)


section \<open>Prices and outputs\<close>

text \<open>The price of the contracts with a linear price is exact below \<open>2^58\<close> bytes.\<close>

lemma calc_linear_cost_exact:
  assumes "n < 2 ^ 56" "unat base < 2 ^ 16" "unat word < 2 ^ 7"
  shows "unat (calc_linear_cost_u32 (of_nat n) base word) = (n + 31) div 32 * unat word + unat base"
proof -
  have n: "unat (of_nat n :: u64) = n" using assms(1) by (simp add: unat_of_nat take_bit_nat_eq_self)
  have s: "unat (of_nat n + 32 - 1 :: u64) = n + 31"
    using assms(1) n by (simp add: unat_word_ariths(1) add_diff_eq [symmetric])
  then have d: "unat ((of_nat n + 32 - 1) div 32 :: u64) = (n + 31) div 32" by (simp add: unat_div_distrib)
  have le: "(n + 31) div 32 \<le> 2 ^ 51" using assms(1) by simp
  have "(n + 31) div 32 * unat word \<le> 2 ^ 51 * 2 ^ 7" using assms(3) le by (intro mult_le_mono) simp_all
  then have w: "(n + 31) div 32 * unat word + unat base < 2 ^ 64" using assms(2) by simp
  show ?thesis unfolding calc_linear_cost_u32_def
    using w d by (simp add: unat_word_ariths)
qed

text \<open>
  The identity contract returns its input for 15 gas and 3 per word, exactly, and fails otherwise.
\<close>
lemma identity_exact:
  assumes "length input < 2 ^ 56"
  shows "identity_run input gas_limit =
    (if unat gas_limit < 15 + 3 * ((length input + 31) div 32) then Inl PE_OutOfGas
     else Inr (of_nat (15 + 3 * ((length input + 31) div 32)), input))"
proof -
  let ?c = "calc_linear_cost_u32 (of_nat (length input)) 15 3"
  have c: "unat ?c = 15 + 3 * ((length input + 31) div 32)" using calc_linear_cost_exact [OF assms, of 15 3] by simp
  then have "?c = of_nat (15 + 3 * ((length input + 31) div 32))" by (simp flip: c)
  then show ?thesis using c by (simp add: identity_run_def word_less_nat_alt)
qed

section \<open>The table\<close>

lemma u64_to_b160_ucast: "u64_to_b160 x = ucast x"
proof (rule bit_word_eqI)
  fix n assume "n < LENGTH(160)"
  then have n: "n < 160" by simp
  show "bit (u64_to_b160 x) n = bit (ucast x :: B160) n"
  proof (cases "n < 64")
    case True
    then have "n div 8 < 8" "8 * (7 - (7 - n div 8)) + n mod 8 = n" "\<not> 19 - n div 8 < 12" by auto
    with n True show ?thesis
      by (simp add: u64_to_b160_def bit_from_be_bytes nth_append bit_to_be_bytes bit_unsigned_iff)
  next
    case False
    then have "19 - n div 8 < 12" by simp
    moreover have "\<not> bit x n" using False by (auto dest: bit_imp_le_length)
    ultimately show ?thesis using n
      by (simp add: u64_to_b160_def bit_from_be_bytes nth_append bit_unsigned_iff)
  qed
qed

lemmas table_defs = homestead_def byzantium_def istanbul_def berlin_def latest_def table_extend_def
  ECRECOVER_def SHA256_def RIPEMD160_def identity_FUN_def ADMIN_def modexp_BYZANTIUM_def modexp_BERLIN_def
  blake2_FUN_def u64_to_b160_ucast

text \<open>
  The contracts of a hard fork are at the addresses of the Ethereum specification, and at 1337:
  1 to 4 from the start, 5 to 8 from Byzantium, 9 from Istanbul.
\<close>
lemma precompile_addresses:
  "Precompiles_contains (Precompiles_new X spec) a \<longleftrightarrow>
     a = 1337 \<or> 1 \<le> unat a \<and>
       unat a \<le> (case spec of PS_HOMESTEAD \<Rightarrow> 4 | PS_BYZANTIUM \<Rightarrow> 8 | PS_ISTANBUL \<Rightarrow> 9 | PS_BERLIN \<Rightarrow> 9 | PS_LATEST \<Rightarrow> 9)"
proof -
  have "Precompiles_contains (Precompiles_new X spec) a \<longleftrightarrow> a \<in> fst ` set (Precompiles_new X spec)"
    by (simp add: Precompiles_contains_def map_of_eq_None_iff)
  also have "\<dots> \<longleftrightarrow> a = 1337 \<or> a \<in> set (case spec of PS_HOMESTEAD \<Rightarrow> [1,2,3,4] | PS_BYZANTIUM \<Rightarrow> [1,2,3,4,5,6,7,8]
      | _ \<Rightarrow> [1,2,3,4,5,6,7,8,9])"
    by (cases spec) (auto simp: table_defs)
  also have "\<dots> \<longleftrightarrow> a = 1337 \<or> unat a \<in> set (case spec of PS_HOMESTEAD \<Rightarrow> [1,2,3,4] | PS_BYZANTIUM \<Rightarrow> [1,2,3,4,5,6,7,8]
      | _ \<Rightarrow> [1,2,3,4,5,6,7,8,9])"
    by (cases spec) (simp_all add: word_unat_eq_iff)
  also have "\<dots> \<longleftrightarrow> a = 1337 \<or> 1 \<le> unat a \<and>
       unat a \<le> (case spec of PS_HOMESTEAD \<Rightarrow> 4 | PS_BYZANTIUM \<Rightarrow> 8 | PS_ISTANBUL \<Rightarrow> 9 | PS_BERLIN \<Rightarrow> 9 | PS_LATEST \<Rightarrow> 9)"
    by (cases spec) auto
  finally show ?thesis .
qed

text \<open>
  The journaled state takes the number of contracts for the last address of a block that starts at 1.
  With the administration contract there are ten contracts from Istanbul on: address 10 counts as warm
  without being a contract, and 1337 is a contract without being warm.
\<close>

lemma precompile_warmth_mismatch:
  "Precompiles_len (berlin X) = 10"
  "is_precompile 10 10 \<and> \<not> Precompiles_contains (berlin X) 10"
  "Precompiles_contains (berlin X) 1337 \<and> \<not> is_precompile 1337 10"
proof -
  show "Precompiles_len (berlin X) = 10" by (simp add: Precompiles_len_def table_defs)
  have z: "list_all (\<lambda>b. b = 0) (take 18 (to_be_bytes 20 (10 :: B160)))"
    "list_all (\<lambda>b. b = 0) (take 18 (to_be_bytes 20 (1337 :: B160)))" by (simp_all add: high_bytes_zero)
  then show "is_precompile 10 10 \<and> \<not> Precompiles_contains (berlin X) 10"
    by (simp add: is_precompile_def Let_def Precompiles_contains_def table_defs)
       (simp add: to_be_bytes_def from_be_bytes_def)
  show "Precompiles_contains (berlin X) 1337 \<and> \<not> is_precompile 1337 10"
    using z by (simp add: is_precompile_def Let_def Precompiles_contains_def table_defs)
       (simp add: to_be_bytes_def from_be_bytes_def)
qed

section \<open>Modular exponentiation\<close>

definition be_nat :: "bytes \<Rightarrow> nat" where
  "be_nat bs = foldl (\<lambda>acc b. acc * 256 + unat b) 0 bs"

fun bit_len :: "nat \<Rightarrow> nat" where
  "bit_len n = (if n = 0 then 0 else bit_len (n div 2) + 1)"

declare bit_len.simps [simp del]

text \<open>What the documentation of the crate \<open>num\<close> says of the functions that the code calls.\<close>

definition biguint_laws :: "BigUint \<Rightarrow> bool" where
  "biguint_laws B \<longleftrightarrow>
     (\<forall>bs. from_bytes_be B bs = be_nat bs) \<and>
     (\<forall>n. be_nat (to_bytes_be B n) = n \<and> to_bytes_be B n \<noteq> [] \<and>
        (if n = 0 then length (to_bytes_be B n) = 1 else hd (to_bytes_be B n) \<noteq> 0)) \<and>
     (\<forall>b e m. 0 < m \<longrightarrow> modpow B b e m = b ^ e mod m) \<and>
     (\<forall>n. n < 2 ^ 256 \<longrightarrow> bits B n = of_nat (bit_len n))"

text \<open>\<open>n\<close> bytes from \<open>off\<close> on of an input that is extended with zeros.\<close>

definition window :: "bytes \<Rightarrow> nat \<Rightarrow> nat \<Rightarrow> bytes" where
  "window input off n = slice off n input @ replicate (n - length (slice off n input)) 0"

lemma be_nat_simps [simp]: "be_nat [] = 0" "be_nat (bs @ [b]) = be_nat bs * 256 + unat b"
  by (simp_all add: be_nat_def)

lemma be_nat_append: "be_nat (xs @ ys) = be_nat xs * 256 ^ length ys + be_nat ys"
proof (induction ys rule: rev_induct)
  case (snoc y ys)
  have "be_nat (xs @ ys @ [y]) = be_nat ((xs @ ys) @ [y])" by simp
  also have "\<dots> = be_nat xs * 256 ^ length (ys @ [y]) + be_nat (ys @ [y])"
    by (simp only: be_nat_simps snoc) (simp add: algebra_simps)
  finally show ?case .
qed simp

lemma be_nat_less: "be_nat bs < 256 ^ length bs"
proof (induction bs rule: rev_induct)
  case (snoc b bs)
  have "unat b < 256" using unsigned_less [of b] by simp
  moreover have "Suc (be_nat bs) * 256 \<le> 256 ^ length bs * 256" using snoc by (intro mult_le_mono1) simp
  ultimately show ?case by simp
qed simp

lemma be_nat_replicate_0 [simp]: "be_nat (replicate n 0) = 0"
  by (induction n) (simp_all add: replicate_append_same [symmetric])

lemma be_nat_eq_0_iff: "be_nat bs = 0 \<longleftrightarrow> list_all (\<lambda>b. b = 0) bs"
  by (induction bs rule: rev_induct) (auto simp: unsigned_eq_0_iff)

lemma unat_from_be_bytes: "length bs * 8 \<le> LENGTH('a) \<Longrightarrow> unat (from_be_bytes bs :: 'a::len word) = be_nat bs"
proof (induction bs rule: rev_induct)
  case (snoc b bs)
  have l: "be_nat (bs @ [b]) < 2 ^ LENGTH('a)"
  proof -
    have "be_nat (bs @ [b]) < 256 ^ length (bs @ [b])" by (rule be_nat_less)
    also have "\<dots> = (2 ^ 8) ^ length (bs @ [b])" by simp
    also have "\<dots> = 2 ^ (8 * length (bs @ [b]))" by (rule power_mult [symmetric])
    also have "\<dots> \<le> 2 ^ LENGTH('a)" using snoc.prems by (intro power_increasing) simp_all
    finally show ?thesis .
  qed
  have "(from_be_bytes (bs @ [b]) :: 'a word) = push_bit 8 (from_be_bytes bs) + ucast b"
    unfolding from_be_bytes_snoc
    by (rule disjunctive_add [symmetric]) (auto simp: bit_push_bit_iff bit_unsigned_iff dest: bit_imp_le_length)
  also have "\<dots> = of_nat (be_nat (bs @ [b]))"
    using snoc by (simp add: push_bit_eq_mult) (metis of_nat_unat ucast_id)
  finally have e: "(from_be_bytes (bs @ [b]) :: 'a word) = of_nat (be_nat (bs @ [b]))" .
  show ?case unfolding e unat_of_nat using l by simp
qed simp

lemma length_window [simp]: "length (window input off n) = n"
  by (simp add: window_def slice_def)

lemma nth_window: "i < n \<Longrightarrow> window input off n ! i = (if off + i < length input then input ! (off + i) else 0)"
  by (auto simp: window_def slice_def nth_append)

lemma window_append: "window input off (m + n) = window input off m @ window input (off + m) n"
  by (rule nth_equalityI) (auto simp: nth_append nth_window)

lemma be_nat_window: "be_nat (window input off n) = be_nat (slice off n input) * 256 ^ (n - length (slice off n input))"
  by (simp add: window_def be_nat_append)

lemma read_u64_exact:
  assumes "to = off + 32"
  shows "read_u64_with_overflow input off to 0xFFFFFFFF =
    (from_be_bytes (window input (off + 24) 8), \<not> be_nat (window input off 32) < 2 ^ 32 - 1)"
proof -
  have ov: "slice (min off (length input)) (min (min off (length input) + 24) (length input) - min off (length input)) input =
      slice off 24 input"
    by (cases "off \<le> length input") (auto simp: slice_def min_def)
  have lb: "slice (min (min off (length input) + 24) (length input))
        (min to (length input) - min (min off (length input) + 24) (length input)) input @
      replicate (8 - (min to (length input) - min (min off (length input) + 24) (length input))) 0 =
      window input (off + 24) 8"
    unfolding assms window_def by (cases "off + 24 \<le> length input") (auto simp: slice_def min_def)
  have w: "window input off 32 = window input off 24 @ window input (off + 24) 8"
    using window_append [of input off 24 8] by simp
  have u: "unat (from_be_bytes (window input (off + 24) 8) :: u64) = be_nat (window input (off + 24) 8)"
    by (rule unat_from_be_bytes) simp
  have "be_nat (window input off 32) < 2 ^ 32 - 1 \<longleftrightarrow>
      be_nat (window input off 24) = 0 \<and> be_nat (window input (off + 24) 8) < 2 ^ 32 - 1"
    unfolding w be_nat_append using be_nat_less [of "window input (off + 24) 8"]
    by (cases "be_nat (window input off 24)") auto
  also have "be_nat (window input off 24) = 0 \<longleftrightarrow> list_all (\<lambda>b. b = 0) (slice off 24 input)"
    by (simp add: be_nat_window be_nat_eq_0_iff)
  finally show ?thesis
    unfolding read_u64_with_overflow_def Let_def ov lb by (simp add: word_less_nat_alt u conj_commute)
qed

lemma read_big_window: "biguint_laws B \<Longrightarrow> from' \<le> to' \<Longrightarrow> read_big B input from' to' = be_nat (window input from' (to' - from'))"
proof -
  assume "biguint_laws B" "from' \<le> to'"
  moreover have "slice (min from' (length input)) (min to' (length input) - min from' (length input)) input @
      replicate (to' - from' - (min to' (length input) - min from' (length input))) 0 = window input from' (to' - from')"
    using \<open>from' \<le> to'\<close> by (auto simp: window_def slice_def min_def)
  ultimately show ?thesis by (simp add: read_big_def Let_def biguint_laws_def)
qed

lemma to_bytes_be_length:
  assumes "biguint_laws B" "r < 256 ^ n" "0 < n"
  shows "length (to_bytes_be B r) \<le> n"
proof (cases "r = 0")
  case True
  have "length (to_bytes_be B 0) = 1" using assms(1) unfolding biguint_laws_def by metis
  then show ?thesis using True assms(3) by simp
next
  case False
  obtain b bs where bs: "to_bytes_be B r = b # bs" "b \<noteq> 0" "be_nat (b # bs) = r"
    using assms(1) False unfolding biguint_laws_def by (metis list.collapse)
  have "0 < unat b" using bs(2) by (metis gr0I unsigned_eq_0_iff)
  then have "256 ^ length bs \<le> unat b * 256 ^ length bs" by (cases "unat b") simp_all
  also have "\<dots> \<le> r" using bs(3) be_nat_append [of "[b]" bs] by (simp add: be_nat_def)
  finally have "(256 :: nat) ^ length bs < 256 ^ n" using assms(2) by (rule le_less_trans)
  then have "length bs < n" by (rule power_less_imp_less_exp [rotated]) simp
  then show ?thesis using bs(1) by simp
qed

text \<open>
  C20. Modular exponentiation computes \<open>base ^ exponent mod modulus\<close>: on an input that is extended
  with zeros, whose three length fields are below \<open>2^32 - 1\<close> and not both of base and modulus zero, and
  with enough gas, the result has exactly the length of the modulus and is the big-endian power
  (zero for a zero modulus).
\<close>
theorem modexp_correct:
  assumes "biguint_laws B"
    and bl: "bl = be_nat (window input 0 32)" "bl < 2 ^ 32 - 1"
    and el: "el = be_nat (window input 32 32)" "el < 2 ^ 32 - 1"
    and ml: "ml = be_nat (window input 64 32)" "ml < 2 ^ 32 - 1"
    and ne: "0 < bl \<or> 0 < ml"
    and gas: "gas = calc_gas (of_nat bl) (of_nat el) (of_nat ml) (read_exp_highp B input (96 + bl) (96 + bl + min 32 el))"
      "gas \<le> gas_limit"
    and ops: "base = be_nat (window input 96 bl)" "exponent = be_nat (window input (96 + bl) el)"
      "modulus = be_nat (window input (96 + bl + el) ml)"
  shows "\<exists>out. run_inner B input gas_limit min_gas calc_gas = Inr (gas, out) \<and> length out = ml \<and>
    be_nat out = (if modulus = 0 then 0 else base ^ exponent mod modulus)"
proof -
  have low: "(from_be_bytes (window input (off + 24) 8) :: u64) = of_nat (be_nat (window input off 32))"
    if "be_nat (window input off 32) < 2 ^ 32 - 1" for off
  proof -
    have "be_nat (window input off 24) = 0"
      using that window_append [of input off 24 8]
      by (cases "be_nat (window input off 24)") (auto simp: be_nat_append)
    then have "be_nat (window input off 32) = be_nat (window input (off + 24) 8)"
      using window_append [of input off 24 8] by (simp add: be_nat_append)
    then have "unat (from_be_bytes (window input (off + 24) 8) :: u64) = be_nat (window input off 32)"
      using unat_from_be_bytes [where 'a = 64, of "window input (off + 24) 8"] by simp
    then show ?thesis by (metis of_nat_unat ucast_id)
  qed
  define r where "r = (if modulus = 0 \<or> modulus = 1 then 0 else base ^ exponent mod modulus)"
  define bs where "bs = to_bytes_be B r"
  have rd: "read_u64_with_overflow input 0 32 0xFFFFFFFF = (of_nat bl, False)"
    "read_u64_with_overflow input 32 64 0xFFFFFFFF = (of_nat el, False)"
    "read_u64_with_overflow input 64 96 0xFFFFFFFF = (of_nat ml, False)"
    using read_u64_exact [of 32 0 input] read_u64_exact [of 64 32 input] read_u64_exact [of 96 64 input]
      low [of 0] low [of 32] low [of 64] bl el ml by simp_all
  have u: "unat (of_nat bl :: u64) = bl" "unat (of_nat el :: u64) = el" "unat (of_nat ml :: u64) = ml"
    using bl(2) el(2) ml(2) by (simp_all add: unat_of_nat take_bit_nat_eq_self)
  have z: "of_nat bl = (0 :: u64) \<longleftrightarrow> bl = 0" "of_nat ml = (0 :: u64) \<longleftrightarrow> ml = 0"
    unfolding word_unat_eq_iff u by simp_all
  have big: "read_big B input 96 (96 + bl) = base" "read_big B input (96 + bl) (96 + bl + el) = exponent"
    "read_big B input (96 + bl + el) (96 + bl + el + ml) = modulus"
    using assms(1) ops by (simp_all add: read_big_window)
  have "base ^ exponent mod modulus < 256 ^ ml" if "modulus \<noteq> 0"
  proof -
    have "base ^ exponent mod modulus < modulus" using that by simp
    also have "\<dots> < 256 ^ ml" using be_nat_less [of "window input (96 + bl + el) ml"] by (simp add: ops)
    finally show ?thesis .
  qed
  then have len: "0 < ml \<Longrightarrow> length bs \<le> ml" using to_bytes_be_length [OF assms(1), of r ml] by (simp add: bs_def r_def)
  have m0: "ml = 0 \<Longrightarrow> modulus = 0" by (simp add: ops window_def slice_def)
  have bs: "be_nat bs = r" using assms(1) unfolding biguint_laws_def bs_def by metis
  have r: "r = (if modulus = 0 then 0 else base ^ exponent mod modulus)" by (simp add: r_def)
  have mp: "modulus \<noteq> 0 \<Longrightarrow> modpow B base exponent modulus = base ^ exponent mod modulus"
    using assms(1) unfolding biguint_laws_def by blast
  define F where "F n = ((if length (to_bytes_be B n) = ml then Inr (gas, to_bytes_be B n)
      else if length (to_bytes_be B n) < ml then Inr (gas, replicate (ml - length (to_bytes_be B n)) 0 @ to_bytes_be B n)
      else Inr (gas, [])) :: PrecompileResult)" for n
  have c: "(of_nat bl = (0 :: u64) \<and> of_nat ml = (0 :: u64)) = False" "(gas_limit < gas) = False" using ne z gas(2) by auto
  have "run_inner B input gas_limit min_gas calc_gas =
      (if modulus = 0 \<or> modulus = 1 then F 0 else F (modpow B base exponent modulus))"
    unfolding run_inner_def Let_def rd prod.case u big gas(1) [symmetric] c F_def by (simp only: if_False simp_thms)
  also have "\<dots> = F r" using mp by (auto simp: r_def)
  finally have run: "run_inner B input gas_limit min_gas calc_gas = F r" .
  show ?thesis
  proof (cases "ml = 0")
    case True
    then show ?thesis using m0 run by (auto simp: F_def)
  next
    case False
    then have "F r = Inr (gas, replicate (ml - length bs) 0 @ bs)" using len by (auto simp: F_def bs_def)
    then show ?thesis using len False bs r run by (simp add: be_nat_append)
  qed
qed

text \<open>An instance of the laws, for the witness.\<close>

fun nat_bytes :: "nat \<Rightarrow> bytes" where
  "nat_bytes n = (if n < 256 then [of_nat n] else nat_bytes (n div 256) @ [of_nat (n mod 256)])"

declare nat_bytes.simps [simp del]

definition nat_big :: BigUint where
  "nat_big = \<lparr> from_bytes_be = be_nat, to_bytes_be = nat_bytes, modpow = (\<lambda>b e m. b ^ e mod m),
     bits = (\<lambda>n. of_nat (bit_len n)) \<rparr>"

lemma nat_bytes_ok: "be_nat (nat_bytes n) = n \<and> nat_bytes n \<noteq> [] \<and>
    (if n = 0 then length (nat_bytes n) = 1 else hd (nat_bytes n) \<noteq> 0)"
proof (induction n rule: nat_bytes.induct)
  case (1 n)
  show ?case
  proof (cases "n < 256")
    case True
    then have "unat (of_nat n :: u8) = n" by (simp add: unat_of_nat take_bit_nat_eq_self)
    moreover from this have "0 < n \<Longrightarrow> (of_nat n :: u8) \<noteq> 0" by auto
    ultimately show ?thesis using True by (simp add: nat_bytes.simps be_nat_def)
  next
    case False
    have "unat (of_nat (n mod 256) :: u8) = n mod 256" by (simp add: unat_of_nat take_bit_nat_eq_self)
    with False 1 show ?thesis
      by (subst nat_bytes.simps, subst nat_bytes.simps, subst nat_bytes.simps) (auto simp: hd_append)
  qed
qed

lemma nat_big_laws: "biguint_laws nat_big"
  using nat_bytes_ok by (auto simp: biguint_laws_def nat_big_def)

theorem modexp_correct_witness:
  "\<exists>out. run_inner nat_big (replicate 31 0 @ [1] @ replicate 31 0 @ [1] @ replicate 31 0 @ [1] @ [3, 4, 10]) 1000 200 (\<lambda>_ _ _ _. 500) =
     Inr (500, out) \<and> length out = 1 \<and> be_nat out = 1"
proof -
  define i where "i = replicate 31 0 @ [1] @ replicate 31 0 @ [1] @ replicate 31 0 @ [1] @ [3, 4, 10 :: u8]"
  have w: "window i 0 32 = replicate 31 0 @ [1]" "window i 32 32 = replicate 31 0 @ [1]"
    "window i 64 32 = replicate 31 0 @ [1]" "window i 96 1 = [3]" "window i 97 1 = [4]" "window i 98 1 = [10]"
    by (simp_all add: i_def window_def slice_def numeral_eq_Suc)
  have n: "be_nat (replicate 31 0 @ [1]) = 1" "be_nat [3] = 3" "be_nat [4] = 4" "be_nat [10] = 10"
    by (simp_all only: be_nat_simps be_nat_replicate_0) (simp_all add: be_nat_def)
  have "\<exists>out. run_inner nat_big i 1000 200 (\<lambda>_ _ _ _. 500) = Inr (500, out) \<and> length out = 1 \<and>
      be_nat out = (if (10 :: nat) = 0 then 0 else 3 ^ 4 mod 10)"
    by (rule modexp_correct [OF nat_big_laws, where bl = 1 and el = 1 and ml = 1])
       (simp_all only: w n, simp_all add: w n w(5,6) [unfolded One_nat_def])
  then show ?thesis unfolding i_def by simp
qed

section \<open>The price of an exponentiation\<close>

text \<open>The price of EIP-2565 over unbounded numbers.\<close>

definition eip2565_iterations :: "nat \<Rightarrow> nat \<Rightarrow> nat" where
  "eip2565_iterations el exp_head =
     max 1 (if el \<le> 32 then bit_len exp_head - 1 else 8 * (el - 32) + (bit_len exp_head - 1))"

definition eip2565_gas :: "nat \<Rightarrow> nat \<Rightarrow> nat \<Rightarrow> nat \<Rightarrow> nat" where
  "eip2565_gas bl el ml exp_head =
     max 200 (((max bl ml + 7) div 8)\<^sup>2 * eip2565_iterations el exp_head div 3)"

lemma unat_ucast_64_256: "unat (ucast (x :: u64) :: U256) = unat x"
proof -
  have "unat x < 2 ^ 64" using unsigned_less [of x] by simp
  then show ?thesis by (simp add: unsigned_ucast_eq take_bit_nat_eq_self)
qed

lemma bit_len_le: "n < 2 ^ k \<Longrightarrow> bit_len n \<le> k"
proof (induction n arbitrary: k rule: bit_len.induct)
  case (1 n)
  show ?case
  proof (cases "n = 0")
    case False
    then obtain k' where k: "k = Suc k'" using 1(2) by (cases k) auto
    then have "n div 2 < 2 ^ k'" using 1(2) by simp
    then show ?thesis using 1(1) [OF False] False k by (subst bit_len.simps) simp
  qed (simp add: bit_len.simps)
qed

lemma bit_len_pos: "0 < n \<Longrightarrow> 0 < bit_len n"
  by (subst bit_len.simps) simp

lemma iteration_count_exact:
  assumes "biguint_laws B" "el < 2 ^ 32" "h < 2 ^ 256"
  shows "unat (calculate_iteration_count B (of_nat el) h) = eip2565_iterations el h"
proof -
  have b: "bits B h = of_nat (bit_len h)" using assms(1,3) by (simp add: biguint_laws_def)
  have l: "bit_len h \<le> 256" using bit_len_le [OF assms(3)] .
  have h0: "h = 0 \<longleftrightarrow> bit_len h = 0" using bit_len_pos [of h] by (auto simp: bit_len.simps)
  have e: "unat (of_nat el :: u64) = el" using assms(2) by (simp add: unat_of_nat take_bit_nat_eq_self)
  have small: "(of_nat el :: u64) \<le> 32 \<longleftrightarrow> el \<le> 32" by (simp add: word_le_nat_alt e)
  have bu: "unat (of_nat n :: u64) = n" if "n < 2 ^ 64" for n using that by (simp add: unat_of_nat take_bit_nat_eq_self)
  have mx: "max (of_nat m) (of_nat n :: u64) = of_nat (max m n)" if "m < 2 ^ 64" "n < 2 ^ 64" for m n
    using that by (simp add: max_def word_le_nat_alt bu)
  show ?thesis
  proof (cases "el \<le> 32")
    case True
    have "calculate_iteration_count B (of_nat el) h = max (of_nat (bit_len h - 1)) (of_nat 1)"
      using True h0 by (auto simp: calculate_iteration_count_def small b of_nat_diff)
    also have "\<dots> = of_nat (max (bit_len h - 1) 1)" using l by (subst mx) auto
    finally show ?thesis using True l by (simp add: eip2565_iterations_def bu)
  next
    case False
    have "max 1 (bits B h) = of_nat (max 1 (bit_len h))" using mx [of 1 "bit_len h"] l b by simp
    moreover have "of_nat el - 32 = (of_nat (el - 32) :: u64)" using False by (simp add: of_nat_diff)
    ultimately have "calculate_iteration_count B (of_nat el) h =
        max (8 * of_nat (el - 32) + of_nat (max 1 (bit_len h)) - 1) (of_nat 1)"
      using False unfolding calculate_iteration_count_def Let_def small by (simp add: not_le [symmetric] small)
    also have "(8 * of_nat (el - 32) + of_nat (max 1 (bit_len h)) - 1 :: u64) =
        of_nat (8 * (el - 32) + (bit_len h - 1))"
      by (cases "bit_len h") (simp_all add: max_def)
    also have "max \<dots> (of_nat 1) = of_nat (max (8 * (el - 32) + (bit_len h - 1)) 1)"
      using l assms(2) by (subst mx) auto
    moreover have "max (8 * (el - 32) + (bit_len h - 1)) 1 < 2 ^ 64" using l assms(2) by auto
    ultimately have "unat (calculate_iteration_count B (of_nat el) h) = max (8 * (el - 32) + (bit_len h - 1)) 1"
      using bu by metis
    then show ?thesis using False by (simp add: eip2565_iterations_def max.commute)
  qed
qed

lemma multiplication_complexity_exact:
  assumes "bl < 2 ^ 32" "ml < 2 ^ 32"
  shows "unat (calculate_multiplication_complexity (of_nat bl) (of_nat ml)) = ((max bl ml + 7) div 8)\<^sup>2"
proof -
  define x where "x = max bl ml"
  have x: "x < 2 ^ 32" using assms by (simp add: x_def)
  have u: "unat (of_nat n :: u64) = n" if "n < 2 ^ 33" for n using that by (simp add: unat_of_nat take_bit_nat_eq_self)
  have m: "max (of_nat bl) (of_nat ml) = (of_nat x :: u64)"
    using assms by (auto simp: max_def word_le_nat_alt u x_def)
  have "unat (if (of_nat x :: u64) mod 8 > 0 then of_nat x div 8 + 1 else of_nat x div 8 :: u64) = (x + 7) div 8"
  proof -
    have d: "unat (of_nat x div 8 :: u64) = x div 8" "unat (of_nat x mod 8 :: u64) = x mod 8"
      using x by (simp_all add: unat_div_distrib unat_mod_distrib u)
    moreover have "unat (of_nat x div 8 + 1 :: u64) = x div 8 + 1" using x d by (simp add: unat_word_ariths(1))
    ultimately show ?thesis by (simp add: word_less_nat_alt) presburger
  qed
  moreover have "((x + 7) div 8) * ((x + 7) div 8) < 2 ^ 256"
  proof -
    have "((x + 7) div 8) * ((x + 7) div 8) \<le> 2 ^ 32 * 2 ^ 32" using x by (intro mult_le_mono) simp_all
    then show ?thesis by simp
  qed
  ultimately show ?thesis
    unfolding calculate_multiplication_complexity_def Let_def m
    by (simp add: x_def [symmetric] unat_word_ariths(2) unat_ucast_64_256 power2_eq_square cong: if_cong)
qed
lemma capped_u64_exact: "unat (capped_u64 x f) = (if unat x < 2 ^ 64 then unat (f (of_nat (unat x))) else 2 ^ 64 - 1)"
proof -
  have x: "unat x < 2 ^ 256" using unsigned_less [of x] by simp
  have z: "limb i x = 0 \<longleftrightarrow> unat x div 2 ^ (64 * i) mod 2 ^ 64 = 0" for i
    by (simp add: word_unat_eq_iff unat_limb)
  have "limb 1 x \<noteq> 0 \<or> limb 2 x \<noteq> 0 \<or> limb 3 x \<noteq> 0 \<longleftrightarrow> \<not> unat x < 2 ^ 64"
  proof
    assume "limb 1 x \<noteq> 0 \<or> limb 2 x \<noteq> 0 \<or> limb 3 x \<noteq> 0"
    then show "\<not> unat x < 2 ^ 64" unfolding z by (auto simp: div_less)
  next
    assume n: "\<not> unat x < 2 ^ 64"
    show "limb 1 x \<noteq> 0 \<or> limb 2 x \<noteq> 0 \<or> limb 3 x \<noteq> 0"
    proof (rule ccontr)
      assume "\<not> ?thesis"
      then have l: "unat x div 2 ^ 64 mod 2 ^ 64 = 0" "unat x div 2 ^ 128 mod 2 ^ 64 = 0" "unat x div 2 ^ 192 mod 2 ^ 64 = 0"
        unfolding z by simp_all
      have d: "unat x div 2 ^ 192 = unat x div 2 ^ 128 div 2 ^ 64" "unat x div 2 ^ 128 = unat x div 2 ^ 64 div 2 ^ 64"
        by (simp_all add: div_mult2_eq [symmetric])
      have "unat x div 2 ^ 192 < 2 ^ 64" using x by (simp add: div_less_iff_less_mult)
      then have "unat x div 2 ^ 192 = 0" using l(3) by simp
      then have "unat x div 2 ^ 128 = 0" using l(2) d(1) by (metis div_mod_decomp add_0 mult_0)
      then have "unat x div 2 ^ 64 = 0" using l(1) d(2) by (metis div_mod_decomp add_0 mult_0)
      then show False using n by (simp add: div_eq_0_iff)
    qed
  qed
  moreover have "limb 0 x = of_nat (unat x)" if "unat x < 2 ^ 64"
    using that by (simp add: word_unat_eq_iff unat_limb unsigned_ucast_eq take_bit_nat_eq_self)
  ultimately show ?thesis by (simp add: capped_u64_def u64_MAX_def)
qed

text \<open>
  C21. From Berlin on an exponentiation costs what EIP-2565 says, capped at \<open>u64::MAX\<close>: for lengths below
  \<open>2^32\<close>, which the contract has checked, no step of the computation of the price wraps around.
\<close>
theorem berlin_gas_exact:
  assumes "biguint_laws B" "bl < 2 ^ 32" "el < 2 ^ 32" "ml < 2 ^ 32" "exp_head < 2 ^ 256"
  shows "unat (berlin_gas_calc B (of_nat bl) (of_nat el) (of_nat ml) exp_head) =
    min (2 ^ 64 - 1) (eip2565_gas bl el ml exp_head)"
proof -
  let ?m = "calculate_multiplication_complexity (of_nat bl) (of_nat ml)"
  let ?i = "calculate_iteration_count B (of_nat el) exp_head"
  define W I where "W = (max bl ml + 7) div 8" and "I = eip2565_iterations el exp_head"
  have W: "W \<le> 2 ^ 32" using assms by (simp add: W_def)
  have I: "I \<le> 2 ^ 36" using bit_len_le [OF assms(5)] assms(3) by (auto simp: I_def eip2565_iterations_def)
  have m: "unat ?m = W\<^sup>2" using multiplication_complexity_exact [OF assms(2,4)] by (simp add: W_def)
  have i: "unat (ucast ?i :: U256) = I"
    using iteration_count_exact [OF assms(1,3,5)] by (simp add: I_def unat_ucast_64_256)
  have "W\<^sup>2 * I \<le> (2 ^ 32 * 2 ^ 32) * 2 ^ 36"
    unfolding power2_eq_square using W I by (intro mult_le_mono)
  then have "unat (?m * ucast ?i div 3 :: U256) = W\<^sup>2 * I div 3"
    by (simp add: unat_div_distrib unat_word_ariths(2) m i)
  then show ?thesis
    unfolding berlin_gas_calc_def Let_def capped_u64_exact eip2565_gas_def W_def [symmetric] I_def [symmetric]
    by (auto simp: max_def min_def word_le_nat_alt unat_of_nat take_bit_nat_eq_self)
qed

theorem berlin_gas_exact_witness:
  "unat (berlin_gas_calc nat_big 64 3 32 5) = min (2 ^ 64 - 1) (eip2565_gas 64 3 32 5) \<and> eip2565_gas 64 3 32 5 = 200"
proof -
  have "bit_len 5 = 3" by (simp add: bit_len.simps)
  then show ?thesis
    using berlin_gas_exact [OF nat_big_laws, of 64 3 32 5] by (simp add: eip2565_gas_def eip2565_iterations_def)
qed

end
