(* ===== verification/Evm_Total.thy ===== *)
theory Evm_Total
  imports Evm_Transact Evm_Host Precompile_Properties
begin

text \<open>
  From the host's contract to whole transactions: the gas of a transaction, the access list, the
  top-level call or creation, the settlement and the result each return and keep the database's
  invariant, over every database that keeps the laws of \<open>database\<close>. The last section shows that the
  precompiled contracts return, all but the administration contract.
\<close>

section \<open>Gas of a transaction\<close>

text \<open>The counter of a transaction after the intrinsic cost and the whole rest are recorded.\<close>

lemma record_cost_memory: "g_memory (snd (record_cost x c)) = g_memory x"
  by (simp add: record_cost_def overflowing_add_def)

lemma spent_gas:
  assumes "record_cost (Gas_new limit) initial = (True, g1)"
  defines "g2 \<equiv> snd (record_cost g1 (remaining g1))"
  shows "gas_wf g2" "g_limit g2 = limit" "g_memory g2 = 0" "remaining g2 = 0" "remaining g1 = limit - initial" "initial \<le> limit"
proof -
  have fst: "fst (record_cost (Gas_new limit) initial)" using assms(1) by simp
  then have le: "initial \<le> limit" using record_cost_succeeds_iff [OF gas_wf_new, of limit initial] by simp
  have w1: "gas_wf g1" "unat (remaining g1) = unat limit - unat initial"
    using record_cost_success [OF gas_wf_new, of initial limit] le assms(1) by simp_all
  have w2: "gas_wf g2" "unat (remaining g2) = 0" unfolding g2_def using record_cost_success [OF w1(1) order_refl] by simp_all
  show "gas_wf g2" "remaining g2 = 0" using w2 by (simp_all add: unat_eq_0)
  show "initial \<le> limit" by (fact le)
  show "remaining g1 = limit - initial" using w1(2) le by (simp add: word_unat_eq_iff unat_sub word_le_nat_alt)
  have "g_limit g1 = limit" "g_memory g1 = 0"
    using assms(1) record_cost_limit [of "Gas_new limit" initial] record_cost_memory [of "Gas_new limit" initial]
    by (simp_all add: Gas_new_def)
  then show "g_limit g2 = limit" "g_memory g2 = 0" by (simp_all add: g2_def record_cost_memory)
qed

lemma returned_gas_ok:
  assumes "record_cost (Gas_new limit) initial = (True, g1)"
    and "return_ok r \<or> return_revert r \<Longrightarrow> gas_wf rg \<and> g_limit rg = remaining g1"
  defines "g2 \<equiv> returned_gas r rg (snd (record_cost g1 (remaining g1)))"
  shows "gas_wf g2" "g_limit g2 = limit" "initial \<le> spend g2" "spend g2 \<le> limit"
proof -
  note s = spent_gas [OF assms(1)]
  let ?g = "snd (record_cost g1 (remaining g1))"
  have u: "unat (g_used ?g) = unat limit"
    using s(1-4) by (auto simp: gas_wf_def remaining_def)
  have "gas_wf g2 \<and> g_limit g2 = limit \<and> initial \<le> spend g2 \<and> spend g2 \<le> limit"
  proof (cases "return_ok r \<or> return_revert r")
    case False
    then show ?thesis using s by (auto simp: g2_def returned_gas_def spend_def gas_wf_def remaining_def)
  next
    case True
    then have rg: "unat (remaining rg) \<le> unat limit - unat initial"
      using remaining_le_limit [of rg] assms(2) s(5,6) by (auto simp: word_le_nat_alt unat_sub)
    then have "unat (remaining rg) \<le> unat (g_used ?g)" using u by simp
    then have e: "gas_wf (erase_cost ?g (remaining rg))"
        "unat (remaining (erase_cost ?g (remaining rg))) = unat (remaining rg)"
      using erase_cost_returns [OF s(1), of "remaining rg"] s(4) by (simp_all add: word_le_nat_alt)
    have sp: "unat (spend (erase_cost ?g (remaining rg))) = unat limit - unat (remaining rg)"
      "unat (remaining rg) \<le> unat limit"
      using e unat_remaining [OF e(1)] s(2) by (auto simp: spend_def gas_wf_def word_le_nat_alt)
    have "unat initial \<le> unat (spend (erase_cost ?g (remaining rg)))" "unat (spend (erase_cost ?g (remaining rg))) \<le> unat limit"
      using sp rg s(6) by (auto simp: word_le_nat_alt)
    then show ?thesis using True e s(2)
      by (auto simp: g2_def returned_gas_def word_le_nat_alt record_refund_def spend_def gas_wf_def)
  qed
  then show "gas_wf g2" "g_limit g2 = limit" "initial \<le> spend g2" "spend g2 \<le> limit" by simp_all
qed

lemma refund_of_le: "unat (refund_of spec env gas') \<le> unat (spend gas') div (if enabled spec LONDON then 5 else 2)"
  by (simp add: refund_of_def Let_def min_def unat_div word_le_nat_alt)

section \<open>A transaction returns\<close>

text \<open>Reading the account of the block's beneficiary does not fail.\<close>

definition readable :: "('db, 'e) db_ops \<Rightarrow> ('db \<Rightarrow> bool) \<Rightarrow> B160 \<Rightarrow> bool" where
  "readable D DI a \<longleftrightarrow> (\<forall>db. DI db \<longrightarrow> (\<exists>x db'. db_basic D db a = (Inr x, db')))"

context database
begin

lemma access_slots_ok:
  "journal js \<noteq> [] \<Longrightarrow> DI db \<Longrightarrow> a \<in> dom (state js) \<Longrightarrow>
     ok (\<lambda>(r, js', db'). exact.steps js js' \<and> DI db') (access_slots D a slots js db)"
proof (induction slots arbitrary: js db)
  case (Cons k slots)
  then obtain x where x: "state js a = Some x" by blast
  obtain r js1 db1 where 1: "sload D a k js db = Val (r, js1, db1)" "exact.steps js js1" "DI db1"
    using sload_steps [OF Cons.prems(1,2) x, of k] by (auto simp: ok_iff)
  have "a \<in> dom (state js1)" using exact.steps_dom [OF 1(2)] Cons.prems(3) by blast
  from Cons.IH [OF exact.steps_journal [OF 1(2)] 1(3) this] 1 show ?case
    by (cases r) (auto elim!: ok_mono intro: exact.steps_trans)
qed (simp add: exact.steps_refl)

lemma access_accounts_ok:
  "journal js \<noteq> [] \<Longrightarrow> DI db \<Longrightarrow> ok (\<lambda>(r, js', db'). exact.steps js js' \<and> DI db') (access_accounts D xs c js db)"
proof (induction xs arbitrary: c js db)
  case (Cons x xs)
  obtain a slots where x: "x = (a, slots)" by fastforce
  obtain r js1 db1 where 1: "load_account D a js db = Val (r, js1, db1)" "exact.steps js js1" "DI db1"
    "\<forall>cold. r = Inr cold \<longrightarrow> a \<in> dom (state js1)"
    using load_account_steps [OF Cons.prems, of a] by (auto simp: ok_iff)
  show ?case
  proof (cases r)
    case (Inr cold)
    then have "a \<in> dom (state js1)" using 1(4) by simp
    from access_slots_ok [OF exact.steps_journal [OF 1(2)] 1(3) this, of slots]
    obtain r2 js2 db2 where 2: "access_slots D a slots js1 db1 = Val (r2, js2, db2)" "exact.steps js1 js2" "DI db2"
      by (auto simp: ok_iff)
    note s = exact.steps_trans [OF 1(2) 2(2)]
    show ?thesis using 1(1) 2 Inr x s Cons.IH [OF exact.steps_journal [OF 2(2)] 2(3), of "c + of_nat (length slots)"]
      by (cases r2) (auto elim!: ok_mono intro: exact.steps_trans)
  qed (use 1 x in simp)
qed (simp add: exact.steps_refl)

lemma initialization_ok:
  assumes "evm_inv DI spec env P n js0 False s h"
  shows "ok (\<lambda>(r, h'). evm_inv DI spec env P n js0 False s h' \<and> ed_error h' = ed_error h) (initialization D spec h)"
proof -
  have a: "ok (\<lambda>(r, js, db). exact.steps (journaled_state h) js \<and> DI db)
    (if enabled spec BERLIN then access_accounts D (access_list (tx (ed_env h))) 0 (journaled_state h) (ed_db h)
     else Val (Inr 0, journaled_state h, ed_db h))"
    using access_accounts_ok [OF evm_invD(1,3) [OF assms]] evm_invD(1,3) [OF assms] by (simp add: exact.steps_refl)
  then obtain r js db where 1: "(if enabled spec BERLIN then access_accounts D (access_list (tx (ed_env h))) 0 (journaled_state h) (ed_db h)
     else Val (Inr 0, journaled_state h, ed_db h)) = Val (r, js, db)" "exact.steps (journaled_state h) js" "DI db"
    by (auto simp: ok_iff)
  note c = exact_change [OF 1(2)]
  show ?thesis unfolding initialization_def Let_def 1(1) bind_comp.simps prod.case
    using assms evm_inv_step(1) [OF assms conjunct1 [OF c] conjunct2 [OF c] 1(3)] by (cases r) simp_all
qed

lemma transact_inner_ok:
  assumes inv: "evm_inv DI spec env P (Suc n) js0 False (tx_caller (tx env)) h" "length (tx_data (tx env)) + 128 < 2 ^ 63"
  shows "ok (\<lambda>(r, rg, out, h'). evm_inv DI spec env P (Suc n) js0 False (tx_caller (tx env)) h' \<and>
      (r = FatalExternalError \<longrightarrow> failed h') \<and> r \<noteq> Continue \<and>
      (return_ok r \<or> return_revert r \<longrightarrow> gas_wf rg \<and> g_limit rg = limit)) (transact_inner L D spec n limit gas' h)"
proof -
  let ?s = "tx_caller (tx env)"
  have e: "ed_env h = env" using inv(1) by (simp add: evm_inv_def)
  note host = evm_full_host [of L spec n env P]
  show ?thesis
  proof (cases "transact_to (tx env)")
    case (TransactCall a)
    obtain r js where 1: "inc_nonce ?s (journaled_state h) = Val (r, js)" "evm_inv DI spec env P (Suc n) js0 False ?s (put_journal js h)"
      using inc_nonce_ok [OF inv(1) evm_invD(2) [OF inv(1)]] by (auto simp: ok_iff)
    show ?thesis
    proof (cases r)
      case None
      then show ?thesis using 1 TransactCall e by (simp add: transact_inner_def Let_def return_ok_def return_revert_def)
    next
      case (Some c)
      let ?i = "\<lparr> ci_contract = a, ci_transfer = \<lparr> tr_source = ?s, tr_target = a, tr_value = tx_value (tx env) \<rparr>,
          ci_input = tx_data (tx env), ci_gas_limit = limit, ci_context = \<lparr> ctx_address = a, ctx_caller = ?s, ctx_code_address = a,
             ctx_apparent_value = tx_value (tx env), ctx_scheme = CallScheme_Call \<rparr>, ci_is_static = False \<rparr>"
      have "ok (call_post (evm_inv DI spec env P (Suc n) js0 False ?s) limit)
          (call_inner L D (evm_host L D spec n) spec (put_journal js h) ?i)"
        using call_inner_ok [OF 1(2) host, of ?i L] inv(2) by simp
      then show ?thesis using 1 TransactCall e Some
        by (auto simp: transact_inner_def Let_def ok_iff call_post_def)
    qed
  next
    case (TransactCreate scheme)
    let ?i = "\<lparr> cr_caller = ?s, cr_scheme = scheme, cr_value = tx_value (tx env), cr_init_code = tx_data (tx env), cr_gas_limit = limit \<rparr>"
    have "ok (create_post (evm_inv DI spec env P (Suc n) js0 False ?s) limit) (create_inner L D (evm_host L D spec n) spec h ?i)"
      using create_inner_ok [OF inv(1) host, of ?i L] inv(2) by simp
    then show ?thesis using TransactCreate e by (auto simp: transact_inner_def Let_def ok_iff create_post_def call_post_def)
  qed
qed

lemma add_precompile_balances_ok: "DI db \<Longrightarrow> add_precompile_balances D xs st db = (st', db') \<Longrightarrow> DI db'"
proof (induction xs arbitrary: st db)
  case (Cons a xs)
  obtain r db1 where 1: "db_basic D db a = (r, db1)" by fastforce
  then show ?case using Cons basic_ok [OF Cons.prems(1) 1] by (auto simp: Let_def split: option.splits)
qed simp

lemma set_acc_balance_ok:
  assumes "a \<in> dom (state js)" "journal js \<noteq> []"
  shows "ok (\<lambda>js'. journal js' \<noteq> [] \<and> dom (state js') = dom (state js)) (set_acc_balance a f js)"
  using assms by (auto simp: set_acc_balance_def get_acc_def put_acc_def)

lemma evm_finalize_ok:
  assumes inv: "evm_inv DI spec env P n js0 False s h"
    and c: "coinbase (block env) \<in> dom (state (journaled_state h)) \<or> readable D DI (coinbase (block env))"
  shows "ok (\<lambda>((st, ls, used, refunded), h'). used = spend gas' - refund_of spec env gas' \<and> ed_error h' = ed_error h \<and> DI (ed_db h'))
    (evm_finalize D spec s gas' h)"
proof -
  let ?b = "coinbase (block env)"
  have e: "ed_env h = env" using inv by (simp add: evm_inv_def)
  let ?f = "\<lambda>bal. saturating_add bal (effective_gas_price env * ucast (remaining gas' + refund_of spec env gas'))"
  obtain js1 where 1: "set_acc_balance s ?f (journaled_state h) = Val js1" "journal js1 \<noteq> []"
      "dom (state js1) = dom (state (journaled_state h))"
    using set_acc_balance_ok [OF evm_invD(2,1) [OF inv], of ?f] by (auto simp: ok_iff)
  obtain r js2 db2 where 2: "load_account D ?b js1 (ed_db h) = Val (r, js2, db2)" "exact.steps js1 js2" "DI db2"
    "\<forall>cold. r = Inr cold \<longrightarrow> ?b \<in> dom (state js2)"
    using load_account_steps [OF 1(2) evm_invD(3) [OF inv], of ?b] by (auto simp: ok_iff)
  have "\<exists>cold. r = Inr cold"
  proof (cases "?b \<in> dom (state (journaled_state h))")
    case True
    then have "?b \<in> dom (state js1)" using 1(3) by simp
    then show ?thesis using 2(1) by (auto simp: load_account_def)
  next
    case False
    then obtain x db' where "db_basic D (ed_db h) ?b = (Inr x, db')" using c evm_invD(3) [OF inv] by (auto simp: readable_def)
    moreover from False have "state js1 ?b = None" using 1(3) by blast
    ultimately show ?thesis using 1(2) 2(1) by (auto simp: load_account_def push_entry_def Let_def)
  qed
  then have d2: "?b \<in> dom (state js2)" using 2(4) by blast
  obtain js3 where 3: "touch ?b js2 = Val js3" "exact.steps js2 js3"
    using touch_steps [OF exact.steps_journal [OF 2(2)], of ?b] by (auto simp: ok_iff)
  let ?h = "\<lambda>bal. saturating_add bal ((if enabled spec LONDON then saturating_sub (effective_gas_price env) (basefee (block env))
      else effective_gas_price env) * ucast (spend gas' - refund_of spec env gas'))"
  have "?b \<in> dom (state js3)" using d2 exact.steps_dom [OF 3(2)] by blast
  from set_acc_balance_ok [OF this exact.steps_journal [OF 3(2)], of ?h]
  obtain js4 where 4: "set_acc_balance ?b ?h js3 = Val js4" by (auto simp: ok_iff)
  have run: "evm_finalize D spec s gas' h =
      (let (new_state, ls, js) = finalize js4;
          (new_state, db) = (if perf_all_precompiles_have_balance (cfg env)
             then add_precompile_balances D (Precompiles_addresses (ed_precompiles h)) new_state db2 else (new_state, db2)) in
      Val ((new_state, ls, spend gas' - refund_of spec env gas', refund_of spec env gas'), h\<lparr>journaled_state := js, ed_db := db\<rparr>))"
    unfolding evm_finalize_def Let_def e 1(1) bind_comp.simps 2(1) prod.case 3(1) 4 ..
  show ?thesis unfolding run using add_precompile_balances_ok [OF 2(3)] 2(3) by (auto simp: Let_def split: prod.splits)
qed

lemma transact_result_ok:
  assumes "r = FatalExternalError \<longrightarrow> failed h" "r \<noteq> Continue"
  shows "ok (\<lambda>(res, h'). ed_db h' = ed_db h \<and> (\<forall>rs. res = Inr rs \<longrightarrow> gas_used (rs_result rs) = used))
    (transact_result r out (st, ls, used, refunded) h)"
  using assms by (cases r) (auto simp: transact_result_def failed_def unwrap_def split: Output.split)

lemma execute_ok:
  assumes inv: "evm_inv DI spec env P (Suc n) js0 False (tx_caller (tx env)) h" and data: "length (tx_data (tx env)) + 128 < 2 ^ 63"
    and c: "enabled spec SHANGHAI \<or> readable D DI (coinbase (block env))"
  shows "ok (\<lambda>(r, h'). DI (ed_db h') \<and> (\<forall>rs. r = Inr rs \<longrightarrow> gas_used (rs_result rs) \<le> tx_gas_limit (tx env) \<and>
      unat initial \<le> 2 * unat (gas_used (rs_result rs)))) (execute L D spec n initial h)"
proof -
  let ?s = "tx_caller (tx env)" and ?b = "coinbase (block env)"
  have e: "ed_env h = env" using inv by (simp add: evm_inv_def)
  obtain paid g1 where g1: "record_cost (Gas_new (tx_gas_limit (tx env))) initial = (paid, g1)" by fastforce
  show ?thesis
  proof (cases paid)
    case False
    then show ?thesis using g1 e evm_invD(3) [OF inv] by (simp add: execute_def)
  next
    case True
    then have g1: "record_cost (Gas_new (tx_gas_limit (tx env))) initial = (True, g1)" using g1 by simp
    let ?l = "if enabled spec SHANGHAI then load_account D ?b (journaled_state h) (ed_db h) else Val (Inr False, journaled_state h, ed_db h)"
    have "ok (\<lambda>(r, js, db). exact.steps (journaled_state h) js \<and> DI db \<and>
        (\<forall>x. r = Inr x \<longrightarrow> ?b \<in> dom (state js) \<or> readable D DI ?b)) ?l"
      using load_account_steps [OF evm_invD(1,3) [OF inv], of ?b] c evm_invD(1,3) [OF inv]
      by (auto simp: exact.steps_refl elim!: ok_mono)
    then obtain r js db where 1: "?l = Val (r, js, db)" "exact.steps (journaled_state h) js" "DI db"
      "\<And>x. r = Inr x \<Longrightarrow> ?b \<in> dom (state js) \<or> readable D DI ?b" by (auto simp: ok_iff)
    note st = exact_change [OF 1(2)]
    let ?h = "h\<lparr>journaled_state := js, ed_db := db\<rparr>"
    note in1 = evm_inv_step(1) [OF inv conjunct1 [OF st] conjunct2 [OF st] 1(3)]
    let ?g = "snd (record_cost g1 (remaining g1))"
    have run: "execute L D spec n initial h = (case r of Inl e \<Rightarrow> Val (Inl (Database e), ?h) | Inr _ \<Rightarrow>
         bind_comp (transact_inner L D spec n (remaining g1) ?g ?h) (\<lambda>(exit_reason, ret_gas, output, h).
         bind_comp (evm_finalize D spec ?s (returned_gas exit_reason ret_gas ?g) h)
           (\<lambda>(out, h). transact_result exit_reason output out h)))"
      unfolding execute_def Let_def e g1 prod.case not_True_eq_False if_False 1(1) bind_comp.simps ..
    show ?thesis
    proof (cases r)
      case (Inl x)
      then show ?thesis unfolding run using 1(3) by simp
    next
      case (Inr x)
      have in2: "evm_inv DI spec env P (Suc n) js False ?s ?h" using evm_inv_self [OF in1, of False] by simp
      obtain q rg out h2 where 2: "transact_inner L D spec n (remaining g1) ?g ?h = Val (q, rg, out, h2)"
        "evm_inv DI spec env P (Suc n) js False ?s h2" "q = FatalExternalError \<longrightarrow> failed h2" "q \<noteq> Continue"
        "return_ok q \<or> return_revert q \<longrightarrow> gas_wf rg \<and> g_limit rg = remaining g1"
        using transact_inner_ok [OF in2 data, of "remaining g1" L ?g] by (auto simp: ok_iff)
      note ret = returned_gas_ok [OF g1, of q rg, OF 2(5) [rule_format]]
      have "?b \<in> dom (state (journaled_state h2)) \<or> readable D DI ?b" using 1(4) [OF Inr] evm_inv_dom [OF 2(2)] by blast
      from evm_finalize_ok [OF 2(2) this, of "returned_gas q rg ?g"]
      obtain st3 ls used ref h3 where 3: "evm_finalize D spec ?s (returned_gas q rg ?g) h2 = Val ((st3, ls, used, ref), h3)"
        "used = spend (returned_gas q rg ?g) - refund_of spec env (returned_gas q rg ?g)" "ed_error h3 = ed_error h2" "DI (ed_db h3)"
        by (auto simp: ok_iff)
      have f3: "q = FatalExternalError \<longrightarrow> failed h3" using 2(3) 3(3) by (simp add: failed_def)
      have u: "unat used = unat (spend (returned_gas q rg ?g)) - unat (refund_of spec env (returned_gas q rg ?g))"
        "unat (refund_of spec env (returned_gas q rg ?g)) \<le> unat (spend (returned_gas q rg ?g)) div 2"
        using refund_of_le [of spec env "returned_gas q rg ?g"] unfolding 3(2)
        by (auto simp: unat_sub word_le_nat_alt split: if_splits)
      have b: "used \<le> tx_gas_limit (tx env)" "unat initial \<le> 2 * unat used"
        using u ret(3,4) by (auto simp: word_le_nat_alt)
      show ?thesis unfolding run Inr sum.case 2(1) bind_comp.simps prod.case 3(1)
        using transact_result_ok [OF f3 2(4), of used out st3 ls ref] b 3(4) by (auto elim!: ok_mono)
    qed
  qed
qed

end

text \<open>A journal as \<open>EVMImpl::new\<close> creates it.\<close>

definition fresh :: "JournaledState \<Rightarrow> bool" where
  "fresh js \<longleftrightarrow> (\<exists>n. js = JournaledState_new n \<or> js = new_legacy n)"

lemma freshD: "fresh js \<Longrightarrow> state js = Map.empty \<and> journal js = [[]] \<and> depth js = 0 \<and> logs js = []"
  by (auto simp: fresh_def JournaledState_new_def new_legacy_def)

lemma fresh_new: "fresh (journaled_state (EVMImpl_new db env spec P admin))"
  by (auto simp: fresh_def EVMImpl_new_def Let_def)

lemma fresh_codes: "fresh js \<Longrightarrow> codes_ok js"
  using freshD [of js] by (simp add: codes_ok_def state_ok_def)

context database
begin

lemma transact_start:
  assumes "fresh js" "DI db" "load_account D a js db = Val (r, js1, db1)" "state js1 a = Some acc"
    and "setup_ok spec (ed_env h) (ed_precompiles h)" "1026 \<le> n"
  shows "evm_inv DI spec (ed_env h) (ed_precompiles h) n (put_acc a (set_balance b acc) js1) False a
    (put_journal (put_acc a (set_balance b acc) js1) (h\<lparr>journaled_state := js1, ed_db := db1\<rparr>))"
proof -
  have s: "exact.steps js js1" "DI db1" using load_account_steps [OF _ assms(2), of js a] freshD [OF assms(1)] assms(3) by auto
  have j: "journal js1 \<noteq> []" "depth js1 = 0" using exact.steps_journal [OF s(1)] exact.steps_same [OF s(1)] freshD [OF assms(1)] by auto
  have "codes_ok js1" using s(1) fresh_codes [OF assms(1)] by (simp add: exact.steps_def)
  then have "codes_ok (put_acc a (set_balance b acc) js1)"
    using assms(4) by (auto simp: codes_ok_def state_ok_def put_acc_def set_balance_def acc_ok_def)
  then show ?thesis using j s(2) assms(5,6)
    by (auto simp: evm_inv_def put_journal_def put_acc_def intro!: frame_rel_refl)
qed

lemma transact_ok:
  assumes "DI (ed_db h)" "fresh (journaled_state h)"
    and "cfg_memory_limit (cfg (ed_env h)) \<le> limit_MAX" "table_total (ed_precompiles h)"
    and "length (tx_data (tx (ed_env h))) + 128 < 2 ^ 63"
    and "enabled spec SHANGHAI \<or> readable D DI (coinbase (block (ed_env h)))"
  shows "ok (\<lambda>(r, h'). DI (ed_db h') \<and>
      (\<forall>rs. r = Inr rs \<longrightarrow> gas_used (rs_result rs) \<le> tx_gas_limit (tx (ed_env h)))) (transact L D spec frames h)"
proof -
  let ?env = "ed_env h" and ?s = "tx_caller (tx (ed_env h))"
  show ?thesis
  proof (cases "validate_env spec ?env :: 'e EVMError option")
    case (Some e)
    then show ?thesis using assms(1) by (simp add: transact_def)
  next
    case None
    then have su: "setup_ok spec ?env (ed_precompiles h)"
      using assms(3,4) by (auto simp: setup_ok_def validate_env_def split: if_splits)
    obtain r js db where 1: "load_account D ?s (journaled_state h) (ed_db h) = Val (r, js, db)" "DI db"
      "\<And>c. r = Inr c \<Longrightarrow> ?s \<in> dom (state js)"
      using load_account_steps [OF _ assms(1), of "journaled_state h" ?s] freshD [OF assms(2)] by (auto simp: ok_iff)
    show ?thesis
    proof (cases r)
      case (Inl e)
      then show ?thesis using 1 None by (simp add: transact_def)
    next
      case (Inr c)
      then obtain acc where acc: "state js ?s = Some acc" using 1(3) by blast
      let ?h = "put_journal (put_acc ?s (set_balance (prepaid_balance ?env (balance (info acc))) acc) js) (h\<lparr>journaled_state := js, ed_db := db\<rparr>)"
      have inv: "evm_inv DI spec ?env (ed_precompiles h) (Suc frames)
          (put_acc ?s (set_balance (prepaid_balance ?env (balance (info acc))) acc) js) False ?s ?h"
        by (rule transact_start [OF assms(2,1) 1(1) acc su]) (simp add: frames_def)
      have run: "transact L D spec frames h =
          (case validate_caller ?env (info acc) of Some e \<Rightarrow> Val (Inl e, h\<lparr>journaled_state := js, ed_db := db\<rparr>) | None \<Rightarrow>
           case validate_funds ?env (info acc) of Some e \<Rightarrow> Val (Inl e, h\<lparr>journaled_state := js, ed_db := db\<rparr>) | None \<Rightarrow>
           bind_comp (initialization D spec ?h) (\<lambda>(r, h).
             case r of Inl e \<Rightarrow> Val (Inl e, h) | Inr initial_cost \<Rightarrow> execute L D spec frames initial_cost h))"
        unfolding transact_def Let_def None option.case 1(1) bind_comp.simps prod.case Inr sum.case get_acc_def acc unwrap_def ..
      obtain q h2 where 2: "initialization D spec ?h = Val (q, h2)"
        "evm_inv DI spec ?env (ed_precompiles h) (Suc frames) (put_acc ?s (set_balance (prepaid_balance ?env (balance (info acc))) acc) js)
          False ?s h2"
        using initialization_ok [OF inv] by (auto simp: ok_iff)
      have "ok (\<lambda>(r, h'). DI (ed_db h') \<and> (\<forall>rs. r = Inr rs \<longrightarrow> gas_used (rs_result rs) \<le> tx_gas_limit (tx ?env)))
          (case q of Inl e \<Rightarrow> Val (Inl e, h2) | Inr initial_cost \<Rightarrow> execute L D spec frames initial_cost h2)"
      proof (cases q)
        case (Inr c)
        then show ?thesis using execute_ok [OF 2(2) assms(5,6), of c L] by (auto elim!: ok_mono)
      qed (use evm_invD(3) [OF 2(2)] in simp)
      then show ?thesis unfolding run 2(1) bind_comp.simps prod.case using 1(2) by (simp split: option.split)
    qed
  qed
qed

end

section \<open>The contracts of the table return\<close>

text \<open>What the code relies on in the crates: the sizes of digests and encodings, and that a scalar is read from any 32 bytes.\<close>

definition deps_laws :: "('fq, 'fr, 'g1, 'fq2, 'g2, 'gt) Deps \<Rightarrow> bool" where
  "deps_laws X \<longleftrightarrow> (\<forall>bs. length (lib_sha256 (dep_crypto X) bs) = 32) \<and> (\<forall>bs. length (lib_ripemd160 (dep_crypto X) bs) = 20) \<and>
     (\<forall>bs. length bs = 32 \<longrightarrow> fr_from_slice (dep_bn X) bs \<noteq> None) \<and> (\<forall>x. length (fq_to_big_endian (dep_bn X) x) = 32)"

lemma run_inner_out: "out_ok (run_inner B input gas_limit min_gas calc_gas)"
proof -
  obtain mod_len mod_overflow where m: "read_u64_with_overflow input 64 96 0xFFFFFFFF = (mod_len, mod_overflow)" by fastforce
  have "\<not> mod_overflow \<Longrightarrow> mod_len < 0xFFFFFFFF" using m by (auto simp: read_u64_with_overflow_def Let_def)
  then have "\<not> mod_overflow \<Longrightarrow> unat mod_len < 2 ^ 63" by (simp add: word_less_nat_alt)
  then show ?thesis by (auto simp: run_inner_def Let_def m out_ok_def split: prod.splits if_splits)
qed

lemma length_resize [simp]: "length (resize n bs) = n"
  by (simp add: resize_def)

lemma length_point_bytes: "(\<And>x. length (fq_to_big_endian N x) = 32) \<Longrightarrow> length (point_bytes N p) = 64"
  by (simp add: point_bytes_def split: option.split prod.split)

lemma bn_add_out: "(\<And>x. length (fq_to_big_endian N x) = 32) \<Longrightarrow> out_ok (bn_add N cost input gas_limit)"
  by (auto simp: bn_add_def run_add_def out_ok_def propagate_def length_point_bytes Let_def split: sum.splits if_splits)

lemma bn_mul_out:
  assumes "\<And>x. length (fq_to_big_endian N x) = 32" "\<And>bs. length bs = 32 \<Longrightarrow> fr_from_slice N bs \<noteq> None"
  shows "ok out_ok (bn_mul N cost input gas_limit)"
proof -
  have "length (slice 64 32 (resize 128 input)) = 32" by (simp add: slice_def)
  then obtain fr where "fr_from_slice N (slice 64 32 (resize 128 input)) = Some fr" using assms(2) by blast
  then show ?thesis using assms(1)
    by (auto simp: bn_mul_def run_mul_def out_ok_def propagate_def length_point_bytes Let_def split: sum.splits)
qed

lemma run_pair_out: "out_ok (run_pair N input a b gas_limit)"
  by (auto simp: run_pair_def out_ok_def propagate_def Let_def split: sum.splits if_splits)

lemma blake2_out: "out_ok (blake2_run input gas_limit)"
proof -
  have "length (concat (map (to_le_bytes 8) (ws :: u64 list))) = 8 * length ws" for ws
    by (induction ws) (simp_all add: to_le_bytes_def)
  moreover have "length (compress r h m t0 t1 f) = 8" for r h m t0 t1 f by (simp add: compress_def Let_def)
  ultimately show ?thesis by (simp add: blake2_run_def out_ok_def Let_def)
qed

lemma ec_recover_out: "out_ok (ec_recover_run L K input gas_limit)"
  by (auto simp: ec_recover_run_def ecrecover_def out_ok_def Let_def split: option.splits if_splits)

lemma standard_contract_ok:
  assumes "deps_laws X" "Precompiles_get (Precompiles_new X ps) a = Some p" "a \<noteq> u64_to_b160 1337"
  shows "precompile_ok p"
proof -
  have l: "\<And>bs. length (lib_sha256 (dep_crypto X) bs) = 32" "\<And>bs. length (lib_ripemd160 (dep_crypto X) bs) = 20"
      "\<And>bs. length bs = 32 \<Longrightarrow> fr_from_slice (dep_bn X) bs \<noteq> None" "\<And>x. length (fq_to_big_endian (dep_bn X) x) = 32"
    using assms(1) by (simp_all add: deps_laws_def)
  have "p \<in> {snd (ECRECOVER X), snd (SHA256 X), snd (RIPEMD160 X), snd identity_FUN, pure (add_byzantium (dep_bn X)),
      Standard (mul_byzantium (dep_bn X)), pure (pair_byzantium (dep_bn X)), snd (modexp_BYZANTIUM X), snd blake2_FUN,
      pure (add_istanbul (dep_bn X)), Standard (mul_istanbul (dep_bn X)), pure (pair_istanbul (dep_bn X)), snd (modexp_BERLIN X)}"
    using assms(2,3) by (cases ps) (auto simp: table_defs Precompiles_get_def split: if_splits)
  moreover have "precompile_ok (snd (ECRECOVER X))" "precompile_ok (snd (SHA256 X))" "precompile_ok (snd (RIPEMD160 X))"
    "precompile_ok (snd identity_FUN)" "precompile_ok (snd (modexp_BYZANTIUM X))" "precompile_ok (snd blake2_FUN)" "precompile_ok (snd (modexp_BERLIN X))"
    "precompile_ok (pure (add_byzantium (dep_bn X)))" "precompile_ok (pure (add_istanbul (dep_bn X)))"
    "precompile_ok (pure (pair_byzantium (dep_bn X)))" "precompile_ok (pure (pair_istanbul (dep_bn X)))"
    "precompile_ok (Standard (mul_byzantium (dep_bn X)))" "precompile_ok (Standard (mul_istanbul (dep_bn X)))"
    by (simp_all add: precompile_ok_def ECRECOVER_def SHA256_def RIPEMD160_def identity_FUN_def modexp_BYZANTIUM_def blake2_FUN_def
        modexp_BERLIN_def ec_recover_out blake2_out run_pair_out pair_byzantium_def pair_istanbul_def add_byzantium_def
        add_istanbul_def bn_add_out bn_mul_out mul_byzantium_def mul_istanbul_def l run_inner_out byzantium_run_def berlin_run_def
        sha256_run_def ripemd160_run_def identity_run_def Let_def out_ok_def [of "Inr _"] out_ok_def [of "Inl _"])
  ultimately show ?thesis by auto
qed

end
