(* ===== verification/Evm_Properties.thy ===== *)
theory Evm_Properties
  imports Evm_Total State_Properties
begin

text \<open>
  The properties of transactions: they return, they only read the database, their static calls change
  nothing, and their validation, intrinsic gas and settlement agree with arithmetic over the natural
  numbers. The samples give concrete instances: the in-memory database, dependencies over one-element types, and the
  table without the administration contract.
\<close>

section \<open>Samples\<close>

definition unit_bn :: "(unit, unit, unit, unit, unit, unit) bn_ops" where
  "unit_bn = \<lparr> fq_from_slice = \<lambda>_. Some (), fq_zero = (), fq_is_zero = \<lambda>_. True, fq_to_big_endian = \<lambda>_. replicate 32 0,
     fr_from_slice = \<lambda>_. Some (), g1_zero = (), g1_new = \<lambda>_ _. Some (), g1_add = \<lambda>_ _. (), g1_mul = \<lambda>_ _. (),
     g1_from_jacobian = \<lambda>_. None, fq2_new = \<lambda>_ _. (), fq2_is_zero = \<lambda>_. True, g2_zero = (), g2_new = \<lambda>_ _. Some (),
     pairing = \<lambda>_ _. (), gt_one = (), gt_mul = \<lambda>_ _. () \<rparr>"

definition unit_deps :: "(unit, unit, unit, unit, unit, unit) Deps" where
  "unit_deps = \<lparr> dep_libs = no_libs,
     dep_crypto = \<lparr> lib_sha256 = \<lambda>_. replicate 32 0, lib_ripemd160 = \<lambda>_. replicate 20 0, lib_recover = \<lambda>_ _ _. None \<rparr>,
     dep_big = nat_big, dep_bn = unit_bn, dep_write_file = \<lambda>_. Val () \<rparr>"

lemma unit_deps_laws: "deps_laws unit_deps"
  by (simp add: deps_laws_def unit_deps_def unit_bn_def)

text \<open>The table without the administration contract.\<close>

definition standard_table :: "('fq, 'fr, 'g1, 'fq2, 'g2, 'gt) Deps \<Rightarrow> PrecompileSpecId \<Rightarrow> Precompiles" where
  "standard_table X ps = filter (\<lambda>(a, _). a \<noteq> u64_to_b160 1337) (Precompiles_new X ps)"

lemma map_of_filter_key: "map_of (filter (\<lambda>(a, _). P a) xs) k = (if P k then map_of xs k else None)"
  by (induction xs) auto

lemma standard_table_total: "deps_laws X \<Longrightarrow> table_total (standard_table X ps)"
  by (auto simp: table_total_def standard_table_def Precompiles_get_def map_of_filter_key split: if_splits
      intro: standard_contract_ok [unfolded Precompiles_get_def])

abbreviation (input) sample :: "Env \<Rightarrow> (InMemoryDB, unit) EVMData" where
  "sample env \<equiv> EVMImpl_new InMemoryDB_default env LATEST (standard_table unit_deps PS_BERLIN) Admin_init"

lemma default_setup: "setup_ok LATEST Env_default (standard_table unit_deps PS_BERLIN)"
  using standard_table_total [OF unit_deps_laws, of PS_BERLIN]
  by (simp add: setup_ok_def Env_default_def BlockEnv_default_def CfgEnv_default_def limit_MAX_def isize_MAX_def)

definition sample_host :: "State \<Rightarrow> (InMemoryDB, unit) EVMData" where
  "sample_host st = (sample Env_default)\<lparr>journaled_state := (JournaledState_new 9)\<lparr>state := st\<rparr>\<rparr>"

definition sample_call :: "B160 \<Rightarrow> B160 \<Rightarrow> CallInputs" where
  "sample_call a b = \<lparr> ci_contract = b, ci_transfer = \<lparr> tr_source = a, tr_target = b, tr_value = 0 \<rparr>, ci_input = [],
     ci_gas_limit = 50000, ci_context = \<lparr> ctx_address = b, ctx_caller = a, ctx_code_address = b, ctx_apparent_value = 0,
       ctx_scheme = CallScheme_StaticCall \<rparr>, ci_is_static = True \<rparr>"

section \<open>Transactions return\<close>





section \<open>The database is only read\<close>

lemma same_reads_trans: "same_reads X a b \<Longrightarrow> same_reads X b c \<Longrightarrow> same_reads X a c"
  by (simp add: same_reads_def)

lemma cdb_keeps_db:
  "cdb_db (snd (cdb_basic X c a)) = cdb_db c" "cdb_db (snd (cdb_storage X c a k)) = cdb_db c"
  "cdb_db (snd (cdb_code_by_hash X c hash)) = cdb_db c" "cdb_db (snd (cdb_block_hash X c n)) = cdb_db c"
  by (auto simp: cdb_basic_def cdb_storage_def cdb_code_by_hash_def cdb_block_hash_def Let_def split: option.splits sum.splits)

context ref_database
begin

lemma reading_database:
  assumes "XI x" "ref_sound X x"
  shows "database (CacheDB_ops X) (\<lambda>c. cache_codes_ok c \<and> cdb_db c = x \<and> same_reads X c0 c)"
proof (unfold_locales, goal_cases)
  case (1 db a r db')
  then show ?case using cdb_basic_ok [of db a r db'] cdb_basic_transparent [of X db a] cdb_keeps_db(1) [of X db a] assms
    by (auto simp: CacheDB_ops_def cache_inv_def intro: same_reads_trans)
next
  case (2 db hash r db')
  then show ?case using cdb_code_by_hash_ok [of db hash r db'] cdb_code_transparent [of X db hash] cdb_keeps_db(3) [of X db hash] assms
    by (auto simp: CacheDB_ops_def cache_inv_def intro: same_reads_trans)
next
  case (3 db a k r db')
  then show ?case using cdb_storage_ok [of db a k r db'] cdb_storage_transparent [of X db a k] cdb_keeps_db(2) [of X db a k] assms
    by (auto simp: CacheDB_ops_def cache_inv_def intro: same_reads_trans)
next
  case (4 db n r db')
  then show ?case using cdb_block_hash_ok [of db n r db'] cdb_block_hash_transparent [of X db n] cdb_keeps_db(4) [of X db n] assms
    by (auto simp: CacheDB_ops_def cache_inv_def intro: same_reads_trans)
qed

end



section \<open>Static calls\<close>



section \<open>Funds\<close>

text \<open>The most a transaction can cost its caller.\<close>

definition max_payment :: "Env \<Rightarrow> nat" where
  "max_payment env = unat (tx_gas_limit (tx env)) * unat (tx_gas_price (tx env)) + unat (tx_value (tx env))"

lemma effective_le_price: "effective_gas_price env \<le> tx_gas_price (tx env)"
  by (simp add: effective_gas_price_def split: option.split)

lemma unat_gas_price:
  "unat x * unat p < 2 ^ 256 \<Longrightarrow> unat (ucast (x :: u64) * p :: U256) = unat x * unat p"
  by (simp add: unat_word_ariths(2) unat_ucast_64_256)

lemma payment_check:
  "Option.bind (checked_mul (ucast (tx_gas_limit (tx env))) (tx_gas_price (tx env))) (\<lambda>cost. checked_add cost (tx_value (tx env))) =
     (if max_payment env < 2 ^ 256 then Some (of_nat (max_payment env)) else None)"
proof (cases "unat (tx_gas_limit (tx env)) * unat (tx_gas_price (tx env)) < 2 ^ 256")
  case True
  then show ?thesis using unat_gas_price [OF True]
    by (simp add: checked_mul_def checked_add_def max_payment_def unat_ucast_64_256 word_unat_eq_iff unat_of_nat unat_word_ariths(1))
next
  case False
  then show ?thesis by (simp add: checked_mul_def max_payment_def unat_ucast_64_256)
qed

lemma prepaid_exact:
  assumes "max_payment env \<le> unat b"
  shows "unat (prepaid_balance env b) = unat b - unat (tx_gas_limit (tx env)) * unat (effective_gas_price env)"
    "tx_value (tx env) \<le> prepaid_balance env b"
proof -
  let ?e = "unat (tx_gas_limit (tx env)) * unat (effective_gas_price env)"
  have le: "?e \<le> unat (tx_gas_limit (tx env)) * unat (tx_gas_price (tx env))"
    using effective_le_price [of env] by (simp add: word_le_nat_alt)
  then have v: "?e + unat (tx_value (tx env)) \<le> unat b" using assms unfolding max_payment_def by linarith
  then have "?e < 2 ^ 256" using unsigned_less [of b, where ?'a = nat] by simp
  note u = unat_gas_price [OF this]
  show p: "unat (prepaid_balance env b) = unat b - ?e"
    using u v by (simp add: prepaid_balance_def checked_sub_def word_le_nat_alt unat_sub)
  show "tx_value (tx env) \<le> prepaid_balance env b" using p v by (simp add: word_le_nat_alt)
qed

text \<open>
  C17. The check of the caller's funds is the one over the natural numbers: with
  \<open>gas_limit * gas_price + value\<close> computed without wrap-around, the transaction is refused as an overflow
  when it does not fit 256 bits, as a lack of funds when it exceeds the balance (unless the check is
  disabled), and passes otherwise. Whenever the balance covers it, taking the gas from the balance
  does not wrap, and leaves at least the value that is to be transferred.
\<close>
theorem funds_check_exact:
  "validate_funds env i =
     (if 2 ^ 256 \<le> max_payment env then Some (Transaction OverflowPaymentInTransaction)
      else if unat (balance i) < max_payment env \<and> \<not> disable_balance_check (cfg env)
      then Some (Transaction (LackOfFundForGasLimit (of_nat (max_payment env)) (balance i)))
      else None) \<and>
   (max_payment env \<le> unat (balance i) \<longrightarrow>
      unat (prepaid_balance env (balance i)) =
        unat (balance i) - unat (tx_gas_limit (tx env)) * unat (effective_gas_price env) \<and>
      tx_value (tx env) \<le> prepaid_balance env (balance i))"
  using prepaid_exact [of env "balance i"]
  by (simp add: validate_funds_def payment_check word_less_nat_alt unat_of_nat)

theorem funds_check_exact_witness:
  "prepaid_balance (Env_default\<lparr>tx := TxEnv_default\<lparr>tx_gas_limit := 100, tx_gas_price := 3, tx_value := 7\<rparr>\<rparr>) 307 = 7"
proof -
  let ?e = "Env_default\<lparr>tx := TxEnv_default\<lparr>tx_gas_limit := 100, tx_gas_price := 3, tx_value := 7\<rparr>\<rparr>"
  have "max_payment ?e = 307" "effective_gas_price ?e = 3" by (simp_all add: max_payment_def effective_gas_price_def TxEnv_default_def)
  then have "unat (prepaid_balance ?e 307) = 7"
    using conjunct2 [OF funds_check_exact [of ?e "from_balance 307"]] by (simp add: from_balance_def TxEnv_default_def AccountInfo_default_def)
  then show ?thesis by (simp add: word_unat_eq_iff)
qed

section \<open>Intrinsic gas\<close>

text \<open>The price of a transaction before it runs, over the natural numbers.\<close>

definition intrinsic_cost :: "SpecId \<Rightarrow> Env \<Rightarrow> nat" where
  "intrinsic_cost spec env =
     (let t = tx env; zeros = length (filter (\<lambda>b. b = 0) (tx_data t)) in
      (if is_create (transact_to t) \<and> enabled spec HOMESTEAD then 53000 else 21000) +
      4 * zeros + (if enabled spec ISTANBUL then 16 else 68) * (length (tx_data t) - zeros) +
      (if enabled spec BERLIN then 2400 * length (access_list t) + 1900 * sum_list (map (length \<circ> snd) (access_list t)) else 0) +
      (if enabled spec SHANGHAI \<and> is_create (transact_to t) then 2 * ((length (tx_data t) + 31) div 32) else 0))"

lemma access_accounts_count:
  "access_accounts D xs c js db = Val (Inr n, js', db') \<Longrightarrow> n = c + of_nat (sum_list (map (length \<circ> snd) xs))"
proof (induction xs arbitrary: c js db)
  case (Cons x xs)
  obtain a slots where x: "x = (a, slots)" by fastforce
  obtain r1 js1 db1 where 1: "load_account D a js db = Val (r1, js1, db1)"
    using Cons.prems x by (auto simp: bind_comp_Val_iff)
  obtain c1 where r1: "r1 = Inr c1" using Cons.prems x 1 by (cases r1) auto
  obtain r2 js2 db2 where 2: "access_slots D a slots js1 db1 = Val (r2, js2, db2)"
    using Cons.prems x 1 r1 by (auto simp: bind_comp_Val_iff)
  have "access_accounts D xs (c + of_nat (length slots)) js2 db2 = Val (Inr n, js', db')"
    using Cons.prems x 1 r1 2 by (cases r2) auto
  from Cons.IH [OF this] show ?case using x by simp
qed simp

lemma initcode_cost_of_nat: "n < 2 ^ 64 \<Longrightarrow> initcode_cost (of_nat n) = of_nat (2 * ((n + 31) div 32))"
proof -
  assume n: "n < 2 ^ 64"
  then have "2 * ((n + 31) div 32) < 2 ^ 64" by simp
  then have "unat (of_nat (2 * ((n + 31) div 32)) :: u64) = 2 * ((n + 31) div 32)" by (simp only: unat_of_nat) simp
  with n show ?thesis by (simp only: word_unat_eq_iff initcode_cost_eq) (simp add: unat_of_nat)
qed

lemma intrinsic_gas_of_nat:
  assumes "length (tx_data (tx env)) < 2 ^ 64"
  shows "intrinsic_gas spec env
      (if enabled spec SHANGHAI \<and> is_create (transact_to (tx env)) then initcode_cost (of_nat (length (tx_data (tx env)))) else 0)
      (if enabled spec BERLIN then of_nat (sum_list (map (length \<circ> snd) (access_list (tx env)))) else 0) =
      of_nat (intrinsic_cost spec env)"
  using length_filter_le [of "\<lambda>b. b = 0" "tx_data (tx env)"] assms
  by (simp add: intrinsic_gas_def intrinsic_cost_def Let_def initcode_cost_of_nat)

lemma intrinsic_cost_data: "length (tx_data (tx env)) \<le> intrinsic_cost spec env"
proof -
  let ?z = "length (filter (\<lambda>b. b = 0) (tx_data (tx env)))"
  have "length (tx_data (tx env)) \<le> 4 * ?z + q * (length (tx_data (tx env)) - ?z)" if "1 \<le> q" for q
    using mult_le_mono1 [OF that, of "length (tx_data (tx env)) - ?z"] length_filter_le [of "\<lambda>b. b = 0" "tx_data (tx env)"] by linarith
  from this [of 16] this [of 68] show ?thesis by (auto simp: intrinsic_cost_def Let_def)
qed

lemma initialization_cost:
  assumes "initialization D spec h = Val (Inr cost, h')"
  obtains n js db where "(if enabled spec BERLIN then access_accounts D (access_list (tx (ed_env h))) 0 (journaled_state h) (ed_db h)
      else Val (Inr 0, journaled_state h, ed_db h)) = Val (Inr n, js, db)"
    "cost = intrinsic_gas spec (ed_env h) (if enabled spec SHANGHAI \<and> is_create (transact_to (tx (ed_env h)))
       then initcode_cost (of_nat (length (tx_data (tx (ed_env h))))) else 0) n"
proof -
  let ?a = "if enabled spec BERLIN then access_accounts D (access_list (tx (ed_env h))) 0 (journaled_state h) (ed_db h)
      else Val (Inr 0, journaled_state h, ed_db h)"
  obtain x where x: "?a = Val x"
    using assms unfolding initialization_def Let_def by (cases ?a) (simp_all split: if_split_asm)
  obtain r js db where r: "?a = Val (r, js, db)" using x by (cases x) auto
  show thesis
  proof (cases r)
    case (Inl e)
    then show ?thesis using assms unfolding initialization_def Let_def r by (simp split: if_split_asm)
  next
    case (Inr n)
    then show ?thesis using assms that [of n js db] r unfolding initialization_def Let_def r by (simp split: if_split_asm)
  qed
qed

text \<open>
  C18. The intrinsic gas of a transaction is the sum of the specification: the base price of a call or a
  creation, the price of every zero and every other byte of the data, from Berlin on of every address
  and every storage key of the access list, and from Shanghai on of every word of the initialisation
  code. It is exact as long as the sum fits 64 bits.
\<close>
theorem intrinsic_gas_exact:
  assumes "initialization D spec h = Val (Inr cost, h')" "intrinsic_cost spec (ed_env h) < 2 ^ 64"
  shows "unat cost = intrinsic_cost spec (ed_env h)"
proof -
  let ?env = "ed_env h" and ?m = "enabled spec SHANGHAI \<and> is_create (transact_to (tx (ed_env h)))"
  obtain n js db where n: "(if enabled spec BERLIN then access_accounts D (access_list (tx ?env)) 0 (journaled_state h) (ed_db h)
      else Val (Inr 0, journaled_state h, ed_db h)) = Val (Inr n, js, db)"
    "cost = intrinsic_gas spec ?env (if ?m then initcode_cost (of_nat (length (tx_data (tx ?env)))) else 0) n"
    by (rule initialization_cost [OF assms(1)])
  then have "n = (if enabled spec BERLIN then of_nat (sum_list (map (length \<circ> snd) (access_list (tx ?env)))) else 0)"
    using access_accounts_count [of D "access_list (tx ?env)" 0] by (auto split: if_splits)
  with n(2) have "cost = of_nat (intrinsic_cost spec ?env)"
    using intrinsic_gas_of_nat [of ?env spec] intrinsic_cost_data [of ?env spec] assms(2) by simp
  then show ?thesis using assms(2) by (simp add: unat_of_nat)
qed

theorem intrinsic_gas_exact_witness:
  "\<exists>h'. initialization inmem_ops LATEST (sample (Env_default\<lparr>tx := TxEnv_default\<lparr>tx_data := [0, 5, 0]\<rparr>\<rparr>)) = Val (Inr 21024, h')"
proof -
  let ?h = "sample (Env_default\<lparr>tx := TxEnv_default\<lparr>tx_data := [0, 5, 0]\<rparr>\<rparr>)"
  have e: "ed_env ?h = Env_default\<lparr>tx := TxEnv_default\<lparr>tx_data := [0, 5, 0]\<rparr>\<rparr>" by (simp add: EVMImpl_new_def)
  have c: "intrinsic_cost LATEST (ed_env ?h) = 21024"
    unfolding e by (simp add: intrinsic_cost_def TxEnv_default_def enabled_def Let_def)
  obtain cost h' where i: "initialization inmem_ops LATEST ?h = Val (Inr cost, h')"
    unfolding initialization_def Let_def e by (simp add: TxEnv_default_def enabled_def)
  have "cost = 21024" using intrinsic_gas_exact [OF i] c by (simp add: word_unat_eq_iff)
  then show ?thesis using i by blast
qed

section \<open>Settlement\<close>

text \<open>The price per unit of gas that goes to the block's beneficiary.\<close>

definition tip :: "SpecId \<Rightarrow> Env \<Rightarrow> nat" where
  "tip spec env = unat (effective_gas_price env) - (if enabled spec LONDON then unat (basefee (block env)) else 0)"

lemma saturating_pay:
  fixes b q :: U256 and x :: u64
  assumes "unat b + p * unat x < 2 ^ 256" "unat q = p"
  shows "unat (saturating_add b (q * ucast x)) = unat b + p * unat x"
proof -
  have "unat (q * ucast x) = p * unat x" using unat_gas_price [of x q] assms by (simp add: mult.commute)
  then show ?thesis using assms by (simp add: saturating_add_def unat_add_nowrap)
qed

lemma gas_shares:
  assumes "gas_wf gas'"
  shows "unat (remaining gas' + refund_of spec env gas') = unat (g_limit gas') - unat (spend gas' - refund_of spec env gas')"
    "unat (spend gas' - refund_of spec env gas') \<le> unat (g_limit gas')"
proof -
  have "unat (refund_of spec env gas') \<le> unat (spend gas') div 2"
    using refund_of_le [of spec env gas'] by (auto split: if_splits)
  moreover have s: "unat (spend gas') \<le> unat (g_limit gas')" "unat (remaining gas') = unat (g_limit gas') - unat (spend gas')"
    using assms unat_remaining [OF assms] by (simp_all add: spend_def gas_wf_def word_le_nat_alt)
  ultimately have r: "refund_of spec env gas' \<le> spend gas'" by (simp add: word_le_nat_alt)
  have u: "unat (spend gas' - refund_of spec env gas') = unat (spend gas') - unat (refund_of spec env gas')"
    using r by (rule unat_sub)
  have "unat (remaining gas') + unat (refund_of spec env gas') \<le> unat (g_limit gas')"
    using s r by (simp add: word_le_nat_alt)
  then have a: "unat (remaining gas' + refund_of spec env gas') = unat (remaining gas') + unat (refund_of spec env gas')"
    using unsigned_less [of "g_limit gas'", where ?'a = nat] by (intro unat_add_nowrap) simp
  show "unat (remaining gas' + refund_of spec env gas') = unat (g_limit gas') - unat (spend gas' - refund_of spec env gas')"
    "unat (spend gas' - refund_of spec env gas') \<le> unat (g_limit gas')"
    using a u s r by (auto simp: word_le_nat_alt)
qed

text \<open>
  C16. The settlement of a transaction's fees is exact: of the gas that was spent, a refund of at most a
  half (a fifth from London on) is deducted; the caller is given back the price of all the gas of its
  limit that was not used, the beneficiary of the block is given the price less the base fee (from
  London on) for the gas that was used, no other account changes, and the state that is returned
  holds the touched accounts and the logs. For a caller that is not the beneficiary, both loaded, the caller touched, where the
  balances do not overflow.
\<close>
theorem settlement_exact:
  assumes "journal (journaled_state h) \<noteq> []" "gas_wf gas'" "coinbase (block (ed_env h)) \<noteq> caller"
    and "state (journaled_state h) caller = Some c" "is_touched c"
    and "state (journaled_state h) (coinbase (block (ed_env h))) = Some b"
    and "\<not> perf_all_precompiles_have_balance (cfg (ed_env h))"
    and "unat (balance (info c)) + unat (effective_gas_price (ed_env h)) * unat (g_limit gas') < 2 ^ 256"
    and "unat (balance (info b)) + unat (effective_gas_price (ed_env h)) * unat (g_limit gas') < 2 ^ 256"
  shows "ok (\<lambda>((st, ls, used, refunded), h').
      unat used + unat refunded = unat (spend gas') \<and> 
      refunded = (if disable_gas_refund (cfg (ed_env h)) then 0
        else min (g_refunded gas') (spend gas' div (if enabled spec LONDON then 5 else 2))) \<and>
      (\<exists>c' b'. st caller = Some c' \<and> st (coinbase (block (ed_env h))) = Some b' \<and>
         unat (balance (info c')) =
           unat (balance (info c)) + unat (effective_gas_price (ed_env h)) * (unat (g_limit gas') - unat used) \<and>
         unat (balance (info b')) = unat (balance (info b)) + tip spec (ed_env h) * unat used) \<and>
      (\<forall>a. a \<noteq> caller \<longrightarrow> a \<noteq> coinbase (block (ed_env h)) \<longrightarrow> st a =
         (case state (journaled_state h) a of Some x \<Rightarrow> if is_touched x then Some x else None | None \<Rightarrow> None)) \<and>
      ls = logs (journaled_state h))
    (evm_finalize D spec caller gas' h)"
proof -
  let ?env = "ed_env h" and ?b = "coinbase (block (ed_env h))" and ?r = "refund_of spec (ed_env h) gas'"
  let ?price = "effective_gas_price ?env" and ?used = "spend gas' - refund_of spec (ed_env h) gas'"
  let ?cp = "if enabled spec LONDON then saturating_sub ?price (basefee (block ?env)) else ?price"
  have cp: "unat ?cp = tip spec ?env" "tip spec ?env \<le> unat ?price" by (simp_all add: tip_def saturating_sub_def unat_sub word_le_nat_alt)
  note sh = gas_shares [OF assms(2), of spec ?env]
  have r: "unat ?r \<le> unat (spend gas') div (if enabled spec LONDON then 5 else 2)" by (rule refund_of_le)
  then have r': "unat ?used + unat ?r = unat (spend gas')" "?r = (if disable_gas_refund (cfg ?env) then 0
        else min (g_refunded gas') (spend gas' div (if enabled spec LONDON then 5 else 2)))"
    by (auto simp: unat_sub word_le_nat_alt split: if_splits) (auto simp: refund_of_def Let_def)
  have "tip spec ?env * unat ?used \<le> unat ?price * unat (g_limit gas')" using cp(2) sh(2) by (rule mult_le_mono)
  then have pb: "unat (saturating_add (balance (info b)) (?cp * ucast ?used)) = unat (balance (info b)) + tip spec ?env * unat ?used"
    using assms(9) by (intro saturating_pay cp(1)) simp
  have "unat ?price * (unat (g_limit gas') - unat ?used) \<le> unat ?price * unat (g_limit gas')" by (intro mult_le_mono2 diff_le_self)
  then have "unat (balance (info c)) + unat ?price * unat (remaining gas' + ?r) < 2 ^ 256" unfolding sh(1) using assms(8) by linarith
  from saturating_pay [OF this refl] have pc: "unat (saturating_add (balance (info c)) (?price * ucast (remaining gas' + ?r))) =
      unat (balance (info c)) + unat ?price * (unat (g_limit gas') - unat ?used)" unfolding sh(1) .
  let ?c = "set_balance (saturating_add (balance (info c)) (?price * ucast (remaining gas' + ?r))) c"
  let ?js1 = "put_acc caller ?c (journaled_state h)"
  have 1: "set_acc_balance caller (\<lambda>bal. saturating_add bal (?price * ucast (remaining gas' + ?r))) (journaled_state h) = Val ?js1"
    using assms(4) by (simp add: set_acc_balance_def get_acc_def)
  have b1: "state ?js1 ?b = Some b" using assms(3,6) by (simp add: put_acc_def)
  have 2: "load_account D ?b ?js1 (ed_db h) = Val (Inr False, ?js1, ed_db h)" using b1 by (simp add: load_account_def)
  obtain js3 where 3: "touch ?b ?js1 = Val js3" "state js3 = (state ?js1)(?b \<mapsto> b\<lparr>is_touched := True\<rparr>)" "logs js3 = logs ?js1"
  proof -
    have "\<exists>js3. touch_account ?b ?js1 = Val js3"
      using b1 assms(1) by (auto simp: touch_account_def get_acc_def push_entry_def put_acc_def)
    then show thesis using that touch_account_state [of ?b ?js1] b1 by (fastforce simp: touch_def)
  qed
  let ?js4 = "put_acc ?b (set_balance (saturating_add (balance (info b)) (?cp * ucast ?used)) (b\<lparr>is_touched := True\<rparr>)) js3"
  have 4: "set_acc_balance ?b (\<lambda>bal. saturating_add bal (?cp * ucast ?used)) js3 = Val ?js4"
    by (simp add: set_acc_balance_def get_acc_def 3(2))
  have run: "evm_finalize D spec caller gas' h = (let (st, ls, js) = finalize ?js4 in
      Val ((st, ls, ?used, ?r), h\<lparr>journaled_state := js, ed_db := ed_db h\<rparr>))"
    unfolding evm_finalize_def Let_def 1 bind_comp.simps 2 prod.case 3(1) 4 using assms(7) by (simp add: split_beta)
  show ?thesis unfolding run using assms(3,5) pb pc r' 3(2,3)
    by (auto simp: finalize_def Let_def put_acc_def set_balance_def)
qed

theorem settlement_exact_witness:
  "ok (\<lambda>((st, ls, used, refunded), h'). \<exists>c' b'. st 1 = Some c' \<and> unat (balance (info c')) = 1300 \<and>
      st 0 = Some b' \<and> unat (balance (info b')) = 1800)
    (evm_finalize inmem_ops LATEST 1 (snd (record_cost (Gas_new 1000) 600))
      ((sample_host [1 \<mapsto> (Account_from (from_balance 100))\<lparr>is_touched := True\<rparr>, 0 \<mapsto> new_not_existing])
        \<lparr>ed_env := Env_default\<lparr>tx := TxEnv_default\<lparr>tx_gas_price := 3\<rparr>\<rparr>\<rparr>))"
proof -
  let ?g = "snd (record_cost (Gas_new 1000) 600)"
  let ?h = "(sample_host [1 \<mapsto> (Account_from (from_balance 100))\<lparr>is_touched := True\<rparr>, 0 \<mapsto> new_not_existing])
        \<lparr>ed_env := Env_default\<lparr>tx := TxEnv_default\<lparr>tx_gas_price := 3\<rparr>\<rparr>\<rparr>"
  have g: "gas_wf ?g" "g_limit ?g = 1000" "spend ?g = 600" "refund_of LATEST (ed_env ?h) ?g = 0"
    by (simp_all add: record_cost_def overflowing_add_def Gas_new_def gas_wf_def spend_def refund_of_def Let_def)
  have e: "effective_gas_price (ed_env ?h) = 3" "coinbase (block (ed_env ?h)) = 0" "basefee (block (ed_env ?h)) = 0"
      "\<not> perf_all_precompiles_have_balance (cfg (ed_env ?h))" "\<not> disable_gas_refund (cfg (ed_env ?h))"
    by (simp_all add: effective_gas_price_def TxEnv_default_def Env_default_def BlockEnv_default_def CfgEnv_default_def)
  have s: "state (journaled_state ?h) = [1 \<mapsto> (Account_from (from_balance 100))\<lparr>is_touched := True\<rparr>, 0 \<mapsto> new_not_existing]"
    "journal (journaled_state ?h) \<noteq> []" by (simp_all add: sample_host_def JournaledState_new_def)
  have b: "balance (info ((Account_from (from_balance 100))\<lparr>is_touched := True\<rparr>)) = 100" "balance (info new_not_existing) = 0"
    by (simp_all add: Account_from_def from_balance_def new_not_existing_def AccountInfo_default_def)
  have r: "g_refunded ?g = 0" "enabled LATEST LONDON" by (simp_all add: record_cost_def overflowing_add_def Gas_new_def enabled_def)
  note e = e [simplified]
  show ?thesis
    by (rule ok_mono [OF settlement_exact [of ?h ?g 1 "(Account_from (from_balance 100))\<lparr>is_touched := True\<rparr>" new_not_existing]])
      (use s b in \<open>auto simp: tip_def g e r\<close>)
qed

end
