(* ===== verification/Inspect_Properties.thy ===== *)
theory Inspect_Properties
  imports Inspect_Simulation Evm_Properties
begin

text \<open>
  The properties of inspection: every inspector of the crate leaves transactions as they are, the EIP-3155
  tracer writes one exact line per instruction of a frame, and prints stack words in their shortest
  hexadecimal form. \<open>frame_trace\<close> is the specification of the trace, over the plain interpreter.
\<close>

section \<open>The trace of a frame\<close>

definition trace_line :: "(bytes \<Rightarrow> string) \<Rightarrow> ('db, 'e) EVMData machine \<Rightarrow> ('db, 'e) EVMData machine \<Rightarrow> LogLine" where
  "trace_line hex_encode m m' =
     \<lparr> ll_pc = instruction_pointer m, ll_op = code_of m ! instruction_pointer m,
       ll_gas = format_hex (remaining (gas m)),
       ll_gasCost = format_hex (saturating_sub (remaining (gas m)) (remaining (gas m'))),
       ll_memSize = length (memory m), ll_stack = map (short_hex hex_encode) (stack m),
       ll_depth = depth (journaled_state (host m')),
       ll_opName = OPCODE_JUMPMAP ! unat (code_of m ! instruction_pointer m) \<rparr>"

fun frame_trace ::
  "(bytes \<Rightarrow> string) \<Rightarrow> Libs \<Rightarrow> ('db, 'e) db_ops \<Rightarrow> SpecId \<Rightarrow> nat \<Rightarrow> ('db, 'e) EVMData machine \<Rightarrow> LogLine list" where
  "frame_trace hex_encode L D spec 0 m = []"
| "frame_trace hex_encode L D spec (Suc fuel) m =
     (if instruction_result m = Continue then
        (case step L (evm_host L D spec 0) spec m of
           Val m' \<Rightarrow> trace_line hex_encode m m' # frame_trace hex_encode L D spec fuel m'
         | _ \<Rightarrow> [])
      else [])"

lemma tracer_run:
  assumes "run L (evm_host L D spec 0) spec fuel m = Val m'" "fuel \<le> f'"
    "\<not> t_skip t" "gi_gas_remaining (t_gas_inspector t) = remaining (gas m)"
  shows "\<exists>t'. run_inspect L (inspect_host (tracer_eip3155 hex_encode) L D spec f n) (impl_steps (tracer_eip3155 hex_encode)) spec f'
       (machine_of (interpreter.truncate m) \<lparr>imp_data = host m, imp_inspector = t\<rparr>) =
     Val (instruction_result m', machine_of (interpreter.truncate m') \<lparr>imp_data = host m', imp_inspector = t'\<rparr>) \<and>
     t_output t' = t_output t @ map StepLine (frame_trace hex_encode L D spec fuel m)"
  using assms
proof (induction fuel arbitrary: m t f')
  case 0
  then show ?case by (auto simp: run_inspect.simps [where fuel = f'] split: if_splits)
next
  case (Suc fuel)
  show ?case
  proof (cases "instruction_result m = Continue")
    case False
    with Suc.prems show ?thesis by (auto simp: run_inspect.simps [where fuel = f'])
  next
    case True
    then obtain m1 where m1: "step L (evm_host L D spec 0) spec m = Val m1" "run L (evm_host L D spec 0) spec fuel m1 = Val m'"
      using Suc.prems(1) by (auto simp: bind_comp_Val_iff)
    have op: "current_opcode m = Val (code_of m ! instruction_pointer m)"
      using m1(1) by (auto simp: step_def bind_comp_Val_iff current_opcode_def split: if_splits)
    define t1 where "t1 = t\<lparr>t_stack := stack m, t_pc := instruction_pointer m, t_opcode := code_of m ! instruction_pointer m,
      t_mem_size := length (memory m), t_gas := remaining (gas m)\<rparr>"
    define t2 where "t2 = t_step_end hex_encode (interpreter.truncate m1) (host m1) t1"
    obtain f'' where f'': "f' = Suc f''" "fuel \<le> f''" using Suc.prems(2) by (cases f') auto
    have gas1: "gi_step_end (interpreter.truncate m1) (t_gas_inspector t) =
        \<lparr>gi_gas_remaining = remaining (gas m1), gi_last_gas_cost = saturating_sub (remaining (gas m)) (remaining (gas m1))\<rparr>"
      using Suc.prems(4) by (cases "t_gas_inspector t") (auto simp: gi_step_end_def saturating_sub_def Let_def)
    have t2: "\<not> t_skip t2" "gi_gas_remaining (t_gas_inspector t2) = remaining (gas m1)"
      "t_output t2 = t_output t @ [StepLine (trace_line hex_encode m m1)]"
      using Suc.prems(3) gas1
      by (simp_all add: t2_def t1_def t_step_end_def print_log_line_def t_writeln_def Let_def trace_line_def)
    have "run_inspect L (inspect_host (tracer_eip3155 hex_encode) L D spec f n) (impl_steps (tracer_eip3155 hex_encode)) spec f'
        (machine_of (interpreter.truncate m) \<lparr>imp_data = host m, imp_inspector = t\<rparr>) =
      run_inspect L (inspect_host (tracer_eip3155 hex_encode) L D spec f n) (impl_steps (tracer_eip3155 hex_encode)) spec f''
        (machine_of (interpreter.truncate m1) \<lparr>imp_data = host m1, imp_inspector = t2\<rparr>)"
      unfolding f''(1) using True m1(1)
    proof (rule tracer.iteration)
      show "ins_step (tracer_eip3155 hex_encode) (interpreter.truncate m) (is_static m) (host m) t =
          Val ((Continue, interpreter.truncate m), host m, t1)"
        using op Suc.prems(4) by (simp add: inspector_defs t_step_def t1_def program_counter_def)
      show "ins_step_end (tracer_eip3155 hex_encode) (interpreter.truncate m1) (is_static m1) (instruction_result m1) (host m1) t1 =
          Val ((Continue, interpreter.truncate m1), host m1, t2)"
        by (simp add: inspector_defs t2_def)
    qed
    with Suc.IH [OF m1(2) f''(2) t2(1,2)] t2(3) True m1(1) show ?thesis by auto
  qed
qed


definition sample_contract :: "bytes \<Rightarrow> Contract" where
  "sample_contract bs = \<lparr> ct_input = [], ct_bytecode = \<lparr> bl_bytecode = bs, bl_len = 1, bl_hash = 0, bl_jump_map = [] \<rparr>,
     ct_address = 1, ct_caller = 2, ct_value = 0 \<rparr>"

section \<open>Hexadecimal numbers\<close>

definition hex_byte :: "u8 \<Rightarrow> string" where
  "hex_byte b = [hex_digit (unat b div 16), hex_digit (unat b mod 16)]"

definition hex_value :: "char \<Rightarrow> nat" where
  "hex_value c = (if of_char c < (58 :: nat) then of_char c - 48 else of_char c - 87)"

fun parse_hex :: "nat \<Rightarrow> string \<Rightarrow> nat" where
  "parse_hex acc [] = acc"
| "parse_hex acc (c # cs) = parse_hex (16 * acc + hex_value c) cs"

lemma hex_digit_table:
  "\<forall>n \<in> set [0..<16]. hex_value (hex_digit n) = n \<and> (hex_digit n = CHR ''0'' \<longleftrightarrow> n = 0)"
  by code_simp

lemma hex_digit_laws:
  assumes "n < 16"
  shows "hex_value (hex_digit n) = n" "hex_digit n = CHR ''0'' \<longleftrightarrow> n = 0"
  using hex_digit_table assms by auto

lemma lower_hex_simps:
  "n < 16 \<Longrightarrow> lower_hex n = [hex_digit n]"
  "\<not> n < 16 \<Longrightarrow> lower_hex n = lower_hex (n div 16) @ [hex_digit (n mod 16)]"
  by (simp_all add: lower_hex.simps [of n])

lemma parse_hex_append: "parse_hex acc (xs @ ys) = parse_hex (parse_hex acc xs) ys"
  by (induction acc xs rule: parse_hex.induct) simp_all

lemma parse_lower_hex: "parse_hex 0 (lower_hex n) = n"
proof (induction n rule: lower_hex.induct)
  case (1 n)
  then show ?case by (cases "n < 16") (simp_all add: lower_hex_simps parse_hex_append hex_digit_laws)
qed

fun hex_digits :: "nat \<Rightarrow> nat \<Rightarrow> string" where
  "hex_digits 0 x = []"
| "hex_digits (Suc n) x = hex_digits n (x div 16) @ [hex_digit (x mod 16)]"

lemma lower_hex_nonempty: "lower_hex n \<noteq> []"
  by (cases "n < 16") (simp_all add: lower_hex_simps)

lemma dropWhile_hex_digits:
  "x < 16 ^ n \<Longrightarrow> dropWhile (\<lambda>c. c = CHR ''0'') (hex_digits n x) = (if x = 0 then [] else lower_hex x)"
proof (induction n x rule: hex_digits.induct)
  case (2 n x)
  let ?z = "\<lambda>c. c = CHR ''0''" and ?xs = "hex_digits n (x div 16)"
  have IH: "dropWhile ?z ?xs = (if x div 16 = 0 then [] else lower_hex (x div 16))"
    using 2 by (simp add: less_mult_imp_div_less mult.commute)
  show ?case
  proof (cases "x < 16")
    case True
    then have "\<forall>c \<in> set ?xs. ?z c" using IH by (simp add: dropWhile_eq_Nil_conv)
    with True show ?thesis by (simp add: dropWhile_append2 hex_digit_laws lower_hex_simps)
  next
    case False
    then have d: "dropWhile ?z ?xs = lower_hex (x div 16)" using IH by (simp add: div_eq_0_iff)
    then have "dropWhile ?z ?xs \<noteq> []" by (simp add: lower_hex_nonempty)
    then obtain c where "c \<in> set ?xs" "\<not> ?z c" unfolding dropWhile_eq_Nil_conv by blast
    with d show ?thesis using False dropWhile_append1 [of c ?xs ?z] by (simp add: lower_hex_simps(2))
  qed
qed simp

lemma hex_digits_mod: "hex_digits n (x mod 16 ^ n) = hex_digits n x"
proof (induction n arbitrary: x)
  case (Suc n)
  have "x mod 16 ^ Suc n div 16 = x div 16 mod 16 ^ n" by (simp add: mod_mult2_eq)
  moreover have "x mod 16 ^ Suc n mod 16 = x mod 16" by (simp add: mod_mod_cancel)
  ultimately show ?case by (simp add: Suc.IH)
qed simp

lemma to_be_bytes_Suc:
  fixes x :: "'a::len word"
  shows "to_be_bytes (Suc n) x = to_be_bytes n (drop_bit 8 x) @ [ucast x]"
proof (rule nth_equalityI)
  fix i assume i: "i < length (to_be_bytes (Suc n) x)"
  have "8 * (n - i) = 8 * (n - Suc i) + 8" if "i < n" using that by simp
  with i show "to_be_bytes (Suc n) x ! i = (to_be_bytes n (drop_bit 8 x) @ [ucast x]) ! i"
    by (cases "i < n") (simp_all add: to_be_bytes_def nth_append drop_bit_drop_bit del: upt_Suc)
qed simp

lemma hex_digits_bytes: "concat (map hex_byte (to_be_bytes n x)) = hex_digits (2 * n) (unat x)" for x :: "'a::len word"
proof (induction n arbitrary: x)
  case (Suc n)
  have "unat (ucast x :: u8) = unat x mod 256" by (simp add: unsigned_ucast_eq take_bit_eq_mod)
  moreover have "unat x mod 256 div 16 = unat x div 16 mod 16" by (simp add: mod_mult2_eq [of _ 16 16, simplified])
  moreover have "unat x mod 256 mod 16 = unat x mod 16" by (simp add: mod_mod_cancel)
  moreover have "unat (drop_bit 8 x) = unat x div 256" unfolding unat_drop_bit_eq by (simp add: drop_bit_eq_div)
  ultimately show ?case
    by (simp add: to_be_bytes_Suc Suc.IH hex_byte_def [of "ucast x"] div_mult2_eq [of _ 16 16, simplified])
qed (simp add: to_be_bytes_def)

section \<open>Properties\<close>

text \<open>
  C23. Inspection does not interfere with a transaction: with \<open>NoOpInspector\<close>, \<open>GasInspector\<close>,
  \<open>CustomPrintTracer\<close> or \<open>TracerEip3155\<close> in any state, the inspected build returns whenever the plain one
  does, with the same result or error and the same final state, database and statics.
\<close>
theorem inspection_passive:
  assumes "transact L D spec n h = Val (r, h')" "n \<le> n'" "2 ^ 64 \<le> f"
  shows "(\<exists>i'. inspect_transact NoOpInspector L D spec f n' \<lparr>imp_data = h, imp_inspector = i\<rparr> =
        Val (r, \<lparr>imp_data = h', imp_inspector = i'\<rparr>)) \<and>
     (\<exists>g'. inspect_transact gas_inspector L D spec f n' \<lparr>imp_data = h, imp_inspector = gi\<rparr> =
        Val (r, \<lparr>imp_data = h', imp_inspector = g'\<rparr>)) \<and>
     (\<exists>p'. inspect_transact custom_print_tracer L D spec f n' \<lparr>imp_data = h, imp_inspector = p\<rparr> =
        Val (r, \<lparr>imp_data = h', imp_inspector = p'\<rparr>)) \<and>
     (\<exists>t'. inspect_transact (tracer_eip3155 hex_encode) L D spec f n' \<lparr>imp_data = h, imp_inspector = t\<rparr> =
        Val (r, \<lparr>imp_data = h', imp_inspector = t'\<rparr>))"
  using assms by (intro conjI noop.transact_returns gas_insp.transact_returns print_insp.transact_returns tracer.transact_returns)

theorem inspection_passive_witness:
  "\<exists>r h' t'. transact no_libs inmem_ops LATEST frames (sample Env_default) = Val (r, h') \<and>
     inspect_transact (tracer_eip3155 (\<lambda>_. [])) no_libs inmem_ops LATEST (2 ^ 64) frames
       \<lparr>imp_data = sample Env_default, imp_inspector = TracerEip3155_new [] False False\<rparr> =
     Val (r, \<lparr>imp_data = h', imp_inspector = t'\<rparr>)"
proof -
  let ?h = "sample Env_default"
  have "empty.cache_inv (ed_db ?h)" by (simp add: EVMImpl_new_def empty.cache_inv_def InMemoryDB_default_def)
  moreover have "cfg_memory_limit (cfg (ed_env ?h)) \<le> limit_MAX" "table_total (ed_precompiles ?h)"
    "length (tx_data (tx (ed_env ?h))) + 128 < 2 ^ 63" "enabled LATEST SHANGHAI"
    using default_setup by (simp_all add: EVMImpl_new_def setup_ok_def enabled_def Env_default_def TxEnv_default_def)
  ultimately have "ok (\<lambda>(r, h'). empty.cache_inv (ed_db h') \<and> (\<forall>rs. r = Inr rs \<longrightarrow> gas_used (rs_result rs) \<le> tx_gas_limit (tx (ed_env ?h))))
      (transact no_libs inmem_ops LATEST frames ?h)"
    by (intro database.transact_ok [OF empty.cache.database_axioms _ fresh_new]) simp_all
  then obtain r h' where t: "transact no_libs inmem_ops LATEST frames ?h = Val (r, h')" by (auto simp: ok_iff)
  then show ?thesis using inspection_passive [OF t, of frames "2 ^ 64"] by blast
qed

text \<open>
  C24. The EIP-3155 trace of a frame is exact. For a frame whose instructions start no other frame, the
  inspected run ends as the plain one, and the tracer has written one line per executed
  instruction, in order, each with the instruction's offset and opcode, the gas before it, the gas it
  took, the memory's size, the stack before it and the depth.
\<close>
theorem tracer_frame_exact:
  assumes "run_frame L (evm_host L D spec 0) spec c gas_limit static d = Val m'" "\<not> t_skip t" "unat gas_limit < f"
  shows "\<exists>t'. inspect_frame (tracer_eip3155 hex_encode) L (inspect_host (tracer_eip3155 hex_encode) L D spec f n) spec f
       c gas_limit static \<lparr>imp_data = d, imp_inspector = t\<rparr> =
     Val (instruction_result m', machine_of (interpreter.truncate m') \<lparr>imp_data = host m', imp_inspector = t'\<rparr>) \<and>
     t_output t' = t_output t @ map StepLine (frame_trace hex_encode L D spec (unat gas_limit + 1)
       (machine_of (new_with_memory_limit c gas_limit static (cfg_memory_limit (cfg (ed_env d)))) d))"
proof -
  let ?it = "new_with_memory_limit c gas_limit static (cfg_memory_limit (cfg (ed_env d)))"
  let ?t = "t\<lparr>t_gas_inspector := gi_initialize_interp ?it (t_gas_inspector t)\<rparr>"
  have "gi_gas_remaining (t_gas_inspector ?t) = remaining (gas (machine_of ?it d))"
    by (simp add: gi_initialize_interp_def new_with_memory_limit_def Gas_new_def remaining_def)
  moreover have "inspect_frame (tracer_eip3155 hex_encode) L (inspect_host (tracer_eip3155 hex_encode) L D spec f n) spec f
       c gas_limit static \<lparr>imp_data = d, imp_inspector = t\<rparr> =
    run_inspect L (inspect_host (tracer_eip3155 hex_encode) L D spec f n) (impl_steps (tracer_eip3155 hex_encode)) spec f
       (machine_of ?it \<lparr>imp_data = d, imp_inspector = ?t\<rparr>)"
  proof -
    have "ins_initialize_interp (tracer_eip3155 hex_encode) ?it False d t = Val ((Continue, ?it), d, ?t)"
      by (simp add: inspector_defs)
    then show ?thesis by (simp add: inspect_frame_def apply_hook_def Let_def)
  qed
  ultimately show ?thesis
    using tracer_run [of L D spec "unat gas_limit + 1" "machine_of ?it d" m' f ?t hex_encode f n] assms
    by (simp add: run_frame_def machine_of_def [of ?it d, symmetric])
qed

theorem tracer_frame_exact_witness:
  "\<exists>m' t'. inspect_frame (tracer_eip3155 (\<lambda>_. [])) no_libs (inspect_host (tracer_eip3155 (\<lambda>_. [])) no_libs inmem_ops LATEST 100 0) LATEST 100
       (sample_contract [0x5b, 0]) 10 False \<lparr>imp_data = sample Env_default, imp_inspector = TracerEip3155_new [] False False\<rparr> =
       Val (Stop, machine_of m' \<lparr>imp_data = sample Env_default, imp_inspector = t'\<rparr>) \<and>
     map (\<lambda>l. case l of StepLine x \<Rightarrow> (ll_pc x, ll_op x, ll_gas x, ll_gasCost x) | _ \<Rightarrow> (0, 0, [], [])) (t_output t') =
       [(0, 0x5b, ''0xa'', ''0x1''), (1, 0, ''0x9'', ''0x0'')]"
proof -
  let ?d = "sample Env_default" and ?H = "evm_host no_libs inmem_ops LATEST 0" and ?t = "TracerEip3155_new [] False False"
  let ?g = "\<lparr>g_limit = 10, g_all_used_gas = 1, g_used = 1, g_memory = 0, g_refunded = 0\<rparr>"
  define m where "m = machine_of (new_with_memory_limit (sample_contract [0x5b, 0]) 10 False (cfg_memory_limit (cfg (ed_env ?d)))) ?d"
  define m1 where "m1 = m\<lparr>instruction_pointer := 1, gas := ?g\<rparr>"
  define m2 where "m2 = m1\<lparr>instruction_pointer := 2, instruction_result := Stop\<rparr>"
  have m: "gas m = Gas_new 10" "instruction_pointer m = 0" "code_of m = [0x5b, 0]" "instruction_result m = Continue" "host m = ?d"
    by (simp_all add: m_def machine_of_def interpreter.defs machine.defs new_with_memory_limit_def sample_contract_def)
  have c: "record_cost (Gas_new 10) 1 = (True, ?g)"
    by (simp add: record_cost_def Gas_new_def overflowing_add_def)
  have s1: "step no_libs ?H LATEST m = Val m1"
    using m c by (simp add: m1_def step_def current_opcode_def eval_def jumpdest_def gas_m_def done_m_def)
  have s2: "step no_libs ?H LATEST m1 = Val m2"
    using m by (simp add: m1_def m2_def step_def current_opcode_def eval_def return_stop_def halt_def)
  have res: "instruction_result m1 = Continue" "instruction_result m2 = Stop" "host m2 = ?d"
    using m by (simp_all add: m1_def m2_def)
  obtain k where fuel: "unat (10 :: u64) + 1 = Suc (Suc (Suc k))" by (rule that [of 8]) simp
  have r: "run_frame no_libs ?H LATEST (sample_contract [0x5b, 0]) 10 False ?d = Val m2"
    unfolding run_frame_def machine_of_def [symmetric] m_def [symmetric] fuel using m(4) res s1 s2 by simp
  have t: "frame_trace (\<lambda>_. []) no_libs inmem_ops LATEST (unat (10 :: u64) + 1) m =
      [trace_line (\<lambda>_. []) m m1, trace_line (\<lambda>_. []) m1 m2]"
    unfolding fuel using m(4) res s1 s2 by simp
  have l: "(ll_pc x, ll_op x, ll_gas x, ll_gasCost x) = (0, 0x5b, ''0xa'', ''0x1'')" if "x = trace_line (\<lambda>_. []) m m1" for x
    using that m by (simp add: trace_line_def m1_def remaining_def Gas_new_def format_hex_def saturating_sub_def lower_hex_simps hex_digit_def)
  have l': "(ll_pc x, ll_op x, ll_gas x, ll_gasCost x) = (1, 0, ''0x9'', ''0x0'')" if "x = trace_line (\<lambda>_. []) m1 m2" for x
    using that m by (simp add: trace_line_def m1_def m2_def remaining_def format_hex_def saturating_sub_def lower_hex_simps hex_digit_def)
  have "\<not> t_skip ?t" "t_output ?t = []" by (simp_all add: TracerEip3155_new_def)
  then obtain t' where "inspect_frame (tracer_eip3155 (\<lambda>_. [])) no_libs (inspect_host (tracer_eip3155 (\<lambda>_. [])) no_libs inmem_ops LATEST 100 0) LATEST 100
       (sample_contract [0x5b, 0]) 10 False \<lparr>imp_data = ?d, imp_inspector = ?t\<rparr> =
       Val (Stop, machine_of (interpreter.truncate m2) \<lparr>imp_data = ?d, imp_inspector = t'\<rparr>)"
     "t_output t' = [StepLine (trace_line (\<lambda>_. []) m m1), StepLine (trace_line (\<lambda>_. []) m1 m2)]"
    using tracer_frame_exact [OF r, of ?t 100 "\<lambda>_. []" 0] t res unfolding m_def [symmetric] by auto
  then show ?thesis using l l' by (intro exI [of _ "interpreter.truncate m2"] exI [of _ t']) simp
qed

text \<open>
  The tracer prints a stack word as \<open>0x\<close> and its shortest hexadecimal form, \<open>0x0\<close> for zero:
  trimming the zeros of the 64 digits that \<open>hex::encode\<close> gives, two lower-case digits per byte, is the
  format of the number, which reads back as the word.
\<close>
lemma short_hex_exact:
  assumes "\<And>bs. hex_encode bs = concat (map hex_byte bs)"
  shows "short_hex hex_encode b = ''0x'' @ lower_hex (unat b) \<and> parse_hex 0 (lower_hex (unat b)) = unat b"
proof -
  have "unat b < 16 ^ (2 * 32)" using unsigned_less [of b, where ?'a = nat] by simp
  then have "dropWhile (\<lambda>c. c = CHR ''0'') (hex_encode (to_be_bytes 32 b)) = (if b = 0 then [] else lower_hex (unat b))"
    using dropWhile_hex_digits [of "unat b" "2 * 32"] by (simp add: assms hex_digits_bytes unat_eq_0)
  moreover have "lower_hex 0 = ''0''" by (simp add: lower_hex_simps hex_digit_def)
  ultimately show ?thesis using lower_hex_nonempty parse_lower_hex by (simp add: short_hex_def Let_def)
qed

end
