(* ===== verification/Node_Transaction.thy ===== *)
theory Node_Transaction
  imports Environment
begin

text \<open>
  The transactions of the node that runs the interpreter (\<open>anvil/core/src/eth/transaction/mod.rs\<close>):
  requests and signed transactions of the three kinds with their accessors, the conversion of a request
  into a typed request and then into a transaction, the transaction waiting in the pool and its
  translation into the transaction environment of the interpreter. Encoding, hashing and signature
  recovery belong to other packages and are parameters. The 256-bit integers of this code panic when a
  conversion to 64 bits loses bits: \<open>as_u64\<close>.
\<close>

type_synonym TxHash = B256
type_synonym AccessList = "(B160 \<times> B256 list) list"

definition as_u64 :: "U256 \<Rightarrow> u64 comp" where
  "as_u64 x = (if unat x < 2 ^ 64 then Val (ucast x) else Panic)"

section \<open>Transactions\<close>

datatype TransactionKind = KindCall B160 | KindCreate

fun as_call :: "TransactionKind \<Rightarrow> B160 option" where
  "as_call (KindCall c) = Some c"
| "as_call KindCreate = None"

record Signature =
  sig_r :: U256
  sig_s :: U256
  sig_v :: u64

definition IMPERSONATED_SIGNATURE :: Signature where
  "IMPERSONATED_SIGNATURE = \<lparr> sig_r = 0, sig_s = 0, sig_v = 0 \<rparr>"

record LegacyTransaction =
  lt_nonce :: U256
  lt_gas_price :: U256
  lt_gas_limit :: U256
  lt_kind :: TransactionKind
  lt_value :: U256
  lt_input :: bytes
  lt_signature :: Signature

definition lt_chain_id :: "LegacyTransaction \<Rightarrow> u64 option" where
  "lt_chain_id t = (if 36 < sig_v (lt_signature t) then Some ((sig_v (lt_signature t) - 35) div 2) else None)"

definition meets_eip155 :: "u64 \<Rightarrow> LegacyTransaction \<Rightarrow> bool" where
  "meets_eip155 chain t =
     (let double_chain_id = saturating_mul chain 2; v = sig_v (lt_signature t)
      in v = double_chain_id + 35 \<or> v = double_chain_id + 36)"

record EIP2930Transaction =
  t1_chain_id :: u64
  t1_nonce :: U256
  t1_gas_price :: U256
  t1_gas_limit :: U256
  t1_kind :: TransactionKind
  t1_value :: U256
  t1_input :: bytes
  t1_access_list :: AccessList
  t1_odd_y_parity :: bool
  t1_r :: B256
  t1_s :: B256

record EIP1559Transaction =
  t2_chain_id :: u64
  t2_nonce :: U256
  t2_max_priority_fee_per_gas :: U256
  t2_max_fee_per_gas :: U256
  t2_gas_limit :: U256
  t2_kind :: TransactionKind
  t2_value :: U256
  t2_input :: bytes
  t2_access_list :: AccessList
  t2_odd_y_parity :: bool
  t2_r :: B256
  t2_s :: B256

datatype TypedTransaction = Legacy LegacyTransaction | EIP2930 EIP2930Transaction | EIP1559 EIP1559Transaction

fun tt_gas_price :: "TypedTransaction \<Rightarrow> U256" where
  "tt_gas_price (Legacy t) = lt_gas_price t"
| "tt_gas_price (EIP2930 t) = t1_gas_price t"
| "tt_gas_price (EIP1559 t) = t2_max_fee_per_gas t"

fun tt_gas_limit :: "TypedTransaction \<Rightarrow> U256" where
  "tt_gas_limit (Legacy t) = lt_gas_limit t"
| "tt_gas_limit (EIP2930 t) = t1_gas_limit t"
| "tt_gas_limit (EIP1559 t) = t2_gas_limit t"

fun tt_value :: "TypedTransaction \<Rightarrow> U256" where
  "tt_value (Legacy t) = lt_value t"
| "tt_value (EIP2930 t) = t1_value t"
| "tt_value (EIP1559 t) = t2_value t"

fun tt_data :: "TypedTransaction \<Rightarrow> bytes" where
  "tt_data (Legacy t) = lt_input t"
| "tt_data (EIP2930 t) = t1_input t"
| "tt_data (EIP1559 t) = t2_input t"

fun tt_type :: "TypedTransaction \<Rightarrow> u8 option" where
  "tt_type (Legacy t) = None"
| "tt_type (EIP2930 t) = Some 1"
| "tt_type (EIP1559 t) = Some 2"

definition max_cost :: "TypedTransaction \<Rightarrow> U256" where
  "max_cost t = saturating_mul (tt_gas_limit t) (tt_gas_price t)"

record TransactionEssentials =
  es_kind :: TransactionKind
  es_input :: bytes
  es_nonce :: U256
  es_gas_limit :: U256
  es_gas_price :: "U256 option"
  es_max_fee_per_gas :: "U256 option"
  es_max_priority_fee_per_gas :: "U256 option"
  es_value :: U256
  es_chain_id :: "u64 option"
  es_access_list :: AccessList

fun essentials :: "TypedTransaction \<Rightarrow> TransactionEssentials" where
  "essentials (Legacy t) =
     \<lparr> es_kind = lt_kind t, es_input = lt_input t, es_nonce = lt_nonce t, es_gas_limit = lt_gas_limit t,
       es_gas_price = Some (lt_gas_price t), es_max_fee_per_gas = None, es_max_priority_fee_per_gas = None,
       es_value = lt_value t, es_chain_id = lt_chain_id t, es_access_list = [] \<rparr>"
| "essentials (EIP2930 t) =
     \<lparr> es_kind = t1_kind t, es_input = t1_input t, es_nonce = t1_nonce t, es_gas_limit = t1_gas_limit t,
       es_gas_price = Some (t1_gas_price t), es_max_fee_per_gas = None, es_max_priority_fee_per_gas = None,
       es_value = t1_value t, es_chain_id = Some (t1_chain_id t), es_access_list = t1_access_list t \<rparr>"
| "essentials (EIP1559 t) =
     \<lparr> es_kind = t2_kind t, es_input = t2_input t, es_nonce = t2_nonce t, es_gas_limit = t2_gas_limit t,
       es_gas_price = None, es_max_fee_per_gas = Some (t2_max_fee_per_gas t),
       es_max_priority_fee_per_gas = Some (t2_max_priority_fee_per_gas t),
       es_value = t2_value t, es_chain_id = Some (t2_chain_id t), es_access_list = t2_access_list t \<rparr>"

fun tt_nonce :: "TypedTransaction \<Rightarrow> U256" where
  "tt_nonce (Legacy t) = lt_nonce t"
| "tt_nonce (EIP2930 t) = t1_nonce t"
| "tt_nonce (EIP1559 t) = t2_nonce t"

fun tt_chain_id :: "TypedTransaction \<Rightarrow> u64 option" where
  "tt_chain_id (Legacy t) = lt_chain_id t"
| "tt_chain_id (EIP2930 t) = Some (t1_chain_id t)"
| "tt_chain_id (EIP1559 t) = Some (t2_chain_id t)"

fun as_legacy :: "TypedTransaction \<Rightarrow> LegacyTransaction option" where
  "as_legacy (Legacy t) = Some t"
| "as_legacy (EIP2930 t) = None"
| "as_legacy (EIP1559 t) = None"

fun tt_kind :: "TypedTransaction \<Rightarrow> TransactionKind" where
  "tt_kind (Legacy t) = lt_kind t"
| "tt_kind (EIP2930 t) = t1_kind t"
| "tt_kind (EIP1559 t) = t2_kind t"

definition tt_to :: "TypedTransaction \<Rightarrow> B160 option" where
  "tt_to t = as_call (tt_kind t)"

fun signature :: "TypedTransaction \<Rightarrow> Signature" where
  "signature (Legacy t) = lt_signature t"
| "signature (EIP2930 t) = \<lparr> sig_r = t1_r t, sig_s = t1_s t, sig_v = of_bool (t1_odd_y_parity t) \<rparr>"
| "signature (EIP1559 t) = \<lparr> sig_r = t2_r t, sig_s = t2_s t, sig_v = of_bool (t2_odd_y_parity t) \<rparr>"

definition is_impersonated :: "TypedTransaction \<Rightarrow> bool" where
  "is_impersonated t \<longleftrightarrow> signature t = IMPERSONATED_SIGNATURE"

section \<open>Requests\<close>

record LegacyTransactionRequest =
  lr_nonce :: U256
  lr_gas_price :: U256
  lr_gas_limit :: U256
  lr_kind :: TransactionKind
  lr_value :: U256
  lr_input :: bytes
  lr_chain_id :: "u64 option"

record EIP2930TransactionRequest =
  r1_chain_id :: u64
  r1_nonce :: U256
  r1_gas_price :: U256
  r1_gas_limit :: U256
  r1_kind :: TransactionKind
  r1_value :: U256
  r1_input :: bytes
  r1_access_list :: AccessList

record EIP1559TransactionRequest =
  r2_chain_id :: u64
  r2_nonce :: U256
  r2_max_priority_fee_per_gas :: U256
  r2_max_fee_per_gas :: U256
  r2_gas_limit :: U256
  r2_kind :: TransactionKind
  r2_value :: U256
  r2_input :: bytes
  r2_access_list :: AccessList

datatype TypedTransactionRequest =
    LegacyRequest LegacyTransactionRequest
  | EIP2930Request EIP2930TransactionRequest
  | EIP1559Request EIP1559TransactionRequest

record EthTransactionRequest =
  rq_from :: "B160 option"
  rq_to :: "B160 option"
  rq_gas_price :: "U256 option"
  rq_max_fee_per_gas :: "U256 option"
  rq_max_priority_fee_per_gas :: "U256 option"
  rq_gas :: "U256 option"
  rq_value :: "U256 option"
  rq_data :: "bytes option"
  rq_nonce :: "U256 option"
  rq_chain_id :: "u64 option"
  rq_access_list :: "AccessList option"
  rq_transaction_type :: "U256 option"

definition unwrap_or :: "'a \<Rightarrow> 'a option \<Rightarrow> 'a" where
  "unwrap_or d x = (case x of None \<Rightarrow> d | Some y \<Rightarrow> y)"

definition kind_of :: "B160 option \<Rightarrow> TransactionKind" where
  "kind_of t = (case t of Some c \<Rightarrow> KindCall c | None \<Rightarrow> KindCreate)"

text \<open>
  The match of \<open>into_typed_request\<close> reads \<open>access_list.take()\<close>, which leaves \<open>None\<close> behind, so that
  the arms fill the new request from \<open>None\<close>: \<open>left\<close> is that remainder.
\<close>

definition legacy_of_request :: "EthTransactionRequest \<Rightarrow> LegacyTransactionRequest" where
  "legacy_of_request q =
     \<lparr> lr_nonce = unwrap_or 0 (rq_nonce q), lr_gas_price = unwrap_or 0 (rq_gas_price q),
       lr_gas_limit = unwrap_or 0 (rq_gas q), lr_kind = kind_of (rq_to q), lr_value = unwrap_or 0 (rq_value q),
       lr_input = unwrap_or [] (rq_data q), lr_chain_id = rq_chain_id q \<rparr>"

definition eip2930_of_request :: "AccessList option \<Rightarrow> EthTransactionRequest \<Rightarrow> EIP2930TransactionRequest" where
  "eip2930_of_request left q =
     \<lparr> r1_chain_id = unwrap_or 0 (rq_chain_id q), r1_nonce = unwrap_or 0 (rq_nonce q),
       r1_gas_price = unwrap_or 0 (rq_gas_price q), r1_gas_limit = unwrap_or 0 (rq_gas q),
       r1_kind = kind_of (rq_to q), r1_value = unwrap_or 0 (rq_value q), r1_input = unwrap_or [] (rq_data q),
       r1_access_list = unwrap_or [] left \<rparr>"

definition eip1559_of_request :: "AccessList option \<Rightarrow> EthTransactionRequest \<Rightarrow> EIP1559TransactionRequest" where
  "eip1559_of_request left q =
     \<lparr> r2_chain_id = unwrap_or 0 (rq_chain_id q), r2_nonce = unwrap_or 0 (rq_nonce q),
       r2_max_priority_fee_per_gas = unwrap_or 0 (rq_max_priority_fee_per_gas q),
       r2_max_fee_per_gas = unwrap_or 0 (rq_max_fee_per_gas q), r2_gas_limit = unwrap_or 0 (rq_gas q),
       r2_kind = kind_of (rq_to q), r2_value = unwrap_or 0 (rq_value q), r2_input = unwrap_or [] (rq_data q),
       r2_access_list = unwrap_or [] left \<rparr>"

definition into_typed_request :: "EthTransactionRequest \<Rightarrow> TypedTransactionRequest option comp" where
  "into_typed_request q =
     bind_comp (case rq_transaction_type q of None \<Rightarrow> Val None | Some t \<Rightarrow> bind_comp (as_u64 t) (\<lambda>t. Val (Some t))) (\<lambda>ty.
       let taken = rq_access_list q; left = None; price = rq_gas_price q; fee = rq_max_fee_per_gas q;
           tip = rq_max_priority_fee_per_gas q
       in Val (
         if (ty = Some 0 \<and> Option.is_none fee \<and> Option.is_none tip \<and> Option.is_none taken) \<or>
            (Option.is_none ty \<and> \<not> Option.is_none price \<and> Option.is_none fee \<and> Option.is_none tip \<and> Option.is_none taken)
         then Some (LegacyRequest (legacy_of_request q))
         else if (ty = Some 1 \<and> Option.is_none fee \<and> Option.is_none tip) \<or>
            (Option.is_none ty \<and> Option.is_none fee \<and> Option.is_none tip \<and> \<not> Option.is_none taken)
         then Some (EIP2930Request (eip2930_of_request left q))
         else if (ty = Some 2 \<and> Option.is_none price) \<or>
            (Option.is_none ty \<and> Option.is_none price \<and> \<not> Option.is_none fee) \<or>
            (Option.is_none ty \<and> Option.is_none price \<and> \<not> Option.is_none tip) \<or>
            (Option.is_none ty \<and> Option.is_none price \<and> Option.is_none fee \<and> Option.is_none tip \<and> Option.is_none taken)
         then Some (EIP1559Request (eip1559_of_request left q))
         else None))"

text \<open>
  \<open>build_typed_transaction\<close> of \<open>anvil/src/eth/sign.rs\<close>; the recovery id of a signature is computed by
  the signature package, and is a parameter.
\<close>

fun build_typed_transaction ::
  "(Signature \<Rightarrow> 'e + u8) \<Rightarrow> TypedTransactionRequest \<Rightarrow> Signature \<Rightarrow> 'e + TypedTransaction" where
  "build_typed_transaction recovery_id (LegacyRequest q) sg =
     Inr (Legacy \<lparr> lt_nonce = lr_nonce q, lt_gas_price = lr_gas_price q, lt_gas_limit = lr_gas_limit q,
       lt_kind = lr_kind q, lt_value = lr_value q, lt_input = lr_input q, lt_signature = sg \<rparr>)"
| "build_typed_transaction recovery_id (EIP2930Request q) sg =
     (case recovery_id sg of
        Inl e \<Rightarrow> Inl e
      | Inr recid \<Rightarrow>
          Inr (EIP2930 \<lparr> t1_chain_id = r1_chain_id q, t1_nonce = r1_nonce q, t1_gas_price = r1_gas_price q,
            t1_gas_limit = r1_gas_limit q, t1_kind = r1_kind q, t1_value = r1_value q, t1_input = r1_input q,
            t1_access_list = r1_access_list q, t1_odd_y_parity = (recid \<noteq> 0), t1_r = sig_r sg, t1_s = sig_s sg \<rparr>))"
| "build_typed_transaction recovery_id (EIP1559Request q) sg =
     (case recovery_id sg of
        Inl e \<Rightarrow> Inl e
      | Inr recid \<Rightarrow>
          Inr (EIP1559 \<lparr> t2_chain_id = r2_chain_id q, t2_nonce = r2_nonce q,
            t2_max_priority_fee_per_gas = r2_max_priority_fee_per_gas q,
            t2_max_fee_per_gas = r2_max_fee_per_gas q, t2_gas_limit = r2_gas_limit q, t2_kind = r2_kind q,
            t2_value = r2_value q, t2_input = r2_input q, t2_access_list = r2_access_list q,
            t2_odd_y_parity = (recid \<noteq> 0), t2_r = sig_r sg, t2_s = sig_s sg \<rparr>))"

section \<open>Transactions with their sender\<close>

record MaybeImpersonatedTransaction =
  mi_transaction :: TypedTransaction
  impersonated_sender :: "B160 option"

record PendingTransaction =
  pt_transaction :: MaybeImpersonatedTransaction
  pt_sender :: B160
  pt_hash :: TxHash

text \<open>
  What other packages compute of a transaction: its hash, the hash that appends the impersonated sender,
  and the sender recovered from the signature.
\<close>

record 'e TxLibs =
  tl_hash :: "TypedTransaction \<Rightarrow> TxHash"
  tl_impersonated_hash :: "TypedTransaction \<Rightarrow> B160 \<Rightarrow> TxHash"
  tl_recover :: "TypedTransaction \<Rightarrow> 'e + B160"

definition mi_recover :: "'e TxLibs \<Rightarrow> MaybeImpersonatedTransaction \<Rightarrow> 'e + B160" where
  "mi_recover T t = (case impersonated_sender t of Some s \<Rightarrow> Inr s | None \<Rightarrow> tl_recover T (mi_transaction t))"

definition mi_hash :: "'e TxLibs \<Rightarrow> MaybeImpersonatedTransaction \<Rightarrow> TxHash" where
  "mi_hash T t =
     (case (is_impersonated (mi_transaction t), impersonated_sender t) of
        (True, Some s) \<Rightarrow> tl_impersonated_hash T (mi_transaction t) s
      | _ \<Rightarrow> tl_hash T (mi_transaction t))"

definition PendingTransaction_new :: "'e TxLibs \<Rightarrow> TypedTransaction \<Rightarrow> 'e + PendingTransaction" where
  "PendingTransaction_new T t =
     (case tl_recover T t of
        Inl e \<Rightarrow> Inl e
      | Inr s \<Rightarrow> Inr \<lparr> pt_transaction = \<lparr> mi_transaction = t, impersonated_sender = None \<rparr>, pt_sender = s, pt_hash = tl_hash T t \<rparr>)"

definition with_impersonated :: "'e TxLibs \<Rightarrow> TypedTransaction \<Rightarrow> B160 \<Rightarrow> PendingTransaction" where
  "with_impersonated T t s =
     \<lparr> pt_transaction = \<lparr> mi_transaction = t, impersonated_sender = Some s \<rparr>, pt_sender = s,
       pt_hash = tl_impersonated_hash T t s \<rparr>"

abbreviation typed :: "PendingTransaction \<Rightarrow> TypedTransaction" where
  "typed p \<equiv> mi_transaction (pt_transaction p)"

fun to_transact_to :: "TransactionKind \<Rightarrow> TransactTo" where
  "to_transact_to (KindCall c) = TransactCall c"
| "to_transact_to KindCreate = TransactCreate Create"

definition to_revm_access_list :: "AccessList \<Rightarrow> (B160 \<times> U256 list) list" where
  "to_revm_access_list xs = xs"

fun to_revm_tx_env :: "B160 \<Rightarrow> TypedTransaction \<Rightarrow> TxEnv comp" where
  "to_revm_tx_env s (Legacy t) =
     bind_comp (as_u64 (lt_nonce t)) (\<lambda>n. bind_comp (as_u64 (lt_gas_limit t)) (\<lambda>l.
       Val \<lparr> tx_caller = s, tx_gas_limit = l, tx_gas_price = lt_gas_price t, gas_priority_fee = None,
         transact_to = to_transact_to (lt_kind t), tx_value = lt_value t, tx_data = lt_input t,
         tx_chain_id = lt_chain_id t, tx_nonce = Some n, access_list = [] \<rparr>))"
| "to_revm_tx_env s (EIP2930 t) =
     bind_comp (as_u64 (t1_nonce t)) (\<lambda>n. bind_comp (as_u64 (t1_gas_limit t)) (\<lambda>l.
       Val \<lparr> tx_caller = s, tx_gas_limit = l, tx_gas_price = t1_gas_price t, gas_priority_fee = None,
         transact_to = to_transact_to (t1_kind t), tx_value = t1_value t, tx_data = t1_input t,
         tx_chain_id = Some (t1_chain_id t), tx_nonce = Some n,
         access_list = to_revm_access_list (t1_access_list t) \<rparr>))"
| "to_revm_tx_env s (EIP1559 t) =
     bind_comp (as_u64 (t2_nonce t)) (\<lambda>n. bind_comp (as_u64 (t2_gas_limit t)) (\<lambda>l.
       Val \<lparr> tx_caller = s, tx_gas_limit = l, tx_gas_price = t2_max_fee_per_gas t,
         gas_priority_fee = Some (t2_max_priority_fee_per_gas t),
         transact_to = to_transact_to (t2_kind t), tx_value = t2_value t, tx_data = t2_input t,
         tx_chain_id = Some (t2_chain_id t), tx_nonce = Some n,
         access_list = to_revm_access_list (t2_access_list t) \<rparr>))"

section \<open>What the conversions keep\<close>

lemma as_u64_Val_iff: "as_u64 x = Val y \<longleftrightarrow> unat x < 2 ^ 64 \<and> y = ucast x"
  by (auto simp: as_u64_def)

lemma unat_as_u64: "as_u64 x = Val y \<Longrightarrow> unat y = unat x"
  by (auto simp: as_u64_def unsigned_ucast_eq take_bit_nat_eq_self split: if_splits)

lemma to_revm_tx_env_fields:
  assumes "to_revm_tx_env s t = Val e"
  shows "tx_caller e = s" "tx_gas_price e = tt_gas_price t" "tx_value e = tt_value t" "tx_data e = tt_data t"
    "tx_chain_id e = tt_chain_id t" "as_u64 (tt_gas_limit t) = Val (tx_gas_limit e)"
    "\<exists>n. as_u64 (tt_nonce t) = Val n \<and> tx_nonce e = Some n"
  using assms by (cases t; auto simp: bind_comp_Val_iff)+

text \<open>The access list of a request never reaches the typed request.\<close>

lemma request_access_list_dropped:
  assumes "into_typed_request q = Val (Some r)"
  shows "case r of LegacyRequest _ \<Rightarrow> True | EIP2930Request t \<Rightarrow> r1_access_list t = [] | EIP1559Request t \<Rightarrow> r2_access_list t = []"
  using assms
  by (auto simp: into_typed_request_def Let_def bind_comp_Val_iff unwrap_or_def eip2930_of_request_def
      eip1559_of_request_def split: if_splits)

end
