(* ===== verification/Pool_Transactions.thy ===== *)
theory Pool_Transactions
  imports Node_Transaction "HOL-Library.Finite_Map"
begin

text \<open>
  The queues of the transaction pool (\<open>anvil/src/eth/pool/transactions.rs\<close>): markers, pool transactions,
  the queue of transactions that wait for others, the queue of ready transactions with its links, and the
  iterator that hands the ready ones out in order. Hash maps are finite maps and hash sets finite sets;
  the order in which the code iterates over a hash set is not specified and is a parameter,
  \<open>HashIter\<close>. A \<open>BTreeSet\<close> of references is the list of its elements in ascending order of \<open>cmp\<close>. The
  time a transaction was added is only printed and is left out.
\<close>

section \<open>Markers and pool transactions\<close>

type_synonym TxMarker = bytes

definition to_marker :: "u64 \<Rightarrow> B160 \<Rightarrow> TxMarker" where
  "to_marker nonce sender = rev (to_be_bytes 8 nonce) @ to_be_bytes 20 sender"

datatype TransactionOrder = Fifo | Fees

fun order_priority :: "TransactionOrder \<Rightarrow> TypedTransaction \<Rightarrow> U256" where
  "order_priority Fifo t = 0"
| "order_priority Fees t = tt_gas_price t"

record PoolTransaction =
  pending_transaction :: PendingTransaction
  requires :: "TxMarker list"
  provides :: "TxMarker list"
  priority :: U256

definition hash_of :: "PoolTransaction \<Rightarrow> TxHash" where
  "hash_of t = pt_hash (pending_transaction t)"

definition price_of :: "PoolTransaction \<Rightarrow> U256" where
  "price_of t = tt_gas_price (typed (pending_transaction t))"

datatype PoolError =
    CyclicTransaction
  | ReplacementUnderpriced PoolTransaction
  | AlreadyImported PoolTransaction

record HashIter =
  it_hashes :: "TxHash fset \<Rightarrow> TxHash list"
  it_markers :: "TxMarker fset \<Rightarrow> TxMarker list"

section \<open>Transactions that wait\<close>

record PendingPoolTransaction =
  ppt_transaction :: PoolTransaction
  missing_markers :: "TxMarker fset"

definition PendingPoolTransaction_new ::
  "PoolTransaction \<Rightarrow> (TxMarker, TxHash) fmap \<Rightarrow> PendingPoolTransaction" where
  "PendingPoolTransaction_new t provided =
     \<lparr> ppt_transaction = t,
       missing_markers = fset_of_list (filter (\<lambda>m. fmlookup provided m = None) (requires t)) \<rparr>"

definition ppt_mark :: "TxMarker \<Rightarrow> PendingPoolTransaction \<Rightarrow> PendingPoolTransaction" where
  "ppt_mark m t = t\<lparr>missing_markers := missing_markers t - {|m|}\<rparr>"

definition is_ready :: "PendingPoolTransaction \<Rightarrow> bool" where
  "is_ready t \<longleftrightarrow> missing_markers t = {||}"

abbreviation ppt_hash :: "PendingPoolTransaction \<Rightarrow> TxHash" where
  "ppt_hash t \<equiv> hash_of (ppt_transaction t)"

record PendingTransactions =
  required_markers :: "(TxMarker, TxHash fset) fmap"
  waiting_markers :: "(TxMarker list, TxHash) fmap"
  waiting_queue :: "(TxHash, PendingPoolTransaction) fmap"

definition PendingTransactions_default :: PendingTransactions where
  "PendingTransactions_default = \<lparr> required_markers = fmempty, waiting_markers = fmempty, waiting_queue = fmempty \<rparr>"

definition pending_len :: "PendingTransactions \<Rightarrow> nat" where
  "pending_len p = fcard (fmdom (waiting_queue p))"

definition pending_list :: "HashIter \<Rightarrow> PendingTransactions \<Rightarrow> PoolTransaction list" where
  "pending_list I p =
     List.map_filter (\<lambda>h. map_option ppt_transaction (fmlookup (waiting_queue p) h)) (it_hashes I (fmdom (waiting_queue p)))"

definition require_marker :: "TxHash \<Rightarrow> TxMarker \<Rightarrow> (TxMarker, TxHash fset) fmap \<Rightarrow> (TxMarker, TxHash fset) fmap" where
  "require_marker h m r = fmupd m (finsert h (case fmlookup r m of None \<Rightarrow> {||} | Some s \<Rightarrow> s)) r"

definition underpriced_waiting :: "PendingPoolTransaction \<Rightarrow> PendingTransactions \<Rightarrow> bool" where
  "underpriced_waiting t p \<longleftrightarrow>
     (case Option.bind (fmlookup (waiting_markers p) (provides (ppt_transaction t))) (fmlookup (waiting_queue p)) of
        None \<Rightarrow> False
      | Some old \<Rightarrow> price_of (ppt_transaction t) < price_of (ppt_transaction old))"

definition pending_add_transaction ::
  "HashIter \<Rightarrow> PendingPoolTransaction \<Rightarrow> PendingTransactions \<Rightarrow> ((PoolError + unit) \<times> PendingTransactions) comp" where
  "pending_add_transaction I t p =
     (if is_ready t then Panic
      else if fmlookup (waiting_queue p) (ppt_hash t) \<noteq> None then Panic
      else if underpriced_waiting t p then Val (Inl (ReplacementUnderpriced (ppt_transaction t)), p)
      else Val (Inr (),
        p\<lparr>required_markers := fold (require_marker (ppt_hash t)) (it_markers I (missing_markers t)) (required_markers p),
          waiting_markers := fmupd (provides (ppt_transaction t)) (ppt_hash t) (waiting_markers p),
          waiting_queue := fmupd (ppt_hash t) t (waiting_queue p)\<rparr>))"

fun unlock_hashes ::
  "TxMarker \<Rightarrow> TxHash list \<Rightarrow> PendingPoolTransaction list \<times> PendingTransactions \<Rightarrow>
     (PendingPoolTransaction list \<times> PendingTransactions) comp" where
  "unlock_hashes m [] (unlocked, p) = Val (unlocked, p)"
| "unlock_hashes m (h # hs) (unlocked, p) =
     (case fmlookup (waiting_queue p) h of
        None \<Rightarrow> Panic
      | Some t \<Rightarrow>
          let t = ppt_mark m t
          in if is_ready t
             then unlock_hashes m hs (unlocked @ [t],
                    p\<lparr>waiting_queue := fmdrop h (waiting_queue p),
                      waiting_markers := fmdrop (provides (ppt_transaction t)) (waiting_markers p)\<rparr>)
             else unlock_hashes m hs (unlocked, p\<lparr>waiting_queue := fmupd h t (waiting_queue p)\<rparr>))"

fun mark_and_unlock_loop ::
  "HashIter \<Rightarrow> TxMarker list \<Rightarrow> PendingPoolTransaction list \<times> PendingTransactions \<Rightarrow>
     (PendingPoolTransaction list \<times> PendingTransactions) comp" where
  "mark_and_unlock_loop I [] s = Val s"
| "mark_and_unlock_loop I (m # ms) (unlocked, p) =
     (case fmlookup (required_markers p) m of
        None \<Rightarrow> mark_and_unlock_loop I ms (unlocked, p)
      | Some hs \<Rightarrow>
          bind_comp (unlock_hashes m (it_hashes I hs) (unlocked, p\<lparr>required_markers := fmdrop m (required_markers p)\<rparr>))
            (mark_and_unlock_loop I ms))"

definition mark_and_unlock ::
  "HashIter \<Rightarrow> TxMarker list \<Rightarrow> PendingTransactions \<Rightarrow> (PendingPoolTransaction list \<times> PendingTransactions) comp" where
  "mark_and_unlock I ms p = mark_and_unlock_loop I ms ([], p)"

definition unrequire_marker :: "TxHash \<Rightarrow> TxMarker \<Rightarrow> (TxMarker, TxHash fset) fmap \<Rightarrow> (TxMarker, TxHash fset) fmap" where
  "unrequire_marker h m r =
     (case fmlookup r m of
        None \<Rightarrow> r
      | Some s \<Rightarrow> if s - {|h|} = {||} then fmdrop m r else fmupd m (s - {|h|}) r)"

fun pending_remove ::
  "HashIter \<Rightarrow> TxHash list \<Rightarrow> PendingTransactions \<Rightarrow> PoolTransaction list \<times> PendingTransactions" where
  "pending_remove I [] p = ([], p)"
| "pending_remove I (h # hs) p =
     (case fmlookup (waiting_queue p) h of
        None \<Rightarrow> pending_remove I hs p
      | Some t \<Rightarrow>
          let (removed, q) = pending_remove I hs
                (p\<lparr>waiting_queue := fmdrop h (waiting_queue p),
                   waiting_markers := fmdrop (provides (ppt_transaction t)) (waiting_markers p),
                   required_markers := fold (unrequire_marker h) (it_markers I (missing_markers t)) (required_markers p)\<rparr>)
          in (ppt_transaction t # removed, q))"

section \<open>Ready transactions\<close>

record PoolTransactionRef =
  ref_transaction :: PoolTransaction
  ref_id :: u64

definition ref_less :: "PoolTransactionRef \<Rightarrow> PoolTransactionRef \<Rightarrow> bool" where
  "ref_less a b \<longleftrightarrow>
     priority (ref_transaction a) < priority (ref_transaction b) \<or>
     (priority (ref_transaction a) = priority (ref_transaction b) \<and> ref_id b < ref_id a)"

definition ref_eq :: "PoolTransactionRef \<Rightarrow> PoolTransactionRef \<Rightarrow> bool" where
  "ref_eq a b \<longleftrightarrow> \<not> ref_less a b \<and> \<not> ref_less b a"

fun btree_insert :: "PoolTransactionRef \<Rightarrow> PoolTransactionRef list \<Rightarrow> PoolTransactionRef list" where
  "btree_insert x [] = [x]"
| "btree_insert x (y # ys) =
     (if ref_less x y then x # y # ys else if ref_less y x then y # btree_insert x ys else y # ys)"

definition btree_remove :: "PoolTransactionRef \<Rightarrow> PoolTransactionRef list \<Rightarrow> PoolTransactionRef list" where
  "btree_remove x ys = filter (\<lambda>y. \<not> ref_eq x y) ys"

record ReadyTransaction =
  rt_transaction :: PoolTransactionRef
  unlocks :: "TxHash list"
  requires_offset :: nat

abbreviation rt_tx :: "ReadyTransaction \<Rightarrow> PoolTransaction" where
  "rt_tx r \<equiv> ref_transaction (rt_transaction r)"

record ReadyTransactions =
  rt_id :: u64
  provided_markers :: "(TxMarker, TxHash) fmap"
  ready_tx :: "(TxHash, ReadyTransaction) fmap"
  independent_transactions :: "PoolTransactionRef list"

definition ReadyTransactions_default :: ReadyTransactions where
  "ReadyTransactions_default =
     \<lparr> rt_id = 0, provided_markers = fmempty, ready_tx = fmempty, independent_transactions = [] \<rparr>"

definition position :: "'a \<Rightarrow> 'a list \<Rightarrow> nat option" where
  "position x xs = (if x \<in> set xs then Some (length (takeWhile (\<lambda>y. y \<noteq> x) xs)) else None)"

definition swap_remove :: "nat \<Rightarrow> 'a list \<Rightarrow> 'a list" where
  "swap_remove i xs = butlast (xs[i := last xs])"

definition drop_unlock :: "TxHash \<Rightarrow> ReadyTransaction \<Rightarrow> ReadyTransaction" where
  "drop_unlock h r = (case position h (unlocks r) of None \<Rightarrow> r | Some i \<Rightarrow> r\<lparr>unlocks := swap_remove i (unlocks r)\<rparr>)"

text \<open>
  In the loop over the required markers of a removed transaction, \<open>hash\<close> is bound again, to the hash of
  the transaction that provides the marker: that hash, and not the one of the removed transaction, is
  searched for among the \<open>unlocks\<close> of the provider.
\<close>

definition forget_unlock ::
  "(TxMarker, TxHash) fmap \<Rightarrow> TxMarker \<Rightarrow> (TxHash, ReadyTransaction) fmap \<Rightarrow> (TxHash, ReadyTransaction) fmap" where
  "forget_unlock provided m ready =
     (case fmlookup provided m of
        None \<Rightarrow> ready
      | Some h \<Rightarrow> (case fmlookup ready h of None \<Rightarrow> ready | Some r \<Rightarrow> fmupd h (drop_unlock h r) ready))"

definition invalidated :: "TxMarker fset option \<Rightarrow> PoolTransaction \<Rightarrow> TxMarker list" where
  "invalidated marker_filter t =
     filter (\<lambda>m. case marker_filter of None \<Rightarrow> True | Some f \<Rightarrow> m |\<notin>| f) (provides t)"

definition remove_one ::
  "TxMarker fset option \<Rightarrow> TxHash \<Rightarrow> ReadyTransaction \<Rightarrow> ReadyTransactions \<Rightarrow> ReadyTransactions" where
  "remove_one marker_filter h r R =
     (let provided = fold fmdrop (invalidated marker_filter (rt_tx r)) (provided_markers R)
      in R\<lparr>provided_markers := provided,
           ready_tx := fold (forget_unlock provided) (requires (rt_tx r)) (fmdrop h (ready_tx R)),
           independent_transactions := btree_remove (rt_transaction r) (independent_transactions R)\<rparr>)"

lemma fmdom_forget_unlock [simp]: "fmdom (forget_unlock provided m ready) = fmdom ready"
  by (auto simp: forget_unlock_def fmdomI split: option.split)

lemma fmdom_fold_forget [simp]: "fmdom (fold (forget_unlock provided) ms ready) = fmdom ready"
  by (induction ms arbitrary: ready) auto

lemma fcard_drop_less: "fmlookup m k = Some v \<Longrightarrow> fcard (fmdom m - {|k|}) < fcard (fmdom m)"
  by (meson fcard_fminus1_less fmdomI)

function remove_loop ::
  "TxMarker fset option \<Rightarrow> TxHash list \<Rightarrow> ReadyTransactions \<Rightarrow> PoolTransaction list \<times> ReadyTransactions" where
  "remove_loop marker_filter hashes R =
     (if hashes = [] then ([], R)
      else case fmlookup (ready_tx R) (last hashes) of
             None \<Rightarrow> remove_loop marker_filter (butlast hashes) R
           | Some r \<Rightarrow>
               let more = (if invalidated marker_filter (rt_tx r) \<noteq> [] then unlocks r else []);
                   (removed, R') = remove_loop marker_filter (butlast hashes @ more) (remove_one marker_filter (last hashes) r R)
               in (rt_tx r # removed, R'))"
  by pat_completeness auto
termination
  by (relation "measures [\<lambda>(_, _, R). fcard (fmdom (ready_tx R)), \<lambda>(_, hashes, _). length hashes]")
    (auto simp: remove_one_def Let_def fcard_drop_less)

declare remove_loop.simps [simp del]

definition remove_with_markers ::
  "TxHash list \<Rightarrow> TxMarker fset option \<Rightarrow> ReadyTransactions \<Rightarrow> PoolTransaction list \<times> ReadyTransactions" where
  "remove_with_markers hashes marker_filter R = remove_loop marker_filter hashes R"

definition clear_transactions :: "TxHash list \<Rightarrow> ReadyTransactions \<Rightarrow> PoolTransaction list \<times> ReadyTransactions" where
  "clear_transactions hashes R = remove_with_markers hashes None R"

fun replace_check :: "PoolTransaction \<Rightarrow> ReadyTransaction list \<Rightarrow> PoolError + TxHash list" where
  "replace_check t [] = Inr []"
| "replace_check t (r # rs) =
     (if provides (rt_tx r) = provides t \<and> price_of t \<le> price_of (rt_tx r)
      then Inl (ReplacementUnderpriced t)
      else case replace_check t rs of Inl e \<Rightarrow> Inl e | Inr us \<Rightarrow> Inr (unlocks r @ us))"

definition replaced_transactions ::
  "HashIter \<Rightarrow> PoolTransaction \<Rightarrow> ReadyTransactions \<Rightarrow>
     (PoolError + PoolTransaction list \<times> TxHash list) \<times> ReadyTransactions" where
  "replaced_transactions I t R =
     (let remove_hashes = fset_of_list (List.map_filter (fmlookup (provided_markers R)) (provides t))
      in if remove_hashes = {||} then (Inr ([], []), R)
         else case replace_check t (List.map_filter (fmlookup (ready_tx R)) (it_hashes I remove_hashes)) of
                Inl e \<Rightarrow> (Inl e, R)
              | Inr unlocked_tx \<Rightarrow>
                  let (removed, R') = remove_with_markers (it_hashes I remove_hashes) (Some (fset_of_list (provides t))) R
                  in (Inr (removed, unlocked_tx), R'))"

fun add_links ::
  "TxHash \<Rightarrow> (TxMarker, TxHash) fmap \<Rightarrow> TxMarker list \<Rightarrow> (TxHash, ReadyTransaction) fmap \<times> bool \<times> nat \<Rightarrow>
     ((TxHash, ReadyTransaction) fmap \<times> bool \<times> nat) comp" where
  "add_links h provided [] s = Val s"
| "add_links h provided (m # ms) (ready, independent, offset) =
     (case fmlookup provided m of
        Some other \<Rightarrow>
          (case fmlookup ready other of
             None \<Rightarrow> Panic
           | Some r \<Rightarrow> add_links h provided ms (fmupd other (r\<lparr>unlocks := unlocks r @ [h]\<rparr>) ready, False, offset))
      | None \<Rightarrow> add_links h provided ms (ready, independent, offset + 1))"

definition ready_add_transaction ::
  "HashIter \<Rightarrow> PendingPoolTransaction \<Rightarrow> ReadyTransactions \<Rightarrow> ((PoolError + PoolTransaction list) \<times> ReadyTransactions) comp" where
  "ready_add_transaction I t R =
     (if \<not> is_ready t then Panic
      else if fmlookup (ready_tx R) (ppt_hash t) \<noteq> None then Panic
      else case replaced_transactions I (ppt_transaction t) R of
             (Inl e, R) \<Rightarrow> Val (Inl e, R)
           | (Inr (replaced_tx, unlocked), R) \<Rightarrow>
               bind_comp (add_links (ppt_hash t) (provided_markers R) (requires (ppt_transaction t)) (ready_tx R, True, 0))
                 (\<lambda>(ready, independent, offset).
                   let r = \<lparr> ref_transaction = ppt_transaction t, ref_id = rt_id R \<rparr>
                   in Val (Inr replaced_tx,
                        R\<lparr>rt_id := rt_id R + 1,
                          provided_markers := fold (\<lambda>m. fmupd m (ppt_hash t)) (provides (ppt_transaction t)) (provided_markers R),
                          independent_transactions :=
                            (if independent then btree_insert r (independent_transactions R) else independent_transactions R),
                          ready_tx := fmupd (ppt_hash t)
                            \<lparr> rt_transaction = r, unlocks = unlocked, requires_offset = offset \<rparr> ready\<rparr>)))"

definition previous_markers ::
  "TxHash \<Rightarrow> (TxMarker, TxHash) fmap \<Rightarrow> TxMarker \<Rightarrow> (TxHash, ReadyTransaction) fmap \<Rightarrow>
     TxMarker list \<times> (TxHash, ReadyTransaction) fmap" where
  "previous_markers h provided m ready =
     (case fmlookup provided m of
        None \<Rightarrow> ([], ready)
      | Some prev \<Rightarrow>
          (case fmlookup ready prev of
             None \<Rightarrow> ([], ready)
           | Some r \<Rightarrow>
               let r = drop_unlock h r
               in (if unlocks r = [] then provides (rt_tx r) else [], fmupd prev r ready)))"

fun previous_tags ::
  "TxHash \<Rightarrow> (TxMarker, TxHash) fmap \<Rightarrow> TxMarker list \<Rightarrow> (TxHash, ReadyTransaction) fmap \<Rightarrow>
     TxMarker list \<times> (TxHash, ReadyTransaction) fmap" where
  "previous_tags h provided [] ready = ([], ready)"
| "previous_tags h provided (m # ms) ready =
     (let (tags, ready) = previous_markers h provided m ready;
          (more, ready) = previous_tags h provided ms ready
      in (tags @ more, ready))"

fun unlock_ready ::
  "TxHash list \<Rightarrow> (TxHash, ReadyTransaction) fmap \<times> PoolTransactionRef list \<Rightarrow>
     (TxHash, ReadyTransaction) fmap \<times> PoolTransactionRef list" where
  "unlock_ready [] s = s"
| "unlock_ready (h # hs) (ready, ind) =
     (case fmlookup ready h of
        None \<Rightarrow> unlock_ready hs (ready, ind)
      | Some r \<Rightarrow>
          let r = r\<lparr>requires_offset := requires_offset r + 1\<rparr>
          in unlock_ready hs (fmupd h r ready,
               if requires_offset r = length (requires (rt_tx r)) then btree_insert (rt_transaction r) ind else ind))"

fun release_markers :: "TxMarker \<Rightarrow> TxHash \<Rightarrow> TxMarker list \<Rightarrow> (TxMarker, TxHash) fmap \<Rightarrow> (TxMarker, TxHash) fmap comp" where
  "release_markers current h [] provided = Val provided"
| "release_markers current h (m # ms) provided =
     (if fmlookup provided m = (if current = m then None else Some h)
      then release_markers current h ms (fmdrop m provided) else Panic)"

definition prune_one ::
  "TxMarker \<Rightarrow> TxHash \<Rightarrow> ReadyTransaction \<Rightarrow> ReadyTransactions \<Rightarrow> (TxMarker list \<times> ReadyTransactions) comp" where
  "prune_one marker h r R =
     (let ind = btree_remove (rt_transaction r) (independent_transactions R);
          (tags, ready) = previous_tags (hash_of (rt_tx r)) (provided_markers R) (requires (rt_tx r)) (fmdrop h (ready_tx R));
          (ready, ind) = unlock_ready (unlocks r) (ready, ind)
      in bind_comp (release_markers marker (hash_of (rt_tx r)) (provides (rt_tx r)) (provided_markers R)) (\<lambda>provided.
           Val (tags, R\<lparr>provided_markers := provided, ready_tx := ready, independent_transactions := ind\<rparr>)))"

lemma fmdom_previous_markers [simp]: "fmdom (snd (previous_markers h provided m ready)) = fmdom ready"
  by (auto simp: previous_markers_def Let_def fmdomI split: option.split)

lemma fmdom_previous_tags [simp]: "fmdom (snd (previous_tags h provided ms ready)) = fmdom ready"
  by (induction ms arbitrary: ready) (auto simp: Let_def case_prod_unfold)

lemma fmdom_unlock_ready [simp]: "fmdom (fst (unlock_ready hs s)) = fmdom (fst s)"
  by (induction hs s rule: unlock_ready.induct) (auto simp: Let_def fmdomI split: option.split)

lemma fmdom_prune_one: "prune_one marker h r R = Val (tags, R') \<Longrightarrow> fmdom (ready_tx R') = fmdom (ready_tx R) - {|h|}"
  by (auto simp: prune_one_def Let_def case_prod_unfold bind_comp_Val_iff)

lemma prune_one_smaller:
  assumes "prune_one marker h r R = Val x" "fmlookup (ready_tx R) h = Some r"
  shows "fcard (fmdom (ready_tx (snd x))) < fcard (fmdom (ready_tx R))"
  using assms fmdom_prune_one [of marker h r R "fst x" "snd x"] by (simp add: fcard_drop_less)

lemma bind_comp_cong_Val [fundef_cong]:
  "c = d \<Longrightarrow> (\<And>x. d = Val x \<Longrightarrow> f x = k x) \<Longrightarrow> bind_comp c f = bind_comp d k"
  by (cases d) auto

function prune_loop :: "TxMarker list \<Rightarrow> ReadyTransactions \<Rightarrow> (PoolTransaction list \<times> ReadyTransactions) comp" where
  "prune_loop markers R =
     (if markers = [] then Val ([], R)
      else case fmlookup (provided_markers R) (last markers) of
             None \<Rightarrow> prune_loop (butlast markers) R
           | Some h \<Rightarrow>
               let R = R\<lparr>provided_markers := fmdrop (last markers) (provided_markers R)\<rparr>
               in case fmlookup (ready_tx R) h of
                    None \<Rightarrow> prune_loop (butlast markers) R
                  | Some r \<Rightarrow>
                      bind_comp (prune_one (last markers) h r R) (\<lambda>(tags, R').
                        bind_comp (prune_loop (butlast markers @ tags) R') (\<lambda>(removed, R').
                          Val (rt_tx r # removed, R'))))"
  by pat_completeness auto
termination
  by (relation "measures [\<lambda>(_, R). fcard (fmdom (ready_tx R)), \<lambda>(markers, _). length markers]")
    (simp_all, drule prune_one_smaller, auto)

declare prune_loop.simps [simp del]

definition prune_tags :: "TxMarker \<Rightarrow> ReadyTransactions \<Rightarrow> (PoolTransaction list \<times> ReadyTransactions) comp" where
  "prune_tags marker R = prune_loop [marker] R"

section \<open>The iterator over the ready transactions\<close>

record TransactionsIterator =
  ti_all :: "(TxHash, ReadyTransaction) fmap"
  ti_awaiting :: "(TxHash, nat \<times> PoolTransactionRef) fmap"
  ti_independent :: "PoolTransactionRef list"

definition get_transactions :: "ReadyTransactions \<Rightarrow> TransactionsIterator" where
  "get_transactions R =
     \<lparr> ti_all = ready_tx R, ti_awaiting = fmempty, ti_independent = independent_transactions R \<rparr>"

definition independent_or_awaiting :: "nat \<Rightarrow> PoolTransactionRef \<Rightarrow> TransactionsIterator \<Rightarrow> TransactionsIterator" where
  "independent_or_awaiting satisfied r it =
     (if length (requires (ref_transaction r)) \<le> satisfied
      then it\<lparr>ti_independent := btree_insert r (ti_independent it)\<rparr>
      else it\<lparr>ti_awaiting := fmupd (hash_of (ref_transaction r)) (satisfied, r) (ti_awaiting it)\<rparr>)"

definition unlock_next :: "TxHash \<Rightarrow> TransactionsIterator \<Rightarrow> TransactionsIterator" where
  "unlock_next h it =
     (case fmlookup (ti_awaiting it) h of
        Some (satisfied, r) \<Rightarrow>
          independent_or_awaiting (satisfied + 1) r (it\<lparr>ti_awaiting := fmdrop h (ti_awaiting it)\<rparr>)
      | None \<Rightarrow>
          (case fmlookup (ti_all it) h of
             Some next \<Rightarrow> independent_or_awaiting (requires_offset next + 1) (rt_transaction next) it
           | None \<Rightarrow> it))"

lemma ref_eq_refl [simp]: "ref_eq r r"
  by (simp add: ref_eq_def ref_less_def)

function iter_next :: "TransactionsIterator \<Rightarrow> (PoolTransaction \<times> TransactionsIterator) option" where
  "iter_next it =
     (if ti_independent it = [] then None
      else let best = last (ti_independent it);
               it' = it\<lparr>ti_independent := btree_remove best (ti_independent it)\<rparr>
           in case fmlookup (ti_all it') (hash_of (ref_transaction best)) of
                None \<Rightarrow> iter_next it'
              | Some r \<Rightarrow> Some (ref_transaction best, fold unlock_next (unlocks r) it'))"
  by pat_completeness auto
termination
  by (relation "measure (\<lambda>it. length (ti_independent it))")
    (auto simp: btree_remove_def intro!: length_filter_less [OF last_in_set])

declare iter_next.simps [simp del]

text \<open>\<open>take(n)\<close> of the iterator, and \<open>collect()\<close> with a bound on the number of items.\<close>

fun iter_take :: "nat \<Rightarrow> TransactionsIterator \<Rightarrow> PoolTransaction list" where
  "iter_take 0 it = []"
| "iter_take (Suc n) it =
     (case iter_next it of None \<Rightarrow> [] | Some (t, it) \<Rightarrow> t # iter_take n it)"

fun iter_collect :: "nat \<Rightarrow> TransactionsIterator \<Rightarrow> PoolTransaction list comp" where
  "iter_collect 0 it = (if iter_next it = None then Val [] else Timeout)"
| "iter_collect (Suc n) it =
     (case iter_next it of
        None \<Rightarrow> Val []
      | Some (t, it) \<Rightarrow> bind_comp (iter_collect n it) (\<lambda>ts. Val (t # ts)))"

end
