(* ===== verification/Tx_Pool.thy ===== *)
theory Tx_Pool
  imports Pool_Transactions
begin

text \<open>
  The transaction pool (\<open>anvil/src/eth/pool/mod.rs\<close>): adding a transaction with the promotion of those it
  unlocks, pruning the markers of a mined block, removing invalid transactions, and the notification of
  the listeners. The channel a listener holds belongs to another package: sending on it is a parameter.
\<close>

section \<open>The pool without its locks and listeners\<close>

record PoolInner =
  ready_transactions :: ReadyTransactions
  pending_transactions :: PendingTransactions

definition PoolInner_default :: PoolInner where
  "PoolInner_default = \<lparr> ready_transactions = ReadyTransactions_default, pending_transactions = PendingTransactions_default \<rparr>"

record ReadyResult =
  rr_hash :: TxHash
  promoted :: "TxHash list"
  discarded :: "TxHash list"
  removed :: "PoolTransaction list"

definition ReadyResult_new :: "TxHash \<Rightarrow> ReadyResult" where
  "ReadyResult_new h = \<lparr> rr_hash = h, promoted = [], discarded = [], removed = [] \<rparr>"

datatype AddedTransaction = AddedReady ReadyResult | AddedPending TxHash

fun added_hash :: "AddedTransaction \<Rightarrow> TxHash" where
  "added_hash (AddedReady r) = rr_hash r"
| "added_hash (AddedPending h) = h"

record PruneResult =
  pr_promoted :: "AddedTransaction list"
  pr_failed :: "TxHash list"
  pr_pruned :: "PoolTransaction list"

definition inner_get_transaction :: "TxHash \<Rightarrow> PoolInner \<Rightarrow> PendingTransaction option" where
  "inner_get_transaction h p =
     (case fmlookup (waiting_queue (pending_transactions p)) h of
        Some t \<Rightarrow> Some (pending_transaction (ppt_transaction t))
      | None \<Rightarrow> map_option (\<lambda>r. pending_transaction (rt_tx r)) (fmlookup (ready_tx (ready_transactions p)) h))"

definition inner_contains :: "TxHash \<Rightarrow> PoolInner \<Rightarrow> bool" where
  "inner_contains h p \<longleftrightarrow>
     fmlookup (waiting_queue (pending_transactions p)) h \<noteq> None \<or> fmlookup (ready_tx (ready_transactions p)) h \<noteq> None"

lemma unlock_hashes_length:
  "unlock_hashes m hs s = Val s' \<Longrightarrow>
     length (fst s') + fcard (fmdom (waiting_queue (snd s'))) = length (fst s) + fcard (fmdom (waiting_queue (snd s)))"
proof (induction m hs s rule: unlock_hashes.induct)
  case (2 m h hs unlocked p)
  then obtain t where t: "fmlookup (waiting_queue p) h = Some t" by (auto split: option.splits)
  have "h |\<in>| fmdom (waiting_queue p)" by (rule fmdomI) (rule t)
  then have "Suc (fcard (fmdom (waiting_queue p) |-| {|h|})) = fcard (fmdom (waiting_queue p))"
    "finsert h (fmdom (waiting_queue p)) = fmdom (waiting_queue p)"
    by (rule fcard_Suc_fminus1, simp add: finsert_absorb)
  then show ?case using 2 t by (auto simp: Let_def split: if_splits)
qed simp

lemma mark_and_unlock_loop_length:
  "mark_and_unlock_loop I ms s = Val s' \<Longrightarrow>
     length (fst s') + fcard (fmdom (waiting_queue (snd s'))) = length (fst s) + fcard (fmdom (waiting_queue (snd s)))"
  by (induction I ms s rule: mark_and_unlock_loop.induct)
    (auto simp: bind_comp_Val_iff dest!: unlock_hashes_length split: option.splits)

lemma mark_and_unlock_length:
  "mark_and_unlock I ms p = Val x \<Longrightarrow>
     length (fst x) + fcard (fmdom (waiting_queue (snd x))) = fcard (fmdom (waiting_queue p))"
  by (auto simp: mark_and_unlock_def dest: mark_and_unlock_loop_length)

text \<open>
  One round of the loop of \<open>add_ready_transaction\<close> adds the transaction at the front of the queue; the
  first round is the one for the submitted transaction, whose failure ends the operation.
\<close>

function add_ready_loop ::
  "HashIter \<Rightarrow> bool \<Rightarrow> PendingPoolTransaction list \<Rightarrow> ReadyResult \<Rightarrow> PoolInner \<Rightarrow>
     ((PoolError + ReadyResult) \<times> PoolInner) comp" where
  "add_ready_loop I is_new [] res p = Val (Inr res, p)"
| "add_ready_loop I is_new (t # queue) res p =
     bind_comp (mark_and_unlock I (provides (ppt_transaction t)) (pending_transactions p)) (\<lambda>(unlocked, pending).
       bind_comp (ready_add_transaction I t (ready_transactions p)) (\<lambda>(result, ready).
         let p = p\<lparr>pending_transactions := pending, ready_transactions := ready\<rparr>
         in case result of
              Inr replaced \<Rightarrow>
                add_ready_loop I False (queue @ unlocked)
                  (res\<lparr>promoted := (if is_new then promoted res else promoted res @ [ppt_hash t]),
                       removed := removed res @ replaced\<rparr>) p
            | Inl e \<Rightarrow>
                if is_new then Val (Inl e, p)
                else add_ready_loop I False (queue @ unlocked) (res\<lparr>discarded := discarded res @ [ppt_hash t]\<rparr>) p))"
  by pat_completeness auto
termination
  by (relation "measure (\<lambda>(_, _, queue, _, p). length queue + fcard (fmdom (waiting_queue (pending_transactions p))))")
    (simp_all, (drule mark_and_unlock_length, auto)+)

definition add_ready_transaction ::
  "HashIter \<Rightarrow> PendingPoolTransaction \<Rightarrow> PoolInner \<Rightarrow> ((PoolError + AddedTransaction) \<times> PoolInner) comp" where
  "add_ready_transaction I t p =
     bind_comp (add_ready_loop I True [t] (ReadyResult_new (ppt_hash t)) p) (\<lambda>(result, p).
       case result of
         Inl e \<Rightarrow> Val (Inl e, p)
       | Inr res \<Rightarrow>
           if \<exists>u \<in> set (removed res). hash_of u = ppt_hash t
           then Val (Inl CyclicTransaction,
                  p\<lparr>ready_transactions := snd (clear_transactions (promoted res) (ready_transactions p))\<rparr>)
           else Val (Inr (AddedReady res), p))"

definition inner_add_transaction ::
  "HashIter \<Rightarrow> PoolTransaction \<Rightarrow> PoolInner \<Rightarrow> ((PoolError + AddedTransaction) \<times> PoolInner) comp" where
  "inner_add_transaction I t p =
     (if inner_contains (hash_of t) p then Val (Inl (AlreadyImported t), p)
      else
        let pt = PendingPoolTransaction_new t (provided_markers (ready_transactions p))
        in if \<not> is_ready pt
           then bind_comp (pending_add_transaction I pt (pending_transactions p)) (\<lambda>(result, pending).
                  let p = p\<lparr>pending_transactions := pending\<rparr>
                  in case result of
                       Inl e \<Rightarrow> Val (Inl e, p)
                     | Inr _ \<Rightarrow> Val (Inr (AddedPending (hash_of t)), p))
           else add_ready_transaction I pt p)"

fun prune_each ::
  "HashIter \<Rightarrow> TxMarker list \<Rightarrow> PendingPoolTransaction list \<times> PoolTransaction list \<times> PoolInner \<Rightarrow>
     (PendingPoolTransaction list \<times> PoolTransaction list \<times> PoolInner) comp" where
  "prune_each I [] s = Val s"
| "prune_each I (m # ms) (imported, pruned, p) =
     bind_comp (mark_and_unlock I [m] (pending_transactions p)) (\<lambda>(unlocked, pending).
       bind_comp (prune_tags m (ready_transactions p)) (\<lambda>(gone, ready).
         prune_each I ms (imported @ unlocked, pruned @ gone,
           p\<lparr>pending_transactions := pending, ready_transactions := ready\<rparr>)))"

fun promote_each ::
  "HashIter \<Rightarrow> PendingPoolTransaction list \<Rightarrow> AddedTransaction list \<times> TxHash list \<times> PoolInner \<Rightarrow>
     (AddedTransaction list \<times> TxHash list \<times> PoolInner) comp" where
  "promote_each I [] s = Val s"
| "promote_each I (t # ts) (done_tx, failed, p) =
     bind_comp (add_ready_transaction I t p) (\<lambda>(result, p).
       case result of
         Inr a \<Rightarrow> promote_each I ts (done_tx @ [a], failed, p)
       | Inl e \<Rightarrow> promote_each I ts (done_tx, failed @ [ppt_hash t], p))"

definition inner_prune_markers :: "HashIter \<Rightarrow> TxMarker list \<Rightarrow> PoolInner \<Rightarrow> (PruneResult \<times> PoolInner) comp" where
  "inner_prune_markers I ms p =
     bind_comp (prune_each I ms ([], [], p)) (\<lambda>(imported, pruned, p).
       bind_comp (promote_each I imported ([], [], p)) (\<lambda>(done_tx, failed, p).
         Val (\<lparr> pr_promoted = done_tx, pr_failed = failed, pr_pruned = pruned \<rparr>, p)))"

definition inner_remove_invalid :: "HashIter \<Rightarrow> TxHash list \<Rightarrow> PoolInner \<Rightarrow> PoolTransaction list \<times> PoolInner" where
  "inner_remove_invalid I hs p =
     (if hs = [] then ([], p)
      else
        let (gone, ready) = remove_with_markers hs None (ready_transactions p);
            (gone', pending) = pending_remove I hs (pending_transactions p)
        in (gone @ gone', p\<lparr>ready_transactions := ready, pending_transactions := pending\<rparr>))"

section \<open>The pool with its listeners\<close>

datatype SendResult = Sent | SendFull | SendDisconnected

record 'l Pool =
  inner :: PoolInner
  transaction_listener :: "'l list"

definition Pool_default :: "'l Pool" where
  "Pool_default = \<lparr> inner = PoolInner_default, transaction_listener = [] \<rparr>"

fun notify_loop :: "('l \<Rightarrow> TxHash \<Rightarrow> SendResult \<times> 'l) \<Rightarrow> TxHash \<Rightarrow> nat list \<Rightarrow> 'l list \<Rightarrow> 'l list" where
  "notify_loop try_send h [] ls = ls"
| "notify_loop try_send h (n # ns) ls =
     (let (result, l) = try_send (ls ! n) h; rest = swap_remove n ls
      in notify_loop try_send h ns (case result of SendDisconnected \<Rightarrow> rest | _ \<Rightarrow> rest @ [l]))"

definition notify_listener :: "('l \<Rightarrow> TxHash \<Rightarrow> SendResult \<times> 'l) \<Rightarrow> TxHash \<Rightarrow> 'l Pool \<Rightarrow> 'l Pool" where
  "notify_listener try_send h p =
     p\<lparr>transaction_listener := notify_loop try_send h (rev [0..<length (transaction_listener p)]) (transaction_listener p)\<rparr>"

definition pool_add_transaction ::
  "('l \<Rightarrow> TxHash \<Rightarrow> SendResult \<times> 'l) \<Rightarrow> HashIter \<Rightarrow> PoolTransaction \<Rightarrow> 'l Pool \<Rightarrow>
     ((PoolError + AddedTransaction) \<times> 'l Pool) comp" where
  "pool_add_transaction try_send I t p =
     bind_comp (inner_add_transaction I t (inner p)) (\<lambda>(result, q).
       let p = p\<lparr>inner := q\<rparr>
       in case result of
            Inr (AddedReady r) \<Rightarrow>
              Val (Inr (AddedReady r), fold (notify_listener try_send) (rr_hash r # promoted r) p)
          | _ \<Rightarrow> Val (result, p))"

definition add_ready_listener :: "'l \<Rightarrow> 'l Pool \<Rightarrow> 'l Pool" where
  "add_ready_listener sender p = p\<lparr>transaction_listener := transaction_listener p @ [sender]\<rparr>"

definition pool_ready_transactions :: "'l Pool \<Rightarrow> TransactionsIterator" where
  "pool_ready_transactions p = get_transactions (ready_transactions (inner p))"

definition pool_pending_transactions :: "HashIter \<Rightarrow> 'l Pool \<Rightarrow> PoolTransaction list" where
  "pool_pending_transactions I p = pending_list I (pending_transactions (inner p))"

definition pool_get_transaction :: "TxHash \<Rightarrow> 'l Pool \<Rightarrow> PendingTransaction option" where
  "pool_get_transaction h p = inner_get_transaction h (inner p)"

definition pool_contains :: "TxHash \<Rightarrow> 'l Pool \<Rightarrow> bool" where
  "pool_contains h p = inner_contains h (inner p)"

definition pool_remove_invalid :: "HashIter \<Rightarrow> TxHash list \<Rightarrow> 'l Pool \<Rightarrow> PoolTransaction list \<times> 'l Pool" where
  "pool_remove_invalid I hs p = (let (gone, q) = inner_remove_invalid I hs (inner p) in (gone, p\<lparr>inner := q\<rparr>))"

definition pool_prune_markers :: "HashIter \<Rightarrow> TxMarker list \<Rightarrow> 'l Pool \<Rightarrow> (PruneResult \<times> 'l Pool) comp" where
  "pool_prune_markers I ms p = bind_comp (inner_prune_markers I ms (inner p)) (\<lambda>(r, q). Val (r, p\<lparr>inner := q\<rparr>))"

definition txpool_status :: "nat \<Rightarrow> 'l Pool \<Rightarrow> (nat \<times> nat) comp" where
  "txpool_status n p =
     bind_comp (iter_collect n (pool_ready_transactions p)) (\<lambda>ts.
       Val (length ts, pending_len (pending_transactions (inner p))))"

record MinedBlockOutcome =
  block_number :: u64
  included :: "PoolTransaction list"
  invalid :: "PoolTransaction list"

definition on_mined_block :: "HashIter \<Rightarrow> MinedBlockOutcome \<Rightarrow> 'l Pool \<Rightarrow> (PruneResult \<times> 'l Pool) comp" where
  "on_mined_block I out p =
     (let (gone, p) = pool_remove_invalid I (map hash_of (invalid out)) p
      in pool_prune_markers I (concat (map provides (included out))) p)"

definition drop_transaction :: "TxHash \<Rightarrow> 'l Pool \<Rightarrow> PoolTransaction option \<times> 'l Pool" where
  "drop_transaction h p =
     (let (gone, ready) = remove_with_markers [h] None (ready_transactions (inner p))
      in (find (\<lambda>t. hash_of t = h) gone, p\<lparr>inner := (inner p)\<lparr>ready_transactions := ready\<rparr>\<rparr>))"

section \<open>Markers of a submitted transaction\<close>

text \<open>\<open>required_marker\<close> of \<open>anvil/src/eth/api.rs\<close>, and the pool transaction its callers build.\<close>

definition required_marker :: "U256 \<Rightarrow> U256 \<Rightarrow> B160 \<Rightarrow> TxMarker list comp" where
  "required_marker provided_nonce on_chain_nonce sender =
     (if provided_nonce = on_chain_nonce then Val []
      else
        let prev_nonce = saturating_sub provided_nonce 1
        in if on_chain_nonce \<le> prev_nonce
           then bind_comp (as_u64 prev_nonce) (\<lambda>n. Val [to_marker n sender])
           else Val [])"

definition pool_transaction :: "TransactionOrder \<Rightarrow> U256 \<Rightarrow> PendingTransaction \<Rightarrow> PoolTransaction comp" where
  "pool_transaction ord on_chain_nonce t =
     bind_comp (required_marker (tt_nonce (typed t)) on_chain_nonce (pt_sender t)) (\<lambda>req.
       bind_comp (as_u64 (tt_nonce (typed t))) (\<lambda>n.
         Val \<lparr> pending_transaction = t, requires = req, provides = [to_marker n (pt_sender t)],
           priority = order_priority ord (typed t) \<rparr>))"

end
