(* ===== verification/Pool_Invariant.thy ===== *)
theory Pool_Invariant
  imports Tx_Pool
begin

text \<open>
  The invariant of the transaction pool. The waiting queue and the index of the markers it misses agree;
  the ready queue and the index of the markers it provides agree; no marker is both missed and provided,
  and no hash is in both queues. Every operation keeps this and none of the \<open>assert!\<close> and \<open>expect\<close> calls
  of the code can fail.
\<close>

section \<open>Iteration orders and well-formed transactions\<close>

definition iter_ok :: "HashIter \<Rightarrow> bool" where
  "iter_ok I \<longleftrightarrow>
     (\<forall>s. distinct (it_hashes I s) \<and> fset_of_list (it_hashes I s) = s) \<and>
     (\<forall>s. distinct (it_markers I s) \<and> fset_of_list (it_markers I s) = s)"

text \<open>
  What a submitted transaction provides and requires: the marker of its sender and nonce, and at most the
  marker of the nonce before.
\<close>

definition nonce_marked :: "PoolTransaction \<Rightarrow> bool" where
  "nonce_marked t \<longleftrightarrow>
     (\<exists>n s. provides t = [to_marker n s] \<and> (requires t = [] \<or> (0 < n \<and> requires t = [to_marker (n - 1) s])))"

lemma set_it_hashes [simp]: "iter_ok I \<Longrightarrow> set (it_hashes I s) = fset s"
  and distinct_it_hashes [simp]: "iter_ok I \<Longrightarrow> distinct (it_hashes I s)"
  and set_it_markers [simp]: "iter_ok I \<Longrightarrow> set (it_markers I ms) = fset ms"
  by (simp_all add: iter_ok_def flip: fset_of_list.rep_eq)

lemma it_hashes_single [simp]: "iter_ok I \<Longrightarrow> it_hashes I {|h|} = [h]"
  using set_it_hashes [of I "{|h|}"] distinct_it_hashes [of I "{|h|}"]
  by (cases "it_hashes I {|h|}" rule: remdups_adj.cases) auto

lemma to_be_bytes_inject:
  assumes "LENGTH('a) = 8 * k"
  shows "to_be_bytes k (x :: 'a::len word) = to_be_bytes k y \<longleftrightarrow> x = y"
  by (metis from_to_be_bytes [OF assms])

lemma to_marker_inject [simp]: "to_marker n s = to_marker n' s' \<longleftrightarrow> n = n' \<and> s = s'"
  by (auto simp: to_marker_def to_be_bytes_inject)

lemma nonce_marked_cases:
  assumes "nonce_marked t"
  obtains m where "provides t = [m]" "requires t = []"
    | m m' where "provides t = [m]" "requires t = [m']" "m' \<noteq> m"
proof -
  obtain n s where "provides t = [to_marker n s]"
    and "requires t = [] \<or> (0 < n \<and> requires t = [to_marker (n - 1) s])"
    using assms by (auto simp: nonce_marked_def)
  then show thesis using that by (auto simp: word_gt_0)
qed

section \<open>The waiting queue\<close>

definition members :: "(TxMarker, TxHash fset) fmap \<Rightarrow> TxMarker \<Rightarrow> TxHash fset" where
  "members r m = (case fmlookup r m of None \<Rightarrow> {||} | Some s \<Rightarrow> s)"

definition misses :: "(TxHash, PendingPoolTransaction) fmap \<Rightarrow> TxMarker \<Rightarrow> TxHash \<Rightarrow> bool" where
  "misses q m h \<longleftrightarrow> (\<exists>t. fmlookup q h = Some t \<and> m |\<in>| missing_markers t)"

definition queue_ok :: "(TxHash, PendingPoolTransaction) fmap \<Rightarrow> bool" where
  "queue_ok q \<longleftrightarrow>
     (\<forall>h t. fmlookup q h = Some t \<longrightarrow>
        ppt_hash t = h \<and> \<not> is_ready t \<and> nonce_marked (ppt_transaction t))"

definition pending_ok :: "PendingTransactions \<Rightarrow> bool" where
  "pending_ok p \<longleftrightarrow> queue_ok (waiting_queue p) \<and> (\<forall>m h. h |\<in>| members (required_markers p) m \<longleftrightarrow> misses (waiting_queue p) m h)"

text \<open>The transactions that leave the waiting queue: where they were, and that they are ready.\<close>

definition released :: "PendingTransactions \<Rightarrow> PendingTransactions \<Rightarrow> PendingPoolTransaction list \<Rightarrow> bool" where
  "released p q ts \<longleftrightarrow>
     (\<forall>t \<in> set ts. is_ready t \<and> nonce_marked (ppt_transaction t)) \<and> distinct (map ppt_hash ts) \<and>
     ppt_hash ` set ts \<union> fmdom' (waiting_queue q) = fmdom' (waiting_queue p) \<and>
     ppt_hash ` set ts \<inter> fmdom' (waiting_queue q) = {}"

lemma misses_simps [simp]:
  "misses (fmdrop h q) m h' \<longleftrightarrow> h' \<noteq> h \<and> misses q m h'"
  "misses (fmupd h t q) m h' \<longleftrightarrow> (if h' = h then m |\<in>| missing_markers t else misses q m h')"
  by (auto simp: misses_def)

lemma members_simps [simp]: "members fmempty m = {||}" "members (fmdrop m' r) m = (if m = m' then {||} else members r m)"
  by (auto simp: members_def)

lemma queue_ok_simps:
  "queue_ok q \<Longrightarrow> queue_ok (fmdrop h q)"
  "queue_ok q \<Longrightarrow> ppt_hash t = h \<Longrightarrow> \<not> is_ready t \<Longrightarrow> nonce_marked (ppt_transaction t) \<Longrightarrow> queue_ok (fmupd h t q)"
  by (auto simp: queue_ok_def split: if_splits)

lemma pending_ok_default: "pending_ok PendingTransactions_default"
  by (simp add: pending_ok_def queue_ok_def PendingTransactions_default_def members_def misses_def)

text \<open>
  While the transactions that miss \<open>m\<close> are unlocked, those still to come are in \<open>hs\<close> and no longer in the
  index.
\<close>

definition unlocking :: "TxMarker \<Rightarrow> TxHash list \<Rightarrow> PendingTransactions \<Rightarrow> bool" where
  "unlocking m hs p \<longleftrightarrow>
     queue_ok (waiting_queue p) \<and> distinct hs \<and> members (required_markers p) m = {||} \<and>
     (\<forall>h. h \<in> set hs \<longleftrightarrow> misses (waiting_queue p) m h) \<and>
     (\<forall>m' h. m' \<noteq> m \<longrightarrow> (h |\<in>| members (required_markers p) m' \<longleftrightarrow> misses (waiting_queue p) m' h))"

lemma unlocking_Cons:
  assumes "unlocking m (h # hs) p"
  obtains t where "fmlookup (waiting_queue p) h = Some t" "m |\<in>| missing_markers t" "ppt_hash t = h"
    "nonce_marked (ppt_transaction t)"
proof -
  have "misses (waiting_queue p) m h" "queue_ok (waiting_queue p)" using assms by (auto simp: unlocking_def)
  then show thesis using that by (auto simp: misses_def queue_ok_def)
qed

lemma unlocking_ready:
  assumes u: "unlocking m (h # hs) p" and t: "fmlookup (waiting_queue p) h = Some t" and "is_ready (ppt_mark m t)"
  shows "unlocking m hs (p\<lparr>waiting_queue := fmdrop h (waiting_queue p), waiting_markers := w\<rparr>)"
proof -
  have "misses (waiting_queue p) m h" using u by (auto simp: unlocking_def)
  then have "\<not> misses (waiting_queue p) m' h" if "m' \<noteq> m" for m'
    using that t assms(3) by (auto simp: misses_def is_ready_def ppt_mark_def)
  then show ?thesis
    using u by (auto simp: unlocking_def queue_ok_simps)
qed

lemma unlocking_waits:
  assumes u: "unlocking m (h # hs) p" and t: "fmlookup (waiting_queue p) h = Some t" and w: "\<not> is_ready (ppt_mark m t)"
  shows "unlocking m hs (p\<lparr>waiting_queue := fmupd h (ppt_mark m t) (waiting_queue p)\<rparr>)"
proof -
  have q: "queue_ok (fmupd h (ppt_mark m t) (waiting_queue p))"
    using u t w by (intro queue_ok_simps(2)) (auto simp: unlocking_def queue_ok_def ppt_mark_def)
  have "m' |\<in>| missing_markers (ppt_mark m t) \<longleftrightarrow> m' \<noteq> m \<and> misses (waiting_queue p) m' h" for m'
    using t by (auto simp: ppt_mark_def misses_def)
  then show ?thesis
    using u q by (auto simp: unlocking_def)
qed

lemma unlocking_ends: "unlocking m [] p \<Longrightarrow> pending_ok p"
  unfolding unlocking_def pending_ok_def by (metis empty_iff fempty_iff list.set(1))

lemma unlock_hashes_ok:
  assumes "unlocking m hs p" "released p0 p us"
  shows "ok (\<lambda>(us', q). unlocking m [] q \<and> released p0 q us' \<and> required_markers q = required_markers p) (unlock_hashes m hs (us, p))"
  using assms
proof (induction hs arbitrary: us p)
  case (Cons h hs)
  from Cons.prems(1) obtain t where t: "fmlookup (waiting_queue p) h = Some t" "m |\<in>| missing_markers t" "ppt_hash t = h"
    "nonce_marked (ppt_transaction t)" by (rule unlocking_Cons)
  show ?case
  proof (cases "is_ready (ppt_mark m t)")
    case True
    have "released p0 (p\<lparr>waiting_queue := fmdrop h (waiting_queue p), waiting_markers := w\<rparr>) (us @ [ppt_mark m t])" for w
      using Cons.prems(2) t True by (auto simp: released_def ppt_mark_def fmdom'I)
    with Cons.IH [OF unlocking_ready [OF Cons.prems(1) t(1) True]] t True show ?thesis by (simp add: Let_def)
  next
    case False
    have "released p0 (p\<lparr>waiting_queue := fmupd h (ppt_mark m t) (waiting_queue p)\<rparr>) us"
      using Cons.prems(2) t by (auto simp: released_def fmdom'I insert_absorb)
    with Cons.IH [OF unlocking_waits [OF Cons.prems(1) t(1) False]] t False show ?thesis by (simp add: Let_def)
  qed
qed simp

lemma mark_and_unlock_loop_ok:
  assumes "iter_ok I" "pending_ok p" "released p0 p us"
  shows "ok (\<lambda>(us', q). pending_ok q \<and> released p0 q us' \<and> fmdom' (required_markers q) = fmdom' (required_markers p) - set ms)
    (mark_and_unlock_loop I ms (us, p))"
  using assms
proof (induction ms arbitrary: us p)
  case (Cons m ms)
  show ?case
  proof (cases "fmlookup (required_markers p) m")
    case None
    then have "fmdom' (required_markers p) - insert m (set ms) = fmdom' (required_markers p) - set ms"
      by (auto simp: fmlookup_dom'_iff)
    then show ?thesis using None Cons by simp
  next
    case (Some hs)
    let ?p = "p\<lparr>required_markers := fmdrop m (required_markers p)\<rparr>"
    have "members (required_markers p) m = hs" using Some by (simp add: members_def)
    then have "unlocking m (it_hashes I hs) ?p"
      using Cons.prems by (auto simp: pending_ok_def unlocking_def queue_ok_simps)
    moreover have "released p0 ?p us" using Cons.prems(3) by (simp add: released_def)
    ultimately have "ok (\<lambda>(us', q). unlocking m [] q \<and> released p0 q us' \<and> required_markers q = required_markers ?p)
      (unlock_hashes m (it_hashes I hs) (us, ?p))" by (rule unlock_hashes_ok)
    then have "ok (\<lambda>(us', q). pending_ok q \<and> released p0 q us' \<and> fmdom' (required_markers q) = fmdom' (required_markers p) - {m})
      (unlock_hashes m (it_hashes I hs) (us, ?p))"
      by (rule ok_mono) (auto simp: unlocking_ends)
    then have "ok (\<lambda>s. ok (\<lambda>(us', q). pending_ok q \<and> released p0 q us' \<and>
        fmdom' (required_markers q) = fmdom' (required_markers p) - set (m # ms)) (mark_and_unlock_loop I ms s))
      (unlock_hashes m (it_hashes I hs) (us, ?p))"
      by (rule ok_mono) (clarsimp, drule (1) Cons.IH [OF Cons.prems(1)], simp flip: Diff_insert2)
    then show ?thesis using Some by simp
  qed
qed simp

lemma mark_and_unlock_ok:
  assumes "iter_ok I" "pending_ok p"
  shows "ok (\<lambda>(us, q). pending_ok q \<and> released p q us \<and> fmdom' (required_markers q) = fmdom' (required_markers p) - set ms)
    (mark_and_unlock I ms p)"
  unfolding mark_and_unlock_def
  by (rule mark_and_unlock_loop_ok [OF assms]) (simp add: released_def)

lemma mark_and_unlock_idle:
  "\<forall>m \<in> set ms. fmlookup (required_markers p) m = None \<Longrightarrow> mark_and_unlock I ms p = Val ([], p)"
  unfolding mark_and_unlock_def by (induction ms) simp_all

lemma members_require:
  "members (fold (require_marker h) ms r) m = (if m \<in> set ms then finsert h (members r m) else members r m)"
  by (induction ms arbitrary: r) (auto simp: require_marker_def members_def split: option.splits)

lemma fmdom'_require: "fmdom' (fold (require_marker h) ms r) = fmdom' r \<union> set ms"
  by (induction ms arbitrary: r) (auto simp: require_marker_def)

lemma members_unrequire:
  "members (fold (unrequire_marker h) ms r) m = (if m \<in> set ms then members r m |-| {|h|} else members r m)"
proof (induction ms arbitrary: r)
  case (Cons m' ms)
  have "members (unrequire_marker h m' r) m = (if m = m' then members r m |-| {|h|} else members r m)"
    by (auto simp: unrequire_marker_def members_def split: option.splits)
  then show ?case using Cons by auto
qed simp

lemma fmdom'_unrequire: "fmdom' (fold (unrequire_marker h) ms r) \<subseteq> fmdom' r"
proof (induction ms arbitrary: r)
  case (Cons m ms)
  have "fmdom' (unrequire_marker h m r) \<subseteq> fmdom' r"
    by (auto simp: unrequire_marker_def fmlookup_dom'_iff split: option.splits if_splits)
  then show ?case using Cons [of "unrequire_marker h m r"] by auto
qed simp

lemma pending_add_ok:
  assumes I: "iter_ok I" and p: "pending_ok p" and t: "\<not> is_ready t" "nonce_marked (ppt_transaction t)"
    and new: "fmlookup (waiting_queue p) (ppt_hash t) = None"
  shows "ok (\<lambda>(r, q). pending_ok q \<and> (\<forall>e. r = Inl e \<longrightarrow> q = p) \<and>
      (r = Inr () \<longrightarrow> fmdom' (required_markers q) = fmdom' (required_markers p) \<union> fset (missing_markers t) \<and>
               fmdom' (waiting_queue q) = insert (ppt_hash t) (fmdom' (waiting_queue p))))
    (pending_add_transaction I t p)"
proof -
  have "ppt_hash t |\<notin>| members (required_markers p) m" for m
    using p new by (auto simp: pending_ok_def misses_def)
  then have "pending_ok (p\<lparr>required_markers := fold (require_marker (ppt_hash t)) (it_markers I (missing_markers t)) (required_markers p),
      waiting_markers := w, waiting_queue := fmupd (ppt_hash t) t (waiting_queue p)\<rparr>)" for w
    using p t I by (auto simp: pending_ok_def queue_ok_simps members_require)
  then show ?thesis
    using p t new I by (auto simp: pending_add_transaction_def fmdom'_require)
qed

lemma pending_remove_one:
  assumes I: "iter_ok I" and p: "pending_ok p" and t: "fmlookup (waiting_queue p) h = Some t"
  shows "pending_ok (p\<lparr>waiting_queue := fmdrop h (waiting_queue p), waiting_markers := w,
      required_markers := fold (unrequire_marker h) (it_markers I (missing_markers t)) (required_markers p)\<rparr>)"
proof -
  have "h |\<in>| members (required_markers p) m \<longleftrightarrow> m |\<in>| missing_markers t" for m
    using p t by (auto simp: pending_ok_def misses_def)
  then show ?thesis
    using p I by (auto simp: pending_ok_def queue_ok_simps members_unrequire)
qed

lemma pending_remove_ok:
  assumes "iter_ok I" "pending_ok p"
  shows "pending_ok (snd (pending_remove I hs p)) \<and>
    fmdom' (required_markers (snd (pending_remove I hs p))) \<subseteq> fmdom' (required_markers p) \<and>
    fmdom' (waiting_queue (snd (pending_remove I hs p))) = fmdom' (waiting_queue p) - set hs"
  using assms(2)
proof (induction hs arbitrary: p)
  case (Cons h hs)
  show ?case
  proof (cases "fmlookup (waiting_queue p) h")
    case None
    then have "fmdom' (waiting_queue p) - insert h (set hs) = fmdom' (waiting_queue p) - set hs"
      by (auto simp: fmlookup_dom'_iff)
    then show ?thesis using None Cons by simp
  next
    case (Some t)
    show ?thesis
      using Cons.IH [OF pending_remove_one [OF assms(1) Cons.prems Some]] Some
        fmdom'_unrequire [of h "it_markers I (missing_markers t)" "required_markers p"]
      by (auto simp: Let_def case_prod_unfold)
  qed
qed simp

section \<open>The ready queue\<close>

definition same_txs :: "(TxHash, ReadyTransaction) fmap \<Rightarrow> (TxHash, ReadyTransaction) fmap \<Rightarrow> bool" where
  "same_txs a b \<longleftrightarrow> (\<forall>h. map_option rt_transaction (fmlookup a h) = map_option rt_transaction (fmlookup b h))"

definition ready_ok :: "ReadyTransactions \<Rightarrow> bool" where
  "ready_ok R \<longleftrightarrow>
     (\<forall>h r. fmlookup (ready_tx R) h = Some r \<longrightarrow> hash_of (rt_tx r) = h \<and> nonce_marked (rt_tx r)) \<and>
     (\<forall>m h. fmlookup (provided_markers R) m = Some h \<longleftrightarrow>
        (\<exists>r. fmlookup (ready_tx R) h = Some r \<and> provides (rt_tx r) = [m]))"

definition shrunk :: "ReadyTransactions \<Rightarrow> ReadyTransactions \<Rightarrow> bool" where
  "shrunk R R' \<longleftrightarrow>
     ready_ok R' \<and> fmdom' (ready_tx R') \<subseteq> fmdom' (ready_tx R) \<and>
     fmdom' (provided_markers R') \<subseteq> fmdom' (provided_markers R)"

lemma ready_ok_default: "ready_ok ReadyTransactions_default"
  by (simp add: ready_ok_def ReadyTransactions_default_def)

lemma same_txs_refl [simp]: "same_txs a a" and same_txs_trans: "same_txs a b \<Longrightarrow> same_txs b c \<Longrightarrow> same_txs a c"
  by (simp_all add: same_txs_def)

lemma same_txs_upd:
  "fmlookup b h = Some r \<Longrightarrow> rt_transaction r' = rt_transaction r \<Longrightarrow> same_txs (fmupd h r' b) b"
  by (auto simp: same_txs_def)

lemma same_txsD:
  assumes "same_txs a b"
  shows "fmlookup a h = Some r \<Longrightarrow> \<exists>r'. fmlookup b h = Some r' \<and> rt_transaction r' = rt_transaction r"
    "fmlookup b h = Some r \<Longrightarrow> \<exists>r'. fmlookup a h = Some r' \<and> rt_transaction r' = rt_transaction r"
proof -
  have *: "map_option rt_transaction (fmlookup a h) = map_option rt_transaction (fmlookup b h)"
    using assms by (simp add: same_txs_def)
  show "fmlookup a h = Some r \<Longrightarrow> \<exists>r'. fmlookup b h = Some r' \<and> rt_transaction r' = rt_transaction r"
    using * by (cases "fmlookup b h") simp_all
  show "fmlookup b h = Some r \<Longrightarrow> \<exists>r'. fmlookup a h = Some r' \<and> rt_transaction r' = rt_transaction r"
    using * by (cases "fmlookup a h") simp_all
qed

lemma same_txs_dom: "same_txs a b \<Longrightarrow> fmdom' a = fmdom' b"
  by (rule set_eqI) (meson fmlookup_dom'_iff same_txsD)

lemma drop_unlock_transaction [simp]: "rt_transaction (drop_unlock h r) = rt_transaction r"
  by (simp add: drop_unlock_def split: option.split)

lemma same_txs_forget: "same_txs (fold (forget_unlock provided) ms ready) ready"
proof (induction ms arbitrary: ready)
  case (Cons m ms)
  have "same_txs (forget_unlock provided m ready) ready"
    by (auto simp: forget_unlock_def intro: same_txs_upd split: option.split)
  then show ?case using Cons [of "forget_unlock provided m ready"] by (auto intro: same_txs_trans)
qed simp

lemma same_txs_previous: "same_txs (snd (previous_tags h provided ms ready)) ready"
proof (induction ms arbitrary: ready)
  case (Cons m ms)
  have "same_txs (snd (previous_markers h provided m ready)) ready"
    by (auto simp: previous_markers_def Let_def intro: same_txs_upd split: option.split)
  then show ?case
    using Cons [of "snd (previous_markers h provided m ready)"]
    by (auto simp: Let_def case_prod_unfold intro: same_txs_trans)
qed simp

lemma same_txs_unlock: "same_txs (fst (unlock_ready hs s)) (fst s)"
proof (induction hs s rule: unlock_ready.induct)
  case (2 h hs ready ind)
  show ?case
  proof (cases "fmlookup ready h")
    case (Some r)
    have "same_txs (fmupd h (r\<lparr>requires_offset := k\<rparr>) ready) ready" for k
      by (rule same_txs_upd [OF Some]) simp
    then show ?thesis using 2(2) [OF Some refl] Some by (auto simp: Let_def intro: same_txs_trans)
  qed (use 2 in simp)
qed simp

lemma ready_ok_tx:
  assumes "ready_ok R" "fmlookup (ready_tx R) h = Some r"
  shows "hash_of (rt_tx r) = h" "nonce_marked (rt_tx r)"
  using assms by (auto simp: ready_ok_def)

lemma ready_ok_provided:
  "ready_ok R \<Longrightarrow> fmlookup (provided_markers R) m = Some h \<longleftrightarrow>
     (\<exists>r. fmlookup (ready_tx R) h = Some r \<and> provides (rt_tx r) = [m])"
  by (simp add: ready_ok_def)

lemma ready_okD:
  assumes "ready_ok R" "fmlookup (ready_tx R) h = Some r"
  obtains m where "provides (rt_tx r) = [m]" "fmlookup (provided_markers R) m = Some h" "hash_of (rt_tx r) = h"
    "nonce_marked (rt_tx r)"
proof -
  have n: "nonce_marked (rt_tx r)" and h: "hash_of (rt_tx r) = h" using assms by (auto simp: ready_ok_def)
  from n obtain m where m: "provides (rt_tx r) = [m]" by (rule nonce_marked_cases)
  then have "fmlookup (provided_markers R) m = Some h" using assms by (auto simp: ready_ok_def)
  then show thesis using that m h n by blast
qed

lemma ready_ok_removed:
  assumes R: "ready_ok R" and r: "fmlookup (ready_tx R) h = Some r" and m: "provides (rt_tx r) = [m]"
    and ready: "same_txs (ready_tx R') (fmdrop h (ready_tx R))"
    and provided: "provided_markers R' = fmdrop m (provided_markers R)"
  shows "shrunk R R'"
proof -
  have lookup: "(\<exists>r'. fmlookup (ready_tx R') h' = Some r' \<and> P (rt_transaction r')) \<longleftrightarrow>
      h' \<noteq> h \<and> (\<exists>r'. fmlookup (ready_tx R) h' = Some r' \<and> P (rt_transaction r'))" for h' P
    by (auto dest!: same_txsD(1) [OF ready] split: if_splits) (use same_txsD(2) [OF ready, of h'] in force)
  have key: "fmlookup (provided_markers R) m' = Some h \<longleftrightarrow> m' = m" for m'
    using R r m by (auto simp: ready_ok_def)
  have "fmlookup (provided_markers R') m' = Some h' \<longleftrightarrow>
      (\<exists>r. fmlookup (ready_tx R') h' = Some r \<and> provides (rt_tx r) = [m'])" for m' h'
  proof -
    have "fmlookup (provided_markers R) m' = Some h' \<longleftrightarrow>
        (\<exists>r. fmlookup (ready_tx R) h' = Some r \<and> provides (rt_tx r) = [m'])"
      using R by (simp add: ready_ok_def)
    then show ?thesis
      using lookup [of h' "\<lambda>x. provides (ref_transaction x) = [m']"] key [of m] key [of m'] by (auto simp: provided)
  qed
  moreover have "hash_of (rt_tx r') = h' \<and> nonce_marked (rt_tx r')" if "fmlookup (ready_tx R') h' = Some r'" for h' r'
    using same_txsD(1) [OF ready that] R by (fastforce simp: ready_ok_def split: if_splits)
  ultimately show ?thesis
    using same_txs_dom [OF ready] by (auto simp: shrunk_def ready_ok_def provided)
qed

lemma shrunk_refl: "ready_ok R \<Longrightarrow> shrunk R R"
  by (simp add: shrunk_def)

lemma shrunk_trans: "shrunk R R' \<Longrightarrow> shrunk R' R'' \<Longrightarrow> shrunk R R''"
  by (auto simp: shrunk_def)

lemma invalidated_None [simp]: "invalidated None t = provides t"
  by (simp add: invalidated_def)

lemma remove_one_shrunk:
  assumes R: "ready_ok R" and r: "fmlookup (ready_tx R) h = Some r"
  shows "shrunk R (remove_one None h r R)"
proof -
  obtain m where m: "provides (rt_tx r) = [m]" using R r by (rule ready_okD)
  show ?thesis
    by (rule ready_ok_removed [OF R r m]) (simp_all add: remove_one_def Let_def m same_txs_forget)
qed

lemma remove_loop_step:
  "remove_loop f [] R = ([], R)"
  "hs \<noteq> [] \<Longrightarrow> fmlookup (ready_tx R) (last hs) = None \<Longrightarrow> remove_loop f hs R = remove_loop f (butlast hs) R"
  "hs \<noteq> [] \<Longrightarrow> fmlookup (ready_tx R) (last hs) = Some r \<Longrightarrow>
     remove_loop f hs R =
       (let (gone, R') = remove_loop f (butlast hs @ (if invalidated f (rt_tx r) \<noteq> [] then unlocks r else []))
              (remove_one f (last hs) r R)
        in (rt_tx r # gone, R'))"
  by (subst remove_loop.simps, simp add: Let_def)+

lemma remove_loop_shrunk: "ready_ok R \<Longrightarrow> shrunk R (snd (remove_loop None hs R))"
proof (induction "None :: TxMarker fset option" hs R rule: remove_loop.induct)
  case (1 hashes R)
  show ?case
  proof (cases "hashes = []")
    case False
    show ?thesis
    proof (cases "fmlookup (ready_tx R) (last hashes)")
      case None
      then show ?thesis using False 1(1) [OF False None 1(3)] by (simp add: remove_loop_step)
    next
      case (Some r)
      let ?more = "if provides (rt_tx r) \<noteq> [] then unlocks r else []"
      let ?R = "remove_one None (last hashes) r R"
      have s: "shrunk R ?R" by (rule remove_one_shrunk [OF 1(3) Some])
      then have "shrunk ?R (snd (remove_loop None (butlast hashes @ ?more) ?R))"
        using 1(2) [OF False Some refl] by (simp add: shrunk_def)
      with s have "shrunk R (snd (remove_loop None (butlast hashes @ ?more) ?R))" by (rule shrunk_trans)
      then show ?thesis
        by (simp add: remove_loop_step(3) [OF False Some] case_prod_unfold Let_def)
    qed
  qed (simp add: remove_loop_step shrunk_refl 1(3))
qed

lemma prune_one_shrunk:
  assumes R: "ready_ok R" and m: "fmlookup (provided_markers R) m = Some h" and r: "fmlookup (ready_tx R) h = Some r"
  shows "ok (\<lambda>(tags, R'). shrunk R R') (prune_one m h r (R\<lparr>provided_markers := fmdrop m (provided_markers R)\<rparr>))"
proof -
  obtain m' where m': "provides (rt_tx r) = [m']" "fmlookup (provided_markers R) m' = Some h" using R r by (rule ready_okD)
  then have [simp]: "m' = m" using R m r by (auto simp: ready_ok_def)
  show ?thesis
    unfolding prune_one_def Let_def case_prod_unfold
    by (simp add: m' m)
      (rule ready_ok_removed [OF R r, of m], simp_all add: m' same_txs_trans [OF same_txs_unlock] same_txs_previous)
qed

lemma prune_loop_shrunk: "ready_ok R \<Longrightarrow> ok (\<lambda>(gone, R'). shrunk R R') (prune_loop ms R)"
proof (induction ms R rule: prune_loop.induct)
  case (1 markers R)
  show ?case
  proof (cases "markers = []")
    case False
    show ?thesis
    proof (cases "fmlookup (provided_markers R) (last markers)")
      case None
      then show ?thesis using False 1(1) [OF False None 1(4)] by (simp add: prune_loop.simps [of markers])
    next
      case (Some h)
      let ?R = "R\<lparr>provided_markers := fmdrop (last markers) (provided_markers R)\<rparr>"
      obtain r where r: "fmlookup (ready_tx R) h = Some r" using 1(4) Some by (auto simp: ready_ok_def)
      obtain tags R' where p: "prune_one (last markers) h r ?R = Val (tags, R')" and "shrunk R R'"
        using prune_one_shrunk [OF 1(4) Some r] by (auto simp: ok_iff)
      then have "ok (\<lambda>(gone, R''). shrunk R' R'') (prune_loop (butlast markers @ tags) R')"
        using 1(3) [OF False Some refl, of r "(tags, R')" tags R'] r by (simp add: shrunk_def)
      then have "ok (\<lambda>(gone, R''). shrunk R R'') (prune_loop (butlast markers @ tags) R')"
        by (rule ok_mono) (auto intro: shrunk_trans \<open>shrunk R R'\<close>)
      then show ?thesis
        using False Some r p by (simp add: prune_loop.simps [of markers] Let_def case_prod_unfold)
    qed
  qed (simp add: prune_loop.simps shrunk_refl 1(4))
qed

lemma replaced_transactions_None:
  assumes "provides t = [m]" "fmlookup (provided_markers R) m = None"
  shows "replaced_transactions I t R = (Inr ([], []), R)"
  using assms by (simp add: replaced_transactions_def List.map_filter_def)

lemma replaced_transactions_Some:
  assumes I: "iter_ok I" and m: "provides t = [m]" "fmlookup (provided_markers R) m = Some h"
    and r: "fmlookup (ready_tx R) h = Some r" "provides (rt_tx r) = [m]"
  shows "replaced_transactions I t R =
    (if price_of t \<le> price_of (rt_tx r) then (Inl (ReplacementUnderpriced t), R)
     else (Inr ([rt_tx r], unlocks r), remove_one (Some {|m|}) h r R))"
proof -
  have "invalidated (Some {|m|}) (rt_tx r) = []" by (simp add: invalidated_def r)
  then have "remove_loop (Some {|m|}) [h] R = ([rt_tx r], remove_one (Some {|m|}) h r R)"
    using r by (simp add: remove_loop_step)
  then show ?thesis
    using assms by (simp add: replaced_transactions_def List.map_filter_def remove_with_markers_def)
qed

text \<open>What a transaction leaves of the ready queue when it takes the place of the one with its marker.\<close>

definition without :: "ReadyTransactions \<Rightarrow> TxMarker \<Rightarrow> (TxHash, ReadyTransaction) fmap" where
  "without R m = (case fmlookup (provided_markers R) m of None \<Rightarrow> ready_tx R | Some h \<Rightarrow> fmdrop h (ready_tx R))"

lemma replaced_transactions_spec:
  assumes "iter_ok I" "ready_ok R" "provides t = [m]"
  shows "case replaced_transactions I t R of
      (Inl e, R') \<Rightarrow> R' = R \<and> m \<in> fmdom' (provided_markers R)
    | (Inr _, R') \<Rightarrow> provided_markers R' = provided_markers R \<and> same_txs (ready_tx R') (without R m)"
proof (cases "fmlookup (provided_markers R) m")
  case None
  then show ?thesis using assms by (simp add: replaced_transactions_None without_def)
next
  case (Some h)
  then obtain r where "fmlookup (ready_tx R) h = Some r" "provides (rt_tx r) = [m]"
    using assms(2) by (auto simp: ready_ok_def)
  then show ?thesis
    using replaced_transactions_Some [OF assms(1,3) Some] Some
    by (simp add: without_def remove_one_def Let_def invalidated_def same_txs_forget fmdom'I)
qed

lemma add_links_ok:
  assumes "\<forall>m \<in> set ms. \<forall>h. fmlookup provided m = Some h \<longrightarrow> fmlookup (fst s) h \<noteq> None"
  shows "ok (\<lambda>s'. same_txs (fst s') (fst s)) (add_links k provided ms s)"
  using assms
proof (induction k provided ms s rule: add_links.induct)
  case (2 k provided m ms ready independent offset)
  show ?case
  proof (cases "fmlookup provided m")
    case (Some h)
    with 2(3) obtain r where r: "fmlookup ready h = Some r" by auto
    let ?s = "(fmupd h (r\<lparr>unlocks := unlocks r @ [k]\<rparr>) ready, False, offset)"
    have same: "same_txs (fst ?s) ready" using same_txs_upd [OF r] by simp
    have pre: "\<forall>m \<in> set ms. \<forall>h'. fmlookup provided m = Some h' \<longrightarrow> fmlookup (fst ?s) h' \<noteq> None"
      using 2(3) by auto
    have "ok (\<lambda>s'. same_txs (fst s') ready) (add_links k provided ms ?s)"
      by (rule ok_mono [OF 2(2) [OF Some r pre]]) (rule same_txs_trans [OF _ same])
    then show ?thesis using Some r by simp
  qed (use 2 in simp)
qed simp

definition grown :: "PoolTransaction \<Rightarrow> ReadyTransactions \<Rightarrow> ReadyTransactions \<Rightarrow> bool" where
  "grown t R R' \<longleftrightarrow>
     ready_ok R' \<and> fmdom' (ready_tx R') \<subseteq> insert (hash_of t) (fmdom' (ready_tx R)) \<and>
     fmdom' (provided_markers R') = fmdom' (provided_markers R) \<union> set (provides t)"

lemma ready_ok_added:
  assumes R: "ready_ok R" and new: "fmlookup (ready_tx R) (hash_of t) = None" and t: "nonce_marked t" "provides t = [m]"
    and ready: "same_txs ready (without R m)" and r: "rt_tx r = t"
    and R': "ready_tx R' = fmupd (hash_of t) r ready" "provided_markers R' = fmupd m (hash_of t) (provided_markers R)"
  shows "grown t R R'"
proof -
  have key: "fmlookup (provided_markers R) m' = Some h \<longleftrightarrow>
      (\<exists>r. fmlookup (ready_tx R) h = Some r \<and> provides (rt_tx r) = [m'])" for m' h
    using R by (simp add: ready_ok_def)
  have old: "fmlookup (without R m) h = Some r \<longleftrightarrow> fmlookup (ready_tx R) h = Some r \<and> provides (rt_tx r) \<noteq> [m]" for h r
    using key [of m h] unfolding without_def by (auto split: option.splits if_splits)
  have lookup: "(\<exists>r'. fmlookup ready h = Some r' \<and> P (rt_transaction r')) \<longleftrightarrow>
      (\<exists>r'. fmlookup (ready_tx R) h = Some r' \<and> provides (rt_tx r') \<noteq> [m] \<and> P (rt_transaction r'))" for h P
    using same_txsD(1) [OF ready, of h] same_txsD(2) [OF ready, of h] old by metis
  have "fmlookup (provided_markers R') m' = Some h \<longleftrightarrow>
      (\<exists>r. fmlookup (ready_tx R') h = Some r \<and> provides (rt_tx r) = [m'])" for m' h
    using lookup [of h "\<lambda>x. provides (ref_transaction x) = [m']"] key [of m' h] new t(2) r by (auto simp: R')
  moreover have "hash_of (rt_tx r') = h \<and> nonce_marked (rt_tx r')" if look: "fmlookup (ready_tx R') h = Some r'" for h r'
  proof (cases "h = hash_of t")
    case False
    then obtain r'' where "fmlookup (ready_tx R) h = Some r''" "rt_transaction r'' = rt_transaction r'"
      using look lookup [of h "\<lambda>x. x = rt_transaction r'"] by (auto simp: R')
    then show ?thesis using ready_ok_tx [OF R] by metis
  qed (use look r t in \<open>auto simp: R'\<close>)
  moreover have "fmdom' ready \<subseteq> fmdom' (ready_tx R)"
    using same_txs_dom [OF ready] by (auto simp: without_def split: option.splits)
  ultimately show ?thesis
    using t(2) by (auto simp: grown_def ready_ok_def R')
qed

lemma ready_add_ok:
  assumes I: "iter_ok I" and R: "ready_ok R" and t: "is_ready t" "nonce_marked (ppt_transaction t)"
    and new: "fmlookup (ready_tx R) (ppt_hash t) = None"
  shows "ok (\<lambda>(res, R'). case res of
      Inl e \<Rightarrow> R' = R \<and> set (provides (ppt_transaction t)) \<subseteq> fmdom' (provided_markers R)
    | Inr _ \<Rightarrow> grown (ppt_transaction t) R R') (ready_add_transaction I t R)"
proof -
  let ?t = "ppt_transaction t"
  from t(2) obtain m where m: "provides ?t = [m]" and mm: "m \<notin> set (requires ?t)" by (cases rule: nonce_marked_cases) auto
  show ?thesis
  proof (cases "replaced_transactions I ?t R")
    case (Pair res R1)
    note spec = replaced_transactions_spec [OF I R m, unfolded Pair]
    show ?thesis
    proof (cases res)
      case (Inl e)
      then show ?thesis using spec t new m Pair by (simp add: ready_add_transaction_def)
    next
      case (Inr x)
      then have prov: "provided_markers R1 = provided_markers R" and same: "same_txs (ready_tx R1) (without R m)"
        using spec by simp_all
      have "fmlookup (ready_tx R1) h \<noteq> None" if req: "m' \<in> set (requires ?t)" "fmlookup (provided_markers R) m' = Some h" for m' h
      proof -
        obtain r where r: "fmlookup (ready_tx R) h = Some r" "provides (rt_tx r) = [m']"
          using req(2) ready_ok_provided [OF R] by blast
        then have "fmlookup (provided_markers R) m \<noteq> Some h" using ready_ok_provided [OF R, of m h] mm req(1) by auto
        then have "fmlookup (without R m) h = Some r" using r by (auto simp: without_def split: option.split)
        then show ?thesis using same_txsD(2) [OF same] by blast
      qed
      then have "ok (\<lambda>s. same_txs (fst s) (ready_tx R1))
          (add_links (ppt_hash t) (provided_markers R) (requires ?t) (ready_tx R1, True, 0))"
        using add_links_ok [of "requires ?t" "provided_markers R" "(ready_tx R1, True, 0)"] by simp
      then obtain ready ind off where
        links: "add_links (ppt_hash t) (provided_markers R) (requires ?t) (ready_tx R1, True, 0) = Val (ready, ind, off)"
        and "same_txs ready (ready_tx R1)" by (auto simp: ok_iff)
      then have "same_txs ready (without R m)" using same by (blast intro: same_txs_trans)
      note added = ready_ok_added [OF R new t(2) m this]
      obtain gone us where x: "x = (gone, us)" by (cases x)
      show ?thesis
        using t new m Pair Inr x links by (simp add: ready_add_transaction_def prov Let_def) (intro conjI impI; rule added; simp)
    qed
  qed
qed

section \<open>The pool\<close>

definition pool_keys :: "PoolInner \<Rightarrow> TxHash set" where
  "pool_keys p = fmdom' (waiting_queue (pending_transactions p)) \<union> fmdom' (ready_tx (ready_transactions p))"

definition pool_ok :: "PoolInner \<Rightarrow> bool" where
  "pool_ok p \<longleftrightarrow>
     pending_ok (pending_transactions p) \<and> ready_ok (ready_transactions p) \<and>
     fmdom' (waiting_queue (pending_transactions p)) \<inter> fmdom' (ready_tx (ready_transactions p)) = {} \<and>
     fmdom' (required_markers (pending_transactions p)) \<inter> fmdom' (provided_markers (ready_transactions p)) = {}"

text \<open>Transactions that are on their way from the waiting queue to the ready queue.\<close>

definition moving :: "PendingPoolTransaction list \<Rightarrow> PoolInner \<Rightarrow> bool" where
  "moving ts p \<longleftrightarrow>
     pool_ok p \<and> (\<forall>t \<in> set ts. is_ready t \<and> nonce_marked (ppt_transaction t)) \<and>
     distinct (map ppt_hash ts) \<and> ppt_hash ` set ts \<inter> pool_keys p = {}"

lemma pool_ok_default: "pool_ok PoolInner_default"
  using pending_ok_default ready_ok_default
  by (simp add: pool_ok_def PoolInner_default_def PendingTransactions_default_def)

lemma pool_ok_shrunk:
  assumes "pool_ok p" "shrunk (ready_transactions p) R"
  shows "pool_ok (p\<lparr>ready_transactions := R\<rparr>)" "pool_keys (p\<lparr>ready_transactions := R\<rparr>) \<subseteq> pool_keys p"
  using assms by (auto simp: pool_ok_def pool_keys_def shrunk_def)

text \<open>One round: the markers of the transaction at the front are checked off, then it is added.\<close>

lemma move_keys:
  assumes "H \<union> W' = W" "H \<inter> W' = {}" "A' \<subseteq> insert h A" "h \<notin> W" "h \<notin> A" "W \<inter> A = {}" "T \<inter> (W \<union> A) = {}" "h \<notin> T"
  shows "(T \<union> H) \<inter> (W' \<union> A') = {}" "W' \<union> A' \<union> H \<subseteq> insert h (W \<union> A)" "W' \<inter> A' = {}" "T \<inter> H = {}"
  using assms by blast+

lemma moving_step:
  assumes I: "iter_ok I" and p: "moving (t # ts) p"
  shows "ok (\<lambda>(us, pending). ok (\<lambda>(res, ready).
      let p' = p\<lparr>pending_transactions := pending, ready_transactions := ready\<rparr>
      in moving (ts @ us) p' \<and> pool_keys p' \<union> ppt_hash ` set us \<subseteq> insert (ppt_hash t) (pool_keys p) \<and>
         (\<forall>e. res = Inl e \<longrightarrow> us = [] \<and> p' = p)) (ready_add_transaction I t (ready_transactions p)))
    (mark_and_unlock I (provides (ppt_transaction t)) (pending_transactions p))"
proof -
  let ?ms = "provides (ppt_transaction t)"
  obtain us pending where u: "mark_and_unlock I ?ms (pending_transactions p) = Val (us, pending)" "pending_ok pending"
    "released (pending_transactions p) pending us"
    "fmdom' (required_markers pending) = fmdom' (required_markers (pending_transactions p)) - set ?ms"
    using mark_and_unlock_ok [OF I, of "pending_transactions p" ?ms] p by (auto simp: moving_def pool_ok_def ok_iff)
  obtain res ready where a: "ready_add_transaction I t (ready_transactions p) = Val (res, ready)"
    "case res of Inl e \<Rightarrow> ready = ready_transactions p \<and> set ?ms \<subseteq> fmdom' (provided_markers (ready_transactions p))
      | Inr _ \<Rightarrow> grown (ppt_transaction t) (ready_transactions p) ready"
    using ready_add_ok [OF I, of "ready_transactions p" t] p
    by (auto simp: moving_def pool_ok_def pool_keys_def ok_iff fmlookup_dom'_iff)
  have idle: "us = [] \<and> pending = pending_transactions p" if "res = Inl e" for e
  proof -
    have "\<forall>m \<in> set ?ms. fmlookup (required_markers (pending_transactions p)) m = None"
      using a(2) that p by (auto simp: moving_def pool_ok_def intro!: fmdom'_notD)
    then show ?thesis using u(1) by (auto simp: mark_and_unlock_idle)
  qed
  have "moving (ts @ us) (p\<lparr>pending_transactions := pending, ready_transactions := ready\<rparr>) \<and>
      pool_keys (p\<lparr>pending_transactions := pending, ready_transactions := ready\<rparr>) \<union> ppt_hash ` set us \<subseteq> insert (ppt_hash t) (pool_keys p)"
  proof (cases res)
    case (Inl e)
    then show ?thesis using idle [OF Inl] a(2) p by (auto simp: moving_def)
  next
    case (Inr x)
    then have g: "grown (ppt_transaction t) (ready_transactions p) ready" using a(2) by simp
    let ?W = "fmdom' (waiting_queue (pending_transactions p))" and ?A = "fmdom' (ready_tx (ready_transactions p))"
    have keys: "ppt_hash ` set us \<union> fmdom' (waiting_queue pending) = ?W"
      "ppt_hash ` set us \<inter> fmdom' (waiting_queue pending) = {}"
      "fmdom' (ready_tx ready) \<subseteq> insert (ppt_hash t) ?A"
      "ppt_hash t \<notin> ?W" "ppt_hash t \<notin> ?A" "?W \<inter> ?A = {}" "ppt_hash ` set ts \<inter> (?W \<union> ?A) = {}" "ppt_hash t \<notin> ppt_hash ` set ts"
      using p g u(3) by (auto simp: moving_def pool_ok_def pool_keys_def released_def grown_def)
    have "fmdom' (waiting_queue pending) \<inter> fmdom' (ready_tx ready) = {}" by (rule move_keys(3) [OF keys])
    moreover have "fmdom' (required_markers pending) \<inter> fmdom' (provided_markers ready) = {}"
      using p g u(4) by (auto simp: pool_ok_def moving_def grown_def)
    ultimately have "pool_ok (p\<lparr>pending_transactions := pending, ready_transactions := ready\<rparr>)"
      using g u(2) by (simp add: pool_ok_def grown_def)
    moreover have "ppt_hash ` set ts \<inter> ppt_hash ` set us = {}" by (rule move_keys(4) [OF keys])
    then have "distinct (map ppt_hash (ts @ us))" using p u(3) by (simp add: moving_def released_def)
    moreover have "\<forall>t \<in> set (ts @ us). is_ready t \<and> nonce_marked (ppt_transaction t)"
      using p u(3) by (auto simp: moving_def released_def)
    moreover have "ppt_hash ` set (ts @ us) \<inter> (fmdom' (waiting_queue pending) \<union> fmdom' (ready_tx ready)) = {}"
      "fmdom' (waiting_queue pending) \<union> fmdom' (ready_tx ready) \<union> ppt_hash ` set us \<subseteq> insert (ppt_hash t) (?W \<union> ?A)"
      using move_keys(1,2) [OF keys] by (simp_all only: set_append image_Un)
    ultimately show ?thesis by (simp add: moving_def pool_keys_def)
  qed
  then show ?thesis using u(1) a idle by (auto simp: Let_def)
qed

lemma add_ready_loop_ok:
  assumes "iter_ok I" "moving ts p"
  shows "ok (\<lambda>(res, p'). pool_ok p' \<and> pool_keys p' \<subseteq> pool_keys p \<union> ppt_hash ` set ts \<and> (\<forall>e. res = Inl e \<longrightarrow> is_new \<and> p' = p))
    (add_ready_loop I is_new ts res p)"
  using assms
proof (induction I is_new ts res p rule: add_ready_loop.induct)
  case (2 I is_new t queue res p)
  note Inl_IH = 2(1) and Inr_IH = 2(2)
  obtain us pending r ready where
    step: "mark_and_unlock I (provides (ppt_transaction t)) (pending_transactions p) = Val (us, pending)"
      "ready_add_transaction I t (ready_transactions p) = Val (r, ready)"
    and mv: "moving (queue @ us) (p\<lparr>pending_transactions := pending, ready_transactions := ready\<rparr>)"
    and keys: "pool_keys (p\<lparr>pending_transactions := pending, ready_transactions := ready\<rparr>) \<union> ppt_hash ` set us \<subseteq> insert (ppt_hash t) (pool_keys p)"
    and same: "\<forall>e. r = Inl e \<longrightarrow> us = [] \<and> p\<lparr>pending_transactions := pending, ready_transactions := ready\<rparr> = p"
    using moving_step [OF 2(3,4)] by (auto simp: ok_iff Let_def)
  let ?p = "p\<lparr>pending_transactions := pending, ready_transactions := ready\<rparr>"
  have bound: "pool_keys ?p \<union> ppt_hash ` set (queue @ us) \<subseteq> pool_keys p \<union> ppt_hash ` set (t # queue)"
    using keys by auto
  have weaken: "ok (\<lambda>(res, p'). pool_ok p' \<and> pool_keys p' \<subseteq> pool_keys p \<union> ppt_hash ` set (t # queue) \<and>
      (\<forall>e. res = Inl e \<longrightarrow> is_new \<and> p' = p)) c"
    if "ok (\<lambda>(res, p'). pool_ok p' \<and> pool_keys p' \<subseteq> pool_keys ?p \<union> ppt_hash ` set (queue @ us) \<and>
      (\<forall>e. res = Inl e \<longrightarrow> False \<and> p' = ?p)) c" for c :: "((PoolError + ReadyResult) \<times> PoolInner) comp"
    by (rule ok_mono [OF that]) (use bound in \<open>blast\<close>)
  show ?case
  proof (cases r)
    case (Inl e)
    show ?thesis
    proof (cases is_new)
      case True
      then show ?thesis using Inl step same mv by (auto simp: Let_def moving_def)
    next
      case False
      show ?thesis
        using weaken [OF Inl_IH [OF step(1) refl step(2) refl refl Inl False 2(3) mv]] Inl False step
        by (simp add: Let_def)
    qed
  next
    case (Inr gone)
    show ?thesis
      using weaken [OF Inr_IH [OF step(1) refl step(2) refl refl Inr 2(3) mv]] Inr step by (simp add: Let_def)
  qed
qed (simp add: moving_def)

declare add_ready_loop.simps [simp del]

lemma add_ready_ok:
  assumes "iter_ok I" "moving [t] p"
  shows "ok (\<lambda>(res, p'). pool_ok p' \<and> pool_keys p' \<subseteq> insert (ppt_hash t) (pool_keys p) \<and>
      (\<forall>e. res = Inl e \<longrightarrow> e = CyclicTransaction \<or> p' = p)) (add_ready_transaction I t p)"
proof -
  obtain res p' where l: "add_ready_loop I True [t] (ReadyResult_new (ppt_hash t)) p = Val (res, p')"
    and q: "pool_ok p'" "pool_keys p' \<subseteq> pool_keys p \<union> ppt_hash ` set [t]" "\<forall>e. res = Inl e \<longrightarrow> True \<and> p' = p"
    using add_ready_loop_ok [OF assms, of True "ReadyResult_new (ppt_hash t)"] by (auto simp: ok_iff)
  have "shrunk (ready_transactions p') (snd (clear_transactions hs (ready_transactions p')))" for hs
    using q(1) by (simp add: clear_transactions_def remove_with_markers_def pool_ok_def remove_loop_shrunk)
  note pool_ok_shrunk [OF q(1) this]
  then show ?thesis
    using q by (cases res) (auto simp: add_ready_transaction_def l dest!: subsetD)
qed

lemma inner_add_ok:
  assumes I: "iter_ok I" and p: "pool_ok p" and t: "nonce_marked t"
  shows "ok (\<lambda>(res, p'). pool_ok p' \<and> pool_keys p' \<subseteq> insert (hash_of t) (pool_keys p) \<and>
      (\<forall>e. res = Inl e \<longrightarrow> e = CyclicTransaction \<or> p' = p)) (inner_add_transaction I t p)"
proof (cases "inner_contains (hash_of t) p")
  case True
  then show ?thesis using p by (auto simp: inner_add_transaction_def)
next
  case False
  then have new: "fmlookup (waiting_queue (pending_transactions p)) (hash_of t) = None"
    "fmlookup (ready_tx (ready_transactions p)) (hash_of t) = None" by (auto simp: inner_contains_def)
  let ?t = "PendingPoolTransaction_new t (provided_markers (ready_transactions p))"
  have [simp]: "ppt_transaction ?t = t" by (simp add: PendingPoolTransaction_new_def)
  show ?thesis
  proof (cases "is_ready ?t")
    case True
    then have "moving [?t] p" using p t new by (auto simp: moving_def pool_keys_def fmlookup_dom'_iff)
    from add_ready_ok [OF I this] show ?thesis using True False by (simp add: inner_add_transaction_def)
  next
    case waits: False
    have missing: "m \<notin> fmdom' (provided_markers (ready_transactions p))" if "m |\<in>| missing_markers ?t" for m
      using that by (auto simp: PendingPoolTransaction_new_def fset_of_list_elem fmlookup_dom'_iff)
    obtain res q where a: "pending_add_transaction I ?t (pending_transactions p) = Val (res, q)" "pending_ok q"
      "\<forall>e. res = Inl e \<longrightarrow> q = pending_transactions p"
      "res = Inr () \<longrightarrow> fmdom' (required_markers q) = fmdom' (required_markers (pending_transactions p)) \<union> fset (missing_markers ?t) \<and>
                 fmdom' (waiting_queue q) = insert (hash_of t) (fmdom' (waiting_queue (pending_transactions p)))"
      using pending_add_ok [OF I, of "pending_transactions p" ?t] waits t new p by (auto simp: pool_ok_def ok_iff)
    show ?thesis
    proof (cases res)
      case (Inl e)
      then show ?thesis using a p waits False by (auto simp: inner_add_transaction_def Let_def)
    next
      case (Inr u)
      have "pool_ok (p\<lparr>pending_transactions := q\<rparr>)"
        using a Inr p new missing by (auto simp: pool_ok_def fmlookup_dom'_iff)
      then show ?thesis
        using a Inr waits False by (auto simp: inner_add_transaction_def Let_def pool_keys_def)
    qed
  qed
qed

lemma apart_keys:
  assumes "H \<union> W' = W" "H \<inter> W' = {}" "A' \<subseteq> A" "W \<inter> A = {}" "T \<inter> (W \<union> A) = {}"
  shows "W' \<inter> A' = {}" "T \<inter> H = {}" "(T \<union> H) \<inter> (W' \<union> A') = {}"
  using assms by blast+

lemma disjoint_grown: "T \<inter> K = {} \<Longrightarrow> h \<notin> T \<Longrightarrow> K' \<subseteq> insert h K \<Longrightarrow> T \<inter> K' = {}"
  by blast

lemma prune_each_ok:
  assumes "iter_ok I" "moving (fst s) (snd (snd s))"
  shows "ok (\<lambda>s'. moving (fst s') (snd (snd s'))) (prune_each I ms s)"
  using assms
proof (induction I ms s rule: prune_each.induct)
  case (2 I m ms ims pruned p)
  let ?q = "pending_transactions p" and ?R = "ready_transactions p"
  have mv: "moving ims p" using 2(3) by simp
  then have okp: "pending_ok ?q" "ready_ok ?R" by (simp_all add: moving_def pool_ok_def)
  obtain us q where u: "mark_and_unlock I [m] ?q = Val (us, q)" "pending_ok q" "released ?q q us"
    "fmdom' (required_markers q) = fmdom' (required_markers ?q) - {m}"
    using mark_and_unlock_ok [OF 2(2) okp(1), of "[m]"] by (auto simp: ok_iff)
  obtain gone R where r: "prune_tags m ?R = Val (gone, R)" "shrunk ?R R"
    using prune_loop_shrunk [OF okp(2), of "[m]"] by (auto simp: ok_iff prune_tags_def)
  have keys: "ppt_hash ` set us \<union> fmdom' (waiting_queue q) = fmdom' (waiting_queue ?q)"
    "ppt_hash ` set us \<inter> fmdom' (waiting_queue q) = {}" "fmdom' (ready_tx R) \<subseteq> fmdom' (ready_tx ?R)"
    "fmdom' (waiting_queue ?q) \<inter> fmdom' (ready_tx ?R) = {}"
    "ppt_hash ` set ims \<inter> (fmdom' (waiting_queue ?q) \<union> fmdom' (ready_tx ?R)) = {}"
    using mv u(3) r(2) by (auto simp: moving_def pool_ok_def pool_keys_def released_def shrunk_def)
  have apart: "fmdom' (waiting_queue q) \<inter> fmdom' (ready_tx R) = {}" "ppt_hash ` set ims \<inter> ppt_hash ` set us = {}"
    "(ppt_hash ` set ims \<union> ppt_hash ` set us) \<inter> (fmdom' (waiting_queue q) \<union> fmdom' (ready_tx R)) = {}"
    using apart_keys [OF keys] by simp_all
  have "fmdom' (required_markers q) \<inter> fmdom' (provided_markers R) = {}"
    using mv u(4) r(2) by (auto simp: moving_def pool_ok_def shrunk_def)
  then have "moving (ims @ us) (p\<lparr>pending_transactions := q, ready_transactions := R\<rparr>)"
    using mv u r(2) apart
    by (simp add: moving_def pool_ok_def pool_keys_def released_def shrunk_def image_Un ball_Un)
  then show ?case using 2(1) [OF u(1) refl r(1) refl 2(2)] u(1) r(1) by simp
qed simp

lemma promote_each_ok:
  assumes "iter_ok I" "moving ts (snd (snd s))"
  shows "ok (\<lambda>s'. pool_ok (snd (snd s'))) (promote_each I ts s)"
  using assms
proof (induction I ts s rule: promote_each.induct)
  case (2 I t ts done_tx failed p)
  have "moving [t] p" using 2(4) by (auto simp: moving_def)
  then obtain res p' where a: "add_ready_transaction I t p = Val (res, p')" "pool_ok p'" "pool_keys p' \<subseteq> insert (ppt_hash t) (pool_keys p)"
    using add_ready_ok [OF 2(3), of t p] by (auto simp: ok_iff)
  have "ppt_hash ` set ts \<inter> pool_keys p = {}" "ppt_hash t \<notin> ppt_hash ` set ts" using 2(4) by (auto simp: moving_def)
  then have "ppt_hash ` set ts \<inter> pool_keys p' = {}" using a(3) by (rule disjoint_grown)
  then have mv: "moving ts p'" using 2(4) a(2) by (simp add: moving_def)
  show ?case
  proof (cases res)
    case (Inl e)
    then show ?thesis using 2(1) [OF a(1) refl Inl 2(3)] a(1) mv by simp
  next
    case (Inr x)
    then show ?thesis using 2(2) [OF a(1) refl Inr 2(3)] a(1) mv by simp
  qed
qed (simp add: moving_def)

lemma inner_prune_ok:
  assumes "iter_ok I" "pool_ok p"
  shows "ok (\<lambda>(res, p'). pool_ok p') (inner_prune_markers I ms p)"
proof -
  obtain ims pruned p' where p': "prune_each I ms ([], [], p) = Val (ims, pruned, p')" "moving ims p'"
    using prune_each_ok [OF assms(1), of "([], [], p)" ms] assms(2) by (auto simp: ok_iff moving_def)
  then show ?thesis
    using promote_each_ok [OF assms(1), of ims "([], [], p')"]
    by (simp add: inner_prune_markers_def case_prod_unfold)
qed

lemma inner_remove_ok:
  assumes "iter_ok I" "pool_ok p"
  shows "pool_ok (snd (inner_remove_invalid I hs p))"
proof -
  have "shrunk (ready_transactions p) (snd (remove_with_markers hs None (ready_transactions p)))"
    using assms(2) by (simp add: remove_with_markers_def pool_ok_def remove_loop_shrunk)
  moreover have "pending_ok (pending_transactions p)" using assms(2) by (simp add: pool_ok_def)
  ultimately show ?thesis
    using pending_remove_ok [OF assms(1), of "pending_transactions p" hs] assms(2)
    by (auto simp: inner_remove_invalid_def Let_def case_prod_unfold pool_ok_def shrunk_def)
qed

section \<open>Operations of the pool\<close>

datatype PoolOp =
    AddTransaction PoolTransaction
  | MinedBlock MinedBlockOutcome
  | RemoveInvalid "TxHash list"
  | DropTransaction TxHash

fun pool_op :: "('l \<Rightarrow> TxHash \<Rightarrow> SendResult \<times> 'l) \<Rightarrow> HashIter \<Rightarrow> PoolOp \<Rightarrow> 'l Pool \<Rightarrow> 'l Pool comp" where
  "pool_op snd_l I (AddTransaction t) p = bind_comp (pool_add_transaction snd_l I t p) (\<lambda>(r, p). Val p)"
| "pool_op snd_l I (MinedBlock b) p = bind_comp (on_mined_block I b p) (\<lambda>(r, p). Val p)"
| "pool_op snd_l I (RemoveInvalid hs) p = Val (snd (pool_remove_invalid I hs p))"
| "pool_op snd_l I (DropTransaction h) p = Val (snd (drop_transaction h p))"

fun pool_ops :: "('l \<Rightarrow> TxHash \<Rightarrow> SendResult \<times> 'l) \<Rightarrow> HashIter \<Rightarrow> PoolOp list \<Rightarrow> 'l Pool \<Rightarrow> 'l Pool comp" where
  "pool_ops snd_l I [] p = Val p"
| "pool_ops snd_l I (x # xs) p = bind_comp (pool_op snd_l I x p) (pool_ops snd_l I xs)"

fun op_marked :: "PoolOp \<Rightarrow> bool" where
  "op_marked (AddTransaction t) = nonce_marked t"
| "op_marked (MinedBlock b) = True"
| "op_marked (RemoveInvalid hs) = True"
| "op_marked (DropTransaction h) = True"

lemma inner_notify [simp]: "inner (notify_listener snd_l h p) = inner p"
  by (simp add: notify_listener_def)

lemma inner_fold_notify [simp]: "inner (fold (notify_listener snd_l) hs p) = inner p"
  by (induction hs arbitrary: p) simp_all

lemma pool_op_ok:
  assumes I: "iter_ok I" and p: "pool_ok (inner p)" and x: "op_marked x"
  shows "ok (\<lambda>p'. pool_ok (inner p')) (pool_op snd_l I x p)"
proof (cases x)
  case (AddTransaction t)
  then obtain res q where "inner_add_transaction I t (inner p) = Val (res, q)" "pool_ok q"
    using inner_add_ok [OF I p, of t] x by (auto simp: ok_iff)
  then show ?thesis using AddTransaction by (auto simp: pool_add_transaction_def Let_def split: sum.split AddedTransaction.split)
next
  case (MinedBlock b)
  then show ?thesis
    using inner_prune_ok [OF I inner_remove_ok [OF I p]]
    by (simp add: on_mined_block_def pool_remove_invalid_def pool_prune_markers_def case_prod_unfold Let_def)
next
  case (RemoveInvalid hs)
  then show ?thesis using inner_remove_ok [OF I p] by (simp add: pool_remove_invalid_def case_prod_unfold Let_def)
next
  case (DropTransaction h)
  have "shrunk (ready_transactions (inner p)) (snd (remove_with_markers [h] None (ready_transactions (inner p))))"
    using p by (simp add: remove_with_markers_def pool_ok_def remove_loop_shrunk)
  with DropTransaction show ?thesis
    using pool_ok_shrunk [OF p] by (simp add: drop_transaction_def case_prod_unfold Let_def)
qed

lemma pool_ops_ok:
  assumes "iter_ok I" "pool_ok (inner p)" "\<forall>x \<in> set xs. op_marked x"
  shows "ok (\<lambda>p'. pool_ok (inner p')) (pool_ops snd_l I xs p)"
  using assms(2,3)
proof (induction xs arbitrary: p)
  case (Cons x xs)
  then have "ok (\<lambda>p'. pool_ok (inner p')) (pool_op snd_l I x p)" by (simp add: pool_op_ok [OF assms(1)])
  then have "ok (\<lambda>p'. ok (\<lambda>p''. pool_ok (inner p'')) (pool_ops snd_l I xs p')) (pool_op snd_l I x p)"
    by (rule ok_mono) (use Cons in simp)
  then show ?case by simp
qed simp

end
