(* ===== verification/Node_Fees.thy ===== *)
theory Node_Fees
  imports Node_Transaction "HOL-Library.Finite_Map"
begin

text \<open>
  Fees and block times of the node: the fee manager and the base fee of the next block
  (\<open>anvil/src/eth/fees.rs\<close>), the fee fields of a request, the cache of the fee history, and the time
  manager (\<open>anvil/src/eth/backend/time.rs\<close>). The clock is an argument. Floating-point ratios and the
  percentiles computed with them are left out.
\<close>

section \<open>Fees\<close>

definition MAX_FEE_HISTORY_CACHE_SIZE :: u64 where "MAX_FEE_HISTORY_CACHE_SIZE = 2048"

definition INITIAL_BASE_FEE :: u64 where "INITIAL_BASE_FEE = 1000000000"

definition INITIAL_GAS_PRICE :: u64 where "INITIAL_GAS_PRICE = 1875000000"

definition BASE_FEE_CHANGE_DENOMINATOR :: u64 where "BASE_FEE_CHANGE_DENOMINATOR = 8"

definition EIP1559_ELASTICITY_MULTIPLIER :: u64 where "EIP1559_ELASTICITY_MULTIPLIER = 2"

record FeeManager =
  fm_spec_id :: SpecId
  fm_base_fee :: U256
  fm_gas_price :: U256

definition FeeManager_new :: "SpecId \<Rightarrow> U256 \<Rightarrow> U256 \<Rightarrow> FeeManager" where
  "FeeManager_new spec fee price = \<lparr> fm_spec_id = spec, fm_base_fee = fee, fm_gas_price = price \<rparr>"

definition is_eip1559 :: "FeeManager \<Rightarrow> bool" where
  "is_eip1559 f \<longleftrightarrow> enabled (fm_spec_id f) LONDON"

definition suggested_priority_fee :: U256 where
  "suggested_priority_fee = 1000000000"

definition base_fee :: "FeeManager \<Rightarrow> U256" where
  "base_fee f = (if is_eip1559 f then fm_base_fee f else 0)"

definition current_gas_price :: "FeeManager \<Rightarrow> U256" where
  "current_gas_price f = (if is_eip1559 f then saturating_add (base_fee f) suggested_priority_fee else fm_gas_price f)"

definition max_priority_fee_per_gas :: "FeeManager \<Rightarrow> U256 comp" where
  "max_priority_fee_per_gas f =
     bind_comp (unwrap (checked_mul (fm_base_fee f) 2)) (\<lambda>x. unwrap (checked_add suggested_priority_fee x))"

definition set_gas_price :: "U256 \<Rightarrow> FeeManager \<Rightarrow> FeeManager" where
  "set_gas_price price f = f\<lparr>fm_gas_price := price\<rparr>"

definition set_base_fee :: "U256 \<Rightarrow> FeeManager \<Rightarrow> FeeManager" where
  "set_base_fee fee f = f\<lparr>fm_base_fee := fee\<rparr>"

text \<open>
  The products of the formula are taken in 128 bits. Dividing by a target of zero panics; the new fee is
  a plain 64-bit sum, which wraps.
\<close>

definition fee_delta :: "u64 \<Rightarrow> u64 \<Rightarrow> u64 \<Rightarrow> 128 word comp" where
  "fee_delta fee delta target =
     (if target = 0 then Panic
      else Val ((ucast fee * ucast delta) div ucast target div ucast BASE_FEE_CHANGE_DENOMINATOR))"

definition calculate_next_block_base_fee :: "u64 \<Rightarrow> u64 \<Rightarrow> u64 \<Rightarrow> u64 comp" where
  "calculate_next_block_base_fee gas_used gas_limit fee =
     (let gas_target = gas_limit div EIP1559_ELASTICITY_MULTIPLIER
      in if gas_used = gas_target then Val fee
         else if gas_used > gas_target
         then bind_comp (fee_delta fee (gas_used - gas_target) gas_target) (\<lambda>d. Val (fee + ucast (max 1 d)))
         else bind_comp (fee_delta fee (gas_target - gas_used) gas_target) (\<lambda>d. Val (saturating_sub fee (ucast d))))"

definition get_next_block_base_fee_per_gas :: "U256 \<Rightarrow> U256 \<Rightarrow> U256 \<Rightarrow> FeeManager \<Rightarrow> u64 comp" where
  "get_next_block_base_fee_per_gas gas_used gas_limit last_fee_per_gas f =
     (if base_fee f = 0 then Val 0
      else bind_comp (as_u64 gas_used) (\<lambda>u. bind_comp (as_u64 gas_limit) (\<lambda>l.
             bind_comp (as_u64 last_fee_per_gas) (calculate_next_block_base_fee u l))))"

record FeeDetails =
  fd_gas_price :: "U256 option"
  fd_max_fee_per_gas :: "U256 option"
  fd_max_priority_fee_per_gas :: "U256 option"

definition FeeDetails_zero :: FeeDetails where
  "FeeDetails_zero = \<lparr> fd_gas_price = Some 0, fd_max_fee_per_gas = Some 0, fd_max_priority_fee_per_gas = Some 0 \<rparr>"

definition or_zero_fees :: "FeeDetails \<Rightarrow> FeeDetails" where
  "or_zero_fees d =
     (let no_fees = fd_gas_price d = None \<and> fd_max_fee_per_gas d = None
      in d\<lparr>fd_gas_price := (if no_fees then Some 0 else fd_gas_price d),
           fd_max_fee_per_gas := (if no_fees then Some 0 else fd_max_fee_per_gas d)\<rparr>)"

fun FeeDetails_new :: "U256 option \<Rightarrow> U256 option \<Rightarrow> U256 option \<Rightarrow> FeeDetails option" where
  "FeeDetails_new price None None =
     Some \<lparr> fd_gas_price = price, fd_max_fee_per_gas = price, fd_max_priority_fee_per_gas = price \<rparr>"
| "FeeDetails_new price max_fee max_priority =
     (if (case max_priority of None \<Rightarrow> False | Some tip \<Rightarrow> unwrap_or 0 max_fee < tip) then None
      else Some \<lparr> fd_gas_price = max_fee, fd_max_fee_per_gas = max_fee, fd_max_priority_fee_per_gas = max_priority \<rparr>)"

section \<open>Fee history\<close>

text \<open>The cache is a map from block numbers to items; \<open>'i\<close> is the type of the items.\<close>

fun drop_keys :: "u64 \<Rightarrow> nat \<Rightarrow> nat \<Rightarrow> (u64, 'i) fmap \<Rightarrow> (u64, 'i) fmap" where
  "drop_keys pop_next num 0 c = c"
| "drop_keys pop_next num (Suc k) c = drop_keys pop_next (num + 1) k (fmdrop (pop_next - of_nat num) c)"

definition insert_cache_entry :: "u64 \<Rightarrow> 'i \<Rightarrow> u64 option \<Rightarrow> (u64, 'i) fmap \<Rightarrow> (u64, 'i) fmap" where
  "insert_cache_entry limit item number c =
     (case number of
        None \<Rightarrow> c
      | Some n \<Rightarrow>
          let c = fmupd n item c;
              pop_next = saturating_sub n limit;
              num_remove = saturating_sub (of_nat (fcard (fmdom c))) limit
          in drop_keys pop_next 0 (unat num_remove) c)"

section \<open>Block times\<close>

text \<open>An \<open>i128\<close> is an integer between its bounds; \<open>as u64\<close> keeps the low 64 bits.\<close>

definition i128_MIN :: int where "i128_MIN = - (2 ^ 127)"

definition i128_MAX :: int where "i128_MAX = 2 ^ 127 - 1"

definition i128_saturating_add :: "int \<Rightarrow> int \<Rightarrow> int" where
  "i128_saturating_add a b = max i128_MIN (min i128_MAX (a + b))"

record TimeManager =
  tm_offset :: int
  last_timestamp :: u64
  next_exact_timestamp :: "u64 option"
  tm_interval :: "u64 option"

definition TimeManager_reset :: "u64 \<Rightarrow> u64 \<Rightarrow> TimeManager \<Rightarrow> TimeManager" where
  "TimeManager_reset now start m =
     m\<lparr>last_timestamp := start, tm_offset := uint start - uint now, next_exact_timestamp := None\<rparr>"

definition TimeManager_new :: "u64 \<Rightarrow> u64 \<Rightarrow> TimeManager" where
  "TimeManager_new now start =
     TimeManager_reset now start \<lparr> tm_offset = 0, last_timestamp = 0, next_exact_timestamp = None, tm_interval = None \<rparr>"

definition add_offset :: "int \<Rightarrow> TimeManager \<Rightarrow> int \<times> TimeManager" where
  "add_offset off m = (let nxt = i128_saturating_add (tm_offset m) off in (nxt, m\<lparr>tm_offset := nxt\<rparr>))"

definition increase_time :: "u64 \<Rightarrow> TimeManager \<Rightarrow> int \<times> TimeManager" where
  "increase_time seconds m = add_offset (uint seconds) m"

definition set_next_block_timestamp :: "u64 \<Rightarrow> TimeManager \<Rightarrow> TimeManager option" where
  "set_next_block_timestamp ts m =
     (if ts \<le> last_timestamp m then None else Some (m\<lparr>next_exact_timestamp := Some ts\<rparr>))"

definition set_block_timestamp_interval :: "u64 \<Rightarrow> TimeManager \<Rightarrow> TimeManager" where
  "set_block_timestamp_interval ival m = m\<lparr>tm_interval := Some ival\<rparr>"

definition remove_block_timestamp_interval :: "TimeManager \<Rightarrow> bool \<times> TimeManager" where
  "remove_block_timestamp_interval m = (tm_interval m \<noteq> None, m\<lparr>tm_interval := None\<rparr>)"

definition compute_next_timestamp :: "u64 \<Rightarrow> TimeManager \<Rightarrow> u64 \<times> int option" where
  "compute_next_timestamp now m =
     (let (nxt, update_offset) =
            (case next_exact_timestamp m of
               Some n \<Rightarrow> (n, True)
             | None \<Rightarrow>
                 (case tm_interval m of
                    Some ival \<Rightarrow> (saturating_add (last_timestamp m) ival, False)
                  | None \<Rightarrow> (word_of_int (i128_saturating_add (uint now) (tm_offset m)), False)));
          nxt = (if nxt \<le> last_timestamp m then last_timestamp m + 1 else nxt)
      in (nxt, if update_offset then Some (uint nxt - uint now) else None))"

definition next_timestamp :: "u64 \<Rightarrow> TimeManager \<Rightarrow> u64 \<times> TimeManager" where
  "next_timestamp now m =
     (let (nxt, next_offset) = compute_next_timestamp now m
      in (nxt, m\<lparr>next_exact_timestamp := None,
                 tm_offset := (case next_offset of None \<Rightarrow> tm_offset m | Some off \<Rightarrow> off),
                 last_timestamp := nxt\<rparr>))"

definition current_call_timestamp :: "u64 \<Rightarrow> TimeManager \<Rightarrow> u64" where
  "current_call_timestamp now m = fst (compute_next_timestamp now m)"

section \<open>The base fee against its definition over the naturals\<close>

definition next_base_fee :: "nat \<Rightarrow> nat \<Rightarrow> nat \<Rightarrow> nat" where
  "next_base_fee used target fee =
     (if used = target then fee
      else if used > target then fee + max 1 (fee * (used - target) div target div 8)
      else fee - fee * (target - used) div target div 8)"

lemma unat_ucast_128: "unat (ucast (x :: u64) :: 128 word) = unat x"
  by (simp add: unsigned_ucast_eq take_bit_nat_eq_self order_less_trans [OF unsigned_less])

lemma fee_delta_exact:
  assumes "target \<noteq> 0"
  obtains d where "fee_delta fee delta target = Val d" "unat d = unat fee * unat delta div unat target div 8"
proof -
  have "unat fee * unat delta < 2 ^ 64 * 2 ^ 64"
    using unsigned_less [of fee] unsigned_less [of delta] by (intro mult_strict_mono) auto
  then have "unat (ucast fee * ucast delta :: 128 word) = unat fee * unat delta"
    by (subst unat_mult_nowrap) (simp_all add: unat_ucast_128)
  then show thesis
    using assms that by (simp add: fee_delta_def unat_div unat_ucast_128 BASE_FEE_CHANGE_DENOMINATOR_def)
qed

lemma unat_ucast_64: "unat (d :: 128 word) < 2 ^ 64 \<Longrightarrow> unat (ucast d :: u64) = unat d"
  by (simp add: unsigned_ucast_eq take_bit_nat_eq_self)

lemma raise_bound:
  fixes fee target used :: nat
  assumes "0 < target" "used \<le> 2 * target + 1"
  shows "fee * (used - target) div target div 8 \<le> fee div 4"
    "used \<le> 2 * target \<Longrightarrow> fee * (used - target) div target div 8 \<le> fee div 8"
proof -
  have "fee * (used - target) \<le> fee * (2 * target)" using assms by (intro mult_le_mono2) simp
  then have "fee * (used - target) div target \<le> 2 * fee"
    using assms(1) by (metis div_le_mono mult.assoc mult.commute nonzero_mult_div_cancel_right not_less0)
  then have "fee * (used - target) div target div 8 \<le> 2 * fee div 8" by (rule div_le_mono)
  then show "fee * (used - target) div target div 8 \<le> fee div 4" by simp
  assume "used \<le> 2 * target"
  then have "fee * (used - target) \<le> fee * target" by (intro mult_le_mono2) simp
  then have "fee * (used - target) div target \<le> fee"
    using assms(1) by (metis div_le_mono nonzero_mult_div_cancel_right not_less0)
  then show "fee * (used - target) div target div 8 \<le> fee div 8" by (rule div_le_mono)
qed

lemma calculate_exact:
  assumes limit: "2 \<le> unat limit" and used: "unat used \<le> unat limit" and fee: "unat fee < 2 ^ 63"
  shows "\<exists>r. calculate_next_block_base_fee used limit fee = Val r \<and>
    unat r = next_base_fee (unat used) (unat limit div 2) (unat fee)"
proof -
  let ?t = "limit div EIP1559_ELASTICITY_MULTIPLIER"
  have t: "unat ?t = unat limit div 2" by (simp add: unat_div EIP1559_ELASTICITY_MULTIPLIER_def)
  then have "0 < unat ?t" using limit by linarith
  then have t0: "?t \<noteq> 0" by auto
  consider "used = ?t" | "used > ?t" | "used < ?t" by (metis linorder_neqE)
  then show ?thesis
  proof cases
    case 2
    obtain d where d: "fee_delta fee (used - ?t) ?t = Val d"
      "unat d = unat fee * unat (used - ?t) div unat ?t div 8" by (rule fee_delta_exact [OF t0])
    have sub: "unat (used - ?t) = unat used - unat ?t" using 2 by (simp add: unat_sub_nowrap)
    have "unat d \<le> unat fee div 4"
      unfolding d(2) sub using \<open>0 < unat ?t\<close> used t by (intro raise_bound(1)) simp_all
    then have m: "unat (max 1 d) = max 1 (unat d)" "unat (max 1 d) < 2 ^ 63"
      using fee by (auto simp: max_def word_le_nat_alt)
    then have "unat (fee + ucast (max 1 d)) = unat fee + max 1 (unat d)"
      using fee by (subst unat_add_nowrap) (simp_all add: unat_ucast_64)
    then show ?thesis
      using 2 d t sub less_imp_neq [OF 2] by (simp add: calculate_next_block_base_fee_def Let_def next_base_fee_def word_less_nat_alt)
  next
    case 3
    obtain d where d: "fee_delta fee (?t - used) ?t = Val d"
      "unat d = unat fee * unat (?t - used) div unat ?t div 8" by (rule fee_delta_exact [OF t0])
    have sub: "unat (?t - used) = unat ?t - unat used" using 3 by (simp add: unat_sub_nowrap)
    have "unat fee * unat (?t - used) div unat ?t \<le> unat fee"
      using \<open>0 < unat ?t\<close> unfolding sub by (metis diff_le_self div_le_mono mult_le_mono2 nonzero_mult_div_cancel_right not_less0)
    then have "unat d \<le> unat fee" unfolding d(2) by (rule order_trans [OF div_le_dividend])
    then have "unat d < 2 ^ 64" using fee by simp
    then have "unat (saturating_sub fee (ucast d)) = unat fee - unat d" by (simp add: unat_ucast_64)
    then show ?thesis
      using 3 d t sub less_imp_neq [OF 3] by (simp add: calculate_next_block_base_fee_def Let_def next_base_fee_def word_less_nat_alt)
  qed (use t in \<open>simp add: calculate_next_block_base_fee_def Let_def next_base_fee_def\<close>)
qed

section \<open>Block times move forward\<close>

lemma unat_less_64: "unat (x :: u64) < 2 ^ 64"
  by (rule order_less_le_trans [OF unsigned_less]) simp

lemma unat_plus_one:
  assumes "(x :: u64) \<noteq> - 1"
  shows "unat (x + 1) = unat x + 1"
proof -
  have "unat x \<noteq> unat (- 1 :: u64)" using assms by (simp only: word_unat_eq_iff not_False_eq_True)
  then have "unat x + 1 < 2 ^ 64" using unat_less_64 [of x] by simp
  then show ?thesis by (simp add: unat_add_nowrap)
qed

lemma less_plus_one: "(x :: u64) \<noteq> - 1 \<Longrightarrow> x < x + 1"
  by (simp add: word_less_nat_alt unat_plus_one)

lemma next_timestamp_later:
  assumes "last_timestamp m \<noteq> - 1"
  shows "last_timestamp m < fst (next_timestamp now m)" "last_timestamp (snd (next_timestamp now m)) = fst (next_timestamp now m)"
    "current_call_timestamp now m = fst (next_timestamp now m)"
proof -
  have "last_timestamp m < last_timestamp m + 1" by (rule less_plus_one [OF assms])
  then show "last_timestamp m < fst (next_timestamp now m)"
    by (auto simp: next_timestamp_def compute_next_timestamp_def Let_def case_prod_unfold)
qed (simp_all add: next_timestamp_def current_call_timestamp_def case_prod_unfold Let_def)

lemma i128_saturating_add_fits: "0 \<le> a + b \<Longrightarrow> a + b < 2 ^ 64 \<Longrightarrow> i128_saturating_add a b = a + b"
  by (simp add: i128_saturating_add_def i128_MIN_def i128_MAX_def)

lemma exact_timestamp_used:
  assumes "set_next_block_timestamp ts m = Some m1" and "next_timestamp now m1 = (t, m2)"
  shows "t = ts" "last_timestamp m2 = ts" "next_exact_timestamp m2 = None" "tm_offset m2 = uint ts - uint now"
    "tm_interval m2 = tm_interval m"
  using assms
  by (auto simp: set_next_block_timestamp_def next_timestamp_def compute_next_timestamp_def split: if_splits)

text \<open>Later blocks keep the distance of the clock to the timestamp that was set.\<close>

lemma clock_follows:
  assumes "next_exact_timestamp m = None" "tm_interval m = None" and off: "tm_offset m = uint (last_timestamp m) - uint now"
    and now: "now \<le> now'" and fits: "unat (last_timestamp m) + (unat now' - unat now) < 2 ^ 64"
    and last: "last_timestamp m \<noteq> - 1"
  shows "unat (fst (next_timestamp now' m)) = unat (last_timestamp m) + max 1 (unat now' - unat now)"
proof -
  let ?l = "last_timestamp m"
  have le: "unat now \<le> unat now'" using now by (simp add: word_le_nat_alt)
  have u: "unat (?l + (now' - now)) = unat ?l + (unat now' - unat now)"
    using fits now by (subst unat_add_nowrap) (simp_all add: unat_sub_nowrap)
  have "uint ?l + (uint now' - uint now) = int (unat (?l + (now' - now)))"
    unfolding u uint_nat using le by (simp add: of_nat_diff)
  then have z: "uint now' + tm_offset m = int (unat (?l + (now' - now)))" unfolding off by linarith
  have "int (unat (?l + (now' - now))) < 2 ^ 64" using unat_less_64 [of "?l + (now' - now)"] by (simp only: of_nat_less_numeral_power_cancel_iff)
  then have i: "i128_saturating_add (uint now') (tm_offset m) = int (unat (?l + (now' - now)))"
    using i128_saturating_add_fits [of "uint now'" "tm_offset m"] unfolding z by simp
  have w: "word_of_int (i128_saturating_add (uint now') (tm_offset m)) = ?l + (now' - now)"
    unfolding i by simp
  show ?thesis
    using assms(1,2) u unat_plus_one [OF last]
    by (auto simp: next_timestamp_def compute_next_timestamp_def Let_def w word_le_nat_alt)
qed

end
