(* ===== verification/Node_Executor.thy ===== *)
theory Node_Executor
  imports Inspectors Tx_Pool Node_Fees
begin

text \<open>
  The node's side of a block: the validation of a transaction (\<open>anvil/src/eth/backend/mem/mod.rs\<close>), the
  executor that runs the pool's transactions through the interpreter and assembles the block
  (\<open>anvil/src/eth/backend/executor.rs\<close>), and the miner that chooses them (\<open>anvil/src/eth/miner.rs\<close>). The
  inspector of the node is a parameter; the traces are read from its final state, which an executed
  transaction keeps. Bloom filters and trie roots belong to other packages and are parameters. Log
  output is left out.
\<close>

section \<open>Validation\<close>

datatype InvalidTransactionError =
    IT_NonceTooLow | IT_NonceTooHigh | IT_NonceMaxValue | IT_InsufficientFundsForTransfer
  | IT_MaxInitCodeSizeExceeded | IT_InsufficientFunds | IT_GasUintOverflow | IT_GasTooLow | IT_GasTooHigh
  | IT_TipAboveFeeCap | IT_FeeCapTooLow | IT_BasicOutOfGas U256 | IT_Revert "bytes option" | IT_SenderNoEOA
  | IT_InvalidChainId | IT_IncompatibleEIP155

fun from_invalid_transaction :: "InvalidTransaction \<Rightarrow> InvalidTransactionError" where
  "from_invalid_transaction InvalidChainId = IT_InvalidChainId"
| "from_invalid_transaction GasMaxFeeGreaterThanPriorityFee = IT_TipAboveFeeCap"
| "from_invalid_transaction GasPriceLessThanBasefee = IT_FeeCapTooLow"
| "from_invalid_transaction CallerGasLimitMoreThanBlock = IT_GasTooHigh"
| "from_invalid_transaction CallGasCostMoreThanGasLimit = IT_GasTooHigh"
| "from_invalid_transaction RejectCallerWithCode = IT_SenderNoEOA"
| "from_invalid_transaction (LackOfFundForGasLimit _ _) = IT_InsufficientFunds"
| "from_invalid_transaction OverflowPaymentInTransaction = IT_GasUintOverflow"
| "from_invalid_transaction NonceOverflowInTransaction = IT_NonceMaxValue"
| "from_invalid_transaction Invalid_CreateInitcodeSizeLimit = IT_MaxInitCodeSizeExceeded"
| "from_invalid_transaction (NonceTooHigh _ _) = IT_NonceTooHigh"
| "from_invalid_transaction (NonceTooLow _ _) = IT_NonceTooLow"

definition MIN_TRANSACTION_GAS :: U256 where "MIN_TRANSACTION_GAS = 21000"

definition check_chain_id :: "U256 \<Rightarrow> TypedTransaction \<Rightarrow> Env \<Rightarrow> InvalidTransactionError option comp" where
  "check_chain_id chain t env =
     (case tt_chain_id t of
        None \<Rightarrow> Val None
      | Some tid \<Rightarrow>
          if chain = ucast tid then Val None
          else case as_legacy t of
                 Some legacy \<Rightarrow>
                   if enabled (cfg_spec_id (cfg env)) SPURIOUS_DRAGON
                   then bind_comp (as_u64 chain) (\<lambda>c.
                          Val (if meets_eip155 c legacy then None else Some IT_IncompatibleEIP155))
                   else Val None
               | None \<Rightarrow> Val (Some IT_InvalidChainId))"

definition check_fees :: "TypedTransaction \<Rightarrow> Env \<Rightarrow> InvalidTransactionError option" where
  "check_fees t env =
     (if \<not> enabled (cfg_spec_id (cfg env)) LONDON then None
      else if tt_gas_price t < basefee (block env) then Some IT_FeeCapTooLow
      else case (es_max_priority_fee_per_gas (essentials t), es_max_fee_per_gas (essentials t)) of
             (Some tip, Some cap) \<Rightarrow> if tip > cap then Some IT_TipAboveFeeCap else None
           | _ \<Rightarrow> None)"

definition validate_pool_transaction_for ::
  "U256 \<Rightarrow> PendingTransaction \<Rightarrow> AccountInfo \<Rightarrow> Env \<Rightarrow> InvalidTransactionError option comp" where
  "validate_pool_transaction_for chain pending account env =
     (let t = typed pending
      in bind_comp (check_chain_id chain t env) (\<lambda>e.
           Val (case e of
             Some e \<Rightarrow> Some e
           | None \<Rightarrow>
               if tt_gas_limit t < MIN_TRANSACTION_GAS then Some IT_GasTooLow
               else if \<not> disable_block_gas_limit (cfg env) \<and> tt_gas_limit t > blk_gas_limit (block env) then Some IT_GasTooHigh
               else if unat (tt_nonce t) \<ge> 2 ^ 64 then Some IT_NonceMaxValue
               else if ucast (tt_nonce t) < nonce account then Some IT_NonceTooLow
               else case check_fees t env of
                      Some e \<Rightarrow> Some e
                    | None \<Rightarrow>
                        case checked_add (max_cost t) (tt_value t) of
                          None \<Rightarrow> Some IT_InsufficientFunds
                        | Some req_funds \<Rightarrow> if balance account < req_funds then Some IT_InsufficientFunds else None)))"

definition validate_for ::
  "U256 \<Rightarrow> PendingTransaction \<Rightarrow> AccountInfo \<Rightarrow> Env \<Rightarrow> InvalidTransactionError option comp" where
  "validate_for chain pending account env =
     bind_comp (validate_pool_transaction_for chain pending account env) (\<lambda>e.
       case e of
         Some e \<Rightarrow> Val (Some e)
       | None \<Rightarrow>
           bind_comp (as_u64 (tt_nonce (typed pending))) (\<lambda>n.
             Val (if n > nonce account then Some IT_NonceTooHigh else None)))"

section \<open>Executed transactions and receipts\<close>

definition ir_as_u8 :: "InstructionResult \<Rightarrow> u8" where
  "ir_as_u8 r =
     (case r of
        Continue \<Rightarrow> 0x00 | Stop \<Rightarrow> 0x01 | Return \<Rightarrow> 0x02 | SelfDestruct \<Rightarrow> 0x03
      | Revert \<Rightarrow> 0x20 | CallTooDeep \<Rightarrow> 0x21 | OutOfFund \<Rightarrow> 0x22
      | OutOfGas \<Rightarrow> 0x50 | MemoryOOG \<Rightarrow> 0x51 | MemoryLimitOOG \<Rightarrow> 0x52 | PrecompileOOG \<Rightarrow> 0x53
      | InvalidOperandOOG \<Rightarrow> 0x54 | OpcodeNotFound \<Rightarrow> 0x55 | CallNotAllowedInsideStatic \<Rightarrow> 0x56
      | StateChangeDuringStaticCall \<Rightarrow> 0x57 | InvalidFEOpcode \<Rightarrow> 0x58 | InvalidJump \<Rightarrow> 0x59 | NotActivated \<Rightarrow> 0x5a
      | StackUnderflow \<Rightarrow> 0x5b | StackOverflow \<Rightarrow> 0x5c | OutOfOffset \<Rightarrow> 0x5d | CreateCollision \<Rightarrow> 0x5e
      | OverflowPayment \<Rightarrow> 0x5f | PrecompileError \<Rightarrow> 0x60 | NonceOverflow \<Rightarrow> 0x61 | CreateContractSizeLimit \<Rightarrow> 0x62
      | CreateContractStartingWithEF \<Rightarrow> 0x63 | CreateInitcodeSizeLimit \<Rightarrow> 0x64 | FatalExternalError \<Rightarrow> 0x65)"

fun eval_to_instruction_result :: "Eval \<Rightarrow> InstructionResult" where
  "eval_to_instruction_result Eval_Return = Return"
| "eval_to_instruction_result Eval_Stop = Stop"
| "eval_to_instruction_result Eval_SelfDestruct = SelfDestruct"

fun halt_to_instruction_result :: "Halt \<Rightarrow> InstructionResult" where
  "halt_to_instruction_result (Halt_OutOfGas _) = OutOfGas"
| "halt_to_instruction_result Halt_OpcodeNotFound = OpcodeNotFound"
| "halt_to_instruction_result Halt_InvalidFEOpcode = InvalidFEOpcode"
| "halt_to_instruction_result Halt_InvalidJump = InvalidJump"
| "halt_to_instruction_result Halt_NotActivated = NotActivated"
| "halt_to_instruction_result Halt_StackOverflow = StackOverflow"
| "halt_to_instruction_result Halt_StackUnderflow = StackUnderflow"
| "halt_to_instruction_result Halt_OutOfOffset = OutOfOffset"
| "halt_to_instruction_result Halt_CreateCollision = CreateCollision"
| "halt_to_instruction_result Halt_PrecompileError = PrecompileError"
| "halt_to_instruction_result Halt_NonceOverflow = NonceOverflow"
| "halt_to_instruction_result Halt_CreateContractSizeLimit = CreateContractSizeLimit"
| "halt_to_instruction_result Halt_CreateContractStartingWithEF = CreateContractStartingWithEF"
| "halt_to_instruction_result Halt_CreateInitcodeSizeLimit = CreateInitcodeSizeLimit"
| "halt_to_instruction_result Halt_OverflowPayment = OverflowPayment"
| "halt_to_instruction_result Halt_StateChangeDuringStaticCall = StateChangeDuringStaticCall"
| "halt_to_instruction_result Halt_CallNotAllowedInsideStatic = CallNotAllowedInsideStatic"
| "halt_to_instruction_result Halt_OutOfFund = OutOfFund"
| "halt_to_instruction_result Halt_CallTooDeep = CallTooDeep"

record 'i ExecutedTransaction =
  ex_transaction :: PoolTransaction
  ex_exit_reason :: InstructionResult
  ex_out :: "Output option"
  ex_gas_used :: u64
  ex_logs :: "Log list"
  ex_inspector :: 'i

text \<open>\<open>'b\<close> is the type of bloom filters.\<close>

record 'b BlockLibs =
  bl_bloom_default :: 'b
  bl_accrue :: "bytes \<Rightarrow> 'b \<Rightarrow> 'b"

definition accrue_log :: "'b BlockLibs \<Rightarrow> Log \<Rightarrow> 'b \<Rightarrow> 'b" where
  "accrue_log B l bloom =
     fold (\<lambda>topic. bl_accrue B (to_be_bytes 32 topic)) (log_topics l) (bl_accrue B (to_be_bytes 20 (log_address l)) bloom)"

definition logs_bloom :: "'b BlockLibs \<Rightarrow> Log list \<Rightarrow> 'b \<Rightarrow> 'b" where
  "logs_bloom B ls bloom = fold (accrue_log B) ls bloom"

record 'b EIP658Receipt =
  rc_status_code :: u8
  rc_gas_used :: U256
  rc_logs_bloom :: 'b
  rc_logs :: "Log list"

datatype 'b TypedReceipt =
    LegacyReceipt "'b EIP658Receipt" | EIP2930Receipt "'b EIP658Receipt" | EIP1559Receipt "'b EIP658Receipt"

fun receipt_of :: "'b TypedReceipt \<Rightarrow> 'b EIP658Receipt" where
  "receipt_of (LegacyReceipt r) = r"
| "receipt_of (EIP2930Receipt r) = r"
| "receipt_of (EIP1559Receipt r) = r"

definition receipt_gas_used :: "'b TypedReceipt \<Rightarrow> U256" where
  "receipt_gas_used r = rc_gas_used (receipt_of r)"

definition receipt_logs_bloom :: "'b TypedReceipt \<Rightarrow> 'b" where
  "receipt_logs_bloom r = rc_logs_bloom (receipt_of r)"

definition create_receipt :: "'b BlockLibs \<Rightarrow> 'i ExecutedTransaction \<Rightarrow> 'b TypedReceipt" where
  "create_receipt B x =
     (let r = \<lparr> rc_status_code = (if ir_as_u8 (ex_exit_reason x) \<le> ir_as_u8 SelfDestruct then 1 else 0),
                rc_gas_used = ucast (ex_gas_used x),
                rc_logs_bloom = logs_bloom B (ex_logs x) (bl_bloom_default B),
                rc_logs = ex_logs x \<rparr>
      in case typed (pending_transaction (ex_transaction x)) of
           Legacy _ \<Rightarrow> LegacyReceipt r
         | EIP2930 _ \<Rightarrow> EIP2930Receipt r
         | EIP1559 _ \<Rightarrow> EIP1559Receipt r)"

section \<open>Executing one transaction\<close>

datatype ('i, 'e) TransactionExecutionOutcome =
    Executed "'i ExecutedTransaction"
  | Invalid PoolTransaction InvalidTransactionError
  | Exhausted PoolTransaction
  | DatabaseError PoolTransaction 'e

text \<open>
  The executor with what its methods read besides: the database operations and the commit function, the
  chain id its validator compares with, and the statics of the administration contract, which outlive a
  single transaction.
\<close>

record 'db TransactionExecutor =
  te_db :: 'db
  te_pending :: "PoolTransaction list"
  te_block_env :: BlockEnv
  te_cfg_env :: CfgEnv
  te_parent_hash :: B256
  te_gas_used :: U256
  te_admin :: Admin

definition env_for :: "'db TransactionExecutor \<Rightarrow> PendingTransaction \<Rightarrow> Env comp" where
  "env_for T t =
     bind_comp (to_revm_tx_env (pt_sender t) (typed t)) (\<lambda>e.
       Val \<lparr> cfg = te_cfg_env T, block = te_block_env T, tx = e \<rparr>)"

fun exit_of :: "ExecutionResult \<Rightarrow> InstructionResult \<times> u64 \<times> Output option \<times> Log list option" where
  "exit_of (ER_Success reason used refunded ls out) = (eval_to_instruction_result reason, used, Some out, Some ls)"
| "exit_of (ER_Revert used out) = (Revert, used, Some (Output_Call out), None)"
| "exit_of (ER_Halt reason used) = (halt_to_instruction_result reason, used, None, None)"

text \<open>
  The rest of \<open>Iterator::next\<close> once the checks passed: a fresh machine on the executor's database runs the
  transaction and commits it. The call \<open>self.gas_used.saturating_add(..)\<close> at the end returns the sum and
  drops it: the field keeps its value.
\<close>

definition run_valid ::
  "('i, 'db, 'e) Inspector \<Rightarrow> 'i \<Rightarrow> ('fq, 'fr, 'g1, 'fq2, 'g2, 'gt) Deps \<Rightarrow> ('db, 'e) db_ops \<Rightarrow> (State \<Rightarrow> 'db \<Rightarrow> 'db) \<Rightarrow>
     nat \<Rightarrow> nat \<Rightarrow> PoolTransaction \<Rightarrow> Env \<Rightarrow> 'db TransactionExecutor \<Rightarrow>
     (('i, 'e) TransactionExecutionOutcome \<times> 'db TransactionExecutor) comp" where
  "run_valid Ins i0 X D commit_db f n t env T =
     bind_comp (EVM_inspect_commit Ins X D commit_db f n
         (EVM_database (te_db T) ((EVM_new (te_admin T))\<lparr>evm_env := env\<rparr>)) i0) (\<lambda>(result, evm, i).
       bind_comp (unwrap (evm_db evm)) (\<lambda>db.
         let T = T\<lparr>te_db := db, te_admin := evm_admin evm\<rparr>
         in case result of
              Inl (Database e) \<Rightarrow> Val (DatabaseError t e, T)
            | Inl (Transaction e) \<Rightarrow> Val (Invalid t (from_invalid_transaction e), T)
            | Inl PrevrandaoNotSet \<Rightarrow> Panic
            | Inr res \<Rightarrow>
                let (exit_reason, used, out, ls) = exit_of res
                in Val (Executed \<lparr> ex_transaction = t, ex_exit_reason = exit_reason, ex_out = out,
                     ex_gas_used = used, ex_logs = unwrap_or [] ls, ex_inspector = i \<rparr>, T)))"

definition exec_next ::
  "('i, 'db, 'e) Inspector \<Rightarrow> 'i \<Rightarrow> ('fq, 'fr, 'g1, 'fq2, 'g2, 'gt) Deps \<Rightarrow> ('db, 'e) db_ops \<Rightarrow> (State \<Rightarrow> 'db \<Rightarrow> 'db) \<Rightarrow>
     nat \<Rightarrow> nat \<Rightarrow> U256 \<Rightarrow> PoolTransaction \<Rightarrow> 'db TransactionExecutor \<Rightarrow>
     (('i, 'e) TransactionExecutionOutcome \<times> 'db TransactionExecutor) comp" where
  "exec_next Ins i0 X D commit_db f n chain t T =
     (let pending = pending_transaction t;
          (account, db) = db_basic D (te_db T) (pt_sender pending);
          T = T\<lparr>te_db := db\<rparr>
      in case account of
           Inl e \<Rightarrow> Val (DatabaseError t e, T)
         | Inr acc \<Rightarrow>
             let account = (case acc of None \<Rightarrow> AccountInfo_default | Some a \<Rightarrow> a)
             in bind_comp (env_for T pending) (\<lambda>env.
                  if saturating_add (te_gas_used T) (ucast (tx_gas_limit (tx env))) > blk_gas_limit (block env)
                  then Val (Exhausted t, T)
                  else bind_comp (validate_pool_transaction_for chain pending account env) (\<lambda>err.
                    case err of
                      Some e \<Rightarrow> Val (Invalid t e, T)
                    | None \<Rightarrow>
                        run_valid Ins i0 X D commit_db f n t env T)))"

section \<open>The block\<close>

record ('i, 'b) TransactionInfo =
  ti_transaction_hash :: B256
  ti_transaction_index :: u32
  ti_from :: B160
  ti_to :: "B160 option"
  ti_contract_address :: "B160 option"
  ti_logs :: "Log list"
  ti_logs_bloom :: 'b
  ti_inspector :: 'i
  ti_exit :: InstructionResult
  ti_out :: "bytes option"

fun created_address :: "Output option \<Rightarrow> B160 option" where
  "created_address (Some (Output_Create _ a)) = a"
| "created_address _ = None"

fun output_bytes :: "Output option \<Rightarrow> bytes option" where
  "output_bytes (Some (Output_Call b)) = Some b"
| "output_bytes (Some (Output_Create b _)) = Some b"
| "output_bytes None = None"

definition transaction_info :: "nat \<Rightarrow> 'b TypedReceipt \<Rightarrow> 'i ExecutedTransaction \<Rightarrow> ('i, 'b) TransactionInfo" where
  "transaction_info index receipt x =
     \<lparr> ti_transaction_hash = hash_of (ex_transaction x), ti_transaction_index = of_nat index,
       ti_from = pt_sender (pending_transaction (ex_transaction x)),
       ti_to = tt_to (typed (pending_transaction (ex_transaction x))),
       ti_contract_address = created_address (ex_out x), ti_logs = ex_logs x,
       ti_logs_bloom = receipt_logs_bloom receipt, ti_inspector = ex_inspector x,
       ti_exit = ex_exit_reason x, ti_out = output_bytes (ex_out x) \<rparr>"

record ('i, 'b) Building =
  bd_transactions :: "MaybeImpersonatedTransaction list"
  bd_infos :: "('i, 'b) TransactionInfo list"
  bd_receipts :: "'b TypedReceipt list"
  bd_bloom :: 'b
  bd_cumulative_gas_used :: U256
  bd_included :: "PoolTransaction list"
  bd_invalid :: "PoolTransaction list"

definition add_executed :: "'b BlockLibs \<Rightarrow> 'i ExecutedTransaction \<Rightarrow> ('i, 'b) Building \<Rightarrow> ('i, 'b) Building" where
  "add_executed B x b =
     (let receipt = create_receipt B x
      in b\<lparr>bd_included := bd_included b @ [ex_transaction x],
           bd_cumulative_gas_used := saturating_add (bd_cumulative_gas_used b) (receipt_gas_used receipt),
           bd_bloom := logs_bloom B (ex_logs x) (bd_bloom b),
           bd_infos := bd_infos b @ [transaction_info (length (bd_infos b)) receipt x],
           bd_receipts := bd_receipts b @ [receipt],
           bd_transactions := bd_transactions b @ [pt_transaction (pending_transaction (ex_transaction x))]\<rparr>)"

fun add_outcome :: "'b BlockLibs \<Rightarrow> ('i, 'e) TransactionExecutionOutcome \<Rightarrow> ('i, 'b) Building \<Rightarrow> ('i, 'b) Building" where
  "add_outcome B (Executed x) b = add_executed B x b"
| "add_outcome B (Exhausted t) b = b"
| "add_outcome B (Invalid t e) b = b\<lparr>bd_invalid := bd_invalid b @ [t]\<rparr>"
| "add_outcome B (DatabaseError t e) b = b"

fun execute_loop ::
  "'b BlockLibs \<Rightarrow> (PoolTransaction \<Rightarrow> 'db TransactionExecutor \<Rightarrow> (('i, 'e) TransactionExecutionOutcome \<times> 'db TransactionExecutor) comp) \<Rightarrow>
     PoolTransaction list \<Rightarrow> ('i, 'b) Building \<times> 'db TransactionExecutor \<Rightarrow> (('i, 'b) Building \<times> 'db TransactionExecutor) comp" where
  "execute_loop B nxt [] s = Val s"
| "execute_loop B nxt (t # ts) (b, T) =
     bind_comp (nxt t (T\<lparr>te_pending := ts\<rparr>)) (\<lambda>(out, T). execute_loop B nxt ts (add_outcome B out b, T))"

record 'b PartialHeader =
  ph_parent_hash :: B256
  ph_beneficiary :: B160
  ph_state_root :: B256
  ph_receipts_root :: B256
  ph_logs_bloom :: 'b
  ph_difficulty :: U256
  ph_number :: U256
  ph_gas_limit :: U256
  ph_gas_used :: U256
  ph_timestamp :: u64
  ph_extra_data :: bytes
  ph_mix_hash :: B256
  ph_nonce :: u64
  ph_base_fee :: "U256 option"

record ('i, 'b) ExecutedTransactions =
  et_header :: "'b PartialHeader"
  et_transactions :: "MaybeImpersonatedTransaction list"
  et_infos :: "('i, 'b) TransactionInfo list"
  et_receipts :: "'b TypedReceipt list"
  et_included :: "PoolTransaction list"
  et_invalid :: "PoolTransaction list"

definition Building_new :: "'b BlockLibs \<Rightarrow> ('i, 'b) Building" where
  "Building_new B =
     \<lparr> bd_transactions = [], bd_infos = [], bd_receipts = [], bd_bloom = bl_bloom_default B,
       bd_cumulative_gas_used = 0, bd_included = [], bd_invalid = [] \<rparr>"

text \<open>
  \<open>execute\<close>, over the step \<open>nxt\<close> of the iterator, the root of the receipts and the root of the state.
\<close>

definition execute_block ::
  "'b BlockLibs \<Rightarrow> ('b TypedReceipt list \<Rightarrow> B256) \<Rightarrow> ('db \<Rightarrow> B256 option) \<Rightarrow>
     (PoolTransaction \<Rightarrow> 'db TransactionExecutor \<Rightarrow> (('i, 'e) TransactionExecutionOutcome \<times> 'db TransactionExecutor) comp) \<Rightarrow>
     'db TransactionExecutor \<Rightarrow> (('i, 'b) ExecutedTransactions \<times> 'db TransactionExecutor) comp" where
  "execute_block B receipts_root state_root nxt T =
     bind_comp (as_u64 (timestamp (te_block_env T))) (\<lambda>ts.
       bind_comp (execute_loop B nxt (te_pending T) (Building_new B, T)) (\<lambda>(b, T').
         Val (\<lparr> et_header =
                  \<lparr> ph_parent_hash = te_parent_hash T, ph_beneficiary = coinbase (te_block_env T),
                    ph_state_root = unwrap_or 0 (state_root (te_db T')), ph_receipts_root = receipts_root (bd_receipts b),
                    ph_logs_bloom = bd_bloom b, ph_difficulty = difficulty (te_block_env T),
                    ph_number = blk_number (te_block_env T), ph_gas_limit = blk_gas_limit (te_block_env T),
                    ph_gas_used = bd_cumulative_gas_used b, ph_timestamp = ts, ph_extra_data = [], ph_mix_hash = 0,
                    ph_nonce = 0,
                    ph_base_fee = (if enabled (cfg_spec_id (te_cfg_env T)) LONDON then Some (basefee (te_block_env T)) else None) \<rparr>,
                et_transactions = bd_transactions b, et_infos = bd_infos b, et_receipts = bd_receipts b,
                et_included = bd_included b, et_invalid = bd_invalid b \<rparr>, T')))"

section \<open>The miner\<close>

record ReadyTransactionMiner =
  max_transactions :: nat
  has_pending_txs :: "bool option"

datatype MiningMode = MiningNone | MiningAuto ReadyTransactionMiner | MiningFixedBlockTime

definition MiningMode_instant :: "nat \<Rightarrow> MiningMode" where
  "MiningMode_instant k = MiningAuto \<lparr> max_transactions = k, has_pending_txs = None \<rparr>"

definition is_auto_mine :: "MiningMode \<Rightarrow> bool" where
  "is_auto_mine m \<longleftrightarrow> (case m of MiningAuto _ \<Rightarrow> True | _ \<Rightarrow> False)"

definition is_interval :: "MiningMode \<Rightarrow> bool" where
  "is_interval m \<longleftrightarrow> m = MiningFixedBlockTime"

text \<open>The mode is replaced as a whole; waking the task is left out.\<close>

definition set_mining_mode :: "MiningMode \<Rightarrow> MiningMode \<Rightarrow> MiningMode" where
  "set_mining_mode mode current = mode"

text \<open>
  One poll of the miner of ready transactions; \<open>notified\<close> says whether its channel held a notification.
  \<open>None\<close> is \<open>Poll::Pending\<close>.
\<close>

definition ready_miner_poll ::
  "bool \<Rightarrow> 'l Pool \<Rightarrow> ReadyTransactionMiner \<Rightarrow> PoolTransaction list option \<times> ReadyTransactionMiner" where
  "ready_miner_poll notified p m =
     (let m = (if notified then m\<lparr>has_pending_txs := Some True\<rparr> else m)
      in if has_pending_txs m = Some False then (None, m)
         else
           let ts = iter_take (max_transactions m) (pool_ready_transactions p);
               m = m\<lparr>has_pending_txs := Some (max_transactions m \<le> length ts)\<rparr>
           in if ts = [] then (None, m) else (Some ts, m))"

text \<open>
  \<open>MiningMode::poll\<close>; \<open>tick\<close> says whether the interval elapsed. Draining the whole pool is bounded by
  \<open>k\<close> transactions.
\<close>

fun mining_poll ::
  "nat \<Rightarrow> bool \<Rightarrow> bool \<Rightarrow> 'l Pool \<Rightarrow> MiningMode \<Rightarrow> (PoolTransaction list option \<times> MiningMode) comp" where
  "mining_poll k notified tick p MiningNone = Val (None, MiningNone)"
| "mining_poll k notified tick p (MiningAuto m) =
     (let (ts, m) = ready_miner_poll notified p m in Val (ts, MiningAuto m))"
| "mining_poll k notified tick p MiningFixedBlockTime =
     (if tick then bind_comp (iter_collect k (pool_ready_transactions p)) (\<lambda>ts. Val (Some ts, MiningFixedBlockTime))
      else Val (None, MiningFixedBlockTime))"

end
