(* ===== verification/Executor_Facts.thy ===== *)
theory Executor_Facts
  imports Node_Executor "HOL-Library.Sublist" "HOL-Library.Multiset"
begin

text \<open>
  Facts on the node's validation and on the executor: what an accepted transaction satisfies for the
  interpreter, and how the parts of an assembled block agree. The block's loop is proved against the
  interface of an iterator of outcomes, which the executor implements.
\<close>

section \<open>Accepted transactions\<close>

text \<open>
  From Spurious Dragon on, an accepted transaction that names a chain names the node's: a legacy transaction
  of another chain does not meet EIP-155, whatever wraps in the comparison.
\<close>

lemma no_small_wrap:
  fixes x k m :: nat
  assumes "x < m" "k \<le> 36" "36 < (x + k) mod m"
  shows "(x + k) mod m = x + k"
  using assms
  by (cases "x + k < m")
    (auto simp: le_mod_geq mod_less_eq_dividend intro: ccontr dest: order_less_le_trans [OF _ mod_less_eq_dividend])

lemma meets_eip155_chain:
  assumes "meets_eip155 c t" "lt_chain_id t = Some tid"
  shows "tid = c"
proof -
  let ?v = "sig_v (lt_signature t)"
  have "36 < ?v" and tid: "tid = (?v - 35) div 2"
    using assms(2) by (auto simp: lt_chain_id_def split: if_splits)
  then have big: "36 < unat ?v"
    by (simp add: word_less_nat_alt)
  have double: "?v = saturating_mul c 2 + 35 \<or> ?v = saturating_mul c 2 + 36"
    using assms(1) by (simp add: meets_eip155_def Let_def)
  have fits: "unat c * 2 < 2 ^ 64" 
  proof (rule ccontr)
    assume "\<not> ?thesis"
    then have "saturating_mul c 2 = - 1"
      by (simp add: saturating_mul_def)
    then have "?v = 34 \<or> ?v = 35"
      using double by auto
    then show False
      using big by auto
  qed
  then have twice: "saturating_mul c 2 = c * 2" "unat (c * 2) = unat c * 2"
    by (simp_all add: saturating_mul_def unat_word_ariths)
  have "unat ?v = unat c * 2 + 35 \<or> unat ?v = unat c * 2 + 36"
    using double fits big twice no_small_wrap [OF fits, of 35] no_small_wrap [OF fits, of 36]
    by (auto simp: unat_word_ariths)
  then have "unat tid = unat c"
    using tid big by (auto simp: unat_div unat_sub_if')
  then show ?thesis
    by (rule word_unat_eq_iff [THEN iffD2])
qed

lemma ucast_as_u64: "as_u64 (x :: U256) = Val y \<Longrightarrow> ucast y = x"
  using unat_as_u64 [of x y] unat_less_64 [of y]
  by (simp add: word_unat_eq_iff unsigned_ucast_eq take_bit_nat_eq_self)

lemma check_chain_id_accepts:
  assumes "check_chain_id chain t env = Val None" "enabled (cfg_spec_id (cfg env)) SPURIOUS_DRAGON" "tt_chain_id t = Some tid"
  shows "ucast tid = chain"
proof (rule ccontr)
  assume "ucast tid \<noteq> chain"
  then obtain legacy c where l: "t = Legacy legacy" "as_u64 chain = Val c" "meets_eip155 c legacy"
    using assms by (cases t) (auto simp: check_chain_id_def bind_comp_Val_iff split: if_splits)
  then have "tid = c"
    using assms(3) by (simp add: meets_eip155_chain)
  then show False
    using \<open>ucast tid \<noteq> chain\<close> ucast_as_u64 [OF l(2)] by simp
qed

lemma priority_fee_of:
  assumes "to_revm_tx_env s t = Val e"
  shows "gas_priority_fee e = es_max_priority_fee_per_gas (essentials t)"
    "gas_priority_fee e = Some f \<Longrightarrow> es_max_fee_per_gas (essentials t) = Some (tt_gas_price t)"
  using assms by (cases t; auto simp: bind_comp_Val_iff)+

lemma validate_pool_accepts:
  assumes "validate_pool_transaction_for chain p acc env = Val None"
  obtains req where "check_chain_id chain (typed p) env = Val None" "MIN_TRANSACTION_GAS \<le> tt_gas_limit (typed p)"
    "disable_block_gas_limit (cfg env) \<or> tt_gas_limit (typed p) \<le> blk_gas_limit (block env)"
    "unat (tt_nonce (typed p)) < 2 ^ 64" "nonce acc \<le> ucast (tt_nonce (typed p))"
    "check_fees (typed p) env = None" "checked_add (max_cost (typed p)) (tt_value (typed p)) = Some req"
    "req \<le> balance acc"
  using assms
  by (auto simp: validate_pool_transaction_for_def Let_def bind_comp_Val_iff not_less split: option.splits if_splits)

text \<open>
  The cost the node compares with the balance saturates; against any balance but the largest it is exact, so
  that the interpreter's own product does not overflow.
\<close>

lemma max_cost_exact:
  assumes "checked_add (max_cost t) v = Some req" "req \<le> bal" "bal \<noteq> - 1"
  shows "unat (tt_gas_limit t) * unat (tt_gas_price t) < 2 ^ 256" "max_cost t = tt_gas_limit t * tt_gas_price t"
proof -
  show *: "unat (tt_gas_limit t) * unat (tt_gas_price t) < 2 ^ 256"
  proof (rule ccontr)
    assume "\<not> ?thesis"
    then have top: "max_cost t = - 1"
      by (simp add: max_cost_def saturating_mul_def)
    moreover have "unat (- 1 :: U256) = 2 ^ 256 - 1"
      by simp
    ultimately have "unat v = 0" and "req = - 1 + v"
      using assms(1) by (auto simp: checked_add_def split: if_splits)
    then have "req = - 1"
      by (simp add: unat_eq_zero)
    then show False
      using assms(2,3) by (simp add: word_order.extremum_unique)
  qed
  then show "max_cost t = tt_gas_limit t * tt_gas_price t"
    by (simp add: max_cost_def saturating_mul_def)
qed

lemma min_gas_price_bound:
  assumes "unat (l :: U256) * unat (price :: U256) < 2 ^ 256" "MIN_TRANSACTION_GAS \<le> l"
  shows "unat price < 2 ^ 255"
proof -
  have "2 \<le> unat l"
    using assms(2) by (simp add: MIN_TRANSACTION_GAS_def word_le_nat_alt)
  then have "2 * unat price \<le> unat l * unat price"
    by simp
  also have "\<dots> < 2 ^ 256"
    by (rule assms(1))
  finally show ?thesis
    by simp
qed

lemma check_fees_accepts:
  assumes "check_fees t env = None" "enabled (cfg_spec_id (cfg env)) LONDON"
  shows "basefee (block env) \<le> tt_gas_price t"
    "es_max_priority_fee_per_gas (essentials t) = Some tip \<Longrightarrow> es_max_fee_per_gas (essentials t) = Some cap \<Longrightarrow> tip \<le> cap"
  using assms by (auto simp: check_fees_def not_less split: if_splits option.splits)

lemma basefee_le_effective:
  assumes "basefee (block env) \<le> tx_gas_price (tx env)" "unat (tx_gas_price (tx env)) < 2 ^ 255"
    "\<And>tip. gas_priority_fee (tx env) = Some tip \<Longrightarrow> tip \<le> tx_gas_price (tx env)"
  shows "basefee (block env) \<le> effective_gas_price env"
proof (cases "gas_priority_fee (tx env)")
  case (Some tip)
  have "unat (basefee (block env)) + unat tip < 2 ^ 256"
    using assms(1,2) assms(3) [OF Some] by (simp add: word_le_nat_alt)
  then have "basefee (block env) \<le> basefee (block env) + tip"
    by (simp add: word_le_nat_alt unat_word_ariths)
  then show ?thesis
    using Some assms(1) by (simp add: effective_gas_price_def)
qed (simp add: effective_gas_price_def assms(1))

text \<open>
  A transaction that \<open>validate_for\<close> accepts passes the three checks of the interpreter that come before the
  intrinsic gas.
\<close>

lemma accepted_passes_checks:
  assumes "validate_for chain p acc env = Val None" "to_revm_tx_env (pt_sender p) (typed p) = Val (tx env)"
    "cfg_chain_id (cfg env) = chain" "enabled (cfg_spec_id (cfg env)) SPURIOUS_DRAGON" "balance acc \<noteq> - 1"
    "disable_eip3607 (cfg env) \<or> code_hash acc = KECCAK_EMPTY"
    "enabled (cfg_spec_id (cfg env)) MERGE \<Longrightarrow> prevrandao (block env) \<noteq> None"
  shows "validate_env (cfg_spec_id (cfg env)) env = None" "validate_caller env acc = None" "validate_funds env acc = None"
proof -
  note fields = to_revm_tx_env_fields [OF assms(2)]
  obtain n where n: "as_u64 (tt_nonce (typed p)) = Val n" "tx_nonce (tx env) = Some n"
    using fields(7) by blast
  have pool: "validate_pool_transaction_for chain p acc env = Val None" and le: "n \<le> nonce acc"
    using assms(1) n(1) by (auto simp: validate_for_def bind_comp_Val_iff not_less split: option.splits if_splits)
  obtain req where ok: "check_chain_id chain (typed p) env = Val None" "MIN_TRANSACTION_GAS \<le> tt_gas_limit (typed p)"
      "disable_block_gas_limit (cfg env) \<or> tt_gas_limit (typed p) \<le> blk_gas_limit (block env)"
      "nonce acc \<le> ucast (tt_nonce (typed p))" "check_fees (typed p) env = None"
      "checked_add (max_cost (typed p)) (tt_value (typed p)) = Some req" "req \<le> balance acc"
    using pool by (rule validate_pool_accepts)
  note exact = max_cost_exact [OF ok(6,7) assms(5)]
  have limit: "ucast (tx_gas_limit (tx env)) = tt_gas_limit (typed p)"
    by (rule ucast_as_u64 [OF fields(6)])
  have "basefee (block env) \<le> effective_gas_price env" if "enabled (cfg_spec_id (cfg env)) LONDON"
    using check_fees_accepts [OF ok(5) that] min_gas_price_bound [OF exact(1) ok(2)] priority_fee_of [OF assms(2)]
    by (auto simp: fields(2) intro!: basefee_le_effective)
  moreover have "tip \<le> tx_gas_price (tx env)"
    if "enabled (cfg_spec_id (cfg env)) LONDON" "gas_priority_fee (tx env) = Some tip" for tip
    using check_fees_accepts(2) [OF ok(5) that(1)] priority_fee_of [OF assms(2)] that(2) by (simp add: fields(2))
  ultimately show "validate_env (cfg_spec_id (cfg env)) env = None"
    using assms(7) ok(3) limit by (auto simp: validate_env_def not_less split: option.splits)
  have "nonce acc = n"
    using le ok(4) n(1) by (simp add: as_u64_Val_iff)
  then show "validate_caller env acc = None"
    using assms(6) check_chain_id_accepts [OF ok(1) assms(4)] n(2) fields(5) assms(3)
    by (auto simp: validate_caller_def split: option.splits)
  show "validate_funds env acc = None"
    using exact ok(6,7) limit fields(2,3) by (auto simp: validate_funds_def Let_def checked_mul_def not_less split: option.splits)
qed

section \<open>The assembled block\<close>

fun outcome_transaction :: "('i, 'e) TransactionExecutionOutcome \<Rightarrow> PoolTransaction" where
  "outcome_transaction (Executed x) = ex_transaction x"
| "outcome_transaction (Invalid t e) = t"
| "outcome_transaction (Exhausted t) = t"
| "outcome_transaction (DatabaseError t e) = t"

text \<open>
  The parts of a block agree: one transaction, information record and receipt per included transaction, in
  order, numbered from zero; the header's gas and bloom filter gather those of the receipts.
\<close>

definition building_ok :: "'b BlockLibs \<Rightarrow> ('i, 'b) Building \<Rightarrow> bool" where
  "building_ok B b \<longleftrightarrow>
     bd_transactions b = map (\<lambda>t. pt_transaction (pending_transaction t)) (bd_included b) \<and>
     map ti_transaction_hash (bd_infos b) = map hash_of (bd_included b) \<and>
     map ti_transaction_index (bd_infos b) = map of_nat [0..<length (bd_infos b)] \<and>
     map ti_logs_bloom (bd_infos b) = map receipt_logs_bloom (bd_receipts b) \<and>
     map ti_logs (bd_infos b) = map (\<lambda>r. rc_logs (receipt_of r)) (bd_receipts b) \<and>
     bd_cumulative_gas_used b = foldl saturating_add 0 (map receipt_gas_used (bd_receipts b)) \<and>
     bd_bloom b = logs_bloom B (concat (map ti_logs (bd_infos b))) (bl_bloom_default B)"

lemma building_ok_new: "building_ok B (Building_new B)"
  by (simp add: building_ok_def Building_new_def logs_bloom_def)

lemma create_receipt_fields:
  "rc_logs (receipt_of (create_receipt B x)) = ex_logs x"
  by (simp add: create_receipt_def Let_def split: TypedTransaction.split)

lemma logs_bloom_append: "logs_bloom B (ls @ ls') bloom = logs_bloom B ls' (logs_bloom B ls bloom)"
  by (simp add: logs_bloom_def)

lemma building_ok_executed: "building_ok B b \<Longrightarrow> building_ok B (add_executed B x b)"
  by (simp add: building_ok_def add_executed_def Let_def transaction_info_def create_receipt_fields logs_bloom_append)

lemma building_ok_outcome: "building_ok B b \<Longrightarrow> building_ok B (add_outcome B out b)"
  by (cases out) (auto simp: building_ok_executed, simp_all add: building_ok_def)

definition same_block :: "'db TransactionExecutor \<Rightarrow> 'db TransactionExecutor \<Rightarrow> bool" where
  "same_block T T' \<longleftrightarrow>
     te_block_env T' = te_block_env T \<and> te_cfg_env T' = te_cfg_env T \<and> te_parent_hash T' = te_parent_hash T \<and>
     te_gas_used T' = te_gas_used T"

text \<open>
  What the block relies on of the iterator of outcomes: every outcome is one of the transaction that was
  taken, and the block the executor works on stays.
\<close>

locale outcome_iterator =
  fixes nxt :: "PoolTransaction \<Rightarrow> 'db TransactionExecutor \<Rightarrow> (('i, 'e) TransactionExecutionOutcome \<times> 'db TransactionExecutor) comp"
  assumes outcome_of: "nxt t T = Val (out, T') \<Longrightarrow> outcome_transaction out = t"
    and block_kept: "nxt t T = Val (out, T') \<Longrightarrow> same_block T T'"
begin

lemma loop_building_ok:
  "execute_loop B nxt ts (b, T) = Val (b', T') \<Longrightarrow> building_ok B b \<Longrightarrow> building_ok B b'"
  by (induction ts arbitrary: b T) (auto simp: bind_comp_Val_iff building_ok_outcome)

lemma loop_block_kept:
  "execute_loop B nxt ts (b, T) = Val (b', T') \<Longrightarrow> same_block T T'"
proof (induction ts arbitrary: b T)
  case (Cons t ts)
  then obtain out T1 where "nxt t (T\<lparr>te_pending := ts\<rparr>) = Val (out, T1)"
      "execute_loop B nxt ts (add_outcome B out b, T1) = Val (b', T')"
    by (auto simp: bind_comp_Val_iff)
  then show ?case
    using Cons.IH [of "add_outcome B out b" T1] block_kept [of t "T\<lparr>te_pending := ts\<rparr>" out T1] by (simp add: same_block_def)
qed (simp add: same_block_def)

text \<open>Included and invalid transactions are taken from the pending ones in their order, none twice.\<close>

lemma loop_partition:
  "execute_loop B nxt ts (b, T) = Val (b', T') \<Longrightarrow>
     \<exists>inc inv. bd_included b' = bd_included b @ inc \<and> bd_invalid b' = bd_invalid b @ inv \<and>
       subseq inc ts \<and> subseq inv ts \<and> mset inc + mset inv \<subseteq># mset ts"
proof (induction ts arbitrary: b T)
  case (Cons t ts)
  then obtain out T1 where out: "nxt t (T\<lparr>te_pending := ts\<rparr>) = Val (out, T1)"
      "execute_loop B nxt ts (add_outcome B out b, T1) = Val (b', T')"
    by (auto simp: bind_comp_Val_iff)
  obtain inc inv where ih: "bd_included b' = bd_included (add_outcome B out b) @ inc"
      "bd_invalid b' = bd_invalid (add_outcome B out b) @ inv" "subseq inc ts" "subseq inv ts" "mset inc + mset inv \<subseteq># mset ts"
    using Cons.IH [OF out(2)] by blast
  have more: "mset inc + mset inv \<subseteq># add_mset t (mset ts)"
    using ih(5) by (simp add: subset_mset.order_trans)
  have t: "outcome_transaction out = t"
    by (rule outcome_of [OF out(1)])
  show ?case
  proof (cases out)
    case (Executed x)
    then show ?thesis
      using ih t by (intro exI [of _ "t # inc"] exI [of _ inv]) (auto simp: add_executed_def Let_def)
  next
    case (Invalid t' e)
    then show ?thesis
      using ih t by (intro exI [of _ inc] exI [of _ "t # inv"]) auto
  next
    case (Exhausted t')
    then show ?thesis
      using ih more by (intro exI [of _ inc] exI [of _ inv]) auto
  next
    case (DatabaseError t' e)
    then show ?thesis
      using ih more by (intro exI [of _ inc] exI [of _ inv]) auto
  qed
qed simp

end

lemma run_valid_outcome:
  assumes "run_valid Ins i0 X D commit_db f n t env T = Val (out, T')"
  shows "outcome_transaction out = t \<and> same_block T T'"
proof -
  obtain result evm i db where "EVM_inspect_commit Ins X D commit_db f n
         (EVM_database (te_db T) ((EVM_new (te_admin T))\<lparr>evm_env := env\<rparr>)) i0 = Val (result, evm, i)"
      "unwrap (evm_db evm) = Val db"
    using assms by (auto simp: run_valid_def bind_comp_Val_iff)
  then show ?thesis
    using assms by (auto simp: run_valid_def Let_def same_block_def split: sum.splits EVMError.splits prod.splits)
qed

lemma exec_next_outcome:
  assumes "exec_next Ins i0 X D commit_db f n chain t T = Val (out, T')"
  shows "outcome_transaction out = t \<and> same_block T T'"
proof -
  let ?p = "pending_transaction t"
  obtain r db where r: "db_basic D (te_db T) (pt_sender ?p) = (r, db)"
    by fastforce
  let ?T = "T\<lparr>te_db := db\<rparr>"
  have db: "same_block ?T T1 \<Longrightarrow> same_block T T1" for T1
    by (simp add: same_block_def)
  show ?thesis
  proof (cases r)
    case (Inl e)
    then show ?thesis
      using assms r by (auto simp: exec_next_def same_block_def)
  next
    case (Inr acc)
    obtain env where env: "env_for ?T ?p = Val env"
      using assms r Inr by (auto simp: exec_next_def Let_def bind_comp_Val_iff)
    let ?full = "saturating_add (te_gas_used T) (ucast (tx_gas_limit (tx env))) > blk_gas_limit (block env)"
    let ?check = "validate_pool_transaction_for chain ?p (case acc of None \<Rightarrow> AccountInfo_default | Some a \<Rightarrow> a) env"
    have eq: "(if ?full then Val (Exhausted t, ?T) else bind_comp ?check (\<lambda>err. case err of Some e \<Rightarrow> Val (Invalid t e, ?T)
        | None \<Rightarrow> run_valid Ins i0 X D commit_db f n t env ?T)) = Val (out, T')"
      using assms r Inr env by (simp add: exec_next_def Let_def)
    show ?thesis
    proof (cases "?full \<or> (\<exists>e. ?check = Val (Some e))")
      case True
      then have "(out, T') = (Exhausted t, ?T) \<or> (\<exists>e. (out, T') = (Invalid t e, ?T))"
        using eq by (auto split: if_splits)
      then show ?thesis
        by (auto simp: same_block_def)
    next
      case False
      then have "run_valid Ins i0 X D commit_db f n t env ?T = Val (out, T')"
        using eq by (auto simp: bind_comp_Val_iff split: if_splits option.splits)
      from run_valid_outcome [OF this] show ?thesis
        by (simp add: db)
    qed
  qed
qed

interpretation executor: outcome_iterator "exec_next Ins i0 X D commit_db f n chain"
  by unfold_locales (auto dest: exec_next_outcome)

end
