(* ===== verification/Node_Properties.thy ===== *)
theory Node_Properties
  imports Pool_Invariant Executor_Facts Evm_Properties "HOL-Library.List_Lexorder"
begin

text \<open>
  Properties of the node: the transaction pool, the fees and block times, the validation of transactions
  against the interpreter's own checks, and the blocks the executor assembles. The samples are the inputs of
  the witnesses.
\<close>

section \<open>The transaction pool\<close>

text \<open>An order of iteration for the sets of the pool: ascending.\<close>

definition sorted_iter :: HashIter where
  "sorted_iter = \<lparr> it_hashes = sorted_list_of_fset, it_markers = sorted_list_of_fset \<rparr>"

lemma iter_ok_sorted: "iter_ok sorted_iter"
  by (simp add: iter_ok_def sorted_iter_def sorted_list_of_fset.rep_eq fset_of_list.rep_eq flip: fset_inject)

text \<open>A transfer of one wei that a node of chain 1 accepts, and its entry of the pool.\<close>

definition sample_transaction :: "u64 \<Rightarrow> TypedTransaction" where
  "sample_transaction k =
     Legacy \<lparr> lt_nonce = ucast k, lt_gas_price = 7, lt_gas_limit = 21000, lt_kind = KindCall 2, lt_value = 1, lt_input = [],
       lt_signature = \<lparr> sig_r = 1, sig_s = 1, sig_v = 37 \<rparr> \<rparr>"

definition sample_pending :: "u64 \<Rightarrow> PendingTransaction" where
  "sample_pending k =
     \<lparr> pt_transaction = \<lparr> mi_transaction = sample_transaction k, impersonated_sender = None \<rparr>, pt_sender = 1,
       pt_hash = ucast k \<rparr>"

definition sample_entry :: "u64 \<Rightarrow> PoolTransaction" where
  "sample_entry k =
     \<lparr> pending_transaction = sample_pending k, requires = (if k = 0 then [] else [to_marker (k - 1) 1]),
       provides = [to_marker k 1], priority = 7 \<rparr>"

lemma sample_marked: "nonce_marked (sample_entry k)"
  unfolding nonce_marked_def
  by (rule exI [of _ k], rule exI [of _ 1]) (simp add: sample_entry_def word_neq_0_conv)

text \<open>
  C11. Whatever sequence of submissions, mined blocks, removals and drops reaches the pool, none of its
  operations panics (no failed assertion, no missing entry of a map), and the two queues stay consistent:
  the index of missing markers and the table of provided markers agree with the stored transactions, no
  transaction is in both queues, and no marker is both missing and provided.
\<close>

theorem pool_never_panics:
  assumes "iter_ok I" "\<forall>x \<in> set xs. op_marked x"
  shows "\<exists>p. pool_ops try_send I xs Pool_default = Val p \<and> pool_ok (inner p)"
  using pool_ops_ok [OF assms(1) _ assms(2), of Pool_default try_send] pool_ok_default
  by (simp add: ok_iff Pool_default_def)

theorem pool_never_panics_witness:
  "\<exists>p. pool_ops (\<lambda>l h. (Sent, l)) sorted_iter
     [AddTransaction (sample_entry 1), AddTransaction (sample_entry 0), AddTransaction (sample_entry 0),
      MinedBlock \<lparr> block_number = 1, included = [sample_entry 0], invalid = [] \<rparr>, DropTransaction 1]
     (Pool_default :: unit Pool) = Val p \<and> pool_ok (inner p)"
  by (rule pool_never_panics [OF iter_ok_sorted]) (simp add: sample_marked)

text \<open>
  C27. Submitting a transaction to a consistent pool returns. A transaction that is refused leaves the pool
  as it was, except when the promotions it caused removed it again; in every case the only transaction that
  can be new in the pool is the submitted one.
\<close>

theorem refused_transaction_changes_nothing:
  assumes "iter_ok I" "pool_ok p" "nonce_marked t"
  shows "\<exists>r p'. inner_add_transaction I t p = Val (r, p') \<and> pool_ok p' \<and> (\<forall>e. r = Inl e \<longrightarrow> e = CyclicTransaction \<or> p' = p) \<and>
    (\<forall>h. inner_contains h p' \<longrightarrow> h = hash_of t \<or> inner_contains h p)"
  using inner_add_ok [OF assms]
  by (auto simp: ok_iff inner_contains_def pool_keys_def fmlookup_dom'_iff subset_iff)

theorem refused_transaction_changes_nothing_witness:
  "\<exists>r p'. inner_add_transaction sorted_iter (sample_entry 1) PoolInner_default = Val (r, p') \<and> pool_ok p' \<and>
    (\<forall>e. r = Inl e \<longrightarrow> e = CyclicTransaction \<or> p' = PoolInner_default) \<and>
    (\<forall>h. inner_contains h p' \<longrightarrow> h = hash_of (sample_entry 1) \<or> inner_contains h PoolInner_default)"
  by (rule refused_transaction_changes_nothing [OF iter_ok_sorted pool_ok_default sample_marked])

lemma required_marker_cases:
  assumes "required_marker provided on_chain s = Val req" "unat provided < 2 ^ 64"
  shows "if provided \<le> on_chain then req = [] else req = [to_marker (ucast provided - 1) s]"
proof (cases "provided \<le> on_chain")
  case True
  then have "provided = on_chain \<or> \<not> on_chain \<le> saturating_sub provided 1"
    by (auto simp: saturating_sub_def word_le_nat_alt unat_sub_if' unat_eq_zero split: if_splits)
  then show ?thesis
    using assms(1) True by (auto simp: required_marker_def Let_def split: if_splits)
next
  case False
  then have "on_chain \<le> provided - 1" "1 \<le> provided"
    by (auto simp: word_le_nat_alt unat_sub_if' unat_eq_zero)
  moreover have "unat (ucast (provided - 1) :: u64) = unat (ucast provided - 1 :: u64)"
    using assms(2) \<open>1 \<le> provided\<close>
    by (simp add: unsigned_ucast_eq take_bit_nat_eq_self unat_sub_if' word_le_nat_alt)
  then have "ucast (provided - 1) = (ucast provided - 1 :: u64)"
    by (simp only: word_unat_eq_iff)
  ultimately show ?thesis
    using assms(1) False
    by (auto simp: required_marker_def saturating_sub_def bind_comp_Val_iff as_u64_Val_iff split: if_splits)
qed



section \<open>Fees and block times\<close>

lemma fee_step_bounds:
  fixes f d e :: nat
  assumes "d \<le> hi" "e \<le> lo"
  shows "(if b then f else if c then f + max 1 d else f - e) \<le> f + max 1 hi"
    "f \<le> (if b then f else if c then f + max 1 d else f - e) + lo"
  using assms by auto



text \<open>
  C30. A timestamp that is accepted for the next block is the timestamp of that block, and the clock continues
  from it: without an interval, the block after it is as much later as the system clock advanced, and at
  least one second.
\<close>

theorem exact_timestamp_honoured:
  assumes "set_next_block_timestamp ts m = Some m1" "next_timestamp now m1 = (t1, m2)" "tm_interval m = None"
    "now \<le> now'" "unat ts + (unat now' - unat now) < 2 ^ 64" "ts \<noteq> - 1"
  shows "t1 = ts \<and> last_timestamp m < t1 \<and> unat (fst (next_timestamp now' m2)) = unat ts + max 1 (unat now' - unat now)"
proof -
  note used = exact_timestamp_used [OF assms(1,2)]
  have "last_timestamp m < ts"
    using assms(1) by (simp add: set_next_block_timestamp_def not_le split: if_splits)
  then show ?thesis
    using clock_follows [of m2 now now'] used assms(3-6) by simp
qed

theorem exact_timestamp_honoured_witness:
  "(2000 :: u64) = 2000 \<and> last_timestamp (TimeManager_new 1000 1000) < 2000 \<and>
     unat (fst (next_timestamp 1005 \<lparr> tm_offset = 1000, last_timestamp = 2000, next_exact_timestamp = None, tm_interval = None \<rparr>)) =
       unat (2000 :: u64) + max 1 (unat (1005 :: u64) - unat (1000 :: u64))"
proof (rule exact_timestamp_honoured)
  show "set_next_block_timestamp 2000 (TimeManager_new 1000 1000) =
      Some \<lparr> tm_offset = 0, last_timestamp = 1000, next_exact_timestamp = Some 2000, tm_interval = None \<rparr>"
    by (simp add: set_next_block_timestamp_def TimeManager_new_def TimeManager_reset_def)
  show "next_timestamp 1000 \<lparr> tm_offset = 0, last_timestamp = 1000, next_exact_timestamp = Some 2000, tm_interval = None \<rparr> =
      (2000, \<lparr> tm_offset = 1000, last_timestamp = 2000, next_exact_timestamp = None, tm_interval = None \<rparr>)"
    by (simp add: next_timestamp_def compute_next_timestamp_def)
qed (simp_all add: TimeManager_new_def TimeManager_reset_def)

section \<open>Validation and execution\<close>

definition sample_env :: Env where
  "sample_env = \<lparr> cfg = CfgEnv_default, block = BlockEnv_default\<lparr>basefee := 5\<rparr>,
     tx = \<lparr> tx_caller = 1, tx_gas_limit = 21000, tx_gas_price = 7, gas_priority_fee = None, transact_to = TransactCall 2,
       tx_value = 1, tx_data = [], tx_chain_id = Some 1, tx_nonce = Some 0, access_list = [] \<rparr> \<rparr>"

definition sample_account :: AccountInfo where
  "sample_account = AccountInfo_default\<lparr>balance := 200000\<rparr>"


lemma sample_accepted: "validate_for 1 (sample_pending 0) sample_account sample_env = Val None"
  by (simp add: validate_for_def validate_pool_transaction_for_def check_chain_id_def check_fees_def sample_pending_def
      sample_transaction_def sample_account_def sample_env_def AccountInfo_default_def CfgEnv_default_def BlockEnv_default_def
      lt_chain_id_def MIN_TRANSACTION_GAS_def as_u64_def max_cost_def saturating_mul_def checked_add_def Let_def)


text \<open>
  C15. Every block the executor assembles is consistent: there is one transaction, one information record and
  one receipt per included transaction, in the order of inclusion and numbered from zero; the header has the
  sum of the receipts' gas and the bloom filter of their logs, and the number, limits and parent it was built
  for; included and invalid transactions are among the submitted ones, in their order, none twice.
\<close>

theorem block_consistent:
  assumes "execute_block B receipts_root state_root (exec_next Ins i0 X D commit_db f n chain) T = Val (e, T')"
  shows "et_transactions e = map (\<lambda>t. pt_transaction (pending_transaction t)) (et_included e) \<and>
    map ti_transaction_hash (et_infos e) = map hash_of (et_included e) \<and>
    map ti_transaction_index (et_infos e) = map of_nat [0..<length (et_included e)] \<and>
    map ti_logs (et_infos e) = map (\<lambda>r. rc_logs (receipt_of r)) (et_receipts e) \<and>
    ph_gas_used (et_header e) = foldl saturating_add 0 (map receipt_gas_used (et_receipts e)) \<and>
    ph_logs_bloom (et_header e) = logs_bloom B (concat (map ti_logs (et_infos e))) (bl_bloom_default B) \<and>
    ph_parent_hash (et_header e) = te_parent_hash T \<and> ph_number (et_header e) = blk_number (te_block_env T) \<and>
    ph_gas_limit (et_header e) = blk_gas_limit (te_block_env T) \<and> ph_receipts_root (et_header e) = receipts_root (et_receipts e) \<and>
    subseq (et_included e) (te_pending T) \<and> subseq (et_invalid e) (te_pending T) \<and>
    mset (et_included e) + mset (et_invalid e) \<subseteq># mset (te_pending T)"
proof -
  obtain ts b where ts: "as_u64 (timestamp (te_block_env T)) = Val ts"
      and loop: "execute_loop B (exec_next Ins i0 X D commit_db f n chain) (te_pending T) (Building_new B, T) = Val (b, T')"
      and fields: "et_transactions e = bd_transactions b" "et_infos e = bd_infos b" "et_receipts e = bd_receipts b"
        "et_included e = bd_included b" "et_invalid e = bd_invalid b" "ph_gas_used (et_header e) = bd_cumulative_gas_used b"
        "ph_logs_bloom (et_header e) = bd_bloom b" "ph_parent_hash (et_header e) = te_parent_hash T"
        "ph_number (et_header e) = blk_number (te_block_env T)" "ph_gas_limit (et_header e) = blk_gas_limit (te_block_env T)"
        "ph_receipts_root (et_header e) = receipts_root (bd_receipts b)"
    using assms by (auto simp: execute_block_def bind_comp_Val_iff)
  have ok: "building_ok B b"
    by (rule executor.loop_building_ok [OF loop building_ok_new])
  have len: "length (bd_infos b) = length (bd_included b)"
    using ok unfolding building_ok_def by (metis length_map)
  show ?thesis
    using executor.loop_partition [OF loop] ok len
    by (auto simp: fields building_ok_def Building_new_def)
qed

definition sample_executor :: "unit TransactionExecutor" where
  "sample_executor =
     \<lparr> te_db = (), te_pending = [sample_entry 0], te_block_env = BlockEnv_default, te_cfg_env = CfgEnv_default,
       te_parent_hash = 9, te_gas_used = 0, te_admin = Admin_init \<rparr>"

definition no_accounts :: "(unit, unit) db_ops" where
  "no_accounts =
     \<lparr> db_basic = (\<lambda>db a. (Inr None, db)), db_code_by_hash = (\<lambda>db h. (Inr Bytecode_new, db)), db_storage = (\<lambda>db a k. (Inr 0, db)),
       db_block_hash = (\<lambda>db k. (Inr 0, db)) \<rparr>"

definition sample_blooms :: "nat BlockLibs" where
  "sample_blooms = \<lparr> bl_bloom_default = 0, bl_accrue = (\<lambda>bs k. k + length bs) \<rparr>"

lemma sample_block:
  obtains e T' where
    "execute_block sample_blooms (\<lambda>rs. of_nat (length rs)) (\<lambda>db. Some 3)
       (exec_next Ins i0 X no_accounts commit_db f n 1) sample_executor = Val (e, T')"
    "et_invalid e = [sample_entry 0]"
proof -
  let ?env = "\<lparr> cfg = CfgEnv_default, block = BlockEnv_default, tx = tx sample_env \<rparr>"
  have invalid: "validate_pool_transaction_for 1 (sample_pending 0) AccountInfo_default ?env = Val (Some IT_InsufficientFunds)"
    by (simp add: validate_pool_transaction_for_def check_chain_id_def check_fees_def sample_pending_def
      sample_transaction_def sample_env_def AccountInfo_default_def CfgEnv_default_def BlockEnv_default_def
      lt_chain_id_def MIN_TRANSACTION_GAS_def max_cost_def saturating_mul_def checked_add_def Let_def)
  have env: "env_for T (sample_pending 0) = Val ?env" if "te_cfg_env T = CfgEnv_default" "te_block_env T = BlockEnv_default"
    for T :: "unit TransactionExecutor"
    using that by (simp add: env_for_def sample_pending_def sample_transaction_def sample_env_def as_u64_def lt_chain_id_def)
  have room: "\<not> saturating_add 0 (ucast (tx_gas_limit (tx sample_env))) > blk_gas_limit BlockEnv_default"
    by (simp add: BlockEnv_default_def)
  have "exec_next Ins i0 X no_accounts commit_db f n 1 (sample_entry 0) (sample_executor\<lparr>te_pending := []\<rparr>) =
      Val (Invalid (sample_entry 0) IT_InsufficientFunds, sample_executor\<lparr>te_pending := []\<rparr>)"
    using invalid env room by (simp add: exec_next_def sample_entry_def no_accounts_def sample_executor_def)
  then show thesis
    using that by (simp add: execute_block_def sample_executor_def BlockEnv_default_def as_u64_def Building_new_def)
qed


theorem block_consistent_witness:
  "\<exists>e T'. execute_block sample_blooms (\<lambda>rs. of_nat (length rs)) (\<lambda>db. Some 3)
       (exec_next NoOpInspector () unit_deps no_accounts (\<lambda>st db. db) 0 0 1) sample_executor = Val (e, T') \<and>
     et_invalid e = [sample_entry 0] \<and> ph_parent_hash (et_header e) = 9 \<and>
     mset (et_included e) + mset (et_invalid e) \<subseteq># {# sample_entry 0 #}"
proof -
  obtain e T' where e: "execute_block sample_blooms (\<lambda>rs. of_nat (length rs)) (\<lambda>db. Some 3)
       (exec_next NoOpInspector () unit_deps no_accounts (\<lambda>st db. db) 0 0 1) sample_executor = Val (e, T')"
      "et_invalid e = [sample_entry 0]"
    by (rule sample_block)
  show ?thesis
    using block_consistent [OF e(1)] e by (auto simp: sample_executor_def)
qed

end
