(* ===== verification/Node_State.thy ===== *)
theory Node_State
  imports Node_Executor Cache_DB
begin

text \<open>
  What the node keeps of states: the snapshots of a database (\<open>evm/src/executor/snapshot.rs\<close>), the in-memory
  database that takes them (\<open>evm/src/executor/backend/in_memory_db.rs\<close>, \<open>anvil/src/eth/backend/mem/in_memory_db.rs\<close>
  and the defaults of \<open>anvil/src/eth/backend/db.rs\<close>), the states of past blocks with the limits on how many are
  kept in memory and on disk (\<open>anvil/src/eth/backend/mem/storage.rs\<close>), and the cheats manager
  (\<open>anvil/src/eth/backend/cheats.rs\<close>). Files are a parameter.
\<close>

section \<open>Snapshots\<close>

record 't Snapshots =
  ss_id :: U256
  ss_snapshots :: "(U256, 't) fmap"

definition Snapshots_default :: "'t Snapshots" where
  "Snapshots_default = \<lparr> ss_id = 0, ss_snapshots = fmempty \<rparr>"

definition ss_next_id :: "'t Snapshots \<Rightarrow> U256 \<times> 't Snapshots" where
  "ss_next_id s = (ss_id s, s\<lparr>ss_id := saturating_add (ss_id s) 1\<rparr>)"

definition ss_get :: "U256 \<Rightarrow> 't Snapshots \<Rightarrow> 't option" where
  "ss_get k s = fmlookup (ss_snapshots s) k"

text \<open>The loop drops the ids from \<open>to_revert\<close> up to the next id; the checked sum \<open>id + 1\<close> may panic.\<close>

fun drop_ids :: "nat \<Rightarrow> U256 \<Rightarrow> (U256, 't) fmap \<Rightarrow> (U256, 't) fmap" where
  "drop_ids 0 to_revert m = m"
| "drop_ids (Suc n) to_revert m = drop_ids n (to_revert + 1) (fmdrop to_revert m)"

definition ss_remove :: "U256 \<Rightarrow> 't Snapshots \<Rightarrow> ('t option \<times> 't Snapshots) comp" where
  "ss_remove k s =
     bind_comp (unwrap (checked_add k 1)) (\<lambda>to_revert.
       Val (fmlookup (ss_snapshots s) k,
         s\<lparr>ss_snapshots := drop_ids (unat (ss_id s) - unat to_revert) to_revert (fmdrop k (ss_snapshots s))\<rparr>))"

definition ss_insert :: "'t \<Rightarrow> 't Snapshots \<Rightarrow> U256 \<times> 't Snapshots" where
  "ss_insert x s = (let (k, s) = ss_next_id s in (k, s\<lparr>ss_snapshots := fmupd k x (ss_snapshots s)\<rparr>))"

section \<open>The in-memory database\<close>

text \<open>The database below the cache knows every account, with default values.\<close>

definition EmptyDBWrapper :: "Libs \<Rightarrow> (unit, 'e) ref_ops" where
  "EmptyDBWrapper L =
     (EmptyDB L)\<lparr>ref_basic := (\<lambda>x a. case ref_basic (EmptyDB L) x a of
        Inl e \<Rightarrow> Inl e
      | Inr None \<Rightarrow> Inr (Some AccountInfo_default)
      | Inr (Some i) \<Rightarrow> Inr (Some i))\<rparr>"

record MemDb =
  md_inner :: InMemoryDB
  md_snapshots :: "InMemoryDB Snapshots"

definition MemDb_default :: MemDb where
  "MemDb_default = \<lparr> md_inner = CacheDB_new (), md_snapshots = Snapshots_default \<rparr>"

definition on_inner :: "MemDb \<Rightarrow> 'r \<times> InMemoryDB \<Rightarrow> 'r \<times> MemDb" where
  "on_inner m x = (fst x, m\<lparr>md_inner := snd x\<rparr>)"

definition MemDb_ops :: "Libs \<Rightarrow> (MemDb, 'e) db_ops" where
  "MemDb_ops L =
     (let D = CacheDB_ops (EmptyDBWrapper L)
      in \<lparr> db_basic = (\<lambda>m a. on_inner m (db_basic D (md_inner m) a)),
           db_code_by_hash = (\<lambda>m h. on_inner m (db_code_by_hash D (md_inner m) h)),
           db_storage = (\<lambda>m a k. on_inner m (db_storage D (md_inner m) a k)),
           db_block_hash = (\<lambda>m k. on_inner m (db_block_hash D (md_inner m) k)) \<rparr>)"

text \<open>\<open>entries\<close> lists the changed accounts in the order in which the map of changes is iterated.\<close>

definition mem_commit :: "(State \<Rightarrow> (B160 \<times> Account) list) \<Rightarrow> State \<Rightarrow> MemDb \<Rightarrow> MemDb" where
  "mem_commit entries changes m = m\<lparr>md_inner := commit (entries changes) (md_inner m)\<rparr>"

definition mem_insert_account :: "B160 \<Rightarrow> AccountInfo \<Rightarrow> MemDb \<Rightarrow> MemDb" where
  "mem_insert_account a i m = m\<lparr>md_inner := insert_account_info a i (md_inner m)\<rparr>"

definition mem_insert_block_hash :: "U256 \<Rightarrow> B256 \<Rightarrow> MemDb \<Rightarrow> MemDb" where
  "mem_insert_block_hash number h m = m\<lparr>md_inner := (md_inner m)\<lparr>cdb_block_hashes := (cdb_block_hashes (md_inner m))(number \<mapsto> h)\<rparr>\<rparr>"

definition mem_snapshot :: "MemDb \<Rightarrow> U256 \<times> MemDb" where
  "mem_snapshot m = (let (k, s) = ss_insert (md_inner m) (md_snapshots m) in (k, m\<lparr>md_snapshots := s\<rparr>))"

definition mem_revert :: "U256 \<Rightarrow> MemDb \<Rightarrow> (bool \<times> MemDb) comp" where
  "mem_revert k m =
     bind_comp (ss_remove k (md_snapshots m)) (\<lambda>(snapshot, s).
       Val (case snapshot of
              Some c \<Rightarrow> (True, m\<lparr>md_inner := c, md_snapshots := s\<rparr>)
            | None \<Rightarrow> (False, m\<lparr>md_snapshots := s\<rparr>)))"

definition mem_current_state :: "MemDb \<Rightarrow> MemDb" where
  "mem_current_state m = MemDb_default\<lparr>md_inner := md_inner m\<rparr>"

text \<open>The changes of accounts that every database of the node offers, through \<open>basic\<close> and \<open>insert_account\<close>.\<close>

definition change_account :: "Libs \<Rightarrow> (AccountInfo \<Rightarrow> AccountInfo) \<Rightarrow> B160 \<Rightarrow> MemDb \<Rightarrow> ('e + unit) \<times> MemDb" where
  "change_account L f a m =
     (case db_basic (MemDb_ops L) m a of
        (Inl e, m) \<Rightarrow> (Inl e, m)
      | (Inr i, m) \<Rightarrow> (Inr (), mem_insert_account a (f (case i of None \<Rightarrow> AccountInfo_default | Some i \<Rightarrow> i)) m))"

definition mem_set_nonce :: "Libs \<Rightarrow> B160 \<Rightarrow> u64 \<Rightarrow> MemDb \<Rightarrow> ('e + unit) \<times> MemDb" where
  "mem_set_nonce L a n = change_account L (\<lambda>i. i\<lparr>nonce := n\<rparr>) a"

definition mem_set_balance :: "Libs \<Rightarrow> B160 \<Rightarrow> U256 \<Rightarrow> MemDb \<Rightarrow> ('e + unit) \<times> MemDb" where
  "mem_set_balance L a v = change_account L (\<lambda>i. i\<lparr>balance := v\<rparr>) a"

definition mem_set_code :: "Libs \<Rightarrow> B160 \<Rightarrow> bytes \<Rightarrow> MemDb \<Rightarrow> ('e + unit) \<times> MemDb" where
  "mem_set_code L a bs =
     change_account L (\<lambda>i. i\<lparr>code_hash := (if bs = [] then KECCAK_EMPTY else lib_keccak256 L bs),
       code := Some (to_checked (new_raw L bs))\<rparr>) a"

section \<open>States of past blocks\<close>

definition DEFAULT_HISTORY_LIMIT :: nat where "DEFAULT_HISTORY_LIMIT = 500"

definition MIN_HISTORY_LIMIT :: nat where "MIN_HISTORY_LIMIT = 10"

definition MAX_ON_DISK_HISTORY_LIMIT :: nat where "MAX_ON_DISK_HISTORY_LIMIT = 3600"

text \<open>
  \<open>'st\<close> is the type of states (a boxed trait object in the source), \<open>'s\<close> of their snapshots, \<open>'d\<close> of the files on
  disk.
\<close>

record ('st, 's, 'd) StateStore =
  so_clear_into_snapshot :: "'st \<Rightarrow> 's \<times> 'st"
  so_init_from_snapshot :: "'s \<Rightarrow> 'st \<Rightarrow> 'st"
  dk_write :: "B256 \<Rightarrow> 's \<Rightarrow> 'd \<Rightarrow> 'd"
  dk_read :: "B256 \<Rightarrow> 'd \<Rightarrow> 's option \<times> 'd"
  dk_remove :: "B256 \<Rightarrow> 'd \<Rightarrow> 'd"

record ('st, 'd) InMemoryBlockStates =
  bs_states :: "(B256, 'st) fmap"
  on_disk_states :: "(B256, 'st) fmap"
  in_memory_limit :: nat
  min_in_memory_limit :: nat
  max_on_disk_limit :: nat
  oldest_on_disk :: "B256 list"
  present :: "B256 list"
  disk_cache :: 'd

definition BlockStates_new :: "'d \<Rightarrow> nat \<Rightarrow> ('st, 'd) InMemoryBlockStates" where
  "BlockStates_new disk limit =
     \<lparr> bs_states = fmempty, on_disk_states = fmempty, in_memory_limit = limit, min_in_memory_limit = min limit MIN_HISTORY_LIMIT,
       max_on_disk_limit = MAX_ON_DISK_HISTORY_LIMIT, oldest_on_disk = [], present = [], disk_cache = disk \<rparr>"

definition memory_only :: "('st, 'd) InMemoryBlockStates \<Rightarrow> ('st, 'd) InMemoryBlockStates" where
  "memory_only s = s\<lparr>max_on_disk_limit := 0\<rparr>"

definition is_memory_only :: "('st, 'd) InMemoryBlockStates \<Rightarrow> bool" where
  "is_memory_only s \<longleftrightarrow> max_on_disk_limit s = 0"

definition move_to_disk ::
  "('st, 's, 'd) StateStore \<Rightarrow> B256 \<Rightarrow> 'st \<Rightarrow> ('st, 'd) InMemoryBlockStates \<Rightarrow> ('st, 'd) InMemoryBlockStates" where
  "move_to_disk A h st s =
     (if is_memory_only s then s
      else
        let (snapshot, st) = so_clear_into_snapshot A st
        in s\<lparr>disk_cache := dk_write A h snapshot (disk_cache s), on_disk_states := fmupd h st (on_disk_states s),
             oldest_on_disk := oldest_on_disk s @ [h]\<rparr>)"

text \<open>
  The loop that enforces the limit in memory, on the queue \<open>present\<close>. With a limit of zero its condition
  never fails: once the queue is empty it runs forever, which is \<open>Timeout\<close>.
\<close>

fun evict_memory ::
  "('st, 's, 'd) StateStore \<Rightarrow> B256 list \<Rightarrow> ('st, 'd) InMemoryBlockStates \<Rightarrow> ('st, 'd) InMemoryBlockStates comp" where
  "evict_memory A [] s = (if in_memory_limit s = 0 then Timeout else Val (s\<lparr>present := []\<rparr>))"
| "evict_memory A (h # hs) s =
     (if in_memory_limit s \<le> length (h # hs)
      then case fmlookup (bs_states s) h of
             None \<Rightarrow> evict_memory A hs s
           | Some st \<Rightarrow> evict_memory A hs (move_to_disk A h st (s\<lparr>bs_states := fmdrop h (bs_states s)\<rparr>))
      else Val (s\<lparr>present := h # hs\<rparr>))"

fun evict_disk ::
  "('st, 's, 'd) StateStore \<Rightarrow> B256 list \<Rightarrow> ('st, 'd) InMemoryBlockStates \<Rightarrow> ('st, 'd) InMemoryBlockStates" where
  "evict_disk A [] s = s\<lparr>oldest_on_disk := []\<rparr>"
| "evict_disk A (h # hs) s =
     (if \<not> is_memory_only s \<and> max_on_disk_limit s \<le> length (h # hs)
      then evict_disk A hs (s\<lparr>on_disk_states := fmdrop h (on_disk_states s), disk_cache := dk_remove A h (disk_cache s)\<rparr>)
      else s\<lparr>oldest_on_disk := h # hs\<rparr>)"

definition enforce_limits ::
  "('st, 's, 'd) StateStore \<Rightarrow> ('st, 'd) InMemoryBlockStates \<Rightarrow> ('st, 'd) InMemoryBlockStates comp" where
  "enforce_limits A s =
     bind_comp (evict_memory A (present s) s) (\<lambda>s. Val (evict_disk A (oldest_on_disk s) s))"

definition update_interval_mine_block_time ::
  "('st, 's, 'd) StateStore \<Rightarrow> u64 \<Rightarrow> ('st, 'd) InMemoryBlockStates \<Rightarrow> ('st, 'd) InMemoryBlockStates comp" where
  "update_interval_mine_block_time A block_time s =
     (if block_time \<le> 2 then enforce_limits A (s\<lparr>in_memory_limit := DEFAULT_HISTORY_LIMIT * 3\<rparr>) else Val s)"

definition states_insert ::
  "('st, 's, 'd) StateStore \<Rightarrow> B256 \<Rightarrow> 'st \<Rightarrow> ('st, 'd) InMemoryBlockStates \<Rightarrow> ('st, 'd) InMemoryBlockStates comp" where
  "states_insert A h st s =
     (let s = (if \<not> is_memory_only s \<and> in_memory_limit s \<le> length (present s)
               then s\<lparr>in_memory_limit := max (in_memory_limit s - 1) (min_in_memory_limit s)\<rparr> else s)
      in bind_comp (enforce_limits A s) (\<lambda>s.
           Val (s\<lparr>bs_states := fmupd h st (bs_states s), present := present s @ [h]\<rparr>)))"

definition states_get ::
  "('st, 's, 'd) StateStore \<Rightarrow> B256 \<Rightarrow> ('st, 'd) InMemoryBlockStates \<Rightarrow> 'st option \<times> ('st, 'd) InMemoryBlockStates" where
  "states_get A h s =
     (case fmlookup (bs_states s) h of
        Some st \<Rightarrow> (Some st, s)
      | None \<Rightarrow>
          (case fmlookup (on_disk_states s) h of
             None \<Rightarrow> (None, s)
           | Some st \<Rightarrow>
               (case dk_read A h (disk_cache s) of
                  (Some cached, d) \<Rightarrow>
                    let st = so_init_from_snapshot A cached st
                    in (Some st, s\<lparr>on_disk_states := fmupd h st (on_disk_states s), disk_cache := d\<rparr>)
                | (None, d) \<Rightarrow> (None, s\<lparr>disk_cache := d\<rparr>))))"

definition set_cache_limit :: "nat \<Rightarrow> ('st, 'd) InMemoryBlockStates \<Rightarrow> ('st, 'd) InMemoryBlockStates" where
  "set_cache_limit limit s = s\<lparr>in_memory_limit := limit\<rparr>"

definition states_clear ::
  "('st, 's, 'd) StateStore \<Rightarrow> ('st, 'd) InMemoryBlockStates \<Rightarrow> ('st, 'd) InMemoryBlockStates" where
  "states_clear A s =
     s\<lparr>bs_states := fmempty, on_disk_states := fmempty, present := [], oldest_on_disk := [],
       disk_cache := fold (dk_remove A) (oldest_on_disk s) (disk_cache s)\<rparr>"

record PruneStateHistoryConfig =
  ph_enabled :: bool
  max_memory_history :: "nat option"

definition is_state_history_supported :: "PruneStateHistoryConfig \<Rightarrow> bool" where
  "is_state_history_supported c \<longleftrightarrow> \<not> ph_enabled c \<or> max_memory_history c \<noteq> None"

section \<open>Impersonated accounts\<close>

record CheatsState =
  impersonated_accounts :: "B160 fset"
  bypass_signature :: Signature
  auto_impersonate_accounts :: bool

definition CheatsState_default :: CheatsState where
  "CheatsState_default =
     \<lparr> impersonated_accounts = {||}, bypass_signature = IMPERSONATED_SIGNATURE, auto_impersonate_accounts = False \<rparr>"

definition cheats_impersonate :: "B160 \<Rightarrow> CheatsState \<Rightarrow> bool \<times> CheatsState" where
  "cheats_impersonate a c =
     (if a |\<in>| impersonated_accounts c then (True, c)
      else (True, c\<lparr>impersonated_accounts := finsert a (impersonated_accounts c)\<rparr>))"

definition cheats_stop_impersonating :: "B160 \<Rightarrow> CheatsState \<Rightarrow> CheatsState" where
  "cheats_stop_impersonating a c = c\<lparr>impersonated_accounts := impersonated_accounts c - {|a|}\<rparr>"

definition cheats_is_impersonated :: "B160 \<Rightarrow> CheatsState \<Rightarrow> bool" where
  "cheats_is_impersonated a c \<longleftrightarrow> auto_impersonate_accounts c \<or> a |\<in>| impersonated_accounts c"

definition set_auto_impersonate_account :: "bool \<Rightarrow> CheatsState \<Rightarrow> CheatsState" where
  "set_auto_impersonate_account b c = c\<lparr>auto_impersonate_accounts := b\<rparr>"

section \<open>What a snapshot restores\<close>

lemma unat_less_256: "unat (x :: U256) < 2 ^ 256"
  by (rule order_less_le_trans [OF unsigned_less]) simp

lemma lookup_drop_ids:
  "unat k0 + n < 2 ^ 256 \<Longrightarrow>
     fmlookup (drop_ids n k0 m) k = (if unat k0 \<le> unat k \<and> unat k < unat k0 + n then None else fmlookup m k)"
proof (induction n arbitrary: k0 m)
  case (Suc n)
  then have k1: "unat (k0 + 1) = unat k0 + 1"
    by (simp add: unat_word_ariths)
  then show ?case
    using Suc by (auto simp: word_unat_eq_iff)
qed auto

lemma ss_remove_lookup:
  assumes "ss_remove k s = Val (r, s')"
  shows "r = fmlookup (ss_snapshots s) k" "ss_id s' = ss_id s"
    "fmlookup (ss_snapshots s') j = (if unat k \<le> unat j \<and> (j = k \<or> unat j < unat (ss_id s)) then None else fmlookup (ss_snapshots s) j)"
proof -
  obtain t where t: "checked_add k 1 = Some t" "r = fmlookup (ss_snapshots s) k"
      "s' = s\<lparr>ss_snapshots := drop_ids (unat (ss_id s) - unat t) t (fmdrop k (ss_snapshots s))\<rparr>"
    using assms by (auto simp: ss_remove_def bind_comp_Val_iff unwrap_def split: option.splits)
  then show "r = fmlookup (ss_snapshots s) k" "ss_id s' = ss_id s"
    by simp_all
  have u: "unat t = unat k + 1"
    using t(1) by (auto simp: checked_add_def unat_word_ariths split: if_splits)
  have "unat t + (unat (ss_id s) - unat t) < 2 ^ 256"
    using unat_less_256 [of t] unat_less_256 [of "ss_id s"] by linarith
  from lookup_drop_ids [OF this, of "fmdrop k (ss_snapshots s)" j] show "fmlookup (ss_snapshots s') j =
      (if unat k \<le> unat j \<and> (j = k \<or> unat j < unat (ss_id s)) then None else fmlookup (ss_snapshots s) j)"
    using u by (auto simp: t(3) word_unat_eq_iff)
qed

text \<open>Reverting to a snapshot restores the database of that moment, and forgets it and every later snapshot.\<close>

definition snapshots_ok :: "'t Snapshots \<Rightarrow> bool" where
  "snapshots_ok s \<longleftrightarrow> (\<forall>k. fmlookup (ss_snapshots s) k \<noteq> None \<longrightarrow> unat k < unat (ss_id s))"

lemma snapshots_ok_insert:
  assumes "snapshots_ok s" "ss_id s \<noteq> - 1" "ss_insert x s = (k, s')"
  shows "snapshots_ok s'" "k = ss_id s" "unat (ss_id s') = unat k + 1" "fmlookup (ss_snapshots s') j = (if j = k then Some x else fmlookup (ss_snapshots s) j)"
proof -
  have "unat (ss_id s) \<noteq> unat (- 1 :: U256)"
    using assms(2) by (simp only: word_unat_eq_iff not_False_eq_True)
  then have "unat (ss_id s) + 1 < 2 ^ 256"
    using unat_less_256 [of "ss_id s"] by simp
  then have "unat (saturating_add (ss_id s) 1) = unat (ss_id s) + 1"
    by (simp add: saturating_add_def unat_word_ariths)
  then show "snapshots_ok s'" "k = ss_id s" "unat (ss_id s') = unat k + 1"
      "fmlookup (ss_snapshots s') j = (if j = k then Some x else fmlookup (ss_snapshots s) j)"
    using assms(1,3) by (auto simp: snapshots_ok_def ss_insert_def ss_next_id_def Let_def split: if_splits) (meson less_SucI)+
qed

section \<open>Limits on past states\<close>

definition limits_ok :: "('st, 'd) InMemoryBlockStates \<Rightarrow> bool" where
  "limits_ok s \<longleftrightarrow> 0 < min_in_memory_limit s \<and> min_in_memory_limit s \<le> in_memory_limit s"

lemma limits_ok_new: "0 < limit \<Longrightarrow> limits_ok (BlockStates_new d limit)"
  by (simp add: limits_ok_def BlockStates_new_def MIN_HISTORY_LIMIT_def)

lemma move_to_disk_limits [simp]:
  "in_memory_limit (move_to_disk A h st s) = in_memory_limit s" "min_in_memory_limit (move_to_disk A h st s) = min_in_memory_limit s"
  "max_on_disk_limit (move_to_disk A h st s) = max_on_disk_limit s" "bs_states (move_to_disk A h st s) = bs_states s"
  by (simp_all add: move_to_disk_def Let_def case_prod_unfold)

lemma evict_memory_spec:
  assumes "0 < in_memory_limit s"
  shows "ok (\<lambda>s'. length (present s') < in_memory_limit s \<and> in_memory_limit s' = in_memory_limit s \<and>
    min_in_memory_limit s' = min_in_memory_limit s \<and> max_on_disk_limit s' = max_on_disk_limit s \<and>
    present s' = drop (length hs + 1 - in_memory_limit s) hs) (evict_memory A hs s)"
  using assms
proof (induction A hs s rule: evict_memory.induct)
  case (2 A h hs s)
  then show ?case
    by (cases "in_memory_limit s \<le> length (h # hs)") (auto simp: ok_iff Suc_diff_le split: option.split)
qed (simp add: ok_iff)

lemma evict_disk_spec:
  "in_memory_limit (evict_disk A hs s) = in_memory_limit s" "min_in_memory_limit (evict_disk A hs s) = min_in_memory_limit s"
  "present (evict_disk A hs s) = present s" "max_on_disk_limit (evict_disk A hs s) = max_on_disk_limit s"
  "0 < max_on_disk_limit s \<Longrightarrow> length (oldest_on_disk (evict_disk A hs s)) < max_on_disk_limit s"
  "bs_states (evict_disk A hs s) = bs_states s"
  by (induction A hs s rule: evict_disk.induct) (simp_all add: is_memory_only_def)

lemma states_insert_spec:
  assumes "limits_ok s"
  shows "ok (\<lambda>s'. limits_ok s' \<and> length (present s') \<le> in_memory_limit s' \<and> in_memory_limit s' \<le> in_memory_limit s \<and>
    max_on_disk_limit s' = max_on_disk_limit s \<and>
    (0 < max_on_disk_limit s \<longrightarrow> length (oldest_on_disk s') < max_on_disk_limit s) \<and>
    states_get A h s' = (Some st, s')) (states_insert A h st s)"
proof -
  let ?s = "if \<not> is_memory_only s \<and> in_memory_limit s \<le> length (present s)
      then s\<lparr>in_memory_limit := max (in_memory_limit s - 1) (min_in_memory_limit s)\<rparr> else s"
  have pos: "0 < in_memory_limit ?s" "min_in_memory_limit ?s \<le> in_memory_limit ?s" "in_memory_limit ?s \<le> in_memory_limit s"
      "min_in_memory_limit ?s = min_in_memory_limit s" "max_on_disk_limit ?s = max_on_disk_limit s"
    using assms by (auto simp: limits_ok_def)
  from evict_memory_spec [OF pos(1), of "present ?s" A] obtain s1 where s1: "evict_memory A (present ?s) ?s = Val s1"
      "length (present s1) < in_memory_limit ?s" "in_memory_limit s1 = in_memory_limit ?s"
      "min_in_memory_limit s1 = min_in_memory_limit ?s" "max_on_disk_limit s1 = max_on_disk_limit ?s"
    by (auto simp: ok_iff)
  have "states_insert A h st s =
      Val ((evict_disk A (oldest_on_disk s1) s1)\<lparr>bs_states := fmupd h st (bs_states s1), present := present s1 @ [h]\<rparr>)"
    by (simp only: states_insert_def Let_def enforce_limits_def s1(1) bind_comp.simps evict_disk_spec)
  then show ?thesis
    using s1(2-5) pos assms evict_disk_spec(5) [of s1 A "oldest_on_disk s1"]
    by (auto simp: ok_iff limits_ok_def evict_disk_spec(1-4,6) states_get_def)
qed

text \<open>With a limit of zero the first insertion never returns.\<close>

lemma evict_memory_diverges: "in_memory_limit s = 0 \<Longrightarrow> evict_memory A hs s = Timeout"
  by (induction A hs s rule: evict_memory.induct) (auto split: option.split)

lemma states_insert_diverges:
  "in_memory_limit s = 0 \<Longrightarrow> min_in_memory_limit s = 0 \<Longrightarrow> states_insert A h st s = Timeout"
  by (simp add: states_insert_def Let_def enforce_limits_def evict_memory_diverges)

text \<open>Snapshot and revert of the in-memory database.\<close>

lemma mem_snapshot_revert:
  assumes "snapshots_ok (md_snapshots m)" "ss_id (md_snapshots m) \<noteq> - 1" "mem_snapshot m = (k, m1)"
    and later: "fmlookup (ss_snapshots (md_snapshots m2)) k = fmlookup (ss_snapshots (md_snapshots m1)) k"
  shows "\<exists>m3. mem_revert k m2 = Val (True, m3) \<and> md_inner m3 = md_inner m \<and>
    fmlookup (ss_snapshots (md_snapshots m3)) k = None"
proof -
  obtain s where s: "ss_insert (md_inner m) (md_snapshots m) = (k, s)" "md_snapshots m1 = s"
    using assms(3) by (auto simp: mem_snapshot_def split: prod.splits)
  note ins = snapshots_ok_insert [OF assms(1,2) s(1)]
  have k: "checked_add k 1 \<noteq> None"
    using ins(3) unat_less_256 [of "ss_id s"] by (simp add: checked_add_def)
  then obtain r s' where r: "ss_remove k (md_snapshots m2) = Val (r, s')"
    by (auto simp: ss_remove_def unwrap_def)
  show ?thesis
    using ss_remove_lookup [OF r] r later ins(4) [of k] s(2) by (auto simp: mem_revert_def)
qed

end
