(* ===== verification/Node_Chain.thy ===== *)
theory Node_Chain
  imports Node_State
begin

text \<open>
  The chain of the node: blocks and headers (\<open>anvil/core/src/eth/block.rs\<close>), their storage
  (\<open>anvil/src/eth/backend/mem/storage.rs\<close>), and the backend that mines blocks and takes and reverts snapshots
  (\<open>anvil/src/eth/backend/mem/mod.rs\<close>), for a node that is not forked off another one. The hash of a header and
  the roots of tries are parameters; listeners for new blocks and log output are left out.
\<close>

section \<open>Blocks\<close>

record 'b Header =
  hd_parent_hash :: B256
  hd_ommers_hash :: B256
  hd_beneficiary :: B160
  hd_state_root :: B256
  hd_transactions_root :: B256
  hd_receipts_root :: B256
  hd_logs_bloom :: 'b
  hd_difficulty :: U256
  hd_number :: U256
  hd_gas_limit :: U256
  hd_gas_used :: U256
  hd_timestamp :: u64
  hd_extra_data :: bytes
  hd_mix_hash :: B256
  hd_nonce :: u64
  hd_base_fee_per_gas :: "U256 option"

definition Header_new :: "'b PartialHeader \<Rightarrow> B256 \<Rightarrow> B256 \<Rightarrow> 'b Header" where
  "Header_new p ommers_hash transactions_root =
     \<lparr> hd_parent_hash = ph_parent_hash p, hd_ommers_hash = ommers_hash, hd_beneficiary = ph_beneficiary p,
       hd_state_root = ph_state_root p, hd_transactions_root = transactions_root, hd_receipts_root = ph_receipts_root p,
       hd_logs_bloom = ph_logs_bloom p, hd_difficulty = ph_difficulty p, hd_number = ph_number p,
       hd_gas_limit = ph_gas_limit p, hd_gas_used = ph_gas_used p, hd_timestamp = ph_timestamp p,
       hd_extra_data = ph_extra_data p, hd_mix_hash = ph_mix_hash p, hd_nonce = ph_nonce p,
       hd_base_fee_per_gas = ph_base_fee p \<rparr>"

definition PartialHeader_default :: "'b \<Rightarrow> 'b PartialHeader" where
  "PartialHeader_default bloom =
     \<lparr> ph_parent_hash = 0, ph_beneficiary = 0, ph_state_root = 0, ph_receipts_root = 0, ph_logs_bloom = bloom, ph_difficulty = 0,
       ph_number = 0, ph_gas_limit = 0, ph_gas_used = 0, ph_timestamp = 0, ph_extra_data = [], ph_mix_hash = 0, ph_nonce = 0,
       ph_base_fee = None \<rparr>"

record 'b Block =
  bl_header :: "'b Header"
  bl_transactions :: "MaybeImpersonatedTransaction list"
  bl_ommers :: "'b Header list"

record 'b ChainLibs =
  cl_bloom :: "'b BlockLibs"
  cl_header_hash :: "'b Header \<Rightarrow> B256"
  cl_ommers_hash :: "'b Header list \<Rightarrow> B256"
  cl_transactions_root :: "MaybeImpersonatedTransaction list \<Rightarrow> B256"
  cl_receipts_root :: "'b TypedReceipt list \<Rightarrow> B256"
  cl_tx_hash :: "MaybeImpersonatedTransaction \<Rightarrow> TxHash"

definition Block_new :: "'b ChainLibs \<Rightarrow> 'b PartialHeader \<Rightarrow> MaybeImpersonatedTransaction list \<Rightarrow> 'b Header list \<Rightarrow> 'b Block" where
  "Block_new L p ts ommers =
     \<lparr> bl_header = Header_new p (cl_ommers_hash L ommers) (cl_transactions_root L ts), bl_transactions = ts, bl_ommers = ommers \<rparr>"

section \<open>Storage\<close>

record ('i, 'b) MinedTransaction =
  mt_info :: "('i, 'b) TransactionInfo"
  mt_receipt :: "'b TypedReceipt"
  mt_block_hash :: B256
  mt_block_number :: u64

record ('i, 'b) BlockchainStorage =
  st_blocks :: "(B256, 'b Block) fmap"
  st_hashes :: "(u64, B256) fmap"
  st_best_hash :: B256
  st_best_number :: u64
  st_genesis_hash :: B256
  st_transactions :: "(TxHash, ('i, 'b) MinedTransaction) fmap"
  st_total_difficulty :: U256

definition BlockchainStorage_new :: "'b ChainLibs \<Rightarrow> Env \<Rightarrow> U256 option \<Rightarrow> u64 \<Rightarrow> ('i, 'b) BlockchainStorage" where
  "BlockchainStorage_new L env fee ts =
     (let partial = (PartialHeader_default (bl_bloom_default (cl_bloom L)))
            \<lparr>ph_timestamp := ts, ph_base_fee := fee, ph_gas_limit := blk_gas_limit (block env),
             ph_beneficiary := coinbase (block env), ph_difficulty := difficulty (block env)\<rparr>;
          b = Block_new L partial [] [];
          h = cl_header_hash L (bl_header b)
      in \<lparr> st_blocks = fmupd h b fmempty, st_hashes = fmupd 0 h fmempty, st_best_hash = h, st_best_number = 0,
           st_genesis_hash = h, st_transactions = fmempty, st_total_difficulty = 0 \<rparr>)"

definition BlockchainStorage_forked :: "u64 \<Rightarrow> B256 \<Rightarrow> U256 \<Rightarrow> ('i, 'b) BlockchainStorage" where
  "BlockchainStorage_forked number h tot =
     \<lparr> st_blocks = fmempty, st_hashes = fmupd number h fmempty, st_best_hash = h, st_best_number = number,
       st_genesis_hash = 0, st_transactions = fmempty, st_total_difficulty = tot \<rparr>"

datatype BlockNumber = Latest | Finalized | Safe | Earliest | PendingBlock | Number u64

fun storage_hash :: "BlockNumber \<Rightarrow> ('i, 'b) BlockchainStorage \<Rightarrow> B256 option" where
  "storage_hash Latest s = Some (st_best_hash s)"
| "storage_hash Earliest s = Some (st_genesis_hash s)"
| "storage_hash PendingBlock s = None"
| "storage_hash (Number k) s = fmlookup (st_hashes s) k"
| "storage_hash Safe s =
     (if st_best_number s > 32 then fmlookup (st_hashes s) (st_best_number s - 32) else Some (st_genesis_hash s))"
| "storage_hash Finalized s =
     (if st_best_number s > 64 then fmlookup (st_hashes s) (st_best_number s - 64) else Some (st_genesis_hash s))"

definition forget_transactions :: "'b ChainLibs \<Rightarrow> 'b Block \<Rightarrow> ('i, 'b) BlockchainStorage \<Rightarrow> ('i, 'b) BlockchainStorage" where
  "forget_transactions L b s =
     s\<lparr>st_transactions := fold (\<lambda>t. fmdrop (cl_tx_hash L t)) (bl_transactions b) (st_transactions s)\<rparr>"

definition insert_mined ::
  "B256 \<Rightarrow> u64 \<Rightarrow> ('i, 'b) TransactionInfo \<times> 'b TypedReceipt \<Rightarrow> ('i, 'b) BlockchainStorage \<Rightarrow> ('i, 'b) BlockchainStorage" where
  "insert_mined h number x s =
     s\<lparr>st_transactions := fmupd (ti_transaction_hash (fst x))
         \<lparr> mt_info = fst x, mt_receipt = snd x, mt_block_hash = h, mt_block_number = number \<rparr> (st_transactions s)\<rparr>"

text \<open>Transactions of the block that leaves the window of \<open>transaction_block_keeper\<close> blocks are forgotten.\<close>

definition keep_window :: "'b ChainLibs \<Rightarrow> nat option \<Rightarrow> u64 \<Rightarrow> ('i, 'b) BlockchainStorage \<Rightarrow> ('i, 'b) BlockchainStorage" where
  "keep_window L keeper number s =
     (case keeper of
        None \<Rightarrow> s
      | Some k \<Rightarrow>
          if fcard (fmdom (st_blocks s)) > k
          then case Option.bind (fmlookup (st_hashes s) (saturating_sub number (of_nat k))) (fmlookup (st_blocks s)) of
                 None \<Rightarrow> s
               | Some b \<Rightarrow> forget_transactions L b s
          else s)"

definition store_block ::
  "'b ChainLibs \<Rightarrow> SpecId \<Rightarrow> nat option \<Rightarrow> u64 \<Rightarrow> 'b Block \<Rightarrow> ('i, 'b) ExecutedTransactions \<Rightarrow>
     ('i, 'b) BlockchainStorage \<Rightarrow> ('i, 'b) BlockchainStorage" where
  "store_block L spec keeper number b e s =
     (let h = cl_header_hash L (bl_header b);
          s = s\<lparr>st_best_number := number, st_best_hash := h,
                st_total_difficulty := (if enabled spec MERGE then st_total_difficulty s
                  else saturating_add (st_total_difficulty s) (hd_difficulty (bl_header b))),
                st_blocks := fmupd h b (st_blocks s), st_hashes := fmupd number h (st_hashes s)\<rparr>
      in keep_window L keeper number (fold (insert_mined h number) (zip (et_infos e) (et_receipts e)) s))"

definition revert_block :: "'b ChainLibs \<Rightarrow> u64 \<Rightarrow> ('i, 'b) BlockchainStorage \<Rightarrow> ('i, 'b) BlockchainStorage" where
  "revert_block L number s =
     (case fmlookup (st_hashes s) number of
        None \<Rightarrow> s
      | Some h \<Rightarrow>
          let s = s\<lparr>st_hashes := fmdrop number (st_hashes s)\<rparr>
          in case fmlookup (st_blocks s) h of
               None \<Rightarrow> s
             | Some b \<Rightarrow> forget_transactions L b (s\<lparr>st_blocks := fmdrop h (st_blocks s)\<rparr>))"

section \<open>The backend\<close>

text \<open>The operations of the node's database that the backend uses besides those of the interpreter.\<close>

record ('db, 'st) NodeDb =
  nd_snapshot :: "'db \<Rightarrow> U256 \<times> 'db"
  nd_revert :: "U256 \<Rightarrow> 'db \<Rightarrow> (bool \<times> 'db) comp"
  nd_insert_block_hash :: "U256 \<Rightarrow> B256 \<Rightarrow> 'db \<Rightarrow> 'db"
  nd_current_state :: "'db \<Rightarrow> 'st"
  nd_state_root :: "'db \<Rightarrow> B256 option"

definition MemDb_node :: "(InMemoryDB \<Rightarrow> B256) \<Rightarrow> (MemDb, MemDb) NodeDb" where
  "MemDb_node root =
     \<lparr> nd_snapshot = mem_snapshot, nd_revert = mem_revert, nd_insert_block_hash = mem_insert_block_hash,
       nd_current_state = mem_current_state, nd_state_root = (\<lambda>m. Some (root (md_inner m))) \<rparr>"

record ('db, 'i, 'b, 'st, 'd) Backend =
  be_db :: 'db
  be_storage :: "('i, 'b) BlockchainStorage"
  be_states :: "('st, 'd) InMemoryBlockStates"
  be_env :: Env
  be_time :: TimeManager
  be_cheats :: CheatsState
  be_fees :: FeeManager
  be_active_snapshots :: "(U256, u64 \<times> B256) fmap"
  be_prune_config :: PruneStateHistoryConfig
  be_keeper :: "nat option"
  be_admin :: Admin

definition best_number :: "('db, 'i, 'b, 'st, 'd) Backend \<Rightarrow> u64" where
  "best_number be = (let k = blk_number (block (be_env be)) in if unat k < 2 ^ 64 then ucast k else - 1)"

definition set_block_number :: "U256 \<Rightarrow> ('db, 'i, 'b, 'st, 'd) Backend \<Rightarrow> ('db, 'i, 'b, 'st, 'd) Backend" where
  "set_block_number k be = be\<lparr>be_env := (be_env be)\<lparr>block := (block (be_env be))\<lparr>blk_number := k\<rparr>\<rparr>\<rparr>"

definition set_coinbase :: "B160 \<Rightarrow> ('db, 'i, 'b, 'st, 'd) Backend \<Rightarrow> ('db, 'i, 'b, 'st, 'd) Backend" where
  "set_coinbase a be = be\<lparr>be_env := (be_env be)\<lparr>block := (block (be_env be))\<lparr>coinbase := a\<rparr>\<rparr>\<rparr>"

definition set_gas_limit :: "U256 \<Rightarrow> ('db, 'i, 'b, 'st, 'd) Backend \<Rightarrow> ('db, 'i, 'b, 'st, 'd) Backend" where
  "set_gas_limit v be = be\<lparr>be_env := (be_env be)\<lparr>block := (block (be_env be))\<lparr>blk_gas_limit := v\<rparr>\<rparr>\<rparr>"

definition impersonate :: "B160 \<Rightarrow> ('db, 'i, 'b, 'st, 'd) Backend \<Rightarrow> bool \<times> ('db, 'i, 'b, 'st, 'd) Backend" where
  "impersonate a be =
     (if cheats_is_impersonated a (be_cheats be) then (True, be)
      else
        let (r, c) = cheats_impersonate a (be_cheats be)
        in (r, be\<lparr>be_env := (be_env be)\<lparr>cfg := (cfg (be_env be))\<lparr>disable_eip3607 := True\<rparr>\<rparr>, be_cheats := c\<rparr>))"

definition next_env :: "u64 \<Rightarrow> ('db, 'i, 'b, 'st, 'd) Backend \<Rightarrow> Env" where
  "next_env now be =
     (let env = be_env be; b = block env
      in env\<lparr>block := b\<lparr>blk_number := saturating_add (blk_number b) 1, basefee := base_fee (be_fees be),
                       timestamp := ucast (current_call_timestamp now (be_time be))\<rparr>\<rparr>)"

definition create_snapshot ::
  "('db, 'st) NodeDb \<Rightarrow> ('db, 'i, 'b, 'st, 'd) Backend \<Rightarrow> U256 \<times> ('db, 'i, 'b, 'st, 'd) Backend" where
  "create_snapshot N be =
     (let (k, db) = nd_snapshot N (be_db be)
      in (k, be\<lparr>be_db := db, be_active_snapshots := fmupd k (best_number be, st_best_hash (be_storage be)) (be_active_snapshots be)\<rparr>))"

datatype ChainError = BlockNotFound

text \<open>The heights \<open>((num + 1)..=current).rev()\<close>; the sum wraps.\<close>

definition heights :: "u64 \<Rightarrow> u64 \<Rightarrow> u64 list" where
  "heights num current = map of_nat (rev [unat (num + 1)..<Suc (unat current)])"

definition revert_chain :: "'b ChainLibs \<Rightarrow> u64 \<Rightarrow> B256 \<Rightarrow> u64 \<Rightarrow> ('i, 'b) BlockchainStorage \<Rightarrow> ('i, 'b) BlockchainStorage" where
  "revert_chain L num h current s =
     (fold (revert_block L) (heights num current) s)\<lparr>st_best_number := num, st_best_hash := h\<rparr>"

definition revert_snapshot ::
  "'b ChainLibs \<Rightarrow> ('db, 'st) NodeDb \<Rightarrow> u64 \<Rightarrow> U256 \<Rightarrow> ('db, 'i, 'b, 'st, 'd) Backend \<Rightarrow>
     ((ChainError + bool) \<times> ('db, 'i, 'b, 'st, 'd) Backend) comp" where
  "revert_snapshot L N now k be =
     (let found = fmlookup (be_active_snapshots be) k;
          be = be\<lparr>be_active_snapshots := fmdrop k (be_active_snapshots be)\<rparr>;
          finish = (\<lambda>be. bind_comp (nd_revert N k (be_db be)) (\<lambda>(r, db). Val (Inr r, be\<lparr>be_db := db\<rparr>)))
      in case found of
           None \<Rightarrow> finish be
         | Some (num, h) \<Rightarrow>
             let be = be\<lparr>be_storage := revert_chain L num h (best_number be) (be_storage be)\<rparr>
             in case fmlookup (st_blocks (be_storage be)) h of
                  None \<Rightarrow> Val (Inl BlockNotFound, be)
                | Some b \<Rightarrow>
                    let reset_time = saturating_sub (hd_timestamp (bl_header b)) 1
                    in finish (set_block_number (ucast num) (be\<lparr>be_time := TimeManager_reset now reset_time (be_time be)\<rparr>)))"

section \<open>Mining\<close>

definition mining_env :: "u64 \<Rightarrow> ('db, 'i, 'b, 'st, 'd) Backend \<Rightarrow> Env \<times> TimeManager" where
  "mining_env now be =
     (let env = be_env be;
          env = (if basefee (block env) = 0 then env\<lparr>cfg := (cfg env)\<lparr>disable_base_fee := True\<rparr>\<rparr> else env);
          b = block env;
          (ts, time) = next_timestamp now (be_time be)
      in (env\<lparr>block := b\<lparr>blk_number := saturating_add (blk_number b) 1, basefee := base_fee (be_fees be), timestamp := ucast ts\<rparr>\<rparr>, time))"

definition store_state ::
  "('st, 's, 'd) StateStore \<Rightarrow> ('db, 'st) NodeDb \<Rightarrow> ('db, 'i, 'b, 'st, 'd) Backend \<Rightarrow> ('st, 'd) InMemoryBlockStates comp" where
  "store_state A N be =
     (if is_state_history_supported (be_prune_config be)
      then states_insert A (st_best_hash (be_storage be)) (nd_current_state N (be_db be)) (be_states be)
      else Val (be_states be))"

definition mining_executor ::
  "PoolTransaction list \<Rightarrow> Env \<Rightarrow> ('db, 'i, 'b, 'st, 'd) Backend \<Rightarrow> 'db TransactionExecutor" where
  "mining_executor ts env be =
     \<lparr> te_db = be_db be, te_pending = ts, te_block_env = block env, te_cfg_env = cfg env,
       te_parent_hash = st_best_hash (be_storage be), te_gas_used = 0, te_admin = be_admin be \<rparr>"

text \<open>
  \<open>do_mine_block\<close>, over the step \<open>nxt\<close> of the executor's iterator, which takes the chain id of the validator.
\<close>

definition do_mine_block ::
  "'b ChainLibs \<Rightarrow> ('db, 'st) NodeDb \<Rightarrow> ('st, 's, 'd) StateStore \<Rightarrow>
     (U256 \<Rightarrow> PoolTransaction \<Rightarrow> 'db TransactionExecutor \<Rightarrow> (('i, 'e) TransactionExecutionOutcome \<times> 'db TransactionExecutor) comp) \<Rightarrow>
     u64 \<Rightarrow> PoolTransaction list \<Rightarrow> ('db, 'i, 'b, 'st, 'd) Backend \<Rightarrow> (MinedBlockOutcome \<times> ('db, 'i, 'b, 'st, 'd) Backend) comp" where
  "do_mine_block L N A nxt now ts be =
     (let (env, time) = mining_env now be
      in bind_comp (store_state A N be) (\<lambda>states.
         bind_comp (execute_block (cl_bloom L) (cl_receipts_root L) (nd_state_root N) (nxt (cfg_chain_id (cfg (be_env be))))
             (mining_executor ts env be)) (\<lambda>(e, T).
         let b = Block_new L (et_header e) (et_transactions e) [];
             h = cl_header_hash L (bl_header b);
             db = nd_insert_block_hash N (hd_number (bl_header b)) h (te_db T)
         in bind_comp (as_u64 (blk_number (block env))) (\<lambda>number.
         bind_comp (get_next_block_base_fee_per_gas (hd_gas_used (bl_header b)) (hd_gas_limit (bl_header b))
             (unwrap_or 0 (hd_base_fee_per_gas (bl_header b))) (be_fees be)) (\<lambda>fee.
           Val (\<lparr> block_number = number, included = et_included e, invalid = et_invalid e \<rparr>,
             be\<lparr>be_db := db, be_admin := te_admin T, be_states := states, be_time := time,
                be_storage := store_block L (cfg_spec_id (cfg (be_env be))) (be_keeper be) number b e (be_storage be),
                be_env := env\<lparr>block := (block env)\<lparr>difficulty := 0\<rparr>\<rparr>,
                be_fees := set_base_fee (ucast fee) (be_fees be)\<rparr>))))))"

end
