(* ===== verification/Chain_Invariant.thy ===== *)
theory Chain_Invariant
  imports Node_Chain Executor_Facts
begin

text \<open>
  The chain of the node as an invariant: what a linked chain is, that mining extends it and reverting a
  snapshot cuts it, and the step relation of the operations that keep it linked. The operations that leave
  it in a bad state, reverting to a snapshot that an earlier revert made stale, are lemmas of their own.
\<close>

section \<open>Linked chains\<close>

definition block_hash_of :: "'b ChainLibs \<Rightarrow> 'b Block \<Rightarrow> B256" where
  "block_hash_of L b = cl_header_hash L (bl_header b)"

definition block_at :: "('i, 'b) BlockchainStorage \<Rightarrow> u64 \<Rightarrow> 'b Block option" where
  "block_at s k = Option.bind (fmlookup (st_hashes s) k) (fmlookup (st_blocks s))"

definition follows :: "'b ChainLibs \<Rightarrow> 'b Block \<Rightarrow> 'b Block \<Rightarrow> bool" where
  "follows L p b \<longleftrightarrow>
     hd_parent_hash (bl_header b) = block_hash_of L p \<and> hd_timestamp (bl_header p) \<le> hd_timestamp (bl_header b)"

text \<open>
  A linked chain: every height up to the best one has a block, stored under the hash of its header, that has
  this height as its number and follows the block below; there is nothing else in the storage.
\<close>

definition linked :: "'b ChainLibs \<Rightarrow> ('i, 'b) BlockchainStorage \<Rightarrow> bool" where
  "linked L s \<longleftrightarrow>
     (\<forall>k \<le> st_best_number s. \<exists>b. block_at s k = Some b \<and> fmlookup (st_hashes s) k = Some (block_hash_of L b) \<and>
        hd_number (bl_header b) = ucast k \<and> (k \<noteq> 0 \<longrightarrow> (\<exists>p. block_at s (k - 1) = Some p \<and> follows L p b))) \<and>
     (\<forall>k > st_best_number s. fmlookup (st_hashes s) k = None) \<and>
     (\<forall>h b. fmlookup (st_blocks s) h = Some b \<longrightarrow> (\<exists>k. fmlookup (st_hashes s) k = Some h)) \<and>
     fmlookup (st_hashes s) (st_best_number s) = Some (st_best_hash s)"

lemma linkedD:
  assumes "linked L s" "k \<le> st_best_number s"
  obtains b where "block_at s k = Some b" "fmlookup (st_hashes s) k = Some (block_hash_of L b)"
    "fmlookup (st_blocks s) (block_hash_of L b) = Some b" "hd_number (bl_header b) = ucast k"
    "k \<noteq> 0 \<Longrightarrow> \<exists>p. block_at s (k - 1) = Some p \<and> follows L p b"
  using assms by (force simp: linked_def block_at_def)

lemma linked_block:
  assumes "linked L s" "k \<le> st_best_number s"
  obtains b where "block_at s k = Some b" "fmlookup (st_hashes s) k = Some (block_hash_of L b)"
    "fmlookup (st_blocks s) (block_hash_of L b) = Some b" "hd_number (bl_header b) = ucast k"
  using linkedD [OF assms] by blast

lemma linked_above: "linked L s \<Longrightarrow> st_best_number s < k \<Longrightarrow> fmlookup (st_hashes s) k = None"
  by (simp add: linked_def)

lemma linked_hash_le: "linked L s \<Longrightarrow> fmlookup (st_hashes s) k = Some h \<Longrightarrow> k \<le> st_best_number s"
  by (metis linked_above not_le option.discI)

lemma unat_ucast_256: "unat (ucast (x :: u64) :: U256) = unat x"
  using unat_less_64 [of x] by (simp add: unsigned_ucast_eq take_bit_nat_eq_self)

lemma ucast_u64_inj: "(ucast (a :: u64) :: U256) = ucast b \<Longrightarrow> a = b"
  using unat_ucast_256 [of a] unat_ucast_256 [of b] by (simp add: word_unat_eq_iff)

lemma as_u64_ucast: "as_u64 (ucast (x :: u64) :: U256) = Val x"
proof -
  have v: "as_u64 (ucast x :: U256) = Val (ucast (ucast x :: U256))"
    using unat_less_64 [of x] by (simp add: as_u64_Val_iff unat_ucast_256)
  show ?thesis
    using v ucast_u64_inj [OF ucast_as_u64 [OF v]] by simp
qed

lemma unat_pred: "(k :: u64) \<noteq> 0 \<Longrightarrow> unat (k - 1) = unat k - 1 \<and> 0 < unat k"
  by (auto simp: unat_sub_if' unat_gt_0 Suc_le_eq)

text \<open>No two heights share a block.\<close>

lemma linked_inj:
  assumes "linked L s" "fmlookup (st_hashes s) j = Some h" "fmlookup (st_hashes s) k = Some h"
  shows "j = k"
proof -
  obtain a where a: "block_at s j = Some a" "fmlookup (st_hashes s) j = Some (block_hash_of L a)" "fmlookup (st_blocks s) (block_hash_of L a) = Some a"
      "hd_number (bl_header a) = ucast j"
    by (rule linked_block [OF assms(1) linked_hash_le [OF assms(1,2)]])
  obtain b where b: "block_at s k = Some b" "fmlookup (st_hashes s) k = Some (block_hash_of L b)" "fmlookup (st_blocks s) (block_hash_of L b) = Some b"
      "hd_number (bl_header b) = ucast k"
    by (rule linked_block [OF assms(1) linked_hash_le [OF assms(1,3)]])
  have "a = b"
    using a b assms(2,3) by simp
  then show ?thesis
    using a(4) b(4) ucast_u64_inj by simp
qed

section \<open>Growing\<close>

lemma linked_push:
  assumes s: "linked L s" and n: "unat number = unat (st_best_number s) + 1"
    and fresh: "fmlookup (st_blocks s) (block_hash_of L b) = None" and num: "hd_number (bl_header b) = ucast number"
    and p: "block_at s (st_best_number s) = Some p" "follows L p b"
    and s': "st_blocks s' = fmupd (block_hash_of L b) b (st_blocks s)" "st_hashes s' = fmupd number (block_hash_of L b) (st_hashes s)"
      "st_best_number s' = number" "st_best_hash s' = block_hash_of L b"
  shows "linked L s'" "k \<le> st_best_number s \<Longrightarrow> fmlookup (st_hashes s') k = fmlookup (st_hashes s) k \<and> block_at s' k = block_at s k"
proof -
  have less: "k \<le> st_best_number s \<longleftrightarrow> k < number" for k
    using n by (auto simp: word_le_nat_alt word_less_nat_alt)
  have old: "fmlookup (st_hashes s') k = fmlookup (st_hashes s) k" "block_at s' k = block_at s k" if le: "k \<le> st_best_number s" for k
  proof -
    obtain c where c: "block_at s k = Some c" "fmlookup (st_hashes s) k = Some (block_hash_of L c)"
        "fmlookup (st_blocks s) (block_hash_of L c) = Some c" "hd_number (bl_header c) = ucast k"
      by (rule linked_block [OF s le])
    have "block_hash_of L c \<noteq> block_hash_of L b"
      using fresh c(3) by auto
    moreover have "k \<noteq> number"
      using less [of k] le by auto
    ultimately show "fmlookup (st_hashes s') k = fmlookup (st_hashes s) k" "block_at s' k = block_at s k"
      using c by (simp_all add: block_at_def s')
  qed
  then show "k \<le> st_best_number s \<Longrightarrow> fmlookup (st_hashes s') k = fmlookup (st_hashes s) k \<and> block_at s' k = block_at s k"
    by simp
  have pred: "number - 1 = st_best_number s"
    using n by (simp add: word_unat_eq_iff unat_sub_if')
  have new: "block_at s' number = Some b"
    by (simp add: block_at_def s')
  show "linked L s'"
    unfolding linked_def
  proof (intro conjI allI impI)
    fix k assume "k \<le> st_best_number s'"
    then consider "k = number" | "k \<le> st_best_number s"
      using less [of k] s'(3) by (auto simp: order_le_less)
    then show "\<exists>b. block_at s' k = Some b \<and> fmlookup (st_hashes s') k = Some (block_hash_of L b) \<and>
        hd_number (bl_header b) = ucast k \<and> (k \<noteq> 0 \<longrightarrow> (\<exists>p. block_at s' (k - 1) = Some p \<and> follows L p b))"
    proof cases
      case 1
      then show ?thesis
        using new num p old(2) [of "st_best_number s"] pred by (auto simp: s')
    next
      case 2
      have "k - 1 \<le> st_best_number s" if "k \<noteq> 0"
        using 2 unat_pred [OF that] by (simp add: word_le_nat_alt)
      then have below: "k \<noteq> 0 \<Longrightarrow> block_at s' (k - 1) = block_at s (k - 1)"
        using old(2) by blast
      show ?thesis
        by (rule linkedD [OF s 2]) (use old [OF 2] below in auto)
    qed
  next
    fix k assume "st_best_number s' < k"
    then show "fmlookup (st_hashes s') k = None"
      using linked_above [OF s, of k] less [of k] by (auto simp: s')
  next
    fix h c assume c: "fmlookup (st_blocks s') h = Some c"
    show "\<exists>k. fmlookup (st_hashes s') k = Some h"
    proof (cases "h = block_hash_of L b")
      case False
      then obtain k where "fmlookup (st_hashes s) k = Some h"
        using c s s' by (auto simp: linked_def)
      then show ?thesis
        using old(1) linked_hash_le [OF s] by metis
    qed (auto simp: s')
  qed (simp add: s')
qed

section \<open>Shrinking\<close>

lemma revert_block_core:
  assumes "fmlookup (st_hashes s) n = Some h" "fmlookup (st_blocks s) h = Some b"
  shows "st_hashes (revert_block L n s) = fmdrop n (st_hashes s)" "st_blocks (revert_block L n s) = fmdrop h (st_blocks s)"
    "st_best_number (revert_block L n s) = st_best_number s"
  using assms by (simp_all add: revert_block_def forget_transactions_def)

text \<open>Removing the best block leaves a linked chain with the block below as its best.\<close>

lemma linked_pop:
  assumes s: "linked L s" and n: "st_best_number s \<noteq> 0"
  defines "q \<equiv> (revert_block L (st_best_number s) s)\<lparr>st_best_number := st_best_number s - 1,
      st_best_hash := the (fmlookup (st_hashes s) (st_best_number s - 1))\<rparr>"
  shows "linked L q" "k < st_best_number s \<Longrightarrow> fmlookup (st_hashes q) k = fmlookup (st_hashes s) k \<and> block_at q k = block_at s k"
proof -
  let ?n = "st_best_number s" and ?h = "st_best_hash s"
  obtain b where b: "block_at s ?n = Some b" "fmlookup (st_hashes s) ?n = Some (block_hash_of L b)"
      "fmlookup (st_blocks s) (block_hash_of L b) = Some b" "hd_number (bl_header b) = ucast ?n"
    by (rule linked_block [OF s order_refl])
  have q: "st_hashes q = fmdrop ?n (st_hashes s)" "st_blocks q = fmdrop (block_hash_of L b) (st_blocks s)"
      "st_best_number q = ?n - 1" "st_best_hash q = the (fmlookup (st_hashes s) (?n - 1))"
    unfolding q_def using revert_block_core [OF b(2,3)] by simp_all
  have less: "k \<le> ?n - 1 \<longleftrightarrow> k < ?n" for k
    using unat_pred [OF n] by (auto simp: word_le_nat_alt word_less_nat_alt)
  have old: "fmlookup (st_hashes q) k = fmlookup (st_hashes s) k" "block_at q k = block_at s k" if k: "k < ?n" for k
  proof -
    obtain c where c: "block_at s k = Some c" "fmlookup (st_hashes s) k = Some (block_hash_of L c)"
        "fmlookup (st_blocks s) (block_hash_of L c) = Some c" "hd_number (bl_header c) = ucast k"
      by (rule linked_block [OF s order_less_imp_le [OF k]])
    have "block_hash_of L c \<noteq> block_hash_of L b"
      using linked_inj [OF s c(2), of ?n] b(2) k by auto
    then show "fmlookup (st_hashes q) k = fmlookup (st_hashes s) k" "block_at q k = block_at s k"
      using c k by (simp_all add: block_at_def q)
  qed
  then show "k < ?n \<Longrightarrow> fmlookup (st_hashes q) k = fmlookup (st_hashes s) k \<and> block_at q k = block_at s k"
    by simp
  show "linked L q"
    unfolding linked_def
  proof (intro conjI allI impI)
    fix k assume "k \<le> st_best_number q"
    then have k: "k < ?n"
      using less [of k] q(3) by simp
    have below: "block_at q (k - 1) = block_at s (k - 1)" if "k \<noteq> 0"
      by (rule old(2)) (use k unat_pred [OF that] in \<open>simp add: word_less_nat_alt\<close>)
    show "\<exists>b. block_at q k = Some b \<and> fmlookup (st_hashes q) k = Some (block_hash_of L b) \<and>
        hd_number (bl_header b) = ucast k \<and> (k \<noteq> 0 \<longrightarrow> (\<exists>p. block_at q (k - 1) = Some p \<and> follows L p b))"
      by (rule linkedD [OF s order_less_imp_le [OF k]]) (use old [OF k] below in auto)
  next
    fix k assume "st_best_number q < k"
    then have "k = ?n \<or> ?n < k"
      using less [of k] q(3) by (auto simp: not_le)
    then show "fmlookup (st_hashes q) k = None"
      using linked_above [OF s, of k] by (auto simp: q)
  next
    fix h c assume "fmlookup (st_blocks q) h = Some c"
    then have h: "h \<noteq> block_hash_of L b" "fmlookup (st_blocks s) h = Some c"
      by (auto simp: q split: if_splits)
    then obtain k where k: "fmlookup (st_hashes s) k = Some h"
      using s by (auto simp: linked_def)
    then have "k \<noteq> ?n"
      using h(1) b(2) by auto
    then show "\<exists>k. fmlookup (st_hashes q) k = Some h"
      using k by (auto simp: q)
  next
    have "?n - 1 < ?n"
      using less [of "?n - 1"] by simp
    then obtain c where "fmlookup (st_hashes s) (?n - 1) = Some (block_hash_of L c)"
      using linked_block [OF s order_less_imp_le] by metis
    then show "fmlookup (st_hashes q) (st_best_number q) = Some (st_best_hash q)"
      using old(1) [OF \<open>?n - 1 < ?n\<close>] by (simp add: q(3,4))
  qed
qed

lemma revert_block_best:
  "revert_block L n (s\<lparr>st_best_number := a, st_best_hash := h\<rparr>) = (revert_block L n s)\<lparr>st_best_number := a, st_best_hash := h\<rparr>"
  by (simp add: revert_block_def forget_transactions_def Let_def split: option.split)

lemma fold_revert_best:
  "fold (revert_block L) ns (s\<lparr>st_best_number := a, st_best_hash := h\<rparr>) =
     (fold (revert_block L) ns s)\<lparr>st_best_number := a, st_best_hash := h\<rparr>"
  by (induction ns arbitrary: s) (simp_all add: revert_block_best)

lemma heights_self: "n \<noteq> - 1 \<Longrightarrow> heights n n = []"
  by (simp add: heights_def unat_plus_one)

lemma heights_Cons:
  assumes "num < n"
  shows "heights num n = n # heights num (n - 1)"
proof -
  have "n \<noteq> 0" "num \<noteq> - 1"
    using assms by auto
  then have "unat (num + 1) \<le> unat n" "Suc (unat (n - 1)) = unat n"
    using assms unat_pred [of n] unat_plus_one [of num] by (auto simp: word_less_nat_alt)
  then show ?thesis
    by (simp add: heights_def)
qed

text \<open>
  Reverting to a height of a linked chain gives the linked chain of the blocks up to it.
\<close>

lemma revert_chain_linked:
  assumes "linked L s" "num \<le> st_best_number s" "num \<noteq> - 1" "fmlookup (st_hashes s) num = Some h"
  shows "linked L (revert_chain L num h (st_best_number s) s) \<and>
    (\<forall>k \<le> num. fmlookup (st_hashes (revert_chain L num h (st_best_number s) s)) k = fmlookup (st_hashes s) k \<and>
       block_at (revert_chain L num h (st_best_number s) s) k = block_at s k)"
  using assms
proof (induction "unat (st_best_number s) - unat num" arbitrary: s)
  case 0
  then have "unat (st_best_number s) = unat num"
    by (simp add: word_le_nat_alt)
  then have n: "st_best_number s = num"
    by (rule word_unat_eq_iff [THEN iffD2])
  then have "st_best_hash s = h"
    using 0 by (simp add: linked_def)
  with n have "revert_chain L num h (st_best_number s) s = s"
    using 0 by (simp add: revert_chain_def heights_self)
  then show ?case
    using 0 by simp
next
  case (Suc m)
  let ?n = "st_best_number s"
  define q where "q = (revert_block L ?n s)\<lparr>st_best_number := ?n - 1, st_best_hash := the (fmlookup (st_hashes s) (?n - 1))\<rparr>"
  have less: "num < ?n"
    using Suc(2) by (simp add: word_less_nat_alt)
  then have n0: "?n \<noteq> 0"
    by auto
  note pop = linked_pop [OF Suc(3) n0, folded q_def]
  have q: "st_best_number q = ?n - 1"
    by (simp add: q_def)
  have num: "num \<le> st_best_number q" "m = unat (st_best_number q) - unat num"
    using less unat_pred [OF n0] Suc(2) by (simp_all add: q word_le_nat_alt word_less_nat_alt)
  have "revert_chain L num h ?n s = revert_chain L num h (st_best_number q) q"
    by (simp add: revert_chain_def heights_Cons [OF less] q_def fold_revert_best)
  moreover have "linked L (revert_chain L num h (st_best_number q) q) \<and>
      (\<forall>k \<le> num. fmlookup (st_hashes (revert_chain L num h (st_best_number q) q)) k = fmlookup (st_hashes q) k \<and>
         block_at (revert_chain L num h (st_best_number q) q) k = block_at q k)"
    by (rule Suc(1) [OF num(2) pop(1) num(1) Suc(5)]) (use pop(2) [OF less] Suc(6) in simp)
  ultimately show ?case
    using pop(2) less by (auto dest: order_le_less_trans)
qed

text \<open>Two linked chains with the same best block and the same blocks below are the same.\<close>

lemma linked_unique:
  assumes "linked L s" "linked L s'" "st_best_number s' = st_best_number s"
    "\<And>k. k \<le> st_best_number s \<Longrightarrow> fmlookup (st_hashes s') k = fmlookup (st_hashes s) k \<and> block_at s' k = block_at s k"
  shows "st_hashes s' = st_hashes s" "st_blocks s' = st_blocks s" "st_best_hash s' = st_best_hash s"
proof -
  show h: "st_hashes s' = st_hashes s"
  proof (rule fmap_ext)
    fix k show "fmlookup (st_hashes s') k = fmlookup (st_hashes s) k"
      using assms linked_above [OF assms(1), of k] linked_above [OF assms(2), of k] by (cases "k \<le> st_best_number s") auto
  qed
  show "st_blocks s' = st_blocks s"
  proof (rule fmap_ext)
    fix x
    have *: "fmlookup (st_blocks s') x = fmlookup (st_blocks s) x" if k: "fmlookup (st_hashes s) k = Some x" for k
      using assms(4) [OF linked_hash_le [OF assms(1) k]] k h by (simp add: block_at_def)
    show "fmlookup (st_blocks s') x = fmlookup (st_blocks s) x"
    proof (cases "\<exists>k. fmlookup (st_hashes s) k = Some x")
      case False
      then have "fmlookup (st_blocks s) x = None" "fmlookup (st_blocks s') x = None"
        using assms(1,2) h unfolding linked_def by (metis option.exhaust)+
      then show ?thesis
        by simp
    qed (use * in auto)
  qed
  show "st_best_hash s' = st_best_hash s"
    using assms(1,2,3) h by (simp add: linked_def)
qed

section \<open>The backend\<close>

text \<open>
  The chain of a backend is linked, the number the next block is computed from is the best one, and the time
  manager is at most one second behind the best block.
\<close>

definition chain_ok :: "'b ChainLibs \<Rightarrow> ('db, 'i, 'b, 'st, 'd) Backend \<Rightarrow> bool" where
  "chain_ok L be \<longleftrightarrow>
     linked L (be_storage be) \<and> blk_number (block (be_env be)) = ucast (st_best_number (be_storage be)) \<and>
     (\<exists>b. block_at (be_storage be) (st_best_number (be_storage be)) = Some b \<and>
        unat (hd_timestamp (bl_header b)) \<le> unat (last_timestamp (be_time be)) + 1)"

lemma best_number_chain:
  "blk_number (block (be_env be)) = ucast k \<Longrightarrow> best_number be = k"
  using unat_less_64 [of k] by (simp add: best_number_def Let_def unat_ucast_256 word_unat_eq_iff unsigned_ucast_eq take_bit_nat_eq_self)

lemma keep_window_core [simp]:
  "st_blocks (keep_window L keeper number s) = st_blocks s" "st_hashes (keep_window L keeper number s) = st_hashes s"
  "st_best_number (keep_window L keeper number s) = st_best_number s" "st_best_hash (keep_window L keeper number s) = st_best_hash s"
  by (simp_all add: keep_window_def forget_transactions_def split: option.split)

lemma insert_mined_core [simp]:
  "st_blocks (fold (insert_mined h number) xs s) = st_blocks s" "st_hashes (fold (insert_mined h number) xs s) = st_hashes s"
  "st_best_number (fold (insert_mined h number) xs s) = st_best_number s"
  "st_best_hash (fold (insert_mined h number) xs s) = st_best_hash s"
  by (induction xs arbitrary: s) (simp_all add: insert_mined_def)

lemma store_block_core:
  "st_blocks (store_block L spec keeper number b e s) = fmupd (block_hash_of L b) b (st_blocks s)"
  "st_hashes (store_block L spec keeper number b e s) = fmupd number (block_hash_of L b) (st_hashes s)"
  "st_best_number (store_block L spec keeper number b e s) = number"
  "st_best_hash (store_block L spec keeper number b e s) = block_hash_of L b"
  by (simp_all add: store_block_def Let_def block_hash_of_def)

lemma execute_block_header:
  assumes "execute_block B rr sr nxt T = Val (e, T')"
  shows "ph_parent_hash (et_header e) = te_parent_hash T" "ph_number (et_header e) = blk_number (te_block_env T)"
    "as_u64 (timestamp (te_block_env T)) = Val (ph_timestamp (et_header e))"
  using assms by (auto simp: execute_block_def bind_comp_Val_iff)

lemma do_mine_block_fields:
  assumes "do_mine_block L N A nxt now ts be = Val (out, be')"
  obtains b e where "hd_parent_hash (bl_header b) = st_best_hash (be_storage be)"
    "as_u64 (saturating_add (blk_number (block (be_env be))) 1) = Val (block_number out)"
    "hd_number (bl_header b) = saturating_add (blk_number (block (be_env be))) 1"
    "hd_timestamp (bl_header b) = fst (next_timestamp now (be_time be))"
    "be_storage be' = store_block L (cfg_spec_id (cfg (be_env be))) (be_keeper be) (block_number out) b e (be_storage be)"
    "be_time be' = snd (next_timestamp now (be_time be))"
    "blk_number (block (be_env be')) = saturating_add (blk_number (block (be_env be))) 1"
    "be_active_snapshots be' = be_active_snapshots be" "included out = et_included e" "invalid out = et_invalid e"
proof -
  let ?env = "fst (mining_env now be)"
  obtain e T where e: "execute_block (cl_bloom L) (cl_receipts_root L) (nd_state_root N)
        (nxt (cfg_chain_id (cfg (be_env be)))) (mining_executor ts ?env be) = Val (e, T)"
      and number: "as_u64 (blk_number (block ?env)) = Val (block_number out)"
      and out: "included out = et_included e" "invalid out = et_invalid e"
      and be': "be_storage be' = store_block L (cfg_spec_id (cfg (be_env be))) (be_keeper be) (block_number out)
            (Block_new L (et_header e) (et_transactions e) []) e (be_storage be)"
        "be_time be' = snd (mining_env now be)" "block (be_env be') = (block ?env)\<lparr>difficulty := 0\<rparr>"
        "be_active_snapshots be' = be_active_snapshots be"
    using assms by (auto simp: do_mine_block_def case_prod_unfold Let_def bind_comp_Val_iff)
  have env: "blk_number (block ?env) = saturating_add (blk_number (block (be_env be))) 1"
      "timestamp (block ?env) = ucast (fst (next_timestamp now (be_time be)))" "snd (mining_env now be) = snd (next_timestamp now (be_time be))"
    by (simp_all add: mining_env_def Let_def case_prod_unfold)
  note header = execute_block_header [OF e, unfolded mining_executor_def, simplified]
  have "ph_timestamp (et_header e) = fst (next_timestamp now (be_time be))"
    using header(3) by (simp add: env as_u64_ucast)
  then show thesis
    using that [of "Block_new L (et_header e) (et_transactions e) []" e] header number
    by (simp add: be' out env Block_new_def Header_new_def)
qed

text \<open>
  Mining a block extends the chain. The hash of the new block must not be that of a block of the chain, and
  the clock must not be at its end.
\<close>

lemma mined_number:
  assumes "as_u64 (saturating_add (ucast (k :: u64)) 1 :: U256) = Val n"
  shows "unat n = unat k + 1" "saturating_add (ucast k) 1 = (ucast n :: U256)"
proof -
  have "unat (saturating_add (ucast k) 1 :: U256) = unat k + 1"
    using unat_less_64 [of k] by (simp add: saturating_add_def unat_ucast_256 unat_word_ariths)
  then show n: "unat n = unat k + 1"
    using unat_as_u64 [OF assms] by simp
  show "saturating_add (ucast k) 1 = (ucast n :: U256)"
    using ucast_as_u64 [OF assms] by simp
qed

lemma mine_extends:
  assumes ok: "chain_ok L be" and mine: "do_mine_block L N A nxt now ts be = Val (out, be')"
    and fresh: "st_best_hash (be_storage be') |\<notin>| fmdom (st_blocks (be_storage be))" and clock: "last_timestamp (be_time be) \<noteq> - 1"
  shows "chain_ok L be'" "unat (st_best_number (be_storage be')) = unat (st_best_number (be_storage be)) + 1"
    "st_best_number (be_storage be') = block_number out" "be_active_snapshots be' = be_active_snapshots be"
    "k \<le> st_best_number (be_storage be) \<Longrightarrow> fmlookup (st_hashes (be_storage be')) k = fmlookup (st_hashes (be_storage be)) k \<and>
       block_at (be_storage be') k = block_at (be_storage be) k"
proof -
  let ?s = "be_storage be"
  obtain b e where b: "hd_parent_hash (bl_header b) = st_best_hash ?s"
      "as_u64 (saturating_add (blk_number (block (be_env be))) 1) = Val (block_number out)"
      "hd_number (bl_header b) = saturating_add (blk_number (block (be_env be))) 1"
      "hd_timestamp (bl_header b) = fst (next_timestamp now (be_time be))"
      "be_storage be' = store_block L (cfg_spec_id (cfg (be_env be))) (be_keeper be) (block_number out) b e ?s"
      "be_time be' = snd (next_timestamp now (be_time be))"
      "blk_number (block (be_env be')) = saturating_add (blk_number (block (be_env be))) 1"
      "be_active_snapshots be' = be_active_snapshots be" "included out = et_included e" "invalid out = et_invalid e"
    by (rule do_mine_block_fields [OF mine])
  obtain p where p: "block_at ?s (st_best_number ?s) = Some p"
      "unat (hd_timestamp (bl_header p)) \<le> unat (last_timestamp (be_time be)) + 1" and s: "linked L ?s"
      and env: "blk_number (block (be_env be)) = ucast (st_best_number ?s)"
    using ok by (auto simp: chain_ok_def)
  note number = mined_number [OF b(2) [unfolded env]]
  note core = store_block_core [of L "cfg_spec_id (cfg (be_env be))" "be_keeper be" "block_number out" b e ?s, folded b(5)]
  note later = next_timestamp_later [OF clock, of now]
  have "hd_timestamp (bl_header p) \<le> hd_timestamp (bl_header b)"
    using p(2) later(1) b(4) by (simp add: word_le_nat_alt word_less_nat_alt)
  moreover have "fmlookup (st_hashes ?s) (st_best_number ?s) = Some (block_hash_of L p)"
    by (rule linked_block [OF s order_refl]) (use p(1) in simp)
  then have "st_best_hash ?s = block_hash_of L p"
    using s by (simp add: linked_def)
  ultimately have "follows L p b"
    using b(1) by (simp add: follows_def)
  moreover have "fmlookup (st_blocks ?s) (block_hash_of L b) = None"
    using fresh core(4) by (simp add: fmdom_notD)
  ultimately have push: "linked L (be_storage be')"
      "k \<le> st_best_number ?s \<Longrightarrow> fmlookup (st_hashes (be_storage be')) k = fmlookup (st_hashes ?s) k \<and>
        block_at (be_storage be') k = block_at ?s k" for k
    using linked_push [OF s number(1) _ _ p(1) _ core] number(2) env b(3) by simp_all
  then show "k \<le> st_best_number ?s \<Longrightarrow> fmlookup (st_hashes (be_storage be')) k = fmlookup (st_hashes ?s) k \<and>
       block_at (be_storage be') k = block_at ?s k"
    by simp
  have "block_at (be_storage be') (block_number out) = Some b"
    by (simp add: block_at_def core)
  then show "chain_ok L be'"
    using push(1) b(4,6,7) env number(2) later(2) by (simp add: chain_ok_def core(3))
  show "unat (st_best_number (be_storage be')) = unat (st_best_number ?s) + 1"
      "st_best_number (be_storage be') = block_number out" "be_active_snapshots be' = be_active_snapshots be"
    using number(1) core(3) b(8) by simp_all
qed

lemma revert_snapshot_linked:
  assumes ok: "chain_ok L be" and found: "fmlookup (be_active_snapshots be) k = Some (num, h)"
    and there: "fmlookup (st_hashes (be_storage be)) num = Some h" "num \<noteq> - 1" and db: "nd_revert N k (be_db be) = Val (r, db)"
  obtains be' where "revert_snapshot L N now k be = Val (Inr r, be')" "chain_ok L be'"
    "be_storage be' = revert_chain L num h (st_best_number (be_storage be)) (be_storage be)" "st_best_number (be_storage be') = num"
    "be_db be' = db" "be_active_snapshots be' = fmdrop k (be_active_snapshots be)"
    "\<forall>j \<le> num. fmlookup (st_hashes (be_storage be')) j = fmlookup (st_hashes (be_storage be)) j \<and>
       block_at (be_storage be') j = block_at (be_storage be) j"
proof -
  let ?s = "be_storage be"
  let ?q = "revert_chain L num h (st_best_number ?s) ?s"
  have s: "linked L ?s" and env: "blk_number (block (be_env be)) = ucast (st_best_number ?s)"
    using ok by (auto simp: chain_ok_def)
  note rev = revert_chain_linked [OF s linked_hash_le [OF s there(1)] there(2,1)]
  have q: "linked L ?q" "st_best_number ?q = num" "st_best_hash ?q = h"
    using rev by (simp_all add: revert_chain_def)
  obtain b where b: "block_at ?q num = Some b" "fmlookup (st_hashes ?q) num = Some (block_hash_of L b)"
      "fmlookup (st_blocks ?q) (block_hash_of L b) = Some b" "hd_number (bl_header b) = ucast num"
    by (rule linked_block [OF q(1), of num]) (simp add: q(2))
  have h: "block_hash_of L b = h"
    using q b(2) by (simp add: linked_def)
  define be' where "be' = (set_block_number (ucast num) (be\<lparr>be_active_snapshots := fmdrop k (be_active_snapshots be), be_storage := ?q,
      be_time := TimeManager_reset now (saturating_sub (hd_timestamp (bl_header b)) 1) (be_time be)\<rparr>))\<lparr>be_db := db\<rparr>"
  have best: "best_number (be\<lparr>be_active_snapshots := m\<rparr>) = st_best_number ?s" for m
    by (rule best_number_chain) (simp add: env)
  have "revert_snapshot L N now k be = Val (Inr r, be')"
    using found db b(3) h by (simp add: revert_snapshot_def Let_def best be'_def set_block_number_def)
  moreover have "unat (hd_timestamp (bl_header b)) \<le> unat (saturating_sub (hd_timestamp (bl_header b)) 1) + 1"
    by (cases "hd_timestamp (bl_header b) = 0") (auto simp: saturating_sub_def unat_pred word_le_nat_alt dest: unat_pred)
  then have "chain_ok L be'"
    using q b(1) by (simp add: chain_ok_def be'_def set_block_number_def TimeManager_reset_def)
  moreover have "be_storage be' = ?q" "st_best_number (be_storage be') = num" "be_db be' = db"
      "be_active_snapshots be' = fmdrop k (be_active_snapshots be)"
    by (simp_all add: be'_def set_block_number_def q(2))
  ultimately show thesis
    using that rev by simp
qed

section \<open>Steps of the node\<close>

inductive mine_step for L N A nxt where
  mined: "do_mine_block L N A nxt now ts be = Val (out, be') \<Longrightarrow>
    st_best_hash (be_storage be') |\<notin>| fmdom (st_blocks (be_storage be)) \<Longrightarrow> last_timestamp (be_time be) \<noteq> - 1 \<Longrightarrow>
    mine_step L N A nxt be be'"

text \<open>
  The steps that keep the chain linked: mining, taking a snapshot, reverting to a snapshot whose block is
  still part of the chain, and changes of the time manager that do not reset it.
\<close>

inductive chain_step for L N A nxt where
  mines: "mine_step L N A nxt be be' \<Longrightarrow> chain_step L N A nxt be be'"
| takes: "create_snapshot N be = (k, be') \<Longrightarrow> chain_step L N A nxt be be'"
| reverts: "revert_snapshot L N now k be = Val (Inr r, be') \<Longrightarrow>
    fmlookup (be_active_snapshots be) k = Some (num, h) \<Longrightarrow> fmlookup (st_hashes (be_storage be)) num = Some h \<Longrightarrow> num \<noteq> - 1 \<Longrightarrow>
    chain_step L N A nxt be be'"
| waits: "increase_time seconds (be_time be) = (off, m) \<Longrightarrow> chain_step L N A nxt be (be\<lparr>be_time := m\<rparr>)"
| sets: "set_next_block_timestamp ts (be_time be) = Some m \<Longrightarrow> chain_step L N A nxt be (be\<lparr>be_time := m\<rparr>)"

inductive_cases mine_stepE: "mine_step L N A nxt be be'"
inductive_cases chain_stepE: "chain_step L N A nxt be be'"

lemma revert_needs_db:
  assumes "revert_snapshot L N now k be = Val (Inr r, be')"
  obtains db where "nd_revert N k (be_db be) = Val (r, db)"
  using assms
  by (auto simp: revert_snapshot_def Let_def bind_comp_Val_iff set_block_number_def split: option.splits)

lemma chain_step_ok: "chain_step L N A nxt be be' \<Longrightarrow> chain_ok L be \<Longrightarrow> chain_ok L be'"
proof (induction rule: chain_step.induct)
  case (mines be be')
  then show ?case
    by (auto elim!: mine_stepE intro: mine_extends(1))
next
  case (takes be k be')
  then show ?case
    by (auto simp: create_snapshot_def chain_ok_def split: prod.splits)
next
  case (reverts now k be r be' num h)
  obtain db where db: "nd_revert N k (be_db be) = Val (r, db)"
    by (rule revert_needs_db [OF reverts(1)])
  show ?case
    by (rule revert_snapshot_linked [OF reverts(5,2-4) db, of now]) (use reverts(1) in simp)
next
  case (waits seconds be off m)
  then show ?case
    by (auto simp: increase_time_def add_offset_def chain_ok_def Let_def)
next
  case (sets ts be m)
  then show ?case
    by (auto simp: set_next_block_timestamp_def chain_ok_def split: if_splits)
qed

lemma chain_steps_ok: "(chain_step L N A nxt)\<^sup>*\<^sup>* be be' \<Longrightarrow> chain_ok L be \<Longrightarrow> chain_ok L be'"
  by (induction rule: rtranclp_induct) (auto intro: chain_step_ok)

lemma genesis_ok:
  assumes "be_storage be = BlockchainStorage_new L env fee ts" "blk_number (block (be_env be)) = 0" "last_timestamp (be_time be) = ts"
  shows "chain_ok L be"
  using assms
  by (auto simp: chain_ok_def linked_def BlockchainStorage_new_def Let_def block_at_def block_hash_of_def Block_new_def Header_new_def
      PartialHeader_default_def split: if_splits)

section \<open>Snapshots of the chain\<close>

lemma mine_steps_keep:
  assumes "(mine_step L N A nxt)\<^sup>*\<^sup>* be be'" "chain_ok L be"
  shows "chain_ok L be' \<and> st_best_number (be_storage be) \<le> st_best_number (be_storage be') \<and>
    be_active_snapshots be' = be_active_snapshots be \<and>
    (\<forall>k \<le> st_best_number (be_storage be). fmlookup (st_hashes (be_storage be')) k = fmlookup (st_hashes (be_storage be)) k \<and>
       block_at (be_storage be') k = block_at (be_storage be) k)"
  using assms
proof (induction rule: rtranclp_induct)
  case (step be1 be2)
  from step(2) obtain now ts out where m: "do_mine_block L N A nxt now ts be1 = Val (out, be2)"
      "st_best_hash (be_storage be2) |\<notin>| fmdom (st_blocks (be_storage be1))" "last_timestamp (be_time be1) \<noteq> - 1"
    by (rule mine_stepE)
  have ih: "chain_ok L be1" "st_best_number (be_storage be) \<le> st_best_number (be_storage be1)"
      "be_active_snapshots be1 = be_active_snapshots be"
      "\<forall>k \<le> st_best_number (be_storage be). fmlookup (st_hashes (be_storage be1)) k = fmlookup (st_hashes (be_storage be)) k \<and>
         block_at (be_storage be1) k = block_at (be_storage be) k"
    using step by simp_all
  note ext = mine_extends [OF ih(1) m]
  have "st_best_number (be_storage be) \<le> st_best_number (be_storage be2)"
    using ext(2) ih(2) by (simp add: word_le_nat_alt)
  moreover have "fmlookup (st_hashes (be_storage be2)) k = fmlookup (st_hashes (be_storage be)) k \<and>
      block_at (be_storage be2) k = block_at (be_storage be) k" if k: "k \<le> st_best_number (be_storage be)" for k
    using ext(5) [of k] ih(4) k order_trans [OF k ih(2)] by simp
  ultimately show ?case
    using ext(1,4) ih(3) by simp
qed simp

text \<open>
  A snapshot, any number of mined blocks, and the revert: the chain is the one of the snapshot.
\<close>

lemma snapshot_mine_revert:
  assumes ok: "chain_ok L be" and snap: "create_snapshot N be = (k, be1)" and run: "(mine_step L N A nxt)\<^sup>*\<^sup>* be1 be2"
    and num: "st_best_number (be_storage be) \<noteq> - 1" and db: "nd_revert N k (be_db be2) = Val (r, db)"
  obtains be3 where "revert_snapshot L N now k be2 = Val (Inr r, be3)" "chain_ok L be3" "be_db be3 = db"
    "st_hashes (be_storage be3) = st_hashes (be_storage be)" "st_blocks (be_storage be3) = st_blocks (be_storage be)"
    "st_best_hash (be_storage be3) = st_best_hash (be_storage be)" "st_best_number (be_storage be3) = st_best_number (be_storage be)"
    "be_active_snapshots be3 = fmdrop k (be_active_snapshots be2)"
proof -
  let ?s = "be_storage be"
  have s: "linked L ?s" and env: "blk_number (block (be_env be)) = ucast (st_best_number ?s)"
    using ok by (auto simp: chain_ok_def)
  have be1: "be_storage be1 = ?s" "chain_ok L be1"
      "fmlookup (be_active_snapshots be1) k = Some (st_best_number ?s, st_best_hash ?s)"
    using snap ok best_number_chain [OF env] by (auto simp: create_snapshot_def chain_ok_def split: prod.splits)
  have be2: "chain_ok L be2" "st_best_number ?s \<le> st_best_number (be_storage be2)"
      "fmlookup (be_active_snapshots be2) k = Some (st_best_number ?s, st_best_hash ?s)"
      "\<forall>j \<le> st_best_number ?s. fmlookup (st_hashes (be_storage be2)) j = fmlookup (st_hashes ?s) j \<and>
         block_at (be_storage be2) j = block_at ?s j"
    using mine_steps_keep [OF run be1(2)] be1 by simp_all
  have "fmlookup (st_hashes (be_storage be2)) (st_best_number ?s) = Some (st_best_hash ?s)"
    using be2(4) s by (simp add: linked_def)
  then obtain be3 where be3: "revert_snapshot L N now k be2 = Val (Inr r, be3)" "chain_ok L be3"
      "be_storage be3 = revert_chain L (st_best_number ?s) (st_best_hash ?s) (st_best_number (be_storage be2)) (be_storage be2)"
      "st_best_number (be_storage be3) = st_best_number ?s" "be_db be3 = db"
      "be_active_snapshots be3 = fmdrop k (be_active_snapshots be2)"
      "\<forall>j \<le> st_best_number ?s. fmlookup (st_hashes (be_storage be3)) j = fmlookup (st_hashes (be_storage be2)) j \<and>
         block_at (be_storage be3) j = block_at (be_storage be2) j"
    by (rule revert_snapshot_linked [OF be2(1,3) _ num db])
  have "linked L (be_storage be3)"
    using be3(2) by (simp add: chain_ok_def)
  from linked_unique [OF s this be3(4)] show thesis
    using that [OF be3(1,2,5) _ _ _ be3(4,6)] be3(7) be2(4) by simp
qed

text \<open>
  Reverting does not forget the later snapshots of the backend. Reverting to one of them afterwards fails,
  and leaves a best hash behind that has no block.
\<close>

lemma revert_block_blocks: "fmlookup (st_blocks s) h = None \<Longrightarrow> fmlookup (st_blocks (revert_block L n s)) h = None"
  by (simp add: revert_block_def forget_transactions_def Let_def split: option.split)

lemma fold_revert_blocks: "fmlookup (st_blocks s) h = None \<Longrightarrow> fmlookup (st_blocks (fold (revert_block L) ns s)) h = None"
  by (induction ns arbitrary: s) (simp_all add: revert_block_blocks)

lemma stale_snapshot_dangles:
  assumes "fmlookup (be_active_snapshots be) k = Some (num, h)" "fmlookup (st_blocks (be_storage be)) h = None"
  shows "\<exists>be'. revert_snapshot L N now k be = Val (Inl BlockNotFound, be') \<and> st_best_hash (be_storage be') = h \<and>
    fmlookup (st_blocks (be_storage be')) h = None \<and> \<not> linked L (be_storage be')"
proof -
  let ?q = "revert_chain L num h (best_number (be\<lparr>be_active_snapshots := fmdrop k (be_active_snapshots be)\<rparr>)) (be_storage be)"
  have none: "fmlookup (st_blocks ?q) h = None" "st_best_hash ?q = h"
    using fold_revert_blocks [OF assms(2)] by (simp_all add: revert_chain_def)
  have "\<not> linked L ?q"
  proof
    assume l: "linked L ?q"
    obtain b where b: "block_at ?q (st_best_number ?q) = Some b" "fmlookup (st_hashes ?q) (st_best_number ?q) = Some (block_hash_of L b)"
        "fmlookup (st_blocks ?q) (block_hash_of L b) = Some b" "hd_number (bl_header b) = ucast (st_best_number ?q)"
      by (rule linked_block [OF l order_refl])
    then show False
      using none l by (simp add: linked_def)
  qed
  then show ?thesis
    using assms(1) none by (simp add: revert_snapshot_def Let_def)
qed

text \<open>After a revert, a block mined in the same second has the timestamp of its parent.\<close>

lemma timestamp_repeats:
  assumes "ts \<noteq> 0" "tm_interval m = None"
  shows "fst (next_timestamp now (TimeManager_reset now (saturating_sub ts 1) m)) = ts"
proof -
  have sub: "saturating_sub ts 1 = ts - 1"
    using assms(1) unat_pred [of ts] by (simp add: saturating_sub_def word_le_nat_alt)
  have "uint (ts - 1) < 2 ^ 64"
    using unat_less_64 [of "ts - 1"] by (simp only: uint_nat of_nat_less_numeral_power_cancel_iff)
  then have "i128_saturating_add (uint now) (uint (ts - 1) - uint now) = uint (ts - 1)"
    using i128_saturating_add_fits [of "uint now" "uint (ts - 1) - uint now"] by simp
  then show ?thesis
    using assms(2) by (simp add: next_timestamp_def compute_next_timestamp_def TimeManager_reset_def sub Let_def)
qed

end
