(* ===== verification/Chain_Properties.thy ===== *)
theory Chain_Properties
  imports Chain_Invariant Evm_Properties
begin

text \<open>
  Properties of the node's chain: it stays linked, a snapshot restores it, and the states of past blocks stay
  within their limits.
\<close>

section \<open>A sample node\<close>

text \<open>The inputs of the witnesses: a node at its first block, with a hash that is the number of the block.\<close>

definition sample_chain_libs :: "nat ChainLibs" where
  "sample_chain_libs =
     \<lparr> cl_bloom = \<lparr> bl_bloom_default = 0, bl_accrue = (\<lambda>bs k. k + length bs) \<rparr>, cl_header_hash = (\<lambda>h. hd_number h + 1),
       cl_ommers_hash = (\<lambda>_. 0), cl_transactions_root = (\<lambda>_. 0), cl_receipts_root = (\<lambda>_. 0), cl_tx_hash = (\<lambda>_. 0) \<rparr>"

definition sample_store :: "(MemDb, MemDb, unit) StateStore" where
  "sample_store =
     \<lparr> so_clear_into_snapshot = (\<lambda>m. (m, MemDb_default)), so_init_from_snapshot = (\<lambda>m _. m), dk_write = (\<lambda>_ _ d. d),
       dk_read = (\<lambda>_ d. (None, d)), dk_remove = (\<lambda>_ d. d) \<rparr>"

definition sample_block_env :: BlockEnv where
  "sample_block_env = BlockEnv_default\<lparr>blk_gas_limit := 30000000\<rparr>"

definition sample_node :: "(MemDb, unit, nat, MemDb, unit) Backend" where
  "sample_node =
     \<lparr> be_db = MemDb_default, be_storage = BlockchainStorage_new sample_chain_libs (Env_default\<lparr>block := sample_block_env\<rparr>) (Some 7) 100,
       be_states = BlockStates_new () 10, be_env = Env_default\<lparr>block := sample_block_env\<rparr>, be_time = TimeManager_new 100 100,
       be_cheats = CheatsState_default, be_fees = FeeManager_new LATEST 7 7, be_active_snapshots = fmempty,
       be_prune_config = \<lparr> ph_enabled = False, max_memory_history = None \<rparr>, be_keeper = None, be_admin = Admin_init \<rparr>"

abbreviation sample_run where
  "sample_run \<equiv> exec_next NoOpInspector () unit_deps (MemDb_ops no_libs :: (MemDb, unit) db_ops) (mem_commit (\<lambda>_. [])) 0 0"

lemma sample_next_base_fee: "calculate_next_block_base_fee 0 30000000 7 = Val 7"
  by (simp add: calculate_next_block_base_fee_def fee_delta_def EIP1559_ELASTICITY_MULTIPLIER_def BASE_FEE_CHANGE_DENOMINATOR_def
      saturating_sub_def Let_def)

lemma sample_mine:
  assumes "be = sample_node \<or> be = sample_node\<lparr>be_db := db, be_active_snapshots := m\<rparr>"
  obtains out be' where "do_mine_block sample_chain_libs (MemDb_node (\<lambda>_. 5)) sample_store nxt 101 [] be = Val (out, be')"
    "st_best_hash (be_storage be') = 2"
  using assms
  by (auto simp: do_mine_block_def mining_env_def next_timestamp_def compute_next_timestamp_def sample_node_def sample_block_env_def
      BlockEnv_default_def Env_default_def TimeManager_new_def TimeManager_reset_def FeeManager_new_def base_fee_def is_eip1559_def
      enabled_def store_state_def is_state_history_supported_def states_insert_def enforce_limits_def BlockStates_new_def
      execute_block_def mining_executor_def as_u64_def Building_new_def get_next_block_base_fee_per_gas_def Block_new_def
      Header_new_def unwrap_or_def sample_next_base_fee CfgEnv_default_def saturating_add_def i128_saturating_add_fits Let_def
      store_block_core block_hash_of_def sample_chain_libs_def)

lemma sample_node_ok: "chain_ok sample_chain_libs sample_node"
  by (rule genesis_ok [of _ _ "Env_default\<lparr>block := sample_block_env\<rparr>" "Some 7" 100])
    (simp_all add: sample_node_def sample_block_env_def BlockEnv_default_def TimeManager_new_def TimeManager_reset_def)

lemma sample_mine_step:
  assumes "be = sample_node \<or> be = sample_node\<lparr>be_db := db, be_active_snapshots := m\<rparr>"
  obtains be' where "mine_step sample_chain_libs (MemDb_node (\<lambda>_. 5)) sample_store nxt be be'"
proof -
  obtain out be' where m: "do_mine_block sample_chain_libs (MemDb_node (\<lambda>_. 5)) sample_store nxt 101 [] be = Val (out, be')"
      "st_best_hash (be_storage be') = 2"
    by (rule sample_mine [OF assms])
  have "mine_step sample_chain_libs (MemDb_node (\<lambda>_. 5)) sample_store nxt be be'"
    using assms
    by (intro mined [OF m(1)])
      (auto simp: m(2) sample_node_def BlockchainStorage_new_def Let_def Block_new_def Header_new_def PartialHeader_default_def
        sample_chain_libs_def TimeManager_new_def TimeManager_reset_def)
  then show thesis
    by (rule that)
qed

section \<open>The chain\<close>



text \<open>
  C13. A snapshot followed by any number of mined blocks and the revert to it gives back the chain of the
  snapshot: the same blocks under the same hashes, the same best block and number, and the database is
  what the database's own revert returns.
\<close>

theorem snapshot_revert_restores:
  assumes "chain_ok L be" "create_snapshot N be = (k, be1)" "(mine_step L N A nxt)\<^sup>*\<^sup>* be1 be2"
    "st_best_number (be_storage be) \<noteq> - 1" "nd_revert N k (be_db be2) = Val (r, db)"
  shows "\<exists>be3. revert_snapshot L N now k be2 = Val (Inr r, be3) \<and> chain_ok L be3 \<and> be_db be3 = db \<and>
    st_hashes (be_storage be3) = st_hashes (be_storage be) \<and> st_blocks (be_storage be3) = st_blocks (be_storage be) \<and>
    st_best_hash (be_storage be3) = st_best_hash (be_storage be) \<and> best_number be3 = best_number be"
proof -
  obtain be3 where be3: "revert_snapshot L N now k be2 = Val (Inr r, be3)" "chain_ok L be3" "be_db be3 = db"
      "st_hashes (be_storage be3) = st_hashes (be_storage be)" "st_blocks (be_storage be3) = st_blocks (be_storage be)"
      "st_best_hash (be_storage be3) = st_best_hash (be_storage be)" "st_best_number (be_storage be3) = st_best_number (be_storage be)"
      "be_active_snapshots be3 = fmdrop k (be_active_snapshots be2)"
    by (rule snapshot_mine_revert [OF assms])
  have "best_number be3 = best_number be"
    using be3(2,7) assms(1) best_number_chain by (metis chain_ok_def)
  with be3 show ?thesis
    by blast
qed

theorem snapshot_revert_restores_witness:
  "\<exists>k be1 be2 r be3. create_snapshot (MemDb_node (\<lambda>_. 5)) sample_node = (k, be1) \<and>
     mine_step sample_chain_libs (MemDb_node (\<lambda>_. 5)) sample_store sample_run be1 be2 \<and>
     revert_snapshot sample_chain_libs (MemDb_node (\<lambda>_. 5)) 105 k be2 = Val (Inr r, be3) \<and>
     st_blocks (be_storage be3) = st_blocks (be_storage sample_node) \<and> best_number be3 = best_number sample_node"
proof -
  let ?N = "MemDb_node (\<lambda>_. 5)"
  obtain k be1 where snap: "create_snapshot ?N sample_node = (k, be1)"
    by fastforce
  then have be1: "\<exists>db m. be1 = sample_node\<lparr>be_db := db, be_active_snapshots := m\<rparr>" and k: "k = 0"
    by (auto simp: create_snapshot_def MemDb_node_def mem_snapshot_def ss_insert_def ss_next_id_def sample_node_def MemDb_default_def
        Snapshots_default_def split: prod.splits)
  then obtain be2 where step: "mine_step sample_chain_libs ?N sample_store sample_run be1 be2"
    using sample_mine_step by metis
  obtain r db where db: "nd_revert ?N k (be_db be2) = Val (r, db)"
    by (cases "fmlookup (ss_snapshots (md_snapshots (be_db be2))) 0")
      (auto simp: MemDb_node_def mem_revert_def ss_remove_def k checked_add_def unwrap_def)
  have num: "st_best_number (be_storage sample_node) \<noteq> - 1"
    by (simp add: sample_node_def BlockchainStorage_new_def Let_def)
  have run: "(mine_step sample_chain_libs ?N sample_store sample_run)\<^sup>*\<^sup>* be1 be2"
    by (rule r_into_rtranclp) (rule step)
  from snapshot_revert_restores [OF sample_node_ok snap run num db, of 105] show ?thesis
    using snap step by blast
qed

section \<open>Past states\<close>



end
