(* ===== verification/Spec2Isabelle.thy ===== *)
theory Spec2Isabelle
  imports Op_Info Inspect_Properties Node_Properties Chain_Properties
begin

text \<open>
  Verification of the Ethereum virtual machine of \<open>enterprise-blockchain/revm\<close>, a patched copy of REVM,
  and of the node that runs it, \<open>enterprise-blockchain/foundry/anvil\<close>. Paths below are relative to the
  \<open>crates\<close> directory of the former, paths that start with \<open>anvil\<close> to \<open>foundry\<close>.

  \<^bold>\<open>The program.\<close> A transaction enters through \<open>EVM::transact\<close> (\<open>revm/src/evm.rs\<close>). \<open>EVMImpl\<close>
  (\<open>revm/src/evm_impl.rs\<close>) validates it, charges its intrinsic gas, and runs the top-level call or
  creation. A frame is an \<open>Interpreter\<close> (\<open>interpreter/src\<close>) with its stack, memory, gas meter and code;
  it runs instruction by instruction and asks its \<open>Host\<close> for everything outside the frame. \<open>EVMImpl\<close> is
  that host: accounts and storage go through the journaled state (\<open>revm/src/journaled_state.rs\<close>), which
  caches the accounts of a \<open>Database\<close> and keeps a journal for reverting frames; calls go to a new
  interpreter on the same host or to a precompiled contract (\<open>precompile/src\<close>). After the run the fees
  are settled, and the touched accounts are returned for the database to commit. The patch adds an
  administration contract at address 1337, which has access to the call's context.

  The node turns a request into a typed transaction (\<open>anvil/core/src/eth/transaction\<close>), validates it, and adds
  it to the pool (\<open>anvil/src/eth/pool\<close>), where it waits for the transaction with the nonce before or is ready.
  The miner (\<open>anvil/src/eth/miner.rs\<close>) takes ready transactions, the executor
  (\<open>anvil/src/eth/backend/executor.rs\<close>) validates each again, runs it through \<open>EVM::inspect_commit\<close> and assembles
  the block with the timestamp of the time manager and the base fee of the fee manager; the pool then
  prunes the markers of the included transactions and promotes those that waited for them. The backend
  (\<open>anvil/src/eth/backend/mem/mod.rs\<close>) drives this, stores the blocks, and can revert to a snapshot.

  \<^bold>\<open>Theories.\<close>
  \<^item> \<open>Prelude\<close>: machine arithmetic with its overflow behaviour, the type \<open>comp\<close> of computations that
    return (\<open>Val\<close>), panic (\<open>Panic\<close>) or exhaust the model's fuel (\<open>Timeout\<close>), byte strings.
  \<^item> \<open>Specification\<close>, \<open>Instruction_Result\<close>: hard forks (\<open>primitives/src/specification.rs\<close>) and the results of
    instructions (\<open>interpreter/src/instruction_result.rs\<close>).
  \<^item> \<open>Gas_Model\<close>: the gas meter and all prices (\<open>gas.rs\<close>, \<open>gas/calc.rs\<close>).
  \<^item> \<open>Evm_Stack\<close>, \<open>Evm_Memory\<close>, \<open>I256\<close>: stack, memory and signed arithmetic.
  \<^item> \<open>Environment\<close>, \<open>Bytecode\<close>: block, transaction and call data (\<open>primitives/src/env.rs\<close>,
    \<open>inner_models.rs\<close>), code, its padding and its analysis for jump destinations.
  \<^item> \<open>Interp\<close>: the state of a frame as a record that the host's state extends (\<open>machine\<close>), the host
    interface as a record of operations, and the instruction macros as continuation-passing functions.
    The locales \<open>basic_host\<close> and \<open>full_host\<close> are the contract of a host.
  \<^item> \<open>Instr_Arith\<close>, \<open>Instr_Frame\<close>, \<open>Instr_Host\<close>: all instructions, in the order of the source files.
  \<^item> \<open>Interp_Run\<close>: dispatch, a step, and the loop. \<open>Dummy_Host\<close>: the test host as an instance.
  \<^item> \<open>Journal\<close>, \<open>Journal_Revert\<close>, \<open>Journal_Ops\<close>: the journaled state, what reverting restores, and what each
    operation does to the journal; the locale \<open>database\<close> is the contract of a database.
  \<^item> \<open>Cache_DB\<close>, \<open>State_Properties\<close>: the in-memory database, its commits, and the properties of both.
  \<^item> \<open>Precompiles\<close>, \<open>Modexp\<close>, \<open>Bn128\<close>, \<open>Precompile_Table\<close>, \<open>Precompile_Properties\<close>: the contracts, the
    administration contract with its mutable statics, and the table per hard fork.
  \<^item> \<open>Evm_Impl\<close>, \<open>Evm_Transact\<close>: the host over the journaled state, frames, transactions, entry points.
  \<^item> \<open>Frame_Relation\<close>, \<open>Evm_Host\<close>: what a frame may do to the journaled state, and that the host with its
    nested frames keeps the contract \<open>full_host\<close>, over every database.
  \<^item> \<open>Evm_Total\<close>, \<open>Evm_Properties\<close>: whole transactions.
  \<^item> \<open>Op_Info\<close>: the packed table of static instruction data (\<open>instructions/opcode.rs\<close>), its flags, and that
    its prices are the ones the instructions charge.
  \<^item> \<open>Host_Simulation\<close>: the interpreter is parametric in its host: related hosts give related runs.
  \<^item> \<open>Inspectors\<close>, \<open>Inspect_Simulation\<close>, \<open>Inspect_Properties\<close>: the hooks and inspectors (\<open>revm/src/inspector\<close>),
    the build with inspection, the locales \<open>passive_inspector\<close> and \<open>quiet_inspector\<close>, and that the
    inspected build matches the plain one.
  \<^item> \<open>Node_Transaction\<close>: requests, typed transactions and the transaction the interpreter receives.
  \<^item> \<open>Pool_Transactions\<close>, \<open>Tx_Pool\<close>, \<open>Pool_Invariant\<close>: the two queues, the operations of the pool, and the
    invariant every operation keeps without a panic.
  \<^item> \<open>Node_Fees\<close>: fees and block times. \<open>Node_Executor\<close>: validation, execution and assembly of a block, the
    mining modes. \<open>Executor_Facts\<close>: the locale \<open>outcome_iterator\<close> is what the assembly relies on.
  \<^item> \<open>Node_State\<close>: snapshots, the in-memory database of the node, the states of past blocks and their limits,
    impersonated accounts. \<open>Node_Chain\<close>: blocks, their storage, and the backend that mines blocks and takes and
    reverts snapshots (\<open>anvil/src/eth/backend/mem\<close>). \<open>Chain_Invariant\<close>: linked chains and the step relation
    \<open>chain_step\<close>.
  \<^item> \<open>Node_Properties\<close>, \<open>Chain_Properties\<close>: the properties of the node.

  \<^bold>\<open>What is shown.\<close> For every component, the exact effect of its operations over natural numbers or
  integers, with the error of every branch: gas, stack, memory, signed arithmetic, jump analysis,
  transfers, storage, reverting, commits, fees. Reverting a frame undoes it; the cases where the code
  leaves something behind are lemmas of their own. Every instruction keeps the frame's invariant
  under the contract of a host, a run of the interpreter returns within one step per unit of gas, and
  the host of \<open>EVMImpl\<close> keeps that contract; hence a transaction returns, whatever code it runs,
  over any database that delivers well-formed code, and it writes nothing to the database. A static
  call changes nothing that can be read. Inspecting a transaction with any inspector of the crate gives
  the result of the plain build, and the trace of a frame is the sequence of its instructions with
  their exact gas. The in-memory database is transparent as a cache, and its
  commit refines an update of a plain world of accounts. For the node: the pool keeps its queues
  consistent and never panics, whatever it is asked; a transaction that the node accepts passes the
  checks of the interpreter; blocks are consistent; base fees and timestamps are exact; the chain stays
  linked, and reverting to a snapshot restores it. Reverting to a snapshot that an earlier revert made stale
  leaves a best hash without a block, which is a lemma of its own (\<open>stale_snapshot_dangles\<close>).

  \<^bold>\<open>Bounds and fuel.\<close> \<open>run\<close> takes fuel for the steps of a frame: gas limit plus one, which suffices as
  every instruction that does not end the frame costs gas. \<open>evm_host\<close> takes fuel for the nesting of
  frames: \<open>frames = 1026\<close>, which suffices as a frame starts only at a depth of at most
  \<open>CALL_STACK_LIMIT\<close>. Both are proved sufficient, so \<open>Timeout\<close> never occurs. An inspector may rewind the
  interpreter, so the inspected build takes both kinds of fuel as arguments; \<open>2 ^ 64\<close> steps per frame
  and \<open>frames\<close> suffice for an inspector that only watches. The eviction of past states runs forever when
  the limit is zero, which is \<open>Timeout\<close> (\<open>states_insert_diverges\<close>). Machine integers are words of
  their width and wrap as in a release build. Buffer lengths are below \<open>2 ^ 63\<close> as Rust's allocator
  guarantees; the memory limit of the configuration leaves 128 bytes below that.

  \<^bold>\<open>Parameters.\<close> Hashes, digests, key recovery, curve arithmetic, big numbers, RLP and the file that the
  administration contract writes are records of functions (\<open>Libs\<close>, \<open>Crypto\<close>, \<open>bn_ops\<close>, \<open>BigUint\<close>, \<open>Deps\<close>);
  the laws that a property needs of them are its hypotheses. Hash maps are maps, or association
  lists where the code iterates over them.

  \<^bold>\<open>Not modelled.\<close> The text that tracers print and the JSON they write; the remote database (\<open>ethersdb.rs\<close>);
  serialisation and display; the command line and test runner (\<open>bins\<close>); of the node, the remote procedure
  calls, forking, calls and estimates that do not mine, listeners, the entries of the fee history (floating-point), trie roots and bloom filters (parameters);
  the rest of the tool chain \<open>foundry\<close>; the other challenges of the repository.
\<close>

end
